(* ===== verification/Prelude.thy ===== *)
theory Prelude
  imports Main "HOL-Library.Code_Target_Numeral"
begin

section \<open>Prelude: text, positions, errors and the execution monad\<close>

text \<open>
  What every component of the model shares.
  \<^item> A Python string is a sequence of Unicode code points, so text is a list of naturals
    (\<open>ustr\<close>), with \<open>U\<close> reading a HOL string literal as such a list.
  \<^item> Source positions and \<open>SeparanError\<close> (\<open>token.py\<close>, \<open>errors.py\<close>) are records. The code
    \<open>E201\<close> is the number \<open>201\<close>; the prose of a description is not modelled, except for the
    message that \<open>throw\<close> puts there.
  \<^item> Code that mutates state and may raise is a function from a state to an outcome and the
    state left behind (\<open>('s, 'x, 'a) sem\<close>): \<open>Done\<close>, \<open>Raised\<close>, or \<open>NoFuel\<close> where a bounded
    recursion ran out. The state survives a raised exception, as it does in Python.
  \<^item> \<open>post\<close> is the weakest precondition of such a computation and \<open>refines\<close> the order
    "the same result wherever the left side has one".
\<close>

subsection \<open>Text\<close>

type_synonym uchar = nat
type_synonym ustr = "uchar list"

fun U :: "string \<Rightarrow> ustr" where
  "U [] = []"
| "U (c # cs) = of_char c # U cs"

declare U.simps [simp del]

lemma U_inject [simp]: "U a = U b \<longleftrightarrow> a = b"
proof (induction a arbitrary: b)
  case Nil
  then show ?case by (cases b) (simp_all add: U.simps)
next
  case (Cons c a)
  then show ?case by (cases b) (simp_all add: U.simps)
qed

lemma U_eq_Nil [simp]: "U a = [] \<longleftrightarrow> a = []" "[] = U a \<longleftrightarrow> a = []"
  by (cases a; simp add: U.simps)+

lemma length_U [simp]: "length (U a) = length a"
  by (induction a) (simp_all add: U.simps)

definition is_ascii :: "uchar \<Rightarrow> bool" where
  "is_ascii c \<longleftrightarrow> c < 128"

definition is_digit :: "uchar \<Rightarrow> bool" where
  "is_digit c \<longleftrightarrow> 48 \<le> c \<and> c \<le> 57"

definition ascii_lower :: "uchar \<Rightarrow> uchar" where
  "ascii_lower c = (if 65 \<le> c \<and> c \<le> 90 then c + 32 else c)"

text \<open>\<open>str.startswith\<close> and \<open>str.endswith\<close>.\<close>

fun starts_with :: "'a list \<Rightarrow> 'a list \<Rightarrow> bool" where
  "starts_with s [] = True"
| "starts_with [] (_ # _) = False"
| "starts_with (x # xs) (y # ys) = (x = y \<and> starts_with xs ys)"

definition ends_with :: "'a list \<Rightarrow> 'a list \<Rightarrow> bool" where
  "ends_with s t = starts_with (rev s) (rev t)"

lemma starts_with_iff: "starts_with s t \<longleftrightarrow> (\<exists>r. s = t @ r)"
  by (induction s t rule: starts_with.induct) auto

lemma ends_with_iff: "ends_with s t \<longleftrightarrow> (\<exists>r. s = r @ t)"
  by (metis ends_with_def rev_append rev_rev_ident starts_with_iff)

text \<open>\<open>str(n)\<close> of a natural and of an integer.\<close>

fun show_nat :: "nat \<Rightarrow> ustr" where
  "show_nat n = (if n < 10 then [48 + n] else show_nat (n div 10) @ [48 + n mod 10])"

declare show_nat.simps [simp del]

definition show_int :: "int \<Rightarrow> ustr" where
  "show_int i = (if i < 0 then 45 # show_nat (nat (- i)) else show_nat (nat i))"

text \<open>\<open>sep.join(parts)\<close>.\<close>

fun join_with :: "ustr \<Rightarrow> ustr list \<Rightarrow> ustr" where
  "join_with sep [] = []"
| "join_with sep [x] = x"
| "join_with sep (x # y # ys) = x @ sep @ join_with sep (y # ys)"

text \<open>\<open>s.split(c)\<close> for a one-character separator.\<close>

fun split_on :: "uchar \<Rightarrow> ustr \<Rightarrow> ustr list" where
  "split_on c [] = [[]]"
| "split_on c (x # xs) =
     (if x = c then [] # split_on c xs
      else (case split_on c xs of [] \<Rightarrow> [[x]] | y # ys \<Rightarrow> (x # y) # ys))"

lemma split_on_nonempty [simp]: "split_on c xs \<noteq> []"
  by (induction xs) (auto split: list.splits)

lemma join_split_on: "join_with [c] (split_on c xs) = xs"
proof (induction xs)
  case Nil
  then show ?case by simp
next
  case (Cons x xs)
  obtain y ys where s: "split_on c xs = y # ys"
    by (cases "split_on c xs") auto
  with Cons.IH show ?case by (cases ys) auto
qed

subsection \<open>Positions and errors\<close>

record source_position =
  pos_file :: ustr
  pos_line :: nat
  pos_column :: nat
  pos_source_line :: ustr

definition mk_pos :: "ustr \<Rightarrow> nat \<Rightarrow> nat \<Rightarrow> ustr \<Rightarrow> source_position" where
  "mk_pos f l c t = \<lparr>pos_file = f, pos_line = l, pos_column = c, pos_source_line = t\<rparr>"

record sep_error =
  err_code :: nat
  err_category :: ustr
  err_message :: ustr
  err_position :: source_position
  err_expected :: "ustr option"
  err_actual :: "ustr option"
  err_related :: "source_position option"

text \<open>\<open>errors.error\<close>, without optional details; they are record updates.\<close>

definition mk_error :: "nat \<Rightarrow> string \<Rightarrow> source_position \<Rightarrow> sep_error" where
  "mk_error n cat p = \<lparr>err_code = n, err_category = U cat, err_message = [], err_position = p,
     err_expected = None, err_actual = None, err_related = None\<rparr>"

lemma mk_error_sel [simp]:
  "err_code (mk_error n cat p) = n" "err_category (mk_error n cat p) = U cat"
  "err_position (mk_error n cat p) = p" "err_expected (mk_error n cat p) = None"
  "err_actual (mk_error n cat p) = None" "err_related (mk_error n cat p) = None"
  "err_message (mk_error n cat p) = []"
  by (simp_all add: mk_error_def)

text \<open>The same with \<open>actual=\<close>, and with \<open>expected=\<close> and \<open>actual=\<close>.\<close>

definition mk_error_a :: "nat \<Rightarrow> string \<Rightarrow> source_position \<Rightarrow> ustr \<Rightarrow> sep_error" where
  "mk_error_a n cat p a = (mk_error n cat p)\<lparr>err_actual := Some a\<rparr>"

definition mk_error_ea :: "nat \<Rightarrow> string \<Rightarrow> source_position \<Rightarrow> ustr \<Rightarrow> ustr \<Rightarrow> sep_error" where
  "mk_error_ea n cat p e a = (mk_error n cat p)\<lparr>err_expected := Some e, err_actual := Some a\<rparr>"

subsection \<open>Stateful computations that may raise\<close>

datatype ('x, 'a) outcome = Done 'a | Raised 'x | NoFuel

type_synonym ('s, 'x, 'a) sem = "'s \<Rightarrow> ('x, 'a) outcome \<times> 's"

definition ret :: "'a \<Rightarrow> ('s, 'x, 'a) sem" where
  "ret a s = (Done a, s)"

definition raise :: "'x \<Rightarrow> ('s, 'x, 'a) sem" where
  "raise x s = (Raised x, s)"

definition no_fuel :: "('s, 'x, 'a) sem" where
  "no_fuel s = (NoFuel, s)"

definition andthen :: "('s, 'x, 'a) sem \<Rightarrow> ('a \<Rightarrow> ('s, 'x, 'b) sem) \<Rightarrow> ('s, 'x, 'b) sem" where
  "andthen m f s =
     (case m s of (Done a, t) \<Rightarrow> f a t | (Raised x, t) \<Rightarrow> (Raised x, t) | (NoFuel, t) \<Rightarrow> (NoFuel, t))"

definition reads :: "('s \<Rightarrow> 'a) \<Rightarrow> ('s, 'x, 'a) sem" where
  "reads f s = (Done (f s), s)"

definition modifies :: "('s \<Rightarrow> 's) \<Rightarrow> ('s, 'x, unit) sem" where
  "modifies f s = (Done (), f s)"

text \<open>A pure check that may fail, lifted: \<open>Inl\<close> raises.\<close>

definition lift_sum :: "'x + 'a \<Rightarrow> ('s, 'x, 'a) sem" where
  "lift_sum r = (case r of Inl x \<Rightarrow> raise x | Inr a \<Rightarrow> ret a)"

text \<open>\<open>try: m except x: h x\<close>; running out of fuel is not an exception of the program.\<close>

definition catching :: "('s, 'x, 'a) sem \<Rightarrow> ('x \<Rightarrow> ('s, 'x, 'a) sem) \<Rightarrow> ('s, 'x, 'a) sem" where
  "catching m h s = (case m s of (Raised x, t) \<Rightarrow> h x t | r \<Rightarrow> r)"

text \<open>
  A loop: \<open>Inl\<close> goes round again with a new loop state, \<open>Inr\<close> leaves with a result. The number
  bounds the rounds.
\<close>

primrec loop_n :: "nat \<Rightarrow> ('a \<Rightarrow> ('s, 'x, 'a + 'b) sem) \<Rightarrow> 'a \<Rightarrow> ('s, 'x, 'b) sem" where
  "loop_n 0 f a = no_fuel"
| "loop_n (Suc n) f a =
     andthen (f a) (\<lambda>r. case r of Inl a' \<Rightarrow> loop_n n f a' | Inr b \<Rightarrow> ret b)"

lemma loop_n_code [code]:
  "loop_n n f a s = (if n = 0 then no_fuel s
     else andthen (f a) (\<lambda>r. case r of Inl a' \<Rightarrow> loop_n (n - 1) f a' | Inr b \<Rightarrow> ret b) s)"
  by (cases n) simp_all

text \<open>The results of running a computation on the elements of a list, in order.\<close>

fun map_sem :: "('a \<Rightarrow> ('s, 'x, 'b) sem) \<Rightarrow> 'a list \<Rightarrow> ('s, 'x, 'b list) sem" where
  "map_sem f [] = ret []"
| "map_sem f (a # as) = andthen (f a) (\<lambda>b. andthen (map_sem f as) (\<lambda>bs. ret (b # bs)))"

subsection \<open>Weakest preconditions\<close>

text \<open>
  \<open>post m Q X F s\<close>: run from \<open>s\<close>, a value satisfies \<open>Q\<close>, an exception satisfies \<open>X\<close>, and
  running out of fuel is allowed only if \<open>F\<close>.
\<close>

definition post ::
  "('s, 'x, 'a) sem \<Rightarrow> ('a \<Rightarrow> 's \<Rightarrow> bool) \<Rightarrow> ('x \<Rightarrow> 's \<Rightarrow> bool) \<Rightarrow> bool \<Rightarrow> 's \<Rightarrow> bool" where
  "post m Q X F s = (case m s of (Done a, t) \<Rightarrow> Q a t | (Raised x, t) \<Rightarrow> X x t | (NoFuel, t) \<Rightarrow> F)"

lemma post_ret [simp]: "post (ret a) Q X F s = Q a s"
  by (simp add: post_def ret_def)

lemma post_raise [simp]: "post (raise x) Q X F s = X x s"
  by (simp add: post_def raise_def)

lemma post_no_fuel [simp]: "post no_fuel Q X F s = F"
  by (simp add: post_def no_fuel_def)

lemma post_reads [simp]: "post (reads f) Q X F s = Q (f s) s"
  by (simp add: post_def reads_def)

lemma post_modifies [simp]: "post (modifies f) Q X F s = Q () (f s)"
  by (simp add: post_def modifies_def)

lemma post_andthen [simp]: "post (andthen m f) Q X F s = post m (\<lambda>a. post (f a) Q X F) X F s"
  by (simp add: post_def andthen_def split: prod.split outcome.split)

lemma post_catching [simp]: "post (catching m h) Q X F s = post m Q (\<lambda>x. post (h x) Q X F) F s"
  by (simp add: post_def catching_def split: prod.split outcome.split)

lemma post_lift_sum [simp]:
  "post (lift_sum r) Q X F s = (case r of Inl x \<Rightarrow> X x s | Inr a \<Rightarrow> Q a s)"
  by (simp add: lift_sum_def split: sum.split)

lemma post_if [simp]: "post (if b then m else k) Q X F s = (if b then post m Q X F s else post k Q X F s)"
  by simp

lemma post_mono:
  assumes "post m Q X F s"
    and "\<And>a t. Q a t \<Longrightarrow> Q' a t" and "\<And>x t. X x t \<Longrightarrow> X' x t" and "F \<Longrightarrow> F'"
  shows "post m Q' X' F' s"
  using assms by (auto simp: post_def split: prod.splits outcome.splits)

lemma post_conj:
  "post m (\<lambda>a t. Q a t \<and> Q' a t) (\<lambda>x t. X x t \<and> X' x t) (F \<and> F') s
     \<longleftrightarrow> post m Q X F s \<and> post m Q' X' F' s"
  by (auto simp: post_def split: prod.splits outcome.splits)

text \<open>The rule of a loop whose rounds decrease a measure below the bound.\<close>

lemma post_loop_n:
  assumes "I a s" and "m s < n"
    and "\<And>a s. I a s \<Longrightarrow>
      post (f a) (\<lambda>r t. case r of Inl a' \<Rightarrow> I a' t \<and> m t < m s | Inr b \<Rightarrow> Q b t) X F s"
  shows "post (loop_n n f a) Q X F s"
  using assms(1,2)
proof (induction n arbitrary: a s)
  case 0
  then show ?case by simp
next
  case (Suc n)
  show ?case
    unfolding loop_n.simps post_andthen
  proof (rule post_mono [OF assms(3) [OF Suc.prems(1)]])
    fix r t
    assume "case r of Inl a' \<Rightarrow> I a' t \<and> m t < m s | Inr b \<Rightarrow> Q b t"
    with Suc.IH Suc.prems(2) show "post (case r of Inl a' \<Rightarrow> loop_n n f a' | Inr b \<Rightarrow> ret b) Q X F t"
      by (cases r) simp_all
  qed
qed

lemma post_Done: "m s = (Done a, t) \<Longrightarrow> post m Q X F s \<Longrightarrow> Q a t"
  by (simp add: post_def)

lemma post_Raised: "m s = (Raised x, t) \<Longrightarrow> post m Q X F s \<Longrightarrow> X x t"
  by (simp add: post_def)

lemma post_total: "post m Q X False s \<Longrightarrow> fst (m s) \<noteq> NoFuel"
  by (auto simp: post_def split: prod.splits outcome.splits)

subsection \<open>The approximation order\<close>

definition refines :: "('s, 'x, 'a) sem \<Rightarrow> ('s, 'x, 'a) sem \<Rightarrow> bool" where
  "refines m k \<longleftrightarrow> (\<forall>s. fst (m s) = NoFuel \<or> m s = k s)"

lemma refines_refl [simp, intro]: "refines m m"
  by (simp add: refines_def)

lemma refines_no_fuel [simp, intro]: "refines no_fuel m"
  by (simp add: refines_def no_fuel_def)

lemma refines_trans: "refines m k \<Longrightarrow> refines k l \<Longrightarrow> refines m l"
  unfolding refines_def by metis

lemma refinesD: "refines m k \<Longrightarrow> fst (m s) \<noteq> NoFuel \<Longrightarrow> k s = m s"
  unfolding refines_def by metis

named_theorems refine_intros \<open>rules that push the approximation order through a program\<close>

lemma refines_andthen [refine_intros]:
  assumes "refines m m'" and "\<And>a. refines (f a) (f' a)"
  shows "refines (andthen m f) (andthen m' f')"
  unfolding refines_def
proof
  fix s
  from assms(1) have "fst (m s) = NoFuel \<or> m s = m' s" by (simp add: refines_def)
  moreover have "fst (f a t) = NoFuel \<or> f a t = f' a t" for a t
    using assms(2) by (simp add: refines_def)
  ultimately show "fst (andthen m f s) = NoFuel \<or> andthen m f s = andthen m' f' s"
    by (fastforce simp: andthen_def split: prod.splits outcome.splits)
qed

lemma refines_catching [refine_intros]:
  assumes "refines m m'" and "\<And>x. refines (h x) (h' x)"
  shows "refines (catching m h) (catching m' h')"
  unfolding refines_def
proof
  fix s
  from assms(1) have "fst (m s) = NoFuel \<or> m s = m' s" by (simp add: refines_def)
  moreover have "fst (h x t) = NoFuel \<or> h x t = h' x t" for x t
    using assms(2) by (simp add: refines_def)
  ultimately show "fst (catching m h s) = NoFuel \<or> catching m h s = catching m' h' s"
    by (fastforce simp: catching_def split: prod.splits outcome.splits)
qed

lemma refines_if [refine_intros]:
  "refines m m' \<Longrightarrow> refines k k' \<Longrightarrow> refines (if b then m else k) (if b then m' else k')"
  by simp

lemma refines_option [refine_intros]:
  "refines m m' \<Longrightarrow> (\<And>a. refines (f a) (f' a)) \<Longrightarrow>
   refines (case x of None \<Rightarrow> m | Some a \<Rightarrow> f a) (case x of None \<Rightarrow> m' | Some a \<Rightarrow> f' a)"
  by (simp split: option.split)

lemma refines_prod [refine_intros]:
  "(\<And>a b. refines (f a b) (f' a b)) \<Longrightarrow>
   refines (case x of (a, b) \<Rightarrow> f a b) (case x of (a, b) \<Rightarrow> f' a b)"
  by (simp split: prod.split)

lemma refines_list [refine_intros]:
  "refines m m' \<Longrightarrow> (\<And>a as. refines (f a as) (f' a as)) \<Longrightarrow>
   refines (case x of [] \<Rightarrow> m | a # as \<Rightarrow> f a as) (case x of [] \<Rightarrow> m' | a # as \<Rightarrow> f' a as)"
  by (simp split: list.split)

lemma refines_Let [refine_intros]:
  "(\<And>a. refines (f a) (f' a)) \<Longrightarrow> refines (Let x f) (Let x f')"
  by simp

lemma refines_sum [refine_intros]:
  "(\<And>a. refines (f a) (f' a)) \<Longrightarrow> (\<And>b. refines (g b) (g' b)) \<Longrightarrow>
   refines (case x of Inl a \<Rightarrow> f a | Inr b \<Rightarrow> g b) (case x of Inl a \<Rightarrow> f' a | Inr b \<Rightarrow> g' b)"
  by (simp split: sum.split)

lemma refines_loop_n [refine_intros]:
  assumes "\<And>a. refines (f a) (f' a)"
  shows "refines (loop_n n f a) (loop_n n f' a)"
proof (induction n arbitrary: a)
  case (Suc n)
  then show ?case by (auto intro!: refine_intros assms split: sum.split)
qed simp

lemma refines_map_sem [refine_intros]:
  "(\<And>a. refines (f a) (f' a)) \<Longrightarrow> refines (map_sem f as) (map_sem f' as)"
  by (induction as) (auto intro!: refine_intros)

end
