(* ===== verification/Binary64.thy ===== *)
theory Binary64
  imports Complex_Main Prelude
begin

section \<open>Binary64: the language's floating-point numbers\<close>

text \<open>
  A Separan number that is not an integer is a Python \<open>float\<close>, an IEEE 754 binary64 value.
  A finite value is \<open>(-1)^s * m * 2^e\<close> with \<open>m < 2^53\<close> and \<open>-1074 <= e <= 971\<close>, kept in the
  form with the smallest exponent that holds it (\<open>canonical\<close>). All of the arithmetic the
  interpreter uses is exact arithmetic followed by one rounding, \<open>round_ratio\<close>, to nearest
  with ties to even. Overflow of \<open>+ - *\<close> gives an infinity; Python raises
  \<open>OverflowError\<close> where an integer has no finite float (\<open>of_int64\<close>) or where the quotient
  of two integers has none (\<open>int_div64\<close>). \<open>pow\<close> is libm's and stays a parameter of its
  users.
\<close>

datatype b64 = Fin (b64_neg: bool) nat int | Infty bool | NaN

fun bit_length :: "nat \<Rightarrow> nat" where
  "bit_length n = (if n = 0 then 0 else Suc (bit_length (n div 2)))"

declare bit_length.simps [simp del]

lemma bit_length_0 [simp]: "bit_length 0 = 0"
  by (simp add: bit_length.simps)

lemma bit_length_step: "0 < n \<Longrightarrow> bit_length n = Suc (bit_length (n div 2))"
  by (simp add: bit_length.simps [of n])

lemma bit_length_upper: "n < 2 ^ bit_length n"
proof (induction n rule: bit_length.induct)
  case (1 n)
  show ?case
  proof (cases "n = 0")
    case False
    with 1 have "n div 2 < 2 ^ bit_length (n div 2)" by simp
    then have "n < 2 * 2 ^ bit_length (n div 2)" by simp
    with False show ?thesis by (simp add: bit_length_step)
  qed simp
qed

lemma bit_length_lower: "0 < n \<Longrightarrow> 2 ^ bit_length n \<le> 2 * n"
proof (induction n rule: bit_length.induct)
  case (1 n)
  show ?case
  proof (cases "n div 2 = 0")
    case True
    with \<open>0 < n\<close> have "n = 1" by simp
    then show ?thesis by (simp add: bit_length_step)
  next
    case False
    with 1 have "2 ^ bit_length (n div 2) \<le> 2 * (n div 2)" by simp
    with \<open>0 < n\<close> show ?thesis by (simp add: bit_length_step)
  qed
qed

subsection \<open>Rounding\<close>

definition half_even :: "nat \<Rightarrow> nat \<Rightarrow> nat" where
  "half_even n d =
     (let q = n div d; r = n mod d
      in if 2 * r < d \<or> 2 * r = d \<and> even q then q else q + 1)"

definition floor_log2 :: "nat \<Rightarrow> nat \<Rightarrow> int" where
  \<comment> \<open>the exponent \<open>k\<close> with \<open>2^k <= n/d < 2^(k+1)\<close>\<close>
  "floor_log2 n d =
     (let k = int (bit_length n) - int (bit_length d)
      in if d * 2 ^ nat k \<le> n * 2 ^ nat (- k) then k else k - 1)"

definition pack64 :: "bool \<Rightarrow> nat \<Rightarrow> int \<Rightarrow> b64" where
  "pack64 s q e =
     (if q = 0 then Fin s 0 (-1074)
      else let (m, e') = (if q = 2 ^ 53 then (2 ^ 52, e + 1) else (q, e))
           in if 971 < e' then Infty s else Fin s m e')"

definition round_ratio :: "bool \<Rightarrow> nat \<Rightarrow> nat \<Rightarrow> b64" where
  "round_ratio s n d =
     (if n = 0 then Fin s 0 (-1074)
      else let e = max (floor_log2 n d - 52) (-1074)
           in pack64 s (half_even (n * 2 ^ nat (- e)) (d * 2 ^ nat e)) e)"

definition canonical :: "b64 \<Rightarrow> bool" where
  "canonical x = (case x of Fin s m e \<Rightarrow> m < 2 ^ 53 \<and> -1074 \<le> e \<and> e \<le> 971 \<and> (2 ^ 52 \<le> m \<or> e = -1074)
                  | _ \<Rightarrow> True)"

subsection \<open>Exact values\<close>

text \<open>A finite value as a fraction \<open>num64 / den64\<close>.\<close>

definition num64 :: "bool \<Rightarrow> nat \<Rightarrow> int \<Rightarrow> int" where
  "num64 s m e = (if s then - 1 else 1) * int (m * 2 ^ nat e)"

definition den64 :: "int \<Rightarrow> nat" where
  "den64 e = 2 ^ nat (- e)"

definition round_int_ratio :: "bool \<Rightarrow> int \<Rightarrow> nat \<Rightarrow> b64" where
  \<comment> \<open>the sign of an exact zero is given\<close>
  "round_int_ratio z n d = (if n = 0 then Fin z 0 (-1074) else round_ratio (n < 0) (nat \<bar>n\<bar>) d)"

definition of_int64 :: "int \<Rightarrow> b64 option" where
  "of_int64 i = (case round_int_ratio False i 1 of Fin s m e \<Rightarrow> Some (Fin s m e) | _ \<Rightarrow> None)"

definition int_div64 :: "int \<Rightarrow> int \<Rightarrow> b64 option" where
  \<comment> \<open>\<open>i / j\<close> of two integers, \<open>j\<close> not zero\<close>
  "int_div64 i j =
     (case round_int_ratio False (if j < 0 then - i else i) (nat \<bar>j\<bar>) of
        Fin s m e \<Rightarrow> Some (Fin s m e) | _ \<Rightarrow> None)"

subsection \<open>Arithmetic\<close>

fun neg64 :: "b64 \<Rightarrow> b64" where
  "neg64 (Fin s m e) = Fin (\<not> s) m e"
| "neg64 (Infty s) = Infty (\<not> s)"
| "neg64 NaN = NaN"

fun add64 :: "b64 \<Rightarrow> b64 \<Rightarrow> b64" where
  "add64 (Fin s m e) (Fin t n f) =
     (let d = den64 e * den64 f
      in round_int_ratio (s \<and> t) (num64 s m e * int (den64 f) + num64 t n f * int (den64 e)) d)"
| "add64 NaN _ = NaN"
| "add64 _ NaN = NaN"
| "add64 (Infty s) (Infty t) = (if s = t then Infty s else NaN)"
| "add64 (Infty s) _ = Infty s"
| "add64 _ (Infty t) = Infty t"

definition sub64 :: "b64 \<Rightarrow> b64 \<Rightarrow> b64" where
  "sub64 x y = add64 x (neg64 y)"

fun is_zero64 :: "b64 \<Rightarrow> bool" where
  "is_zero64 (Fin s m e) = (m = 0)"
| "is_zero64 _ = False"

fun sign64 :: "b64 \<Rightarrow> bool" where
  "sign64 (Fin s m e) = s"
| "sign64 (Infty s) = s"
| "sign64 NaN = False"

fun mul64 :: "b64 \<Rightarrow> b64 \<Rightarrow> b64" where
  "mul64 (Fin s m e) (Fin t n f) =
     round_int_ratio (s \<noteq> t) (num64 s m e * num64 t n f) (den64 e * den64 f)"
| "mul64 NaN _ = NaN"
| "mul64 _ NaN = NaN"
| "mul64 x y = (if is_zero64 x \<or> is_zero64 y then NaN else Infty (sign64 x \<noteq> sign64 y))"

text \<open>\<open>x / y\<close> with \<open>y\<close> not zero (the callers test it first).\<close>

fun div64 :: "b64 \<Rightarrow> b64 \<Rightarrow> b64" where
  "div64 (Fin s m e) (Fin t n f) =
     round_int_ratio (s \<noteq> t)
       ((if t then - 1 else 1) * num64 s m e * int (den64 f)) (den64 e * nat \<bar>num64 t n f\<bar>)"
| "div64 NaN _ = NaN"
| "div64 _ NaN = NaN"
| "div64 (Infty s) (Infty t) = NaN"
| "div64 (Infty s) y = Infty (s \<noteq> sign64 y)"
| "div64 x (Infty t) = Fin (sign64 x \<noteq> t) 0 (-1074)"

text \<open>\<open>math.fmod\<close> followed by Python's sign correction: \<open>x % y\<close>, \<open>y\<close> not zero.\<close>

fun mod64 :: "b64 \<Rightarrow> b64 \<Rightarrow> b64" where
  "mod64 (Fin s m e) (Fin t n f) =
     (let d = den64 e * den64 f;
          a = nat \<bar>num64 s m e\<bar> * den64 f; b = nat \<bar>num64 t n f\<bar> * den64 e;
          r = a mod b
      in if r = 0 then Fin t 0 (-1074)
         else let fm = round_ratio s r d
              in if s \<noteq> t then add64 fm (Fin t n f) else fm)"
| "mod64 NaN _ = NaN"
| "mod64 _ NaN = NaN"
| "mod64 (Infty s) _ = NaN"
| "mod64 (Fin s m e) (Infty t) =
     (if m = 0 then Fin t 0 (-1074) else if s \<noteq> t then Infty t else Fin s m e)"

subsection \<open>Comparison\<close>

fun less64 :: "b64 \<Rightarrow> b64 \<Rightarrow> bool" where
  "less64 (Fin s m e) (Fin t n f) = (num64 s m e * int (den64 f) < num64 t n f * int (den64 e))"
| "less64 (Infty s) (Fin _ _ _) = s"
| "less64 (Fin _ _ _) (Infty t) = (\<not> t)"
| "less64 (Infty s) (Infty t) = (s \<and> \<not> t)"
| "less64 _ _ = False"

fun eq64 :: "b64 \<Rightarrow> b64 \<Rightarrow> bool" where
  "eq64 (Fin s m e) (Fin t n f) = (num64 s m e * int (den64 f) = num64 t n f * int (den64 e))"
| "eq64 (Infty s) (Infty t) = (s = t)"
| "eq64 _ _ = False"

text \<open>An integer against a float is compared exactly, not through a conversion.\<close>

fun cmp_int64 :: "int \<Rightarrow> b64 \<Rightarrow> int option" where
  "cmp_int64 i (Fin s m e) = Some (sgn (i * int (den64 e) - num64 s m e))"
| "cmp_int64 i (Infty s) = Some (if s then 1 else - 1)"
| "cmp_int64 i NaN = None"

fun is_finite64 :: "b64 \<Rightarrow> bool" where
  "is_finite64 (Fin _ _ _) = True"
| "is_finite64 _ = False"

text \<open>\<open>float(text)\<close> of a decimal with \<open>k\<close> fractional digits, given as the integer of its digits.\<close>

definition of_decimal64 :: "nat \<Rightarrow> nat \<Rightarrow> b64" where
  "of_decimal64 n k = round_ratio False n (10 ^ k)"

subsection \<open>Rounding yields canonical values and is exact on them\<close>

lemma powi_less_iff: "(2::real) powi a < 2 powi b \<longleftrightarrow> a < b"
  by (metis linorder_neqE_linordered_idom not_less_iff_gr_or_eq one_less_numeral_iff
    power_int_strict_increasing semiring_norm(76))

lemma scaled_le_iff:
  "d * 2 ^ nat k \<le> n * 2 ^ nat (- k) \<longleftrightarrow> (2::real) powi k * real d \<le> real n"
proof (cases "0 \<le> k")
  case True
  then have "d * 2 ^ nat k \<le> n * 2 ^ nat (- k) \<longleftrightarrow> real (d * 2 ^ nat k) \<le> real n"
    by (simp only: of_nat_le_iff) simp
  with True show ?thesis by (simp only: power_int_def) (simp add: mult.commute)
next
  case False
  then have "d * 2 ^ nat k \<le> n * 2 ^ nat (- k) \<longleftrightarrow> real d \<le> real (n * 2 ^ nat (- k))"
    by (simp only: of_nat_le_iff) simp
  with False show ?thesis by (simp add: power_int_def field_simps power_one_over)
qed

lemma scaled_less_iff:
  "n * 2 ^ nat (- k) < d * 2 ^ nat k \<longleftrightarrow> real n < (2::real) powi k * real d"
  using scaled_le_iff [of d k n] by linarith

lemma bit_length_ratio:
  assumes "0 < n" and "0 < d"
  defines "k \<equiv> int (bit_length n) - int (bit_length d)"
  shows "(2::real) powi (k - 1) * real d \<le> real n" and "real n < (2::real) powi (k + 1) * real d"
proof -
  let ?N = "(2::real) ^ bit_length n" and ?D = "(2::real) ^ bit_length d"
  have n: "real n < ?N" "?N \<le> 2 * real n" and d: "real d < ?D" "?D \<le> 2 * real d"
    using bit_length_upper bit_length_lower [OF assms(1)] bit_length_lower [OF assms(2)]
    by (metis of_nat_less_iff of_nat_le_iff of_nat_numeral of_nat_power of_nat_mult)+
  have k: "(2::real) powi k = ?N / ?D"
    by (simp add: k_def power_int_diff)
  then have k1: "(2::real) powi (k - 1) = ?N / ?D / 2" "(2::real) powi (k + 1) = 2 * (?N / ?D)"
    by (simp_all add: power_int_diff power_int_add)
  have "?N / ?D / 2 * real d \<le> ?N / ?D / 2 * ?D"
    using d by (intro mult_left_mono) simp_all
  also have "\<dots> = ?N / 2" by simp
  finally show "(2::real) powi (k - 1) * real d \<le> real n"
    using n k1 by simp
  have "?N = ?N / ?D * ?D" by simp
  also have "\<dots> \<le> ?N / ?D * (2 * real d)"
    using d by (intro mult_left_mono) simp_all
  finally have "?N \<le> 2 * (?N / ?D) * real d" by (simp add: ac_simps)
  with n show "real n < (2::real) powi (k + 1) * real d"
    unfolding k1 by linarith
qed

lemma floor_log2_bounds:
  assumes "0 < n" and "0 < d"
  shows "(2::real) powi (floor_log2 n d) * real d \<le> real n"
    and "real n < (2::real) powi (floor_log2 n d + 1) * real d"
proof -
  define k where "k = int (bit_length n) - int (bit_length d)"
  note b = bit_length_ratio [OF assms, folded k_def]
  have f: "floor_log2 n d = (if (2::real) powi k * real d \<le> real n then k else k - 1)"
    unfolding floor_log2_def Let_def k_def [symmetric] scaled_le_iff ..
  show "(2::real) powi (floor_log2 n d) * real d \<le> real n"
    and "real n < (2::real) powi (floor_log2 n d + 1) * real d"
    using b by (auto simp: f)
qed

lemma half_even_bounds:
  assumes "0 < d"
  shows "2 * (half_even n d * d) \<le> 2 * n + d" and "2 * n \<le> 2 * (half_even n d * d) + d"
proof -
  define q where "q = n div d"
  define r where "r = n mod d"
  have n: "n = q * d + r" and r: "r < d"
    using assms by (simp_all add: q_def r_def)
  have h: "half_even n d = (if 2 * r < d \<or> 2 * r = d \<and> even q then q else q + 1)"
    by (simp add: half_even_def q_def r_def Let_def)
  show "2 * (half_even n d * d) \<le> 2 * n + d" and "2 * n \<le> 2 * (half_even n d * d) + d"
    unfolding h using n r by (auto simp: algebra_simps)
qed

lemma half_even_exact [simp]: "0 < d \<Longrightarrow> half_even (m * d) d = m"
  by (simp add: half_even_def)

lemma half_even_less:
  assumes "0 < d" and "n < b * d"
  shows "half_even n d \<le> b"
proof -
  have "n div d < b" using assms by (simp add: less_mult_imp_div_less)
  then show ?thesis by (simp add: half_even_def Let_def)
qed

lemma half_even_ge:
  assumes "0 < d" and "b * d \<le> n"
  shows "b \<le> half_even n d"
proof -
  have "b \<le> n div d" using assms by (simp add: less_eq_div_iff_mult_less_eq)
  then show ?thesis by (simp add: half_even_def Let_def)
qed

text \<open>The scaled quotient that \<open>round_ratio\<close> rounds fits in 53 bits.\<close>

lemma round_ratio_mantissa:
  assumes "0 < n" and "0 < d"
  defines "e \<equiv> max (floor_log2 n d - 52) (-1074)"
  shows "half_even (n * 2 ^ nat (- e)) (d * 2 ^ nat e) \<le> 2 ^ 53"
    and "e \<noteq> -1074 \<Longrightarrow> 2 ^ 52 \<le> half_even (n * 2 ^ nat (- e)) (d * 2 ^ nat e)"
proof -
  note b = floor_log2_bounds [OF assms(1,2)]
  have "floor_log2 n d + 1 \<le> e + 53" by (simp add: e_def)
  then have "(2::real) powi (floor_log2 n d + 1) \<le> 2 powi (e + 53)"
    by (intro power_int_increasing) simp_all
  with b(2) assms(2) have "real n < 2 powi (e + 53) * real d"
    by (smt (verit) mult_right_mono of_nat_0_le_iff)
  then have "real n < 2 powi e * real (2 ^ 53 * d)"
    by (simp add: power_int_add)
  then have "n * 2 ^ nat (- e) < (2 ^ 53 * d) * 2 ^ nat e"
    using scaled_less_iff [of n e "2 ^ 53 * d"] by simp
  then show "half_even (n * 2 ^ nat (- e)) (d * 2 ^ nat e) \<le> 2 ^ 53"
    using assms(2) by (intro half_even_less) (simp_all add: mult.assoc)
  assume "e \<noteq> -1074"
  then have "floor_log2 n d = e + 52" by (simp add: e_def max_def split: if_splits)
  with b(1) have "2 powi e * real (2 ^ 52 * d) \<le> real n"
    by (simp add: power_int_add)
  then have "(2 ^ 52 * d) * 2 ^ nat e \<le> n * 2 ^ nat (- e)"
    using scaled_le_iff [of "2 ^ 52 * d" e n] by simp
  then show "2 ^ 52 \<le> half_even (n * 2 ^ nat (- e)) (d * 2 ^ nat e)"
    using assms(2) by (intro half_even_ge) (simp_all add: mult.assoc)
qed

lemma canonical_round_ratio:
  assumes "0 < d"
  shows "canonical (round_ratio s n d)"
proof (cases "n = 0")
  case True
  then show ?thesis by (simp add: round_ratio_def canonical_def)
next
  case False
  define e where "e = max (floor_log2 n d - 52) (-1074)"
  define q where "q = half_even (n * 2 ^ nat (- e)) (d * 2 ^ nat e)"
  have q: "q \<le> 2 ^ 53" "e \<noteq> -1074 \<Longrightarrow> 2 ^ 52 \<le> q" "-1074 \<le> e"
    using round_ratio_mantissa [of n d] False assms by (simp_all add: e_def q_def)
  have "round_ratio s n d = pack64 s q e"
    using False by (simp add: round_ratio_def e_def q_def Let_def)
  with q show ?thesis
    by (auto simp: pack64_def canonical_def)
qed

text \<open>A canonical value is its own rounding: conversion back and forth loses nothing.\<close>

lemma floor_log2_unique:
  assumes "0 < n" and "0 < d"
    and "(2::real) powi k * real d \<le> real n" and "real n < (2::real) powi (k + 1) * real d"
  shows "floor_log2 n d = k"
proof -
  note b = floor_log2_bounds [OF assms(1,2)]
  have d: "0 < real d" using assms(2) by simp
  have "(2::real) powi (floor_log2 n d) < 2 powi (k + 1)" "(2::real) powi k < 2 powi (floor_log2 n d + 1)"
    using b assms(3,4) d by (smt (verit) mult_right_less_imp_less mult_less_cancel_right)+
  then have "floor_log2 n d < k + 1" "k < floor_log2 n d + 1"
    by (simp_all add: powi_less_iff)
  then show ?thesis by simp
qed

lemma canonical_floor_log2:
  assumes "canonical (Fin s m e)" and "0 < m"
  shows "max (floor_log2 (m * 2 ^ nat e) (2 ^ nat (- e)) - 52) (-1074) = e"
proof -
  let ?n = "m * 2 ^ nat e" and ?d = "2 ^ nat (- e) :: nat"
  have e: "-1074 \<le> e" "m < 2 ^ 53" "2 ^ 52 \<le> m \<or> e = -1074"
    using assms(1) by (auto simp: canonical_def)
  have pos: "0 < ?n" "0 < ?d" using assms(2) by simp_all
  have r: "real ?n = real m * 2 powi e * real ?d"
    by (cases "0 \<le> e") (simp_all add: power_int_def field_simps)
  note b = floor_log2_bounds [OF pos]
  have "(2::real) powi (floor_log2 ?n ?d) \<le> real m * 2 powi e"
    using b(1) unfolding r by simp
  also have "\<dots> < 2 ^ 53 * 2 powi e"
    using e(2) by (intro mult_strict_right_mono) (simp_all add: of_nat_less_numeral_power_cancel_iff)
  also have "\<dots> = 2 powi (e + 53)" by (simp add: power_int_add)
  finally have "floor_log2 ?n ?d < e + 53"
    by (simp add: powi_less_iff)
  moreover have "e + 52 \<le> floor_log2 ?n ?d" if "2 ^ 52 \<le> m"
  proof -
    have "2 powi (e + 52) = 2 ^ 52 * (2::real) powi e" by (simp add: power_int_add)
    also have "\<dots> \<le> real m * 2 powi e"
      using that by (intro mult_right_mono) (simp_all add: numeral_power_le_of_nat_cancel_iff)
    also have "\<dots> < 2 powi (floor_log2 ?n ?d + 1)"
      using b(2) unfolding r by simp
    finally have "e + 52 < floor_log2 ?n ?d + 1"
      by (simp add: powi_less_iff)
    then show ?thesis by simp
  qed
  ultimately show ?thesis using e by auto
qed

lemma round_ratio_exact:
  assumes "canonical (Fin s m e)"
  shows "round_ratio s (m * 2 ^ nat e) (2 ^ nat (- e)) = (if m = 0 then Fin s 0 (-1074) else Fin s m e)"
proof (cases "m = 0")
  case True
  then show ?thesis by (simp add: round_ratio_def)
next
  case False
  have b: "m < 2 ^ 53" "e \<le> 971" using assms by (auto simp: canonical_def)
  have "m * 2 ^ nat e * 2 ^ nat (- e) = m * (2 ^ nat (- e) * 2 ^ nat e)" by simp
  then have "half_even (m * 2 ^ nat e * 2 ^ nat (- e)) (2 ^ nat (- e) * 2 ^ nat e) = m"
    by (metis half_even_exact mult_pos_pos pos2 zero_less_power)
  with False b show ?thesis
    using canonical_floor_log2 [OF assms] by (simp add: round_ratio_def pack64_def)
qed

end
