(* ===== verification/Tokens.thy ===== *)
theory Tokens
  imports Binary64
begin

section \<open>Tokens\<close>

text \<open>
  \<open>token.py\<close>: the token types, and a token with its lexeme, its literal and its position.
  The enumeration \<open>TokenType\<close> is split by role (reserved words, block words, arithmetic and
  assignment operators, the other symbols) and the abbreviations \<open>T_...\<close> give each member its
  source name. The literal of a Python token is \<open>None\<close>, a string, an integer, a float or a
  boolean.
\<close>

datatype reserved_word =
    W_TRUE | W_FALSE | W_EMPTY | W_EMPTYS | W_FRONT | W_BACK | W_IN | W_CONST | W_NOT | W_IS
  | W_PRINT | W_PRINT_ERROR | W_RETURN | W_THROW | W_IMPORT | W_AS

datatype block_word =
    B_SEP | B_END_SEP | B_IF | B_ELSEIF | B_ELSE | B_ENDIF | B_WHILE | B_ENDWHILE | B_FOR
  | B_ENDFOR | B_OBJECT | B_END_OBJECT | B_LIST | B_END_LIST | B_TRY | B_CATCH | B_FINALLY
  | B_ENDTRY | B_ERROR | B_END_ERROR | B_HTTP_ROUTE | B_END_HTTP_ROUTE | B_TRANSACTION
  | B_END_TRANSACTION

datatype arith_symbol =
    A_PLUS | A_MINUS | A_STAR | A_SLASH | A_PERCENT | A_POWER | A_FLOOR_DIV | A_EMPTY_COALESCE
  | A_EQUAL | A_PLUS_EQUAL | A_MINUS_EQUAL | A_STAR_EQUAL | A_SLASH_EQUAL
  | A_FLOOR_DIV_EQUAL | A_PERCENT_EQUAL | A_POWER_EQUAL

datatype other_symbol =
    O_EQUAL_EQUAL | O_BANG | O_BANG_EQUAL | O_GREATER | O_GREATER_EQUAL | O_LESS | O_LESS_EQUAL
  | O_AND | O_OR | O_LPAREN | O_RPAREN | O_LBRACKET | O_RBRACKET | O_COMMA | O_COLON
  | O_DOT

datatype token_type =
    T_IDENTIFIER | T_LABEL | T_TAG | T_NUMBER | T_STRING | T_NEWLINE | T_EOF
  | Word reserved_word | Block block_word | Arith arith_symbol | Symbol other_symbol

abbreviation "T_TRUE \<equiv> Word W_TRUE"
abbreviation "T_FALSE \<equiv> Word W_FALSE"
abbreviation "T_EMPTY \<equiv> Word W_EMPTY"
abbreviation "T_EMPTYS \<equiv> Word W_EMPTYS"
abbreviation "T_FRONT \<equiv> Word W_FRONT"
abbreviation "T_BACK \<equiv> Word W_BACK"
abbreviation "T_IN \<equiv> Word W_IN"
abbreviation "T_CONST \<equiv> Word W_CONST"
abbreviation "T_NOT \<equiv> Word W_NOT"
abbreviation "T_IS \<equiv> Word W_IS"
abbreviation "T_PRINT \<equiv> Word W_PRINT"
abbreviation "T_PRINT_ERROR \<equiv> Word W_PRINT_ERROR"
abbreviation "T_RETURN \<equiv> Word W_RETURN"
abbreviation "T_THROW \<equiv> Word W_THROW"
abbreviation "T_IMPORT \<equiv> Word W_IMPORT"
abbreviation "T_AS \<equiv> Word W_AS"

abbreviation "T_SEP \<equiv> Block B_SEP"
abbreviation "T_END_SEP \<equiv> Block B_END_SEP"
abbreviation "T_IF \<equiv> Block B_IF"
abbreviation "T_ELSEIF \<equiv> Block B_ELSEIF"
abbreviation "T_ELSE \<equiv> Block B_ELSE"
abbreviation "T_ENDIF \<equiv> Block B_ENDIF"
abbreviation "T_WHILE \<equiv> Block B_WHILE"
abbreviation "T_ENDWHILE \<equiv> Block B_ENDWHILE"
abbreviation "T_FOR \<equiv> Block B_FOR"
abbreviation "T_ENDFOR \<equiv> Block B_ENDFOR"
abbreviation "T_OBJECT \<equiv> Block B_OBJECT"
abbreviation "T_END_OBJECT \<equiv> Block B_END_OBJECT"
abbreviation "T_LIST \<equiv> Block B_LIST"
abbreviation "T_END_LIST \<equiv> Block B_END_LIST"
abbreviation "T_TRY \<equiv> Block B_TRY"
abbreviation "T_CATCH \<equiv> Block B_CATCH"
abbreviation "T_FINALLY \<equiv> Block B_FINALLY"
abbreviation "T_ENDTRY \<equiv> Block B_ENDTRY"
abbreviation "T_ERROR \<equiv> Block B_ERROR"
abbreviation "T_END_ERROR \<equiv> Block B_END_ERROR"
abbreviation "T_HTTP_ROUTE \<equiv> Block B_HTTP_ROUTE"
abbreviation "T_END_HTTP_ROUTE \<equiv> Block B_END_HTTP_ROUTE"
abbreviation "T_TRANSACTION \<equiv> Block B_TRANSACTION"
abbreviation "T_END_TRANSACTION \<equiv> Block B_END_TRANSACTION"

abbreviation "T_PLUS \<equiv> Arith A_PLUS"
abbreviation "T_MINUS \<equiv> Arith A_MINUS"
abbreviation "T_STAR \<equiv> Arith A_STAR"
abbreviation "T_SLASH \<equiv> Arith A_SLASH"
abbreviation "T_PERCENT \<equiv> Arith A_PERCENT"
abbreviation "T_POWER \<equiv> Arith A_POWER"
abbreviation "T_FLOOR_DIV \<equiv> Arith A_FLOOR_DIV"
abbreviation "T_EMPTY_COALESCE \<equiv> Arith A_EMPTY_COALESCE"
abbreviation "T_EQUAL \<equiv> Arith A_EQUAL"
abbreviation "T_PLUS_EQUAL \<equiv> Arith A_PLUS_EQUAL"
abbreviation "T_MINUS_EQUAL \<equiv> Arith A_MINUS_EQUAL"
abbreviation "T_STAR_EQUAL \<equiv> Arith A_STAR_EQUAL"
abbreviation "T_SLASH_EQUAL \<equiv> Arith A_SLASH_EQUAL"
abbreviation "T_FLOOR_DIV_EQUAL \<equiv> Arith A_FLOOR_DIV_EQUAL"
abbreviation "T_PERCENT_EQUAL \<equiv> Arith A_PERCENT_EQUAL"
abbreviation "T_POWER_EQUAL \<equiv> Arith A_POWER_EQUAL"

abbreviation "T_EQUAL_EQUAL \<equiv> Symbol O_EQUAL_EQUAL"
abbreviation "T_BANG \<equiv> Symbol O_BANG"
abbreviation "T_BANG_EQUAL \<equiv> Symbol O_BANG_EQUAL"
abbreviation "T_GREATER \<equiv> Symbol O_GREATER"
abbreviation "T_GREATER_EQUAL \<equiv> Symbol O_GREATER_EQUAL"
abbreviation "T_LESS \<equiv> Symbol O_LESS"
abbreviation "T_LESS_EQUAL \<equiv> Symbol O_LESS_EQUAL"
abbreviation "T_AND \<equiv> Symbol O_AND"
abbreviation "T_OR \<equiv> Symbol O_OR"
abbreviation "T_LPAREN \<equiv> Symbol O_LPAREN"
abbreviation "T_RPAREN \<equiv> Symbol O_RPAREN"
abbreviation "T_LBRACKET \<equiv> Symbol O_LBRACKET"
abbreviation "T_RBRACKET \<equiv> Symbol O_RBRACKET"
abbreviation "T_COMMA \<equiv> Symbol O_COMMA"
abbreviation "T_COLON \<equiv> Symbol O_COLON"
abbreviation "T_DOT \<equiv> Symbol O_DOT"

datatype token_literal = NoLit | StrLit ustr | IntLit int | FloatLit b64 | BoolLit bool

record token =
  tok_type :: token_type
  tok_lexeme :: ustr
  tok_literal :: token_literal
  tok_position :: source_position

definition mk_token :: "token_type \<Rightarrow> ustr \<Rightarrow> token_literal \<Rightarrow> source_position \<Rightarrow> token" where
  "mk_token t l v p = \<lparr>tok_type = t, tok_lexeme = l, tok_literal = v, tok_position = p\<rparr>"

lemma mk_token_sel [simp]:
  "tok_type (mk_token t l v p) = t" "tok_lexeme (mk_token t l v p) = l"
  "tok_literal (mk_token t l v p) = v" "tok_position (mk_token t l v p) = p"
  by (simp_all add: mk_token_def)

end
