(* ===== verification/Lexer.thy ===== *)
theory Lexer
  imports Tokens
begin

section \<open>Lexer\<close>

text \<open>
  \<open>lexer.py\<close>. The source is cut into lines (\<open>splitlines\<close>); a line is a \<open>##label\<close> delimiter, a
  line inside a multi-line comment, or code for \<open>scan_line\<close>; each line ends in a NEWLINE token
  and the stream in one EOF. \<open>scan_line\<close> walks the line by index; here it walks the rest of the
  line with the index beside it, so \<open>hd rest\<close> is \<open>text[i]\<close>.

  The Unicode tables are Python's, and the functions take them as a record: which code points
  may start or continue an identifier (\<open>str.isidentifier\<close>), which are alphanumeric
  (\<open>str.isalnum\<close>) or digits (\<open>str.isdigit\<close>), and which strings are NFC-normalized. The locale \<open>unicode_tables\<close> says what
  the Unicode standard guarantees of them on ASCII; \<open>latin_tables\<close> is such a table.
\<close>

subsection \<open>Unicode tables\<close>

record unicode_db =
  id_start :: "uchar \<Rightarrow> bool"
  id_continue :: "uchar \<Rightarrow> bool"
  is_alnum :: "uchar \<Rightarrow> bool"
  is_udigit :: "uchar \<Rightarrow> bool"
  is_nfc :: "ustr \<Rightarrow> bool"

definition ascii_letter :: "uchar \<Rightarrow> bool" where
  "ascii_letter c \<longleftrightarrow> 65 \<le> c \<and> c \<le> 90 \<or> 97 \<le> c \<and> c \<le> 122"

definition latin_letter :: "uchar \<Rightarrow> bool" where
  "latin_letter c \<longleftrightarrow> ascii_letter c \<or> c \<in> {170, 181, 186} \<or>
     192 \<le> c \<and> c \<le> 255 \<and> c \<noteq> 215 \<and> c \<noteq> 247"

definition latin_tables :: unicode_db where
  "latin_tables = \<lparr>id_start = (\<lambda>c. latin_letter c \<or> c = 95),
     id_continue = (\<lambda>c. latin_letter c \<or> c = 95 \<or> is_digit c \<or> c = 183),
     is_alnum = (\<lambda>c. latin_letter c \<or> is_digit c \<or> c \<in> {178, 179, 185, 188, 189, 190}),
     is_udigit = (\<lambda>c. is_digit c \<or> c \<in> {178, 179, 185}),
     is_nfc = (\<lambda>s. True)\<rparr>"

text \<open>\<open>str.isspace\<close> on one character, \<open>lstrip\<close>, \<open>rstrip\<close>, and the line boundaries of
  \<open>splitlines\<close>.\<close>

definition is_space :: "uchar \<Rightarrow> bool" where
  "is_space c \<longleftrightarrow> 9 \<le> c \<and> c \<le> 13 \<or> 28 \<le> c \<and> c \<le> 32 \<or> c = 133 \<or> c = 160 \<or> c = 5760 \<or>
     8192 \<le> c \<and> c \<le> 8202 \<or> c = 8232 \<or> c = 8233 \<or> c = 8239 \<or> c = 8287 \<or> c = 12288"

definition lstrip :: "ustr \<Rightarrow> ustr" where
  "lstrip s = dropWhile is_space s"

definition rstrip :: "ustr \<Rightarrow> ustr" where
  "rstrip s = rev (dropWhile is_space (rev s))"

definition line_break :: "uchar \<Rightarrow> bool" where
  "line_break c \<longleftrightarrow> 10 \<le> c \<and> c \<le> 13 \<or> 28 \<le> c \<and> c \<le> 30 \<or> c = 133 \<or> c = 8232 \<or> c = 8233"

definition after_break :: "uchar \<Rightarrow> ustr \<Rightarrow> ustr" where
  "after_break c s = (if c = 13 \<and> starts_with s [10] then tl s else s)"

lemma length_after_break: "length (after_break c s) \<le> length s"
  by (simp add: after_break_def)

function splitlines :: "ustr \<Rightarrow> ustr list" where
  "splitlines s =
     (if s = [] then []
      else takeWhile (\<lambda>c. \<not> line_break c) s #
        (case dropWhile (\<lambda>c. \<not> line_break c) s of [] \<Rightarrow> [] | c # r \<Rightarrow> splitlines (after_break c r)))"
  by pat_completeness auto
termination
proof (relation "measure length")
  fix s c r
  assume "s \<noteq> []" and d: "dropWhile (\<lambda>c. \<not> line_break c) s = c # r"
  have "length (c # r) \<le> length s"
    by (metis d length_dropWhile_le)
  then show "(after_break c r, s) \<in> measure length"
    using length_after_break [of c r] by simp
qed simp

declare splitlines.simps [simp del]

lemma splitlines_Nil [simp]: "splitlines [] = []"
  by (simp add: splitlines.simps)

subsection \<open>Names and digits\<close>

definition isidentifier :: "unicode_db \<Rightarrow> ustr \<Rightarrow> bool" where
  "isidentifier db v = (case v of [] \<Rightarrow> False | c # cs \<Rightarrow> id_start db c \<and> list_all (id_continue db) cs)"

definition valid_name :: "unicode_db \<Rightarrow> ustr \<Rightarrow> bool" where
  "valid_name db v \<longleftrightarrow> v \<noteq> [] \<and> isidentifier db v \<and> is_nfc db v"

definition valid_tag :: "unicode_db \<Rightarrow> ustr \<Rightarrow> bool" where
  "valid_tag db v \<longleftrightarrow> v \<noteq> [] \<and> list_all (valid_name db) (split_on 58 v)"

definition comment_delimiter :: "unicode_db \<Rightarrow> ustr \<Rightarrow> ustr option" where
  "comment_delimiter db stripped =
     (let candidate = rstrip stripped
      in if candidate = U ''##'' then Some []
         else if starts_with candidate (U ''##'') \<and> valid_name db (drop 2 candidate) then Some (drop 2 candidate)
         else None)"

definition name_start :: "unicode_db \<Rightarrow> uchar \<Rightarrow> bool" where
  "name_start db c \<longleftrightarrow> c = 95 \<or> isidentifier db [c]"

definition name_continue :: "unicode_db \<Rightarrow> uchar \<Rightarrow> bool" where
  "name_continue db c \<longleftrightarrow> isidentifier db [95, c]"

fun has_double_underscore :: "ustr \<Rightarrow> bool" where
  "has_double_underscore (a # b # s) = (a = 95 \<and> b = 95 \<or> has_double_underscore (b # s))"
| "has_double_underscore _ = False"

definition valid_digits :: "(uchar \<Rightarrow> bool) \<Rightarrow> ustr \<Rightarrow> bool" where
  "valid_digits allowed v \<longleftrightarrow>
     v \<noteq> [] \<and> hd v \<noteq> 95 \<and> last v \<noteq> 95 \<and> \<not> has_double_underscore v \<and>
     list_all (\<lambda>c. c = 95 \<or> allowed c) v"

text \<open>The value of a digit in \<open>0-9a-zA-Z\<close>, and of digits in a base, underscores dropped.\<close>

definition digit_value :: "uchar \<Rightarrow> nat" where
  "digit_value c =
     (if is_digit c then c - 48 else if 97 \<le> c \<and> c \<le> 122 then c - 87
      else if 65 \<le> c \<and> c \<le> 90 then c - 55 else 0)"

definition is_hex :: "uchar \<Rightarrow> bool" where
  "is_hex c \<longleftrightarrow> is_digit c \<or> 97 \<le> c \<and> c \<le> 102 \<or> 65 \<le> c \<and> c \<le> 70"

definition digits_value :: "nat \<Rightarrow> ustr \<Rightarrow> nat" where
  "digits_value base ds = foldl (\<lambda>n c. n * base + digit_value c) 0 ds"

definition strip_underscores :: "ustr \<Rightarrow> ustr" where
  "strip_underscores v = filter (\<lambda>c. c \<noteq> 95) v"

subsection \<open>Keywords and operators\<close>

definition KEYWORDS :: "(ustr \<times> token_type) list" where
  "KEYWORDS = [(U ''SEP'', T_SEP), (U ''END_SEP'', T_END_SEP), (U ''if'', T_IF),
     (U ''elseif'', T_ELSEIF), (U ''else'', T_ELSE), (U ''endif'', T_ENDIF),
     (U ''while'', T_WHILE), (U ''endwhile'', T_ENDWHILE), (U ''for'', T_FOR), (U ''in'', T_IN),
     (U ''endfor'', T_ENDFOR), (U ''print'', T_PRINT), (U ''return'', T_RETURN),
     (U ''print_error'', T_PRINT_ERROR), (U ''const'', T_CONST), (U ''not'', T_NOT),
     (U ''is'', T_IS), (U ''object'', T_OBJECT), (U ''end_object'', T_END_OBJECT),
     (U ''list'', T_LIST), (U ''end_list'', T_END_LIST), (U ''import'', T_IMPORT),
     (U ''as'', T_AS), (U ''try'', T_TRY), (U ''catch'', T_CATCH), (U ''finally'', T_FINALLY),
     (U ''endtry'', T_ENDTRY), (U ''throw'', T_THROW), (U ''error'', T_ERROR),
     (U ''end_error'', T_END_ERROR), (U ''http_route'', T_HTTP_ROUTE),
     (U ''end_http_route'', T_END_HTTP_ROUTE), (U ''transaction'', T_TRANSACTION),
     (U ''end_transaction'', T_END_TRANSACTION), (U ''true'', T_TRUE), (U ''false'', T_FALSE),
     (U ''EMPTY'', T_EMPTY), (U ''EMPTYS'', T_EMPTYS), (U ''front'', T_FRONT), (U ''back'', T_BACK)]"

definition keyword_kind :: "ustr \<Rightarrow> token_type" where
  "keyword_kind w =
     (case map_of KEYWORDS w of Some t \<Rightarrow> t
      | None \<Rightarrow> (case map_of KEYWORDS (map ascii_lower w) of Some t \<Rightarrow> t | None \<Rightarrow> T_IDENTIFIER))"

definition triples :: "(ustr \<times> token_type) list" where
  "triples = [(U ''//='', T_FLOOR_DIV_EQUAL), (U ''**='', T_POWER_EQUAL)]"

definition pairs :: "(ustr \<times> token_type) list" where
  "pairs = [(U ''=='', T_EQUAL_EQUAL), (U ''!='', T_BANG_EQUAL), (U ''>='', T_GREATER_EQUAL),
     (U ''<='', T_LESS_EQUAL), (U ''&&'', T_AND), (U ''||'', T_OR), (U ''**'', T_POWER),
     (U ''//'', T_FLOOR_DIV), (U ''??'', T_EMPTY_COALESCE), (U ''+='', T_PLUS_EQUAL),
     (U ''-='', T_MINUS_EQUAL), (U ''*='', T_STAR_EQUAL), (U ''/='', T_SLASH_EQUAL),
     (U ''%='', T_PERCENT_EQUAL)]"

definition single :: "(ustr \<times> token_type) list" where
  "single = [(U ''+'', T_PLUS), (U ''-'', T_MINUS), (U ''*'', T_STAR), (U ''/'', T_SLASH),
     (U ''%'', T_PERCENT), (U ''('', T_LPAREN), (U '')'', T_RPAREN), (U ''['', T_LBRACKET),
     (U '']'', T_RBRACKET), (U '','', T_COMMA), (U '':'', T_COLON), (U ''.'', T_DOT)]"

definition singles :: "(ustr \<times> token_type) list" where
  "singles = [(U ''='', T_EQUAL), (U ''!'', T_BANG), (U ''>'', T_GREATER), (U ''<'', T_LESS)]"

text \<open>The operator at the front of the text: three characters before two before one.\<close>

definition scan_operator :: "ustr \<Rightarrow> (token_type \<times> nat) option" where
  "scan_operator s =
     (case map_of triples (take 3 s) of Some t \<Rightarrow> Some (t, 3) | None \<Rightarrow>
     (case map_of pairs (take 2 s) of Some t \<Rightarrow> Some (t, 2) | None \<Rightarrow>
     (case map_of single (take 1 s) of Some t \<Rightarrow> Some (t, 1) | None \<Rightarrow>
     (case map_of singles (take 1 s) of Some t \<Rightarrow> Some (t, 1) | None \<Rightarrow> None))))"

subsection \<open>Function tags\<close>

text \<open>
  The loop over the path segments of a tag: the rest of the line after the part already read,
  starting at a name start. \<open>Inl\<close> is the text after a \<open>:\<close> no segment follows.
\<close>

function tag_segments :: "unicode_db \<Rightarrow> ustr \<Rightarrow> (ustr + ustr \<times> ustr)" where
  "tag_segments db s =
     (let seg = takeWhile (name_continue db) s
      in case dropWhile (name_continue db) s of
           [] \<Rightarrow> Inr (seg, [])
         | c # r \<Rightarrow>
             if c \<noteq> 58 then Inr (seg, c # r)
             else if r = [] \<or> \<not> name_start db (hd r) then Inl (seg @ [58])
             else (case tag_segments db r of
                     Inl t \<Rightarrow> Inl (seg @ 58 # t) | Inr (t, r') \<Rightarrow> Inr (seg @ 58 # t, r')))"
  by pat_completeness auto
termination
proof (relation "measure (\<lambda>(db, s). length s)")
  fix db s x c r
  assume "dropWhile (name_continue db) s = c # r"
  then have "length (c # r) \<le> length s"
    by (metis length_dropWhile_le)
  then show "((db, r), (db, s)) \<in> measure (\<lambda>(db, s). length s)"
    by simp
qed simp

declare tag_segments.simps [simp del]

lemma length_tag_segments: "tag_segments db s = Inr (t, r) \<Longrightarrow> t @ r = s"
proof (induction db s arbitrary: t r rule: tag_segments.induct)
  case (1 db s)
  let ?seg = "takeWhile (name_continue db) s"
  show ?case
  proof (cases "dropWhile (name_continue db) s")
    case Nil
    then have "?seg = s" using takeWhile_dropWhile_id [of "name_continue db" s] by simp
    have "tag_segments db s = Inr (?seg, [])"
      by (simp only: tag_segments.simps [of db s] Let_def Nil list.case)
    then have "tag_segments db s = Inr (s, [])" unfolding \<open>?seg = s\<close> .
    with "1.prems" show ?thesis by simp
  next
    case (Cons c u)
    have s: "s = ?seg @ c # u"
      using takeWhile_dropWhile_id [of "name_continue db" s] Cons by simp
    show ?thesis
    proof (cases "c = 58")
      case False
      with "1.prems" Cons have "t = ?seg" "r = c # u"
        by (simp_all add: tag_segments.simps [of db s])
      with s show ?thesis by simp
    next
      case True
      with "1.prems" Cons have n: "\<not> (u = [] \<or> \<not> name_start db (hd u))"
        by (auto simp: tag_segments.simps [of db s] Let_def split: if_splits)
      with "1.prems" Cons True obtain t' where r: "tag_segments db u = Inr (t', r)" "t = ?seg @ 58 # t'"
        by (auto simp: tag_segments.simps [of db s] Let_def split: if_splits sum.splits)
      have "t' @ r = u" using "1.IH" [OF refl Cons _ n r(1)] True by simp
      with r(2) s True show ?thesis by simp
    qed
  qed
qed

definition scan_tag :: "unicode_db \<Rightarrow> source_position \<Rightarrow> ustr \<Rightarrow> sep_error + token \<times> ustr" where
  \<comment> \<open>\<open>s\<close> is the text after the \<open>@\<close>\<close>
  "scan_tag db p s =
     (if s = [] \<or> \<not> name_start db (hd s)
      then Inl ((mk_error 216 ''Invalid function tag'' p)\<lparr>err_actual := Some (U ''@'')\<rparr>)
      else (case tag_segments db s of
              Inl t \<Rightarrow> Inl ((mk_error 216 ''Invalid function tag'' p)\<lparr>err_actual := Some (64 # t)\<rparr>)
            | Inr (name, r) \<Rightarrow>
                if valid_tag db name then Inr (mk_token T_TAG name (StrLit name) p, r)
                else Inl ((mk_error 216 ''Invalid function tag'' p)\<lparr>err_actual := Some (64 # name)\<rparr>)))"

subsection \<open>Strings\<close>

definition simple_escape :: "uchar \<Rightarrow> uchar option" where
  "simple_escape m =
     (if m = 110 then Some 10 else if m = 114 then Some 13 else if m = 116 then Some 9
      else if m = 48 then Some 0 else if m = 34 then Some 34 else if m = 92 then Some 92 else None)"

definition valid_scalar :: "nat \<Rightarrow> bool" where
  "valid_scalar n \<longleftrightarrow> n \<le> 1114111 \<and> \<not> (55296 \<le> n \<and> n \<le> 57343)"

text \<open>
  One escape: \<open>s\<close> is the text after the backslash. The result is the character and the number
  of characters of \<open>s\<close> it takes; an error is its code and the offending text.
\<close>

definition scan_escape :: "ustr \<Rightarrow> (nat \<times> string \<times> ustr) + uchar \<times> nat" where
  "scan_escape s =
     (case s of
        [] \<Rightarrow> Inl (219, ''Unknown escape sequence'', [92])
      | m # r \<Rightarrow>
          if m = 117 \<or> m = 85 then
            (let digits = (if m = 117 then 4 else 8); value = take digits r;
                 actual = 92 # m # value
             in if length value \<noteq> digits \<or> \<not> list_all is_hex value
                then Inl (220, ''Invalid Unicode escape'', actual)
                else if \<not> valid_scalar (digits_value 16 value)
                then Inl (220, ''Invalid Unicode escape'', actual)
                else Inr (digits_value 16 value, Suc digits))
          else (case simple_escape m of Some c \<Rightarrow> Inr (c, 1)
                | None \<Rightarrow> Inl (219, ''Unknown escape sequence'', [92, m])))"

text \<open>
  The loop up to the closing quote. \<open>raw\<close> strings keep backslashes. The result is the
  characters and how many were read; \<open>Inl None\<close> is a missing closing quote, \<open>Inl (Some (k, e))\<close>
  an escape error at offset \<open>k\<close>.
\<close>

function scan_chars ::
  "bool \<Rightarrow> nat \<Rightarrow> ustr \<Rightarrow> (nat \<times> nat \<times> string \<times> ustr) option + ustr \<times> nat" where
  "scan_chars raw k [] = Inl None"
| "scan_chars raw k (c # s) =
     (if c = 34 then Inr ([], k)
      else if c = 92 \<and> \<not> raw then
        (case scan_escape s of
           Inl e \<Rightarrow> Inl (Some (k, e))
         | Inr (v, n) \<Rightarrow>
             (case scan_chars raw (Suc (k + n)) (drop n s) of
                Inl e \<Rightarrow> Inl e | Inr (cs, m) \<Rightarrow> Inr (v # cs, m)))
      else (case scan_chars raw (Suc k) s of
              Inl e \<Rightarrow> Inl e | Inr (cs, m) \<Rightarrow> Inr (c # cs, m)))"
  by pat_completeness auto
termination
  by (relation "measure (\<lambda>(raw, k, s). length s)") auto

lemma scan_chars_bounds: "scan_chars raw k s = Inr (cs, m) \<Longrightarrow> k \<le> m \<and> m < k + length s"
proof (induction raw k s arbitrary: cs m rule: scan_chars.induct)
  case (2 raw k c s)
  show ?case
  proof (cases "c = 34 \<or> \<not> (c = 92 \<and> \<not> raw)")
    case True
    with "2.prems" "2.IH"(2) show ?thesis
      by (fastforce split: if_splits sum.splits)
  next
    case False
    with "2.prems" obtain v n where e: "scan_escape s = Inr (v, n)"
      by (auto split: sum.splits)
    with "2.prems" False obtain cs' where r: "scan_chars raw (Suc (k + n)) (drop n s) = Inr (cs', m)"
      by (auto split: sum.splits)
    with "2.IH"(1) [OF _ _ e] False have "Suc (k + n) \<le> m \<and> m < Suc (k + n) + length (drop n s)"
      by blast
    then show ?thesis by auto
  qed
qed simp

definition scan_string ::
  "(nat \<Rightarrow> source_position) \<Rightarrow> nat \<Rightarrow> bool \<Rightarrow> ustr \<Rightarrow> sep_error + token \<times> ustr" where
  \<comment> \<open>\<open>s\<close> starts at index \<open>i\<close>, with the opening \<open>"\<close> or \<open>r"\<close>\<close>
  "scan_string place i raw s =
     (let opening = (if raw then 2 else 1)
      in case scan_chars raw opening (drop opening s) of
           Inl None \<Rightarrow> Inl (mk_error 103 ''Unterminated string'' (place i))
         | Inl (Some (k, n, cat, actual)) \<Rightarrow> Inl ((mk_error n cat (place (i + k)))\<lparr>err_actual := Some actual\<rparr>)
         | Inr (cs, k) \<Rightarrow>
             Inr (mk_token T_STRING (take (Suc k) s) (StrLit cs) (place i), drop (Suc k) s))"

subsection \<open>Numbers\<close>

definition base_prefix :: "uchar \<Rightarrow> (nat \<times> (uchar \<Rightarrow> bool)) option" where
  "base_prefix c =
     (let m = ascii_lower c
      in if m = 98 then Some (2, \<lambda>c. c = 48 \<or> c = 49)
         else if m = 111 then Some (8, \<lambda>c. 48 \<le> c \<and> c \<le> 55)
         else if m = 120 then Some (16, is_hex) else None)"

definition bad_number :: "source_position \<Rightarrow> ustr \<Rightarrow> sep_error" where
  "bad_number p word = (mk_error 101 ''Invalid number literal'' p)\<lparr>err_actual := Some word\<rparr>"

definition scan_prefixed ::
  "unicode_db \<Rightarrow> source_position \<Rightarrow> nat \<times> (uchar \<Rightarrow> bool) \<Rightarrow> ustr \<Rightarrow> sep_error + token \<times> ustr" where
  "scan_prefixed db p = (\<lambda>(base, allowed) s.
     let tail = takeWhile (\<lambda>c. is_alnum db c \<or> c = 95 \<or> c = 46) (drop 2 s); word = take 2 s @ tail
     in if \<not> valid_digits allowed tail then Inl (bad_number p word)
        else Inr (mk_token T_NUMBER word (IntLit (int (digits_value base (strip_underscores tail)))) p,
               drop (length word) s))"

definition digit_or_underscore :: "uchar \<Rightarrow> bool" where
  "digit_or_underscore c \<longleftrightarrow> is_digit c \<or> c = 95"

definition scan_decimal :: "source_position \<Rightarrow> ustr \<Rightarrow> sep_error + token \<times> ustr" where
  "scan_decimal p s =
     (let integer = takeWhile digit_or_underscore s; r = drop (length integer) s
      in if r \<noteq> [] \<and> hd r = 46 then
           (let fractional = takeWhile digit_or_underscore (tl r);
                word = integer @ 46 # fractional
            in if \<not> valid_digits is_digit integer \<or> \<not> valid_digits is_digit fractional
               then Inl (bad_number p word)
               else Inr (mk_token T_NUMBER word
                      (FloatLit (of_decimal64 (digits_value 10 (strip_underscores (integer @ fractional)))
                         (length (strip_underscores fractional)))) p, drop (length word) s))
         else if \<not> valid_digits is_digit integer then Inl (bad_number p integer)
         else Inr (mk_token T_NUMBER integer (IntLit (int (digits_value 10 (strip_underscores integer)))) p, r))"

definition scan_number :: "unicode_db \<Rightarrow> source_position \<Rightarrow> ustr \<Rightarrow> sep_error + token \<times> ustr" where
  "scan_number db p s =
     (if 2 \<le> length s \<and> hd s = 48
      then (case base_prefix (s ! 1) of Some b \<Rightarrow> scan_prefixed db p b s | None \<Rightarrow> scan_decimal p s)
      else scan_decimal p s)"

subsection \<open>Words\<close>

text \<open>
  A word begins at a name start, which the source's loop takes as a name continuation; every
  identifier start is an identifier continuation in Unicode.
\<close>

definition scan_word :: "unicode_db \<Rightarrow> source_position \<Rightarrow> bool \<Rightarrow> ustr \<Rightarrow> sep_error + token \<times> ustr" where
  \<comment> \<open>\<open>follows_colon\<close>: the last token so far is a COLON\<close>
  "scan_word db p follows_colon s =
     (let word = hd s # takeWhile (name_continue db) (tl s); r = drop (length word) s
      in if word = U ''null'' \<or> word = U ''NULL''
         then Inl ((mk_error 135 ''NULL unsupported'' p)\<lparr>err_expected := Some (U ''EMPTY''), err_actual := Some word\<rparr>)
         else if \<not> list_all is_ascii word then
           (if \<not> follows_colon then Inl ((mk_error 101 ''Invalid identifier'' p)\<lparr>err_actual := Some word\<rparr>)
            else if \<not> valid_name db word then Inl ((mk_error 102 ''Invalid label'' p)\<lparr>err_actual := Some word\<rparr>)
            else Inr (mk_token T_LABEL word NoLit p, r))
         else (let kind = keyword_kind word;
                   literal = (if kind = T_TRUE then BoolLit True else if kind = T_FALSE then BoolLit False else NoLit)
               in Inr (mk_token kind word literal p, r)))"

subsection \<open>One step of \<open>_scan_line\<close>\<close>

definition emit :: "sep_error + token \<times> ustr \<Rightarrow> sep_error + token option \<times> ustr" where
  "emit r = (case r of Inl e \<Rightarrow> Inl e | Inr (t, s) \<Rightarrow> Inr (Some t, s))"

definition last_is_colon :: "token list \<Rightarrow> bool" where
  "last_is_colon out \<longleftrightarrow> out \<noteq> [] \<and> tok_type (last out) = T_COLON"

text \<open>
  What the loop body does at index \<open>i\<close>, where the rest of the line \<open>s\<close> is not empty: the token
  it appends, if any, and the rest of the line after it. A comment drops the rest.
\<close>

definition next_token ::
  "unicode_db \<Rightarrow> (nat \<Rightarrow> source_position) \<Rightarrow> nat \<Rightarrow> ustr \<Rightarrow> token list \<Rightarrow> sep_error + token option \<times> ustr"
  where
  "next_token db place i s out =
     (let c = hd s in
      if c = 32 \<or> c = 9 \<or> c = 13 then Inr (None, tl s)
      else if c = 35 then Inr (None, [])
      else if c = 64 then emit (scan_tag db (place i) (tl s))
      else (case scan_operator s of
              Some (k, n) \<Rightarrow> Inr (Some (mk_token k (take n s) NoLit (place i)), drop n s)
            | None \<Rightarrow>
                (let raw = (c = 114 \<and> starts_with (tl s) [34]) in
                 if c = 34 \<or> raw then emit (scan_string place i raw s)
                 else if is_digit c then emit (scan_number db (place i) s)
                 else if name_start db c then emit (scan_word db (place i) (last_is_colon out) s)
                 else Inl ((mk_error 100 ''Unexpected character'' (place i))\<lparr>err_actual := Some [c]\<rparr>))))"

lemma scan_operator_width: "scan_operator s = Some (k, n) \<Longrightarrow> 0 < n"
  by (auto simp: scan_operator_def split: option.splits)

lemma scan_string_shorter:
  assumes "scan_string place i raw s = Inr (t, r)" and "s \<noteq> []"
  shows "length r < length s"
proof -
  from assms(1) obtain k where "r = drop (Suc k) s"
    by (auto simp: scan_string_def Let_def split: sum.splits option.splits)
  with assms(2) show ?thesis by simp
qed

lemma scan_prefixed_shorter:
  assumes "scan_prefixed db p b s = Inr (t, r)" and "s \<noteq> []"
  shows "length r < length s"
  using assms by (cases s) (auto simp: scan_prefixed_def Let_def split: prod.splits if_splits)

lemma scan_decimal_shorter:
  assumes "scan_decimal p s = Inr (t, r)" and "is_digit (hd s)" and "s \<noteq> []"
  shows "length r < length s"
  using assms
  by (cases s) (auto simp: scan_decimal_def Let_def digit_or_underscore_def split: if_splits)

lemma scan_number_shorter:
  assumes "scan_number db p s = Inr (t, r)" and "is_digit (hd s)" and "s \<noteq> []"
  shows "length r < length s"
  using assms scan_prefixed_shorter scan_decimal_shorter
  by (fastforce simp: scan_number_def split: if_splits option.splits)

lemma scan_word_shorter:
  assumes "scan_word db p b s = Inr (t, r)" and "s \<noteq> []"
  shows "length r < length s"
  using assms by (cases s) (auto simp: scan_word_def Let_def split: if_splits)

lemma scan_tag_shorter:
  assumes "scan_tag db p s = Inr (t, r)"
  shows "length r \<le> length s"
proof -
  from assms obtain name where "tag_segments db s = Inr (name, r)"
    by (auto simp: scan_tag_def split: if_splits sum.splits)
  then have "name @ r = s" by (rule length_tag_segments)
  then show ?thesis by auto
qed

text \<open>Every step consumes input, so the loop of \<open>_scan_line\<close> ends.\<close>

lemma emit_Inr: "emit r = Inr (t, s) \<longleftrightarrow> (\<exists>tok. t = Some tok \<and> r = Inr (tok, s))"
  by (auto simp: emit_def split: sum.splits)

lemma next_token_shorter:
  assumes n: "next_token db place i s out = Inr (t, r)" and s: "s \<noteq> []"
  shows "length r < length s"
proof -
  let ?c = "hd s" and ?raw = "hd s = 114 \<and> starts_with (tl s) [34]"
  have tl: "length (tl s) < length s" using s by simp
  consider (ws) "?c = 32 \<or> ?c = 9 \<or> ?c = 13" | (hash) "?c = 35" | (tag) "?c = 64"
    | (op) k m where "?c \<notin> {32, 9, 13, 35, 64}" "scan_operator s = Some (k, m)"
    | (other) "?c \<notin> {32, 9, 13, 35, 64}" "scan_operator s = None"
    by (cases "scan_operator s") auto
  then show ?thesis
  proof cases
    case ws
    with n tl show ?thesis by (auto simp: next_token_def)
  next
    case hash
    with n s show ?thesis by (simp add: next_token_def)
  next
    case tag
    with n obtain tok where "scan_tag db (place i) (tl s) = Inr (tok, r)"
      by (auto simp: next_token_def emit_Inr)
    then show ?thesis using scan_tag_shorter tl by (meson le_less_trans)
  next
    case op
    with n have "r = drop m s" by (simp add: next_token_def)
    with scan_operator_width [OF op(2)] s show ?thesis by simp
  next
    case other
    with n consider tok where "scan_string place i ?raw s = Inr (tok, r)"
      | tok where "is_digit ?c" "scan_number db (place i) s = Inr (tok, r)"
      | tok where "scan_word db (place i) (last_is_colon out) s = Inr (tok, r)"
      by (auto simp: next_token_def Let_def emit_Inr split: if_splits)
    then show ?thesis
      using scan_string_shorter scan_number_shorter scan_word_shorter s by cases blast+
  qed
qed

function scan_line ::
  "unicode_db \<Rightarrow> (nat \<Rightarrow> source_position) \<Rightarrow> nat \<Rightarrow> ustr \<Rightarrow> token list \<Rightarrow> sep_error + token list" where
  "scan_line db place i s out =
     (if s = [] then Inr out
      else (case next_token db place i s out of
              Inl e \<Rightarrow> Inl e
            | Inr (t, r) \<Rightarrow>
                scan_line db place (i + (length s - length r)) r
                  (case t of None \<Rightarrow> out | Some tok \<Rightarrow> out @ [tok])))"
  by pat_completeness auto
termination
  by (relation "measure (\<lambda>(db, place, i, s, out). length s)") (auto simp: next_token_shorter)

declare scan_line.simps [simp del]

subsection \<open>Lines and comments\<close>

definition newline_token :: "source_position \<Rightarrow> token" where
  "newline_token p = mk_token T_NEWLINE [10] NoLit p"

text \<open>
  The loop over the lines. \<open>comment\<close> is the label and the position of the open multi-line
  comment, if one is open.
\<close>

fun scan_lines ::
  "unicode_db \<Rightarrow> ustr \<Rightarrow> nat \<Rightarrow> ustr list \<Rightarrow> (ustr \<times> source_position) option \<Rightarrow> token list
    \<Rightarrow> sep_error + token list" where
  "scan_lines db file n [] comment out =
     (case comment of
        Some (label, opened) \<Rightarrow>
          Inl ((mk_error 106 ''Unclosed comment'' opened)\<lparr>err_expected := Some (U ''##'' @ label)\<rparr>)
      | None \<Rightarrow> Inr (out @ [mk_token T_EOF [] NoLit (mk_pos file n 1 [])]))"
| "scan_lines db file n (text # ls) comment out =
     (let stripped = lstrip text; column_offset = length text - length stripped
      in case comment_delimiter db stripped of
           Some label \<Rightarrow>
             (let pos = mk_pos file n (column_offset + 1) text
              in case comment of
                   None \<Rightarrow> scan_lines db file (Suc n) ls (Some (label, pos)) (out @ [newline_token pos])
                 | Some (l, opened) \<Rightarrow>
                     if label = l then scan_lines db file (Suc n) ls None (out @ [newline_token pos])
                     else Inl ((mk_error 104 ''Multiline comment label mismatch'' pos)
                       \<lparr>err_expected := Some (U ''##'' @ l), err_actual := Some (U ''##'' @ label),
                        err_related := Some opened\<rparr>))
         | None \<Rightarrow>
             (if comment \<noteq> None
              then scan_lines db file (Suc n) ls comment (out @ [newline_token (mk_pos file n 1 text)])
              else (case scan_line db (\<lambda>i. mk_pos file n (i + 1) text) 0 text out of
                      Inl e \<Rightarrow> Inl e
                    | Inr out' \<Rightarrow>
                        scan_lines db file (Suc n) ls comment
                          (out' @ [newline_token (mk_pos file n (length text + 1) text)]))))"

definition scan_tokens :: "unicode_db \<Rightarrow> ustr \<Rightarrow> ustr \<Rightarrow> sep_error + token list" where
  "scan_tokens db source filename = scan_lines db filename 1 (splitlines source) None []"

subsection \<open>Where tokens come from\<close>

text \<open>
  A token of a code line sits at its column: its lexeme is the text found there (a tag's lexeme
  leaves out the \<open>@\<close>). NEWLINE and EOF come from the line loop only.
\<close>

definition token_at :: "source_position \<Rightarrow> ustr \<Rightarrow> token \<Rightarrow> bool" where
  "token_at p s t \<longleftrightarrow>
     tok_position t = p \<and> tok_type t \<notin> {T_NEWLINE, T_EOF} \<and>
     (if tok_type t = T_TAG then starts_with s (64 # tok_lexeme t) else starts_with s (tok_lexeme t))"

lemma starts_with_take: "starts_with s (take n s)"
  by (metis append_take_drop_id starts_with_iff)

lemma starts_with_takeWhile: "starts_with s (takeWhile P s)"
  by (metis takeWhile_dropWhile_id starts_with_iff)

lemma map_of_range:
  assumes "map_of m w = Some k" and "list_all (\<lambda>(_, k). P k) m"
  shows "P k"
  using map_of_SomeD [OF assms(1)] assms(2) by (auto simp: list_all_iff)

lemma KEYWORDS_range: "map_of KEYWORDS w = Some k \<Longrightarrow> k \<notin> {T_NEWLINE, T_EOF, T_TAG, T_COLON}"
  by (erule map_of_range) (simp add: KEYWORDS_def)

lemma keyword_kind_range: "keyword_kind w \<notin> {T_NEWLINE, T_EOF, T_TAG, T_COLON}"
  using KEYWORDS_range by (auto simp: keyword_kind_def split: option.splits)

lemma operator_tables_range:
  "map_of triples w = Some k \<Longrightarrow> k \<notin> {T_NEWLINE, T_EOF, T_TAG}"
  "map_of pairs w = Some k \<Longrightarrow> k \<notin> {T_NEWLINE, T_EOF, T_TAG}"
  "map_of single w = Some k \<Longrightarrow> k \<notin> {T_NEWLINE, T_EOF, T_TAG}"
  "map_of singles w = Some k \<Longrightarrow> k \<notin> {T_NEWLINE, T_EOF, T_TAG}"
  by (erule map_of_range, simp add: triples_def pairs_def single_def singles_def)+

lemma scan_operator_range: "scan_operator s = Some (k, n) \<Longrightarrow> k \<notin> {T_NEWLINE, T_EOF, T_TAG}"
  by (auto simp: scan_operator_def split: option.splits dest: operator_tables_range)

lemma token_at_string: "scan_string place i raw s = Inr (t, r) \<Longrightarrow> token_at (place i) s t"
  by (auto simp: scan_string_def token_at_def Let_def starts_with_take split: sum.splits option.splits)

lemma token_at_prefixed: "scan_prefixed db p b s = Inr (t, r) \<Longrightarrow> token_at p s t"
proof (cases b)
  case (Pair base allowed)
  let ?tail = "takeWhile (\<lambda>c. is_alnum db c \<or> c = 95 \<or> c = 46) (drop 2 s)"
  have "starts_with s (take 2 s @ ?tail)"
    by (metis append.assoc append_take_drop_id starts_with_iff takeWhile_dropWhile_id)
  moreover assume "scan_prefixed db p b s = Inr (t, r)"
  ultimately show ?thesis
    using Pair by (auto simp: scan_prefixed_def token_at_def Let_def split: if_splits)
qed

lemma token_at_decimal: "scan_decimal p s = Inr (t, r) \<Longrightarrow> token_at p s t"
proof -
  let ?i = "takeWhile digit_or_underscore s" and ?r = "drop (length (takeWhile digit_or_underscore s)) s"
  have s: "s = ?i @ ?r"
    by (metis dropWhile_eq_drop takeWhile_dropWhile_id)
  have f: "starts_with s (?i @ 46 # takeWhile digit_or_underscore (tl ?r))" if "?r \<noteq> []" "hd ?r = 46"
  proof -
    have "?r = 46 # tl ?r" using that by (cases ?r) auto
    then have "s = ?i @ 46 # takeWhile digit_or_underscore (tl ?r) @ dropWhile digit_or_underscore (tl ?r)"
      using s by simp
    then have "s = (?i @ 46 # takeWhile digit_or_underscore (tl ?r)) @ dropWhile digit_or_underscore (tl ?r)"
      by (simp only: append.assoc append_Cons)
    then show ?thesis by (rule starts_with_iff [THEN iffD2, OF exI])
  qed
  assume "scan_decimal p s = Inr (t, r)"
  with f show ?thesis
    by (auto simp: scan_decimal_def token_at_def Let_def starts_with_takeWhile split: if_splits)
qed

lemma token_at_number: "scan_number db p s = Inr (t, r) \<Longrightarrow> token_at p s t"
  by (auto simp: scan_number_def split: if_splits option.splits
      intro: token_at_prefixed token_at_decimal)

lemma token_at_word: "scan_word db p b s = Inr (t, r) \<Longrightarrow> s \<noteq> [] \<Longrightarrow> token_at p s t"
  using keyword_kind_range
  by (cases s) (auto simp: scan_word_def token_at_def Let_def starts_with_takeWhile split: if_splits)

lemma token_at_tag:
  assumes "scan_tag db p (tl s) = Inr (t, r)" and "hd s = 64" and "s \<noteq> []"
  shows "token_at p s t"
proof -
  from assms(1) obtain name where n: "tag_segments db (tl s) = Inr (name, r)"
    and t: "t = mk_token T_TAG name (StrLit name) p"
    by (auto simp: scan_tag_def split: if_splits sum.splits)
  have "tl s = name @ r" using length_tag_segments [OF n] by simp
  with assms(2,3) t show ?thesis
    by (cases s) (auto simp: token_at_def starts_with_iff)
qed

lemma next_token_at:
  assumes "next_token db place i s out = Inr (Some t, r)" and "s \<noteq> []"
  shows "token_at (place i) s t"
  using assms token_at_string [of place i _ s t r] token_at_number [of db "place i" s t r]
    token_at_word [of db "place i" _ s t r] token_at_tag [of db "place i" s t r]
    scan_operator_range [of s] starts_with_take [of s]
  by (auto simp: next_token_def Let_def emit_Inr split: if_splits option.splits)
    (auto simp: token_at_def)

text \<open>A step leaves a suffix of the line, so the index and the rest stay in step.\<close>

definition is_suffix :: "ustr \<Rightarrow> ustr \<Rightarrow> bool" where
  "is_suffix r s \<longleftrightarrow> r = drop (length s - length r) s"

lemma is_suffixI: "s = t @ r \<Longrightarrow> is_suffix r s"
  by (simp add: is_suffix_def)

lemma is_suffix_drop [simp]: "is_suffix (drop n s) s"
  by (rule is_suffixI [of _ "take n s"]) simp

lemma is_suffix_Nil [simp]: "is_suffix [] s"
  by (simp add: is_suffix_def)

lemma is_suffix_tl [simp]: "is_suffix (tl s) s"
  using is_suffix_drop [of 1 s] by (simp add: drop_Suc)

lemma next_token_suffix:
  assumes n: "next_token db place i s out = Inr (t, r)" and "s \<noteq> []"
  shows "is_suffix r s"
proof -
  have tag: "is_suffix r s" if "scan_tag db p (tl s) = Inr (tok, r)" for p tok
  proof -
    from that obtain name where "tag_segments db (tl s) = Inr (name, r)"
      by (auto simp: scan_tag_def split: if_splits sum.splits)
    then have "tl s = name @ r" using length_tag_segments by simp
    then have "s = (hd s # name) @ r" using \<open>s \<noteq> []\<close> by (cases s) auto
    then show ?thesis by (rule is_suffixI)
  qed
  have str: "is_suffix r s" if "scan_string place i raw s = Inr (tok, r)" for raw tok
    using that by (auto simp: scan_string_def Let_def split: sum.splits option.splits)
  have num: "is_suffix r s" if "scan_number db p s = Inr (tok, r)" for p tok
    using that by (auto simp: scan_number_def scan_prefixed_def scan_decimal_def Let_def
        split: if_splits option.splits prod.splits)
  have word: "is_suffix r s" if "scan_word db p b s = Inr (tok, r)" for p b tok
    using that by (auto simp: scan_word_def Let_def split: if_splits)
  show ?thesis
    using n tag str num word
    by (auto simp: next_token_def Let_def emit_Inr split: if_splits option.splits)
qed

lemma drop_suffix:
  assumes "is_suffix r (drop i s)" and "i \<le> length s"
  shows "r = drop (i + (length (drop i s) - length r)) s"
  using assms by (metis add.commute drop_drop is_suffix_def)

definition line_token :: "(nat \<Rightarrow> source_position) \<Rightarrow> ustr \<Rightarrow> token \<Rightarrow> bool" where
  "line_token place text t \<longleftrightarrow> (\<exists>i < length text. token_at (place i) (drop i text) t)"

lemma scan_line_tokens:
  assumes "scan_line db place i (drop i text) out = Inr out'" and "i \<le> length text"
  shows "\<exists>ts. out' = out @ ts \<and> (\<forall>t \<in> set ts. line_token place text t)"
  using assms
proof (induction "length text - i" arbitrary: i out rule: less_induct)
  case less
  show ?case
  proof (cases "drop i text = []")
    case True
    with less.prems(1) show ?thesis by (simp add: scan_line.simps [of _ _ _ "[]"])
  next
    case False
    let ?s = "drop i text"
    from less.prems(1) False obtain t r where n: "next_token db place i ?s out = Inr (t, r)"
      and rec: "scan_line db place (i + (length ?s - length r)) r
        (case t of None \<Rightarrow> out | Some tok \<Rightarrow> out @ [tok]) = Inr out'"
      by (subst (asm) scan_line.simps) (auto split: sum.splits)
    let ?j = "i + (length ?s - length r)"
    have short: "length r < length ?s" by (rule next_token_shorter [OF n False])
    have r: "r = drop ?j text"
      using next_token_suffix [OF n False] less.prems(2) by (rule drop_suffix)
    have j: "i < ?j" "?j \<le> length text" using short by auto
    have "length text - ?j < length text - i" using j by linarith
    from less.hyps [OF this _ j(2)] rec r obtain ts where
      ts: "out' = (case t of None \<Rightarrow> out | Some tok \<Rightarrow> out @ [tok]) @ ts"
        "\<forall>t \<in> set ts. line_token place text t"
      by metis
    show ?thesis
    proof (cases t)
      case None
      with ts show ?thesis by auto
    next
      case (Some tok)
      have "token_at (place i) ?s tok" using next_token_at n False Some by blast
      then have "line_token place text tok"
        using j by (auto simp: line_token_def intro!: exI [of _ i])
      with ts Some show ?thesis by auto
    qed
  qed
qed

text \<open>
  The tokens of a whole source: those of its lines, each followed by one NEWLINE, and one EOF.
\<close>

definition source_token :: "ustr \<Rightarrow> ustr list \<Rightarrow> token \<Rightarrow> bool" where
  "source_token file ls t \<longleftrightarrow>
     (\<exists>n < length ls. line_token (\<lambda>i. mk_pos file (Suc n) (i + 1) (ls ! n)) (ls ! n) t)"

definition is_newline :: "token \<Rightarrow> bool" where
  "is_newline t \<longleftrightarrow> tok_type t = T_NEWLINE"

lemma line_token_not_newline: "line_token place text t \<Longrightarrow> \<not> is_newline t"
  by (auto simp: line_token_def token_at_def is_newline_def)

lemma filter_newline_line:
  "\<forall>t \<in> set ts. line_token place text t \<Longrightarrow> filter is_newline ts = []"
  by (auto simp: filter_empty_conv dest: line_token_not_newline)

lemma is_newline_newline_token [simp]: "is_newline (newline_token p)"
  by (simp add: is_newline_def newline_token_def)

lemma scan_lines_tokens:
  assumes "scan_lines db file (Suc n) (drop n ls) comment out = Inr toks" and "n \<le> length ls"
  shows "\<exists>ts eof. toks = out @ ts @ [eof] \<and> tok_type eof = T_EOF \<and>
    length (filter is_newline ts) = length ls - n \<and>
    (\<forall>t \<in> set ts. is_newline t \<or> source_token file ls t)"
  using assms
proof (induction "length ls - n" arbitrary: n comment out)
  case 0
  then show ?case by (auto split: option.splits)
next
  case (Suc k)
  then have lt: "n < length ls" by simp
  let ?text = "ls ! n"
  have d: "drop n ls = ?text # drop (Suc n) ls" using lt by (simp add: Cons_nth_drop_Suc)
  have step: ?case if "scan_lines db file (Suc (Suc n)) (drop (Suc n) ls) c' (out @ us @ [nl]) = Inr toks"
    and "is_newline nl" and "\<forall>t \<in> set us. line_token (\<lambda>i. mk_pos file (Suc n) (i + 1) ?text) ?text t"
    for c' us nl
  proof -
    have "k = length ls - Suc n" "Suc n \<le> length ls" using Suc.hyps(2) lt by simp_all
    from Suc.hyps(1) [OF this(1) that(1) this(2)] obtain ts eof where
      ts: "toks = (out @ us @ [nl]) @ ts @ [eof]" "tok_type eof = T_EOF"
        "length (filter is_newline ts) = length ls - Suc n"
        "\<forall>t \<in> set ts. is_newline t \<or> source_token file ls t" by blast
    have "\<forall>t \<in> set (us @ nl # ts). is_newline t \<or> source_token file ls t"
      using that(2,3) ts(4) lt by (auto simp: source_token_def)
    moreover have "length (filter is_newline (us @ nl # ts)) = length ls - n"
      using that(2) filter_newline_line [OF that(3)] ts(3) lt by simp
    ultimately show ?thesis using ts(1,2) by (intro exI [of _ "us @ nl # ts"] exI [of _ eof]) simp
  qed
  have step0: ?case if "scan_lines db file (Suc (Suc n)) (drop (Suc n) ls) c' (out @ [nl]) = Inr toks"
    and "is_newline nl" for c' nl
    using step [of c' "[]" nl] that by simp
  show ?case
  proof (cases "comment_delimiter db (lstrip ?text)")
    case None
    show ?thesis
    proof (cases comment)
      case None
      with Suc.prems(1) \<open>comment_delimiter db (lstrip ?text) = None\<close> obtain out' where
        sl: "scan_line db (\<lambda>i. mk_pos file (Suc n) (i + 1) ?text) 0 ?text out = Inr out'" and
        rec: "scan_lines db file (Suc (Suc n)) (drop (Suc n) ls) None
          (out' @ [newline_token (mk_pos file (Suc n) (length ?text + 1) ?text)]) = Inr toks"
        unfolding d by (auto simp: Let_def split: sum.splits)
      from scan_line_tokens [of db _ 0 ?text out out'] sl obtain us where
        "out' = out @ us" "\<forall>t \<in> set us. line_token (\<lambda>i. mk_pos file (Suc n) (i + 1) ?text) ?text t"
        by auto
      with rec step show ?thesis by simp
    next
      case (Some c)
      with Suc.prems(1) \<open>comment_delimiter db (lstrip ?text) = None\<close> step0 show ?thesis
        unfolding d by (cases c) (simp add: Let_def)
    qed
  next
    case (Some label)
    with Suc.prems(1) step0 show ?thesis
      unfolding d by (auto simp: Let_def split: option.splits prod.splits if_splits)
  qed
qed

text \<open>What every step of the lexer gives its token holds of the whole stream.\<close>

lemma scan_line_all:
  assumes "\<And>place i s out t r. s \<noteq> [] \<Longrightarrow> next_token db place i s out = Inr (Some t, r) \<Longrightarrow> P t"
    and "scan_line db place i s out = Inr out'" and "list_all P out"
  shows "list_all P out'"
  using assms(2,3)
proof (induction "length s" arbitrary: i s out rule: less_induct)
  case less
  show ?case
  proof (cases "s = []")
    case True
    with less.prems show ?thesis by (simp add: scan_line.simps [of _ _ _ "[]"])
  next
    case False
    with less.prems obtain t r where n: "next_token db place i s out = Inr (t, r)"
      and rec: "scan_line db place (i + (length s - length r)) r
        (case t of None \<Rightarrow> out | Some tok \<Rightarrow> out @ [tok]) = Inr out'"
      by (subst (asm) scan_line.simps) (auto split: sum.splits)
    show ?thesis
    proof (rule less.hyps [OF next_token_shorter [OF n False] rec])
      show "list_all P (case t of None \<Rightarrow> out | Some tok \<Rightarrow> out @ [tok])"
        using assms(1) [OF False] n less.prems by (auto split: option.split)
    qed
  qed
qed

lemma scan_lines_all:
  assumes step: "\<And>place i s out t r. s \<noteq> [] \<Longrightarrow> next_token db place i s out = Inr (Some t, r) \<Longrightarrow> P t"
    and edges: "\<And>p. P (newline_token p)" "\<And>p. P (mk_token T_EOF [] NoLit p)"
    and "scan_lines db file n ls comment out = Inr toks" and "list_all P out"
  shows "list_all P toks"
  using assms(4,5)
proof (induction ls arbitrary: n comment out)
  case Nil
  then show ?case using edges by (auto split: option.splits)
next
  case (Cons line ls)
  have rec: "list_all P toks" if "scan_lines db file (Suc n) ls c (o' @ [newline_token p]) = Inr toks" "list_all P o'"
    for c o' p
    using Cons.IH [OF that(1)] that(2) edges by simp
  show ?case
  proof (cases "comment_delimiter db (lstrip line)")
    case None
    with Cons.prems show ?thesis
      using rec scan_line_all [OF step, of db]
      by (auto simp: Let_def split: if_splits option.splits sum.splits)
  next
    case (Some label)
    with Cons.prems rec show ?thesis
      by (auto simp: Let_def split: if_splits option.splits)
  qed
qed

text \<open>An operator token is spelled as in the operator tables.\<close>

definition symbol_spelled :: "token \<Rightarrow> bool" where
  "symbol_spelled t \<longleftrightarrow> list_all (\<lambda>(w, k). tok_type t = k \<longrightarrow> tok_lexeme t = w) (pairs @ single @ singles)"

definition operator_types :: "token_type list" where
  "operator_types = map snd (pairs @ single @ singles)"

lemma word_spelled:
  "tok_type t \<notin> set operator_types \<Longrightarrow> symbol_spelled t"
  by (force simp: symbol_spelled_def list_all_iff operator_types_def)

lemma KEYWORDS_words: "map_of KEYWORDS w = Some k \<Longrightarrow> k \<notin> set operator_types"
  by (erule map_of_range) (simp add: KEYWORDS_def operator_types_def pairs_def single_def singles_def)

lemma keyword_kind_words: "keyword_kind w \<notin> set operator_types"
proof -
  have "T_IDENTIFIER \<notin> set operator_types"
    by (simp add: operator_types_def pairs_def single_def singles_def)
  then show ?thesis using KEYWORDS_words by (auto simp: keyword_kind_def split: option.splits)
qed

lemma operator_symbol_spelled:
  assumes "scan_operator s = Some (k, n)"
  shows "symbol_spelled (mk_token k (take n s) NoLit p)"
proof -
  have pair: "symbol_spelled (mk_token k w NoLit p)" if "(w, k) \<in> set (pairs @ single @ singles)" for w
    using that by (auto simp: symbol_spelled_def pairs_def single_def singles_def)
  have triple: "symbol_spelled (mk_token k w NoLit p)" if "(w, k) \<in> set triples" for w
    using that by (auto simp: symbol_spelled_def triples_def pairs_def single_def singles_def)
  show ?thesis
    using assms
    by (auto simp: scan_operator_def split: option.splits dest!: map_of_SomeD intro: pair triple)
qed

lemma next_token_spelled:
  assumes "next_token db place i s out = Inr (Some t, r)"
  shows "symbol_spelled t"
proof -
  have kinds: "T_TAG \<notin> set operator_types" "T_STRING \<notin> set operator_types"
    "T_NUMBER \<notin> set operator_types" "T_LABEL \<notin> set operator_types"
    "T_TRUE \<notin> set operator_types" "T_FALSE \<notin> set operator_types"
    by (simp_all add: operator_types_def pairs_def single_def singles_def)
  have tag: "scan_tag db p s' = Inr (t, r) \<Longrightarrow> symbol_spelled t" for p s'
    using kinds by (auto simp: scan_tag_def intro!: word_spelled split: if_splits sum.splits)
  have str: "scan_string place j raw s' = Inr (t, r) \<Longrightarrow> symbol_spelled t" for j raw s'
    using kinds by (auto simp: scan_string_def Let_def intro!: word_spelled split: sum.splits option.splits)
  have num: "scan_number db p s' = Inr (t, r) \<Longrightarrow> symbol_spelled t" for p s'
    using kinds by (auto simp: scan_number_def scan_prefixed_def scan_decimal_def Let_def intro!: word_spelled
        split: if_splits option.splits prod.splits)
  have word: "scan_word db p c s' = Inr (t, r) \<Longrightarrow> symbol_spelled t" for p c s'
    using kinds keyword_kind_words by (auto simp: scan_word_def Let_def intro!: word_spelled split: if_splits)
  show ?thesis
    using assms tag str num word operator_symbol_spelled
    by (auto simp: next_token_def Let_def emit_Inr split: if_splits option.splits)
qed

lemma scan_tokens_spelled:
  assumes "scan_tokens db source file_name = Inr toks"
  shows "list_all symbol_spelled toks"
proof (rule scan_lines_all [where out = "[]"])
  show "scan_lines db file_name 1 (splitlines source) None [] = Inr toks"
    using assms by (simp add: scan_tokens_def)
  show "symbol_spelled t" if "next_token db place i s out = Inr (Some t, r)" for place i s out t r
    using that by (rule next_token_spelled)
qed (simp_all add: symbol_spelled_def newline_token_def pairs_def single_def singles_def)

lemma scan_tokens_eof:
  assumes "scan_tokens db source file_name = Inr toks"
  shows "toks \<noteq> []" "tok_type (last toks) = T_EOF"
  using scan_lines_tokens [of db file_name 0 "splitlines source" None "[]" toks] assms
  by (auto simp: scan_tokens_def)

subsection \<open>What the Unicode tables guarantee\<close>

locale unicode_tables =
  fixes db :: unicode_db
  assumes start_ascii: "is_ascii c \<Longrightarrow> id_start db c \<longleftrightarrow> ascii_letter c \<or> c = 95"
    and continue_ascii: "is_ascii c \<Longrightarrow> id_continue db c \<longleftrightarrow> ascii_letter c \<or> c = 95 \<or> is_digit c"
    and start_continue: "id_start db c \<Longrightarrow> id_continue db c"
    and digit_ascii: "is_ascii c \<Longrightarrow> is_udigit db c \<longleftrightarrow> is_digit c"
    and nfc_ascii: "list_all is_ascii s \<Longrightarrow> is_nfc db s"
begin

lemma id_start_underscore [simp]: "id_start db 95"
  by (simp add: start_ascii is_ascii_def)

lemma name_continue_iff [simp]: "name_continue db c \<longleftrightarrow> id_continue db c"
  by (simp add: name_continue_def isidentifier_def)

lemma name_start_iff: "name_start db c \<longleftrightarrow> id_start db c"
  by (auto simp: name_start_def isidentifier_def)

text \<open>The deviation of \<open>scan_word\<close> from the loop of the source is none on such tables.\<close>

lemma scan_word_loop:
  "name_start db c \<Longrightarrow> c # takeWhile (name_continue db) s = takeWhile (name_continue db) (c # s)"
  by (simp add: name_start_iff start_continue)

lemma ascii_name_continue:
  "list_all (\<lambda>c. ascii_letter c \<or> c = 95 \<or> is_digit c) w \<Longrightarrow> list_all (name_continue db) w"
  by (auto simp: list_all_iff continue_ascii is_ascii_def ascii_letter_def is_digit_def)

text \<open>An ASCII name that no name character follows is one token, of its keyword's type.\<close>

lemma scan_ascii_word:
  assumes w: "list_all (\<lambda>c. ascii_letter c \<or> c = 95 \<or> is_digit c) w" "w \<noteq> []"
    and r: "r = [] \<or> \<not> name_continue db (hd r)"
    and null: "w \<notin> {U ''null'', U ''NULL''}"
  shows "\<exists>lit. scan_word db p b (w @ r) = Inr (mk_token (keyword_kind w) w lit p, r)"
proof -
  have ascii: "list_all is_ascii w"
    using w(1) by (auto simp: list_all_iff is_ascii_def ascii_letter_def is_digit_def)
  have "takeWhile (name_continue db) (tl w @ r) = tl w"
  proof -
    have "\<forall>c \<in> set (tl w). name_continue db c"
      using ascii_name_continue [OF w(1)] w(2) by (cases w) (auto simp: list_all_iff)
    moreover have "takeWhile (name_continue db) r = []" using r by (cases r) auto
    ultimately show ?thesis by (simp only: takeWhile_append2) simp
  qed
  then have "hd (w @ r) # takeWhile (name_continue db) (tl (w @ r)) = w"
    using w(2) by (cases w) auto
  with ascii null show ?thesis
    by (auto simp: scan_word_def Let_def simp del: name_continue_iff)
qed

end

interpretation latin: unicode_tables latin_tables
  by unfold_locales
    (auto simp: latin_tables_def latin_letter_def is_ascii_def ascii_letter_def is_digit_def)

subsection \<open>Reading back what was written\<close>

text \<open>The digits of a number are read back as the number.\<close>

lemma digits_value_append:
  "digits_value b (ds @ [c]) = digits_value b ds * b + digit_value c"
  by (simp add: digits_value_def)

lemma digits_value_show_nat: "digits_value 10 (show_nat n) = n"
proof (induction n rule: show_nat.induct)
  case (1 n)
  have d: "digit_value (48 + m) = m" if "m < 10" for m
    using that by (simp add: digit_value_def is_digit_def)
  show ?case
  proof (cases "n < 10")
    case True
    with d show ?thesis by (simp add: show_nat.simps [of n] digits_value_def)
  next
    case False
    with 1 d show ?thesis by (simp add: show_nat.simps [of n] digits_value_append)
  qed
qed

lemma show_nat_digits: "list_all is_digit (show_nat n)"
proof (induction n rule: show_nat.induct)
  case (1 n)
  then show ?case
    by (cases "n < 10") (simp_all add: show_nat.simps [of n] is_digit_def)
qed

lemma show_nat_nonempty [simp]: "show_nat n \<noteq> []"
  by (simp add: show_nat.simps [of n])

lemma digits_no_underscore: "list_all is_digit ds \<Longrightarrow> \<not> has_double_underscore ds \<and> strip_underscores ds = ds"
  by (induction ds rule: has_double_underscore.induct)
    (auto simp: is_digit_def strip_underscores_def)

lemma valid_digits_show_nat: "valid_digits is_digit (show_nat n)"
proof -
  have "\<forall>c \<in> set (show_nat n). is_digit c"
    using show_nat_digits by (simp add: list_all_iff)
  moreover from this have "is_digit (hd (show_nat n))" "is_digit (last (show_nat n))"
    by simp_all
  then have "hd (show_nat n) \<noteq> 95" "last (show_nat n) \<noteq> 95"
    by (auto simp: is_digit_def)
  ultimately show ?thesis
    using digits_no_underscore [OF show_nat_digits] by (simp add: valid_digits_def list_all_iff)
qed

lemma show_nat_no_leading_zero: "show_nat n = 48 # r \<Longrightarrow> n = 0 \<and> r = []"
proof (induction n arbitrary: r rule: show_nat.induct)
  case (1 n)
  show ?case
  proof (cases "n < 10")
    case True
    with "1.prems" show ?thesis by (simp add: show_nat.simps [of n])
  next
    case False
    then have "show_nat n = show_nat (n div 10) @ [48 + n mod 10]" by (simp add: show_nat.simps [of n])
    with "1.prems" obtain r' where "show_nat (n div 10) = 48 # r'"
      by (cases "show_nat (n div 10)") auto
    with "1.IH" False have "n div 10 = 0" by blast
    with False show ?thesis by simp
  qed
qed

lemma scan_number_show_nat:
  assumes "r = [] \<or> \<not> digit_or_underscore (hd r) \<and> hd r \<noteq> 46" and "n = 0 \<Longrightarrow> r = [] \<or> base_prefix (hd r) = None"
  shows "scan_number db p (show_nat n @ r) = Inr (mk_token T_NUMBER (show_nat n) (IntLit (int n)) p, r)"
proof -
  have tw: "takeWhile digit_or_underscore (show_nat n @ r) = show_nat n"
  proof -
    have "\<forall>c \<in> set (show_nat n). digit_or_underscore c"
      using show_nat_digits by (auto simp: list_all_iff digit_or_underscore_def)
    moreover have "takeWhile digit_or_underscore r = []" using assms(1) by (cases r) auto
    ultimately show ?thesis by simp
  qed
  have dec: "scan_decimal p (show_nat n @ r) = Inr (mk_token T_NUMBER (show_nat n) (IntLit (int n)) p, r)"
    using assms(1) valid_digits_show_nat digits_no_underscore [OF show_nat_digits]
    by (auto simp: scan_decimal_def tw Let_def digits_value_show_nat)
  show ?thesis
  proof (cases "2 \<le> length (show_nat n @ r) \<and> hd (show_nat n @ r) = 48")
    case False
    with dec show ?thesis by (auto simp: scan_number_def)
  next
    case True
    then obtain u where "show_nat n = 48 # u" by (cases "show_nat n") auto
    then have n: "n = 0" "show_nat n = [48]" using show_nat_no_leading_zero by blast+
    with True have "(show_nat n @ r) ! 1 = hd r" "r \<noteq> []" by (cases r; simp)+
    with n assms(2) dec show ?thesis by (auto simp: scan_number_def)
  qed
qed

text \<open>
  Escaping a text the way the language's grammar allows, and scanning the literal: quote,
  backslash and the four control escapes are escaped, everything else stands for itself.
\<close>

definition escape_char :: "uchar \<Rightarrow> ustr" where
  "escape_char c =
     (if c = 10 then [92, 110] else if c = 13 then [92, 114] else if c = 9 then [92, 116]
      else if c = 0 then [92, 48] else if c = 34 then [92, 34] else if c = 92 then [92, 92] else [c])"

definition quote :: "ustr \<Rightarrow> ustr" where
  "quote s = 34 # concat (map escape_char s) @ [34]"

lemma scan_chars_escape:
  "scan_chars False k (concat (map escape_char s) @ 34 # r) = Inr (s, k + length (concat (map escape_char s)))"
proof (induction s arbitrary: k)
  case Nil
  show ?case by simp
next
  case (Cons c s)
  then show ?case
    by (simp add: escape_char_def scan_escape_def simple_escape_def)
qed

lemma scan_string_quote:
  "scan_string place i False (quote s @ r) = Inr (mk_token T_STRING (quote s) (StrLit s) (place i), r)"
  by (simp add: scan_string_def quote_def scan_chars_escape Let_def)

subsection \<open>The properties of the lexer\<close>

definition capital_words :: "ustr set" where
  "capital_words = {U ''SEP'', U ''END_SEP'', U ''EMPTY'', U ''EMPTYS''}"

lemma KEYWORDS_lower:
  "map_of KEYWORDS w = Some t \<Longrightarrow> w \<notin> capital_words \<Longrightarrow> map ascii_lower w = w"
proof -
  assume "map_of KEYWORDS w = Some t" and n: "w \<notin> capital_words"
  then have "(w, t) \<in> set KEYWORDS" by (simp add: map_of_SomeD)
  moreover have "list_all (\<lambda>(w, t). w = U ''SEP'' \<or> w = U ''END_SEP'' \<or> w = U ''EMPTY'' \<or>
    w = U ''EMPTYS'' \<or> map ascii_lower w = w) KEYWORDS" by code_simp
  ultimately show ?thesis using n by (auto simp: list_all_iff capital_words_def)
qed

lemma keyword_kind_lower:
  "w \<notin> capital_words \<Longrightarrow> keyword_kind w
     = (case map_of KEYWORDS (map ascii_lower w) of Some t \<Rightarrow> t | None \<Rightarrow> T_IDENTIFIER)"
  using KEYWORDS_lower [of w] by (auto simp: keyword_kind_def split: option.splits)

text \<open>
  C21. A source that the lexer accepts becomes a stream of tokens that ends in its only EOF and
  has exactly one NEWLINE per line; every other token carries the position of a column of a line
  of the source, and its lexeme is the text found there (a tag's lexeme follows the \<open>@\<close>).
\<close>

theorem scan_tokens_stream:
  assumes "scan_tokens db source file_name = Inr toks"
  shows "\<exists>ts eof. toks = ts @ [eof] \<and> tok_type eof = T_EOF \<and>
    length (filter is_newline ts) = length (splitlines source) \<and>
    (\<forall>t \<in> set ts. is_newline t \<or> source_token file_name (splitlines source) t)"
  using scan_lines_tokens [of db file_name 0 "splitlines source" None "[]" toks] assms
  by (simp add: scan_tokens_def)

lemma scan_tokens_stream_witness:
  "\<exists>ts eof. projr (scan_tokens latin_tables (U ''x = 1 # y'') (U ''f'')) = ts @ [eof] \<and>
     length (filter is_newline ts) = 1"
proof -
  have "\<not> isl (scan_tokens latin_tables (U ''x = 1 # y'') (U ''f''))" by code_simp
  then have "scan_tokens latin_tables (U ''x = 1 # y'') (U ''f'')
    = Inr (projr (scan_tokens latin_tables (U ''x = 1 # y'') (U ''f'')))" by simp
  from scan_tokens_stream [OF this] obtain ts eof where
    "projr (scan_tokens latin_tables (U ''x = 1 # y'') (U ''f'')) = ts @ [eof]"
    "length (filter is_newline ts) = length (splitlines (U ''x = 1 # y''))" by blast
  moreover have "length (splitlines (U ''x = 1 # y'')) = 1" by code_simp
  ultimately show ?thesis by metis
qed

text \<open>
  C31. A string literal written with the escapes of the language is read back: whatever follows
  it, one step of the lexer yields a STRING token whose value is the text, and stops right after
  the closing quote.
\<close>

theorem string_literal_roundtrip:
  "next_token db place i (quote s @ r) out
     = Inr (Some (mk_token T_STRING (quote s) (StrLit s) (place i)), r)"
proof -
  have "scan_operator (quote s @ r) = None"
    by (simp add: quote_def scan_operator_def triples_def pairs_def singles_def single_def
        map_of_eq_None_iff U.simps)
  then show ?thesis
    using scan_string_quote [of place i s r]
    by (simp add: next_token_def quote_def emit_def)
qed

text \<open>
  The decimal text of a natural number is read back as that number, whatever follows it that
  cannot extend it.
\<close>

theorem integer_literal_roundtrip:
  fixes r :: ustr
  assumes "r = [] \<or> \<not> digit_or_underscore (hd r) \<and> hd r \<noteq> 46"
    and "n = 0 \<Longrightarrow> r = [] \<or> base_prefix (hd r) = None"
  shows "next_token db place i (show_nat n @ r) out
     = Inr (Some (mk_token T_NUMBER (show_nat n) (IntLit (int n)) (place i)), r)"
proof -
  obtain d ds where d: "show_nat n = d # ds" by (cases "show_nat n") auto
  then have dig: "is_digit d" using show_nat_digits [of n] by simp
  then have "scan_operator (show_nat n @ r) = None"
    by (auto simp: d scan_operator_def triples_def pairs_def singles_def single_def
        map_of_eq_None_iff U.simps is_digit_def)
  moreover have "scan_number db (place i) (show_nat n @ r)
    = Inr (mk_token T_NUMBER (show_nat n) (IntLit (int n)) (place i), r)"
    using assms by (rule scan_number_show_nat)
  ultimately show ?thesis using dig
    by (auto simp: next_token_def d emit_def is_digit_def)
qed

lemma integer_literal_roundtrip_witness:
  "next_token latin_tables (\<lambda>i. mk_pos [] 1 (i + 1) []) 0 (show_nat 407 @ U '')'') []
     = Inr (Some (mk_token T_NUMBER (show_nat 407) (IntLit 407) (mk_pos [] 1 1 [])), U '')'')"
proof -
  have "U '')'' = [] \<or> \<not> digit_or_underscore (hd (U '')'')) \<and> hd (U '')'') \<noteq> 46" by code_simp
  from integer_literal_roundtrip [OF this, of 407] show ?thesis by simp
qed

text \<open>
  An ASCII name that no name character follows is one token. It keeps its spelling, and its
  type does not depend on the case of its letters, except for the four keywords written in
  capitals (\<open>SEP\<close>, \<open>END_SEP\<close>, \<open>EMPTY\<close>, \<open>EMPTYS\<close>): \<open>While\<close> and \<open>NOT\<close> are keyword tokens whose
  lexeme is not the keyword's spelling.
\<close>

theorem name_token:
  assumes "list_all (\<lambda>c. ascii_letter c \<or> c = 95 \<or> is_digit c) w"
    and "w \<noteq> []" and "\<not> is_digit (hd w)" and "w \<notin> {U ''null'', U ''NULL''}"
    and "r = [] \<or> \<not> name_continue latin_tables (hd r) \<and> hd r \<noteq> 34"
    and "map ascii_lower w = map ascii_lower v" and "w \<notin> capital_words" and "v \<notin> capital_words"
  shows "\<exists>lit. next_token latin_tables place i (w @ r) out
     = Inr (Some (mk_token (keyword_kind v) w lit (place i)), r)"
proof -
  obtain c cs where w: "w = c # cs" using assms(2) by (cases w) auto
  with assms(1,3) have c: "ascii_letter c \<or> c = 95" "\<not> is_digit c" by auto
  then have s: "name_start latin_tables c"
    by (auto simp: latin.name_start_iff latin.start_ascii is_ascii_def ascii_letter_def)
  have q: "\<not> starts_with (cs @ r) [34]"
  proof (cases cs)
    case Nil
    with assms(5) show ?thesis by (cases r) auto
  next
    case (Cons a as)
    with assms(1) w show ?thesis by (auto simp: ascii_letter_def is_digit_def)
  qed
  have op: "scan_operator (w @ r) = None"
    using c by (auto simp: w scan_operator_def triples_def pairs_def singles_def single_def
        map_of_eq_None_iff U.simps ascii_letter_def)
  have k: "keyword_kind w = keyword_kind v" using assms(6-8) by (simp add: keyword_kind_lower)
  have "r = [] \<or> \<not> name_continue latin_tables (hd r)" using assms(5) by blast
  from latin.scan_ascii_word [OF assms(1,2) this assms(4), of "place i" "last_is_colon out"]
  obtain lit where "scan_word latin_tables (place i) (last_is_colon out) (w @ r)
    = Inr (mk_token (keyword_kind w) w lit (place i), r)" by blast
  with op c s q k show ?thesis
    by (auto simp: next_token_def w emit_def ascii_letter_def Let_def)
qed

lemma name_token_witness:
  "\<exists>lit. next_token latin_tables (\<lambda>i. mk_pos [] 1 (i + 1) []) 0 (U ''While'' @ U '' x'') []
     = Inr (Some (mk_token (keyword_kind (U ''while'')) (U ''While'') lit (mk_pos [] 1 1 [])), U '' x'')"
proof -
  have "list_all (\<lambda>c. ascii_letter c \<or> c = 95 \<or> is_digit c) (U ''While'')"
    "\<not> is_digit (hd (U ''While''))"
    "U '' x'' = [] \<or> \<not> name_continue latin_tables (hd (U '' x'')) \<and> hd (U '' x'') \<noteq> 34"
    "map ascii_lower (U ''While'') = map ascii_lower (U ''while'')" by code_simp+
  moreover have "U ''While'' \<notin> capital_words" "U ''while'' \<notin> capital_words"
    by (simp_all add: capital_words_def)
  ultimately show ?thesis
    using name_token [of "U ''While''" "U '' x''" "U ''while''" "\<lambda>i. mk_pos [] 1 (i + 1) []" 0 "[]"] by simp
qed

end
