(* ===== verification/Ast.thy ===== *)
theory Ast
  imports Lexer
begin

section \<open>Syntax trees\<close>

text \<open>
  \<open>ast_nodes.py\<close>: every node is a constructor whose first argument is the node's position (an
  \<open>IfBranch\<close> has it last, as in the source). Operators and names stay text, as the parser finds
  them in the lexemes. A declared type is its name and, for a list, the type of its elements: a
  name, or again a list type (\<open>None\<close> is Python's None).
\<close>

datatype type_spec = TName ustr | TList "type_spec option"

datatype literal = L_Token token_literal | L_EMPTY | L_EMPTYS

datatype expr =
    LiteralExpr source_position literal
  | VariableExpr source_position ustr
  | BinaryExpr source_position expr ustr expr
  | UnaryExpr source_position ustr expr
  | EmptyTestExpr source_position expr bool
  | EmptysTestExpr source_position expr bool
  | PositionSelectorExpr source_position ustr
  | GroupExpr source_position expr
  | CallExpr source_position ustr "expr list" "(ustr \<times> expr) list"
  | ListExpr source_position "expr list"
  | IndexExpr source_position expr expr
  | MemberExpr source_position expr ustr
  | MemberCallExpr source_position expr ustr "expr list" "(ustr \<times> expr) list"

datatype stmt =
    Assignment source_position ustr expr
  | IndexAssignment source_position ustr "expr list" expr
  | ConstDeclaration source_position ustr expr
  | TypedDeclaration source_position ustr ustr "type_spec option" expr bool
  | PrintStmt source_position expr
  | PrintErrorStmt source_position expr
  | ReturnStmt source_position "expr option"
  | ExpressionStmt source_position expr
  | ObjectBlock source_position ustr "object_entry list" source_position
  | ListBlock source_position ustr "expr list" source_position
  | ImportStmt source_position ustr ustr
  | TryStmt source_position ustr "stmt list" "catch_branch list" "stmt list option" source_position
  | ThrowStmt source_position expr
  | ErrorDecl source_position ustr source_position
  | HttpRouteDecl source_position ustr ustr ustr "stmt list" source_position
  | TransactionStmt source_position expr ustr "stmt list" source_position
  | IfStmt source_position ustr "if_branch list" "stmt list option" source_position
  | WhileStmt source_position ustr expr "stmt list" source_position
  | ForStmt source_position ustr ustr expr "stmt list" source_position
  | LogicDecl source_position ustr "ustr list" "ustr list" "stmt list" source_position
      "(ustr \<times> ustr \<times> type_spec option) list"
and object_entry =
    ObjectField source_position ustr expr "ustr option" "type_spec option"
  | BlockEntry stmt
and catch_branch = CatchBranch source_position ustr "stmt list"
and if_branch = IfBranch expr "stmt list" source_position

record program =
  program_position :: source_position
  program_statements :: "stmt list"

primrec expr_position :: "expr \<Rightarrow> source_position" where
  "expr_position (LiteralExpr p _) = p"
| "expr_position (VariableExpr p _) = p"
| "expr_position (BinaryExpr p _ _ _) = p"
| "expr_position (UnaryExpr p _ _) = p"
| "expr_position (EmptyTestExpr p _ _) = p"
| "expr_position (EmptysTestExpr p _ _) = p"
| "expr_position (PositionSelectorExpr p _) = p"
| "expr_position (GroupExpr p _) = p"
| "expr_position (CallExpr p _ _ _) = p"
| "expr_position (ListExpr p _) = p"
| "expr_position (IndexExpr p _ _) = p"
| "expr_position (MemberExpr p _ _) = p"
| "expr_position (MemberCallExpr p _ _ _ _) = p"

primrec stmt_position :: "stmt \<Rightarrow> source_position" where
  "stmt_position (Assignment p _ _) = p"
| "stmt_position (IndexAssignment p _ _ _) = p"
| "stmt_position (ConstDeclaration p _ _) = p"
| "stmt_position (TypedDeclaration p _ _ _ _ _) = p"
| "stmt_position (PrintStmt p _) = p"
| "stmt_position (PrintErrorStmt p _) = p"
| "stmt_position (ReturnStmt p _) = p"
| "stmt_position (ExpressionStmt p _) = p"
| "stmt_position (ObjectBlock p _ _ _) = p"
| "stmt_position (ListBlock p _ _ _) = p"
| "stmt_position (ImportStmt p _ _) = p"
| "stmt_position (TryStmt p _ _ _ _ _) = p"
| "stmt_position (ThrowStmt p _) = p"
| "stmt_position (ErrorDecl p _ _) = p"
| "stmt_position (HttpRouteDecl p _ _ _ _ _) = p"
| "stmt_position (TransactionStmt p _ _ _ _) = p"
| "stmt_position (IfStmt p _ _ _ _) = p"
| "stmt_position (WhileStmt p _ _ _ _) = p"
| "stmt_position (ForStmt p _ _ _ _ _) = p"
| "stmt_position (LogicDecl p _ _ _ _ _ _) = p"

definition is_import :: "stmt \<Rightarrow> bool" where
  "is_import st = (case st of ImportStmt _ _ _ \<Rightarrow> True | _ \<Rightarrow> False)"

end
