(* ===== verification/Parser.thy ===== *)
theory Parser
  imports Ast
begin

section \<open>Parser\<close>

text \<open>
  \<open>parser.py\<close>. The parser object is a state: the tokens, the index of the current one and the
  stack of open blocks (its top first, the end of Python's list). The set of SEP-local labels the
  source keeps per open SEP under \<open>id(sep)\<close> is a field of that block. A method is a computation
  that may raise a \<open>SeparanError\<close> and leaves the state behind, as \<open>parse_with_diagnostics\<close>
  needs. A \<open>while\<close> loop of the source is \<open>parser_loop\<close>, whose bound is the number of tokens
  left. The methods that call each other through nested syntax (\<open>_expression\<close>, \<open>_unary\<close>,
  \<open>_declared_type\<close>, \<open>_statement\<close>, \<open>_object\<close>) are called through the record \<open>parser_fns\<close>, which
  \<open>parser_n\<close> ties: \<open>parser_n n\<close> allows \<open>n\<close> nested calls.
\<close>

subsection \<open>State and token access\<close>

record open_block =
  ob_kind :: ustr
  ob_label :: ustr
  ob_position :: source_position
  ob_generic :: "nat list"

record parser =
  p_unicode :: unicode_db
  p_tokens :: "token list"
  p_current :: nat
  p_stack :: "open_block list"

type_synonym 'a parse = "(parser, sep_error, 'a) sem"

definition new_parser :: "unicode_db \<Rightarrow> token list \<Rightarrow> parser" where
  "new_parser db toks = \<lparr>p_unicode = db, p_tokens = toks, p_current = 0, p_stack = []\<rparr>"

definition token_ahead :: "nat \<Rightarrow> parser \<Rightarrow> token" where
  "token_ahead k s = p_tokens s ! min (p_current s + k) (length (p_tokens s) - 1)"

definition p_peek :: "nat \<Rightarrow> token parse" where
  "p_peek k = reads (token_ahead k)"

definition at_types :: "token_type list \<Rightarrow> parser \<Rightarrow> bool" where
  "at_types ks s \<longleftrightarrow> tok_type (token_ahead 0 s) \<in> set ks"

definition p_at :: "token_type list \<Rightarrow> bool parse" where
  "p_at ks = reads (at_types ks)"

definition p_advance :: "token parse" where
  "p_advance s = (Done (token_ahead 0 s), s\<lparr>p_current := p_current s + 1\<rparr>)"

definition p_previous :: "token parse" where
  "p_previous = reads (\<lambda>s. p_tokens s ! (p_current s - 1))"

definition p_match :: "token_type list \<Rightarrow> bool parse" where
  "p_match ks = andthen (p_at ks) (\<lambda>b. if b then andthen p_advance (\<lambda>_. ret True) else ret False)"

definition syntax_error :: "string \<Rightarrow> 'a parse" where
  "syntax_error cat = andthen (p_peek 0) (\<lambda>t. raise (mk_error_a 100 cat (tok_position t) (tok_lexeme t)))"

definition p_consume :: "token_type \<Rightarrow> token parse" where
  "p_consume k = andthen (p_at [k]) (\<lambda>b. if b then p_advance else syntax_error ''Syntax error'')"

definition p_consume_label :: "token parse" where
  "p_consume_label =
     andthen (p_at [T_IDENTIFIER, T_LABEL]) (\<lambda>b. if b then p_advance else syntax_error ''Syntax error'')"

definition tokens_left :: "parser \<Rightarrow> nat" where
  "tokens_left s = length (p_tokens s) - p_current s"

definition parser_loop :: "('a \<Rightarrow> ('a + 'b) parse) \<Rightarrow> 'a \<Rightarrow> 'b parse" where
  "parser_loop f a s = loop_n (Suc (tokens_left s)) f a s"

definition p_newlines :: "unit parse" where
  "p_newlines = parser_loop (\<lambda>_. andthen (p_match [T_NEWLINE]) (\<lambda>b. ret (if b then Inl () else Inr ()))) ()"

definition p_line_end :: "unit parse" where
  "p_line_end =
     andthen (p_at [T_NEWLINE, T_EOF]) (\<lambda>b.
       if \<not> b then syntax_error ''Unexpected token''
       else andthen (p_match [T_NEWLINE]) (\<lambda>_. ret ()))"

subsection \<open>Tables and texts\<close>

definition CLOSERS :: "(token_type \<times> ustr) list" where
  "CLOSERS = [(T_ENDIF, U ''if''), (T_ENDWHILE, U ''while''), (T_ENDFOR, U ''for''),
     (T_END_SEP, U ''SEP''), (T_END_OBJECT, U ''object''), (T_END_LIST, U ''list''),
     (T_ENDTRY, U ''try''), (T_END_ERROR, U ''error''), (T_END_HTTP_ROUTE, U ''http_route''),
     (T_END_TRANSACTION, U ''transaction'')]"

definition is_closer :: "token \<Rightarrow> bool" where
  "is_closer t \<longleftrightarrow> map_of CLOSERS (tok_type t) \<noteq> None"

definition ASSIGNMENTS :: "(token_type \<times> ustr option) list" where
  "ASSIGNMENTS = [(T_EQUAL, None), (T_PLUS_EQUAL, Some (U ''+'')), (T_MINUS_EQUAL, Some (U ''-'')),
     (T_STAR_EQUAL, Some (U ''*'')), (T_SLASH_EQUAL, Some (U ''/'')),
     (T_FLOOR_DIV_EQUAL, Some (U ''//'')), (T_PERCENT_EQUAL, Some (U ''%'')),
     (T_POWER_EQUAL, Some (U ''**''))]"

definition DECLARABLE_TYPES :: "ustr list" where
  "DECLARABLE_TYPES = map U [''number'', ''string'', ''boolean'', ''list'', ''object'', ''bytes'',
     ''datetime'', ''local_datetime'', ''timezone'', ''duration'', ''secret'',
     ''regex_match_result'', ''exec_result'', ''http_profile'', ''http_response'',
     ''http_auth'', ''oauth_token'', ''cookie_jar'', ''mail_address'',
     ''mail_message'', ''mail_sender'', ''mail_send_result'', ''xml_document'',
     ''xml_element'', ''db_connection'', ''board'', ''pin'', ''embedded_bus'',
     ''ip_address'', ''network_interface'', ''tcp_connection'', ''udp_socket'',
     ''dhcp_server'', ''dns_server'']"

definition closer_text :: "ustr \<Rightarrow> ustr \<Rightarrow> ustr" where
  "closer_text kind label =
     (if kind = U ''SEP'' then U ''END_SEP'' else if kind = U ''if'' then U ''endif''
      else if kind \<in> {U ''object'', U ''list'', U ''error'', U ''http_route'', U ''transaction''}
      then U ''end_'' @ kind else U ''end'' @ kind) @ U '':'' @ label"

definition block_closer :: "open_block \<Rightarrow> ustr" where
  "block_closer b = closer_text (ob_kind b) (ob_label b)"

definition type_name :: "token \<Rightarrow> ustr" where
  "type_name t =
     (if tok_type t = T_LIST then U ''list'' else if tok_type t = T_OBJECT then U ''object''
      else if tok_type t = T_IDENTIFIER then tok_lexeme t else [])"

fun format_spec :: "type_spec \<Rightarrow> ustr" where
  "format_spec (TName n) = n"
| "format_spec (TList None) = U ''list<None>''"
| "format_spec (TList (Some t)) = U ''list<'' @ format_spec t @ U ''>''"

definition format_type :: "ustr \<Rightarrow> type_spec option \<Rightarrow> ustr" where
  "format_type d e = (if d \<noteq> U ''list'' then d else format_spec (TList e))"

definition str_literal :: "token \<Rightarrow> ustr" where
  "str_literal t = (case tok_literal t of StrLit s \<Rightarrow> s | _ \<Rightarrow> [])"

subsection \<open>Labels and the stack of open blocks\<close>

definition p_binding :: "token \<Rightarrow> token parse" where
  "p_binding t =
     (if tok_lexeme t \<in> {U ''system'', U ''pin''}
      then raise (mk_error_a 215 ''Reserved context name'' (tok_position t) (tok_lexeme t))
      else ret t)"

text \<open>\<open>re.fullmatch(r"_([1-9][0-9]*)_", label)\<close>.\<close>

definition generic_label_number :: "ustr \<Rightarrow> nat option" where
  "generic_label_number l =
     (let ds = butlast (tl l)
      in if 3 \<le> length l \<and> hd l = 95 \<and> last l = 95 \<and> list_all is_digit ds \<and> hd ds \<noteq> 48
         then Some (digits_value 10 ds) else None)"

text \<open>The shape of a SEP-local label that is not one.\<close>

definition malformed_local_label :: "unicode_db \<Rightarrow> ustr \<Rightarrow> bool" where
  "malformed_local_label db l \<longleftrightarrow>
     starts_with l [95] \<and> (ends_with l [95] \<or> (2 \<le> length l \<and> is_udigit db (l ! 1))) \<and>
     generic_label_number l = None"

definition with_label :: "ustr \<Rightarrow> open_block list \<Rightarrow> open_block option" where
  \<comment> \<open>the outermost open block with the label\<close>
  "with_label l stack = List.find (\<lambda>b. ob_label b = l) (rev stack)"

definition open_sep :: "open_block list \<Rightarrow> open_block option" where
  "open_sep stack = List.find (\<lambda>b. ob_kind b = U ''SEP'') stack"

fun use_generic :: "nat \<Rightarrow> open_block list \<Rightarrow> open_block list" where
  "use_generic n [] = []"
| "use_generic n (b # bs) =
     (if ob_kind b = U ''SEP'' then b\<lparr>ob_generic := n # ob_generic b\<rparr> # bs else b # use_generic n bs)"

definition new_block :: "ustr \<Rightarrow> token \<Rightarrow> open_block" where
  "new_block kind l =
     \<lparr>ob_kind = kind, ob_label = tok_lexeme l, ob_position = tok_position l, ob_generic = []\<rparr>"

definition p_push :: "ustr \<Rightarrow> token \<Rightarrow> unit parse" where
  "p_push kind l =
     (let generic = generic_label_number (tok_lexeme l) in
      andthen (reads (\<lambda>s. malformed_local_label (p_unicode s) (tok_lexeme l))) (\<lambda>bad.
      if bad then raise (mk_error_a 101 ''Invalid SEP-local label'' (tok_position l) (tok_lexeme l)) else
      andthen (reads p_stack) (\<lambda>stack.
      case with_label (tok_lexeme l) stack of
        Some b \<Rightarrow> raise ((mk_error_a 109 ''Duplicate open label'' (tok_position l) (tok_lexeme l))
                    \<lparr>err_related := Some (ob_position b)\<rparr>)
      | None \<Rightarrow>
          andthen
            (case generic of
               None \<Rightarrow> ret ()
             | Some n \<Rightarrow>
                 (case open_sep stack of
                    None \<Rightarrow> raise (mk_error_a 109 ''SEP-local label outside SEP'' (tok_position l) (tok_lexeme l))
                  | Some sep \<Rightarrow>
                      if n \<in> set (ob_generic sep)
                      then raise ((mk_error_a 109 ''Duplicate SEP-local label'' (tok_position l) (tok_lexeme l))
                        \<lparr>err_related := Some (ob_position sep)\<rparr>)
                      else modifies (\<lambda>s. s\<lparr>p_stack := use_generic n (p_stack s)\<rparr>)))
            (\<lambda>_. modifies (\<lambda>s. s\<lparr>p_stack := new_block kind l # p_stack s\<rparr>)))))"

text \<open>\<open>stack[-1]\<close>; the methods use it only where a block is open.\<close>

definition top_block :: "parser \<Rightarrow> open_block" where
  "top_block s = hd (p_stack s)"

definition p_mismatch :: "token \<Rightarrow> ustr \<Rightarrow> ustr \<Rightarrow> source_position option \<Rightarrow> 'a parse" where
  "p_mismatch t expected prefix related =
     andthen (reads top_block) (\<lambda>top.
       raise ((mk_error_ea 104 ''Block label mismatch'' (tok_position t)
           (prefix @ U '':'' @ expected) (prefix @ U '':'' @ tok_lexeme t))
         \<lparr>err_related := Some (case related of Some p \<Rightarrow> p | None \<Rightarrow> ob_position top)\<rparr>))"

definition nesting_error :: "string \<Rightarrow> token \<Rightarrow> ustr \<Rightarrow> open_block \<Rightarrow> sep_error" where
  "nesting_error cat closer label opened =
     (mk_error_ea 105 cat (tok_position closer) (block_closer opened) (tok_lexeme closer @ U '':'' @ label))
       \<lparr>err_related := Some (ob_position opened)\<rparr>"

definition p_branch_label :: "token \<Rightarrow> ustr \<Rightarrow> unit parse" where
  "p_branch_label l branch =
     andthen (p_consume T_COLON) (\<lambda>_.
     andthen p_consume_label (\<lambda>actual.
     andthen (if tok_lexeme actual \<noteq> tok_lexeme l then p_mismatch actual (tok_lexeme l) branch None else ret ())
       (\<lambda>_. p_line_end)))"

definition p_close :: "token_type \<Rightarrow> ustr \<Rightarrow> unit parse" where
  "p_close k kind =
     andthen (p_consume k) (\<lambda>closer.
     andthen (p_consume T_COLON) (\<lambda>_.
     andthen p_consume_label (\<lambda>label.
     andthen (reads p_stack) (\<lambda>stack.
     let opened = hd stack in
     andthen
       (if tok_lexeme label \<noteq> ob_label opened
        then (if \<exists>b \<in> set (tl stack). ob_kind b = kind \<and> ob_label b = tok_lexeme label
              then raise (nesting_error ''Block nesting error'' closer (tok_lexeme label) opened)
              else p_mismatch label (ob_label opened) (tok_lexeme closer) (Some (ob_position opened)))
        else ret ())
     (\<lambda>_. andthen p_line_end (\<lambda>_.
     modifies (\<lambda>s. s\<lparr>p_stack := tl (p_stack s)\<rparr>)))))))"

text \<open>The label after a closer; the index is in range, since a closer is not the final EOF.\<close>

definition closer_label :: "parser \<Rightarrow> ustr" where
  "closer_label s =
     (if tok_type (token_ahead 1 s) = T_COLON \<and> tok_type (token_ahead 2 s) \<in> {T_IDENTIFIER, T_LABEL}
      then tok_lexeme (token_ahead 2 s) else U ''<missing>'')"

definition p_unexpected_or_nesting :: "token \<Rightarrow> 'a parse" where
  "p_unexpected_or_nesting closer =
     andthen (reads closer_label) (\<lambda>label.
     andthen (reads p_stack) (\<lambda>stack.
     let kind = the (map_of CLOSERS (tok_type closer)) in
     if stack \<noteq> [] \<and> ob_label (hd stack) = label \<and> ob_kind (hd stack) \<noteq> kind
     then raise (nesting_error ''Block kind mismatch'' closer label (hd stack))
     else if \<exists>b \<in> set stack. ob_kind b = kind \<and> ob_label b = label
     then raise (nesting_error ''Block nesting error'' closer label (hd stack))
     else raise (mk_error_a 107 ''Unexpected block closer'' (tok_position closer)
       (tok_lexeme closer @ U '':'' @ label))))"

definition p_opening_label :: "ustr \<Rightarrow> token parse" where
  "p_opening_label kind =
     andthen (p_consume T_COLON) (\<lambda>_.
     andthen p_consume_label (\<lambda>label.
     andthen p_line_end (\<lambda>_.
     andthen (p_push kind label) (\<lambda>_. ret label))))"

definition p_top_error :: "token \<Rightarrow> 'a parse" where
  "p_top_error t = raise (mk_error_a 110 ''Invalid top-level statement'' (tok_position t) (tok_lexeme t))"

definition p_reject_closer :: "unit parse" where
  \<comment> \<open>\<open>if self._peek().type in self.CLOSERS: self._unexpected_or_nesting(self._peek())\<close>\<close>
  "p_reject_closer =
     andthen (p_peek 0) (\<lambda>t. if is_closer t then p_unexpected_or_nesting t else ret ())"

subsection \<open>The methods that recur through nested syntax\<close>

record parser_fns =
  f_expression :: "expr parse"
  f_unary :: "expr parse"
  f_declared_type :: "(ustr \<times> type_spec option) parse"
  f_statement :: "bool \<Rightarrow> stmt parse"
  f_object :: "stmt parse"

subsection \<open>Expressions\<close>

text \<open>\<open>sub ((op) sub)*\<close>, to the left. (The source's flag \<open>once\<close> is never set.)\<close>

definition p_binary :: "expr parse \<Rightarrow> token_type list \<Rightarrow> expr parse" where
  "p_binary sub types =
     andthen sub (\<lambda>e0.
     parser_loop (\<lambda>e.
       andthen (p_at types) (\<lambda>b.
       if b then andthen p_advance (\<lambda>op. andthen sub (\<lambda>right.
         ret (Inl (BinaryExpr (tok_position op) e (tok_lexeme op) right))))
       else ret (Inr e))) e0)"

definition p_chained :: "token \<Rightarrow> 'a parse" where
  "p_chained t = raise (mk_error_a 111 ''Chained comparison'' (tok_position t) (tok_lexeme t))"

definition p_reject_chain :: "(parser \<Rightarrow> bool) \<Rightarrow> unit parse" where
  "p_reject_chain c =
     andthen (reads c) (\<lambda>b. if b then andthen (p_peek 0) p_chained else ret ())"

text \<open>The argument loop: positional arguments, then \<open>name = value\<close>.\<close>

definition p_argument ::
  "parser_fns \<Rightarrow> expr list \<times> (ustr \<times> expr) list \<Rightarrow>
   (expr list \<times> (ustr \<times> expr) list + expr list \<times> (ustr \<times> expr) list) parse" where
  "p_argument r acc =
     (let (args, named) = acc in
      andthen
        (andthen (p_at [T_IDENTIFIER]) (\<lambda>i. andthen (p_peek 1) (\<lambda>t.
         if i \<and> tok_type t = T_EQUAL then
           andthen p_advance (\<lambda>name. andthen p_advance (\<lambda>_.
           if map_of named (tok_lexeme name) \<noteq> None
           then raise (mk_error_a 113 ''Duplicate named argument'' (tok_position name) (tok_lexeme name))
           else andthen (f_expression r) (\<lambda>e. ret (args, named @ [(tok_lexeme name, e)]))))
         else if named \<noteq> [] then
           andthen (p_peek 0) (\<lambda>u.
           raise (mk_error_a 114 ''Positional argument after named argument'' (tok_position u) (tok_lexeme u)))
         else andthen (f_expression r) (\<lambda>e. ret (args @ [e], named)))))
        (\<lambda>acc'. andthen (p_match [T_COMMA]) (\<lambda>c. ret (if c then Inl acc' else Inr acc'))))"

definition p_call_arguments :: "parser_fns \<Rightarrow> (expr list \<times> (ustr \<times> expr) list) parse" where
  "p_call_arguments r =
     andthen (p_at [T_RPAREN]) (\<lambda>close.
     andthen (if close then ret ([], []) else parser_loop (p_argument r) ([], [])) (\<lambda>acc.
     andthen (p_consume T_RPAREN) (\<lambda>_. ret acc)))"

definition p_elements :: "parser_fns \<Rightarrow> expr list parse" where
  "p_elements r =
     parser_loop (\<lambda>values. andthen (f_expression r) (\<lambda>e.
       andthen (p_match [T_COMMA]) (\<lambda>c. ret (if c then Inl (values @ [e]) else Inr (values @ [e]))))) []"

definition p_primary :: "parser_fns \<Rightarrow> expr parse" where
  "p_primary r =
     andthen (p_match [T_NUMBER, T_STRING, T_TRUE, T_FALSE]) (\<lambda>b.
     if b then andthen p_previous (\<lambda>t. ret (LiteralExpr (tok_position t) (L_Token (tok_literal t)))) else
     andthen (p_match [T_EMPTY]) (\<lambda>b.
     if b then andthen p_previous (\<lambda>t. ret (LiteralExpr (tok_position t) L_EMPTY)) else
     andthen (p_match [T_EMPTYS]) (\<lambda>b.
     if b then andthen p_previous (\<lambda>t. ret (LiteralExpr (tok_position t) L_EMPTYS)) else
     andthen (p_match [T_FRONT, T_BACK]) (\<lambda>b.
     if b then andthen p_previous (\<lambda>t. ret (PositionSelectorExpr (tok_position t) (tok_lexeme t))) else
     andthen (p_match [T_LBRACKET]) (\<lambda>b.
     if b then
       andthen p_previous (\<lambda>t.
       andthen (p_at [T_RBRACKET]) (\<lambda>close.
       andthen (if close then ret [] else p_elements r) (\<lambda>values.
       andthen (p_consume T_RBRACKET) (\<lambda>_. ret (ListExpr (tok_position t) values))))) else
     andthen (p_match [T_IDENTIFIER]) (\<lambda>b.
     if b then
       andthen p_previous (\<lambda>t.
       andthen (p_match [T_LPAREN]) (\<lambda>call.
       if call then
         andthen (p_call_arguments r) (\<lambda>(args, named).
         ret (CallExpr (tok_position t) (tok_lexeme t) args named))
       else ret (VariableExpr (tok_position t) (tok_lexeme t)))) else
     andthen (p_match [T_LPAREN]) (\<lambda>b.
     if b then
       andthen p_previous (\<lambda>opening.
       andthen (f_expression r) (\<lambda>e.
       andthen (p_consume T_RPAREN) (\<lambda>_. ret (GroupExpr (tok_position opening) e)))) else
     syntax_error ''Expected expression'')))))))"

definition p_postfix_step :: "parser_fns \<Rightarrow> expr \<Rightarrow> (expr + expr) parse" where
  "p_postfix_step r e =
     andthen (p_at [T_LBRACKET, T_DOT]) (\<lambda>more.
     if \<not> more then ret (Inr e) else
     andthen (p_match [T_LBRACKET]) (\<lambda>b.
     if b then
       andthen p_previous (\<lambda>t.
       andthen (f_expression r) (\<lambda>i.
       andthen (p_consume T_RBRACKET) (\<lambda>_. ret (Inl (IndexExpr (tok_position t) e i)))))
     else
       andthen p_advance (\<lambda>t.
       andthen (p_consume T_IDENTIFIER) (\<lambda>name.
       andthen (p_match [T_LPAREN]) (\<lambda>call.
       if call then
         andthen (p_call_arguments r) (\<lambda>(args, named).
         ret (Inl (MemberCallExpr (tok_position t) e (tok_lexeme name) args named)))
       else ret (Inl (MemberExpr (tok_position t) e (tok_lexeme name))))))))"

definition p_postfix :: "parser_fns \<Rightarrow> expr parse" where
  "p_postfix r = andthen (p_primary r) (parser_loop (p_postfix_step r))"

definition p_power :: "parser_fns \<Rightarrow> expr parse" where
  "p_power r =
     andthen (p_postfix r) (\<lambda>e.
     andthen (p_match [T_POWER]) (\<lambda>b.
     if b then
       andthen p_previous (\<lambda>op.
       andthen (f_unary r) (\<lambda>right. ret (BinaryExpr (tok_position op) e (tok_lexeme op) right)))
     else ret e))"

definition p_unary :: "parser_fns \<Rightarrow> expr parse" where
  "p_unary r =
     andthen (p_match [T_BANG, T_NOT, T_MINUS]) (\<lambda>b.
     if b then
       andthen p_previous (\<lambda>op.
       andthen (f_unary r) (\<lambda>e. ret (UnaryExpr (tok_position op) (tok_lexeme op) e)))
     else p_power r)"

definition p_factor :: "parser_fns \<Rightarrow> expr parse" where
  "p_factor r = p_binary (p_unary r) [T_STAR, T_SLASH, T_FLOOR_DIV, T_PERCENT]"

definition p_term :: "parser_fns \<Rightarrow> expr parse" where
  "p_term r = p_binary (p_factor r) [T_PLUS, T_MINUS]"

definition at_comparison :: "parser \<Rightarrow> bool" where
  "at_comparison s \<longleftrightarrow>
     at_types [T_GREATER, T_GREATER_EQUAL, T_LESS, T_LESS_EQUAL, T_IN] s \<or>
     at_types [T_NOT] s \<and> tok_type (token_ahead 1 s) = T_IN"

definition p_comparison :: "parser_fns \<Rightarrow> expr parse" where
  "p_comparison r =
     andthen (p_term r) (\<lambda>e.
     andthen (reads at_comparison) (\<lambda>b.
     andthen
       (if b then
          andthen p_advance (\<lambda>op.
          andthen (if tok_type op = T_NOT then andthen p_advance (\<lambda>_. ret (U ''not in''))
                   else ret (tok_lexeme op)) (\<lambda>lexeme.
          andthen (p_term r) (\<lambda>right. ret (BinaryExpr (tok_position op) e lexeme right))))
        else ret e)
     (\<lambda>e'. andthen (p_reject_chain at_comparison) (\<lambda>_. ret e'))))"

definition p_empty_test :: "parser_fns \<Rightarrow> expr parse" where
  "p_empty_test r =
     andthen (p_comparison r) (\<lambda>e.
     andthen (p_match [T_IS]) (\<lambda>b.
     andthen
       (if b then
          andthen p_previous (\<lambda>op.
          andthen (p_match [T_NOT]) (\<lambda>negated.
          andthen (p_match [T_EMPTY]) (\<lambda>b1.
          if b1 then ret (EmptyTestExpr (tok_position op) e negated) else
          andthen (p_match [T_EMPTYS]) (\<lambda>b2.
          if b2 then ret (EmptysTestExpr (tok_position op) e negated) else
          andthen (p_peek 0) (\<lambda>t.
          raise (mk_error_ea 128 ''Invalid state test'' (tok_position t) (U ''EMPTY or EMPTYS'') (tok_lexeme t)))))))
        else ret e)
     (\<lambda>e'. andthen (p_reject_chain (at_types [T_IS])) (\<lambda>_. ret e'))))"

definition is_state_test :: "expr \<Rightarrow> bool" where
  "is_state_test e = (case e of EmptyTestExpr _ _ _ \<Rightarrow> True | EmptysTestExpr _ _ _ \<Rightarrow> True | _ \<Rightarrow> False)"

definition is_binary_of :: "ustr list \<Rightarrow> expr \<Rightarrow> bool" where
  "is_binary_of ops e = (case e of BinaryExpr _ _ op _ \<Rightarrow> op \<in> set ops | _ \<Rightarrow> False)"

definition is_state_literal :: "expr \<Rightarrow> bool" where
  "is_state_literal e =
     (case e of LiteralExpr _ L_EMPTY \<Rightarrow> True | LiteralExpr _ L_EMPTYS \<Rightarrow> True | _ \<Rightarrow> False)"

definition order_operators :: "ustr list" where
  "order_operators = map U [''>'', ''<'', ''>='', ''<='', ''in'', ''not in'']"

definition equality_operators :: "ustr list" where
  "equality_operators = map U [''=='', ''!='']"

definition p_equality :: "parser_fns \<Rightarrow> expr parse" where
  "p_equality r =
     andthen (p_empty_test r) (\<lambda>e.
     andthen (p_at [T_EQUAL_EQUAL, T_BANG_EQUAL]) (\<lambda>b.
     andthen
       (if b then
          andthen p_advance (\<lambda>op.
          andthen (if is_state_test e \<or> is_binary_of (order_operators @ equality_operators) e
                   then p_chained op else ret ()) (\<lambda>_.
          andthen (p_empty_test r) (\<lambda>right.
          if is_state_literal e \<or> is_state_literal right
          then raise (mk_error_ea 128 ''Invalid state test'' (tok_position op) (U ''is EMPTY or is EMPTYS'') (tok_lexeme op))
          else andthen (if is_state_test right \<or> is_binary_of order_operators right
                        then p_chained op else ret ()) (\<lambda>_.
          ret (BinaryExpr (tok_position op) e (tok_lexeme op) right)))))
        else ret e)
     (\<lambda>e'. andthen (p_reject_chain (at_types
           [T_EQUAL_EQUAL, T_BANG_EQUAL, T_GREATER, T_GREATER_EQUAL, T_LESS, T_LESS_EQUAL])) (\<lambda>_. ret e'))))"

definition p_and :: "parser_fns \<Rightarrow> expr parse" where
  "p_and r = p_binary (p_equality r) [T_AND]"

definition p_or :: "parser_fns \<Rightarrow> expr parse" where
  "p_or r = p_binary (p_and r) [T_OR]"

text \<open>\<open>_expression\<close> is \<open>_coalesce\<close>, which recurs to the right.\<close>

definition p_coalesce :: "parser_fns \<Rightarrow> expr parse" where
  "p_coalesce r =
     andthen (p_or r) (\<lambda>e.
     andthen (p_match [T_EMPTY_COALESCE]) (\<lambda>b.
     if b then
       andthen p_previous (\<lambda>op.
       andthen (f_expression r) (\<lambda>right. ret (BinaryExpr (tok_position op) e (tok_lexeme op) right)))
     else ret e))"

subsection \<open>Declared types\<close>

definition p_declared_type :: "parser_fns \<Rightarrow> (ustr \<times> type_spec option) parse" where
  "p_declared_type r =
     andthen p_advance (\<lambda>t.
     let declared = type_name t in
     if declared \<notin> set DECLARABLE_TYPES
     then raise (mk_error_ea 123 ''Unknown declared type'' (tok_position t) (U ''a supported Separan type'') declared)
     else if declared = U ''list'' then
       andthen (p_consume T_LESS) (\<lambda>_.
       andthen (p_at [T_IDENTIFIER, T_OBJECT, T_LIST]) (\<lambda>b.
       andthen (if b then ret () else andthen (p_consume T_IDENTIFIER) (\<lambda>_. ret ())) (\<lambda>_.
       andthen (f_declared_type r) (\<lambda>(element, nested).
       andthen (p_consume T_GREATER) (\<lambda>_.
       ret (declared, Some (if element = U ''list'' then TList nested else TName element)))))))
     else ret (declared, None))"

definition starts_typed_declaration :: "parser \<Rightarrow> bool" where
  "starts_typed_declaration s =
     (let declared = type_name (token_ahead 0 s)
      in declared \<in> set DECLARABLE_TYPES \<and>
         (if declared = U ''list'' then tok_type (token_ahead 1 s) = T_LESS
          else tok_type (token_ahead 1 s) = T_IDENTIFIER))"

definition looks_like_uninitialized :: "parser \<Rightarrow> bool" where
  "looks_like_uninitialized s \<longleftrightarrow>
     type_name (token_ahead 0 s) \<in> set DECLARABLE_TYPES \<and> tok_type (token_ahead 1 s) = T_IDENTIFIER"

text \<open>
  \<open>_is_index_assignment\<close> looks ahead over bracketed groups to an \<open>=\<close>; \<open>after_brackets\<close> skips one
  group and is None when the line ends inside it.
\<close>

fun after_brackets :: "nat \<Rightarrow> token_type list \<Rightarrow> token_type list option" where
  "after_brackets depth [] = None"
| "after_brackets depth (k # ks) =
     (if k = T_NEWLINE \<or> k = T_EOF then None
      else if k = T_LBRACKET then after_brackets (depth + 1) ks
      else if k = T_RBRACKET then (if depth \<le> 1 then Some ks else after_brackets (depth - 1) ks)
      else after_brackets depth ks)"

lemma after_brackets_shorter: "after_brackets d ks = Some r \<Longrightarrow> length r < length ks"
  by (induction d ks rule: after_brackets.induct) (auto split: if_splits)

function index_target :: "token_type list \<Rightarrow> bool" where
  "index_target ks =
     (case ks of [] \<Rightarrow> False
      | k # _ \<Rightarrow>
          if k = T_LBRACKET
          then (case after_brackets 0 ks of None \<Rightarrow> False | Some r \<Rightarrow> index_target r)
          else k = T_EQUAL)"
  by pat_completeness auto
termination
  by (relation "measure length") (auto dest: after_brackets_shorter)

definition is_index_assignment :: "parser \<Rightarrow> bool" where
  "is_index_assignment s \<longleftrightarrow>
     at_types [T_IDENTIFIER] s \<and> tok_type (token_ahead 1 s) = T_LBRACKET \<and>
     index_target (map tok_type (drop (Suc (p_current s)) (p_tokens s)))"

subsection \<open>Statements\<close>

definition p_typed_declaration :: "parser_fns \<Rightarrow> token \<Rightarrow> bool \<Rightarrow> stmt parse" where
  "p_typed_declaration r start constant =
     andthen (p_declared_type r) (\<lambda>(declared, element).
     andthen (p_consume T_IDENTIFIER) (\<lambda>t. andthen (p_binding t) (\<lambda>name.
     andthen (p_match [T_EQUAL]) (\<lambda>b.
     if \<not> b then
       (let shown = format_type declared element @ U '' '' @ tok_lexeme name
        in raise (mk_error_ea 124 ''Initializer required'' (tok_position name) (shown @ U '' = value'') shown))
     else
       andthen (f_expression r) (\<lambda>v.
       andthen p_line_end (\<lambda>_.
       ret (TypedDeclaration (tok_position start) (tok_lexeme name) declared element v constant)))))))"

text \<open>\<open>_body_until(endings)\<close>: statements up to one of the endings.\<close>

definition p_body_step ::
  "parser_fns \<Rightarrow> token_type list \<Rightarrow> stmt list \<Rightarrow> (stmt list + stmt list) parse" where
  "p_body_step r endings body =
     andthen (p_at (endings @ [T_EOF])) (\<lambda>stop.
     if stop then ret (Inr body) else
     andthen p_reject_closer (\<lambda>_.
     andthen (f_statement r False) (\<lambda>st.
     andthen p_newlines (\<lambda>_. ret (Inl (body @ [st]))))))"

definition p_unclosed :: "unit parse" where
  "p_unclosed =
     andthen (p_at [T_EOF]) (\<lambda>eof.
     if eof then
       andthen (reads top_block) (\<lambda>opened.
       raise ((mk_error 106 ''Unclosed block'' (ob_position opened))
         \<lparr>err_expected := Some (block_closer opened), err_related := Some (ob_position opened)\<rparr>))
     else ret ())"

definition p_body_until :: "parser_fns \<Rightarrow> token_type list \<Rightarrow> stmt list parse" where
  "p_body_until r endings =
     andthen p_newlines (\<lambda>_.
     andthen (parser_loop (p_body_step r endings) []) (\<lambda>body.
     andthen p_unclosed (\<lambda>_. ret body)))"

definition p_parameter ::
  "parser_fns \<Rightarrow> ustr list \<times> (ustr \<times> ustr \<times> type_spec option) list \<Rightarrow>
   (ustr list \<times> (ustr \<times> ustr \<times> type_spec option) list +
    ustr list \<times> (ustr \<times> ustr \<times> type_spec option) list) parse" where
  "p_parameter r acc =
     (let (params, types) = acc in
      andthen (p_consume T_IDENTIFIER) (\<lambda>t. andthen (p_binding t) (\<lambda>parameter.
      let name = tok_lexeme parameter in
      if name \<in> set params
      then raise (mk_error_a 112 ''Duplicate parameter'' (tok_position parameter) name)
      else
        andthen (p_match [T_COLON]) (\<lambda>colon.
        andthen
          (if colon then
             andthen (p_peek 0) (\<lambda>u.
             if type_name u \<notin> set DECLARABLE_TYPES
             then raise (mk_error_ea 123 ''Unknown declared type'' (tok_position u)
                    (U ''a supported Separan type'') (tok_lexeme u))
             else andthen (p_declared_type r) (\<lambda>ty. ret (types @ [(name, ty)])))
           else ret types) (\<lambda>types'.
        andthen (p_match [T_COMMA]) (\<lambda>comma.
        ret (if comma then Inl (params @ [name], types') else Inr (params @ [name], types'))))))))"

definition p_parameters :: "parser_fns \<Rightarrow> (ustr list \<times> (ustr \<times> ustr \<times> type_spec option) list) parse" where
  "p_parameters r =
     andthen (p_match [T_LPAREN]) (\<lambda>b.
     if b then
       andthen (p_at [T_RPAREN]) (\<lambda>close.
       andthen (if close then ret ([], []) else parser_loop (p_parameter r) ([], [])) (\<lambda>acc.
       andthen (p_consume T_RPAREN) (\<lambda>_. ret acc)))
     else ret ([], []))"

definition p_tag_step :: "ustr list \<Rightarrow> (ustr list + ustr list) parse" where
  "p_tag_step tags =
     andthen (p_match [T_TAG]) (\<lambda>b.
     if \<not> b then ret (Inr tags) else
     andthen p_previous (\<lambda>tag.
     if tok_lexeme tag \<in> set tags
     then raise (mk_error_a 218 ''Duplicate SEP tag'' (tok_position tag) (U ''@'' @ tok_lexeme tag))
     else andthen p_line_end (\<lambda>_. andthen p_newlines (\<lambda>_. ret (Inl (tags @ [tok_lexeme tag]))))))"

definition p_sep :: "parser_fns \<Rightarrow> stmt parse" where
  "p_sep r =
     andthen p_advance (\<lambda>start. andthen (p_consume T_COLON) (\<lambda>_.
     andthen (p_consume T_IDENTIFIER) (\<lambda>t. andthen (p_binding t) (\<lambda>name.
     andthen (p_parameters r) (\<lambda>(params, types).
     andthen p_line_end (\<lambda>_. andthen (p_push (U ''SEP'') name) (\<lambda>_. andthen p_newlines (\<lambda>_.
     andthen (parser_loop p_tag_step []) (\<lambda>tags.
     andthen (p_body_until r [T_END_SEP]) (\<lambda>body.
     andthen (p_close T_END_SEP (U ''SEP'')) (\<lambda>_.
     ret (LogicDecl (tok_position start) (tok_lexeme name) params tags body (tok_position name) types))))))))))))"

definition p_import :: "stmt parse" where
  "p_import =
     andthen p_advance (\<lambda>start. andthen (p_consume T_STRING) (\<lambda>path.
     andthen (p_consume T_AS) (\<lambda>_.
     andthen (p_consume T_IDENTIFIER) (\<lambda>t. andthen (p_binding t) (\<lambda>alias.
     andthen p_line_end (\<lambda>_.
     ret (ImportStmt (tok_position start) (str_literal path) (tok_lexeme alias))))))))"

definition p_error_declaration :: "stmt parse" where
  "p_error_declaration =
     andthen p_advance (\<lambda>start. andthen (p_consume T_COLON) (\<lambda>_.
     andthen (p_consume T_IDENTIFIER) (\<lambda>name.
     if \<not> ends_with (tok_lexeme name) (U ''_error'')
     then raise (mk_error_a 121 ''Invalid error name'' (tok_position name) (tok_lexeme name))
     else
       andthen p_line_end (\<lambda>_. andthen (p_push (U ''error'') name) (\<lambda>_. andthen p_newlines (\<lambda>_.
       andthen (p_close T_END_ERROR (U ''error'')) (\<lambda>_.
       ret (ErrorDecl (tok_position start) (tok_lexeme name) (tok_position name)))))))))"

definition route_methods :: "ustr list" where
  "route_methods = map U [''GET'', ''HEAD'', ''POST'', ''PUT'', ''PATCH'', ''DELETE'']"

definition p_http_route :: "parser_fns \<Rightarrow> stmt parse" where
  "p_http_route r =
     andthen p_advance (\<lambda>start. andthen (p_consume T_IDENTIFIER) (\<lambda>m.
     if tok_lexeme m \<notin> set route_methods
     then raise (mk_error_a 891 ''Invalid route method'' (tok_position m) (tok_lexeme m)) else
     andthen (p_consume T_STRING) (\<lambda>path.
     let p = str_literal path in
     if \<not> starts_with p [47] \<or> 63 \<in> set p \<or> 35 \<in> set p
     then raise (mk_error_a 892 ''Invalid route path'' (tok_position path) p) else
     andthen (p_opening_label (U ''http_route'')) (\<lambda>label.
     andthen (p_body_until r [T_END_HTTP_ROUTE]) (\<lambda>body.
     andthen (p_close T_END_HTTP_ROUTE (U ''http_route'')) (\<lambda>_.
     ret (HttpRouteDecl (tok_position start) (tok_lexeme m) p (tok_lexeme label) body (tok_position label))))))))"

definition p_block_list_step :: "parser_fns \<Rightarrow> expr list \<Rightarrow> (expr list + expr list) parse" where
  "p_block_list_step r elements =
     andthen (p_at [T_END_LIST, T_EOF]) (\<lambda>stop.
     if stop then ret (Inr elements) else
     andthen p_reject_closer (\<lambda>_.
     andthen (f_expression r) (\<lambda>e.
     andthen p_line_end (\<lambda>_. andthen p_newlines (\<lambda>_. ret (Inl (elements @ [e])))))))"

definition p_block_list :: "parser_fns \<Rightarrow> stmt parse" where
  "p_block_list r =
     andthen p_advance (\<lambda>start. andthen (p_consume T_COLON) (\<lambda>_.
     andthen (p_consume T_IDENTIFIER) (\<lambda>t. andthen (p_binding t) (\<lambda>name.
     andthen p_line_end (\<lambda>_. andthen (p_push (U ''list'') name) (\<lambda>_. andthen p_newlines (\<lambda>_.
     andthen (parser_loop (p_block_list_step r) []) (\<lambda>elements.
     andthen (p_at [T_EOF]) (\<lambda>eof.
     andthen (if eof then andthen (p_body_until r [T_END_LIST]) (\<lambda>_. ret ()) else ret ()) (\<lambda>_.
     andthen (p_close T_END_LIST (U ''list'')) (\<lambda>_.
     ret (ListBlock (tok_position start) (tok_lexeme name) elements (tok_position name)))))))))))))"

text \<open>The name and the position of an entry of an object block.\<close>

definition entry_name :: "object_entry \<Rightarrow> ustr" where
  "entry_name e =
     (case e of ObjectField _ n _ _ _ \<Rightarrow> n
      | BlockEntry st \<Rightarrow> (case st of ObjectBlock _ n _ _ \<Rightarrow> n | ListBlock _ n _ _ \<Rightarrow> n | _ \<Rightarrow> []))"

definition entry_position :: "object_entry \<Rightarrow> source_position" where
  "entry_position e = (case e of ObjectField p _ _ _ _ \<Rightarrow> p | BlockEntry st \<Rightarrow> stmt_position st)"

definition p_object_entry :: "parser_fns \<Rightarrow> object_entry parse" where
  "p_object_entry r =
     andthen (p_peek 0) (\<lambda>t. andthen (p_peek 1) (\<lambda>u.
     andthen (reads starts_typed_declaration) (\<lambda>typed.
     if typed then
       andthen (p_declared_type r) (\<lambda>(ty, element).
       andthen (p_consume T_IDENTIFIER) (\<lambda>f. andthen (p_binding f) (\<lambda>name.
       andthen (p_consume T_EQUAL) (\<lambda>_.
       andthen (f_expression r) (\<lambda>v. andthen p_line_end (\<lambda>_.
       ret (ObjectField (tok_position name) (tok_lexeme name) v (Some ty) element)))))))
     else if tok_type t = T_OBJECT then andthen (f_object r) (\<lambda>st. ret (BlockEntry st))
     else if tok_type t = T_LIST then andthen (p_block_list r) (\<lambda>st. ret (BlockEntry st))
     else if tok_type t = T_IDENTIFIER \<and> tok_type u = T_EQUAL then
       andthen p_advance (\<lambda>f. andthen p_advance (\<lambda>_.
       andthen (f_expression r) (\<lambda>v. andthen p_line_end (\<lambda>_.
       ret (ObjectField (tok_position f) (tok_lexeme f) v None None)))))
     else raise (mk_error_a 115 ''Invalid object entry'' (tok_position t) (tok_lexeme t)))))"

definition p_object_step ::
  "parser_fns \<Rightarrow> object_entry list \<Rightarrow> (object_entry list + object_entry list) parse" where
  "p_object_step r entries =
     andthen (p_at [T_END_OBJECT, T_EOF]) (\<lambda>stop.
     if stop then ret (Inr entries) else
     andthen p_reject_closer (\<lambda>_.
     andthen (p_object_entry r) (\<lambda>e.
     if entry_name e \<in> entry_name ` set entries
     then raise (mk_error_a 116 ''Duplicate object field'' (entry_position e) (entry_name e))
     else andthen p_newlines (\<lambda>_. ret (Inl (entries @ [e]))))))"

definition p_object :: "parser_fns \<Rightarrow> stmt parse" where
  "p_object r =
     andthen p_advance (\<lambda>start. andthen (p_consume T_COLON) (\<lambda>_.
     andthen (p_consume T_IDENTIFIER) (\<lambda>t. andthen (p_binding t) (\<lambda>name.
     andthen p_line_end (\<lambda>_. andthen (p_push (U ''object'') name) (\<lambda>_. andthen p_newlines (\<lambda>_.
     andthen (parser_loop (p_object_step r) []) (\<lambda>entries.
     andthen (p_at [T_EOF]) (\<lambda>eof.
     andthen (if eof then andthen (p_body_until r [T_END_OBJECT]) (\<lambda>_. ret ()) else ret ()) (\<lambda>_.
     andthen (p_close T_END_OBJECT (U ''object'')) (\<lambda>_.
     ret (ObjectBlock (tok_position start) (tok_lexeme name) entries (tok_position name)))))))))))))"

subsection \<open>Control blocks\<close>

definition p_catch_step ::
  "parser_fns \<Rightarrow> token \<Rightarrow> catch_branch list \<times> ustr list \<Rightarrow>
   (catch_branch list \<times> ustr list + catch_branch list) parse" where
  "p_catch_step r label acc =
     (let (catches, seen) = acc in
      andthen (p_match [T_CATCH]) (\<lambda>b.
      if \<not> b then ret (Inr catches) else
      andthen p_previous (\<lambda>catch_token.
      andthen (p_consume T_IDENTIFIER) (\<lambda>category.
      let name = tok_lexeme category in
      if name \<in> set seen then raise (mk_error_a 117 ''Duplicate catch'' (tok_position category) name)
      else if U ''any'' \<in> set seen then raise (mk_error_a 118 ''Catch after any'' (tok_position category) name)
      else
        andthen (p_branch_label label (U ''catch'')) (\<lambda>_.
        andthen (p_body_until r [T_CATCH, T_FINALLY, T_ENDTRY]) (\<lambda>body.
        ret (Inl (catches @ [CatchBranch (tok_position catch_token) name body], seen @ [name]))))))))"

definition p_try :: "parser_fns \<Rightarrow> stmt parse" where
  "p_try r =
     andthen p_advance (\<lambda>start. andthen (p_opening_label (U ''try'')) (\<lambda>label.
     andthen (p_body_until r [T_CATCH, T_FINALLY, T_ENDTRY]) (\<lambda>body.
     andthen (parser_loop (p_catch_step r label) ([], [])) (\<lambda>catches.
     andthen (p_match [T_FINALLY]) (\<lambda>b.
     andthen
       (if b then andthen (p_branch_label label (U ''finally'')) (\<lambda>_.
                  andthen (p_body_until r [T_ENDTRY]) (\<lambda>f. ret (Some f)))
        else ret None) (\<lambda>finally_body.
     andthen (p_close T_ENDTRY (U ''try'')) (\<lambda>_.
     if catches = [] \<and> finally_body = None
     then raise (mk_error 119 ''Empty try handler'' (tok_position start))
     else ret (TryStmt (tok_position start) (tok_lexeme label) body catches finally_body
       (tok_position label)))))))))"

definition p_transaction :: "parser_fns \<Rightarrow> stmt parse" where
  "p_transaction r =
     andthen p_advance (\<lambda>start. andthen (f_expression r) (\<lambda>connection.
     andthen (p_opening_label (U ''transaction'')) (\<lambda>label.
     andthen (p_body_until r [T_END_TRANSACTION]) (\<lambda>body.
     andthen (p_close T_END_TRANSACTION (U ''transaction'')) (\<lambda>_.
     ret (TransactionStmt (tok_position start) connection (tok_lexeme label) body (tok_position label)))))))"

text \<open>
  The branches of an \<open>if\<close>: the loop state is the finished branches with the condition and the
  position of the open one.
\<close>

definition p_if_step ::
  "parser_fns \<Rightarrow> token \<Rightarrow> if_branch list \<times> expr \<times> source_position \<Rightarrow>
   (if_branch list \<times> expr \<times> source_position + if_branch list \<times> stmt list option) parse" where
  "p_if_step r label acc =
     (let (done_branches, condition, pos) = acc in
      andthen (p_body_until r [T_ELSEIF, T_ELSE, T_ENDIF]) (\<lambda>body.
      let branches = done_branches @ [IfBranch condition body pos] in
      andthen (p_match [T_ELSEIF]) (\<lambda>b.
      if b then
        andthen p_previous (\<lambda>elseif_token.
        andthen (f_expression r) (\<lambda>cond.
        andthen (p_branch_label label (U ''elseif'')) (\<lambda>_.
        ret (Inl (branches, cond, tok_position elseif_token)))))
      else
        andthen (p_match [T_ELSE]) (\<lambda>b.
        if b then
          andthen (p_branch_label label (U ''else'')) (\<lambda>_.
          andthen (p_body_until r [T_ELSEIF, T_ELSE, T_ENDIF]) (\<lambda>else_body.
          andthen (p_at [T_ELSEIF, T_ELSE]) (\<lambda>again.
          if again then
            andthen (p_peek 0) (\<lambda>t.
            raise (mk_error_a 108 ''Invalid if branch'' (tok_position t) (tok_lexeme t)))
          else ret (Inr (branches, Some else_body)))))
        else ret (Inr (branches, None))))))"

definition p_if :: "parser_fns \<Rightarrow> stmt parse" where
  "p_if r =
     andthen p_advance (\<lambda>start. andthen (f_expression r) (\<lambda>condition.
     andthen (p_opening_label (U ''if'')) (\<lambda>label.
     andthen (parser_loop (p_if_step r label) ([], condition, tok_position start)) (\<lambda>(branches, else_body).
     andthen (p_close T_ENDIF (U ''if'')) (\<lambda>_.
     ret (IfStmt (tok_position start) (tok_lexeme label) branches else_body (tok_position label)))))))"

definition p_while :: "parser_fns \<Rightarrow> stmt parse" where
  "p_while r =
     andthen p_advance (\<lambda>start. andthen (f_expression r) (\<lambda>condition.
     andthen (p_opening_label (U ''while'')) (\<lambda>label.
     andthen (p_body_until r [T_ENDWHILE]) (\<lambda>body.
     andthen (p_close T_ENDWHILE (U ''while'')) (\<lambda>_.
     ret (WhileStmt (tok_position start) (tok_lexeme label) condition body (tok_position label)))))))"

definition p_for :: "parser_fns \<Rightarrow> stmt parse" where
  "p_for r =
     andthen p_advance (\<lambda>start.
     andthen (p_consume T_IDENTIFIER) (\<lambda>t. andthen (p_binding t) (\<lambda>var.
     andthen (p_consume T_IN) (\<lambda>_. andthen (f_expression r) (\<lambda>iterable.
     andthen (p_opening_label (U ''for'')) (\<lambda>label.
     andthen (p_body_until r [T_ENDFOR]) (\<lambda>body.
     andthen (p_close T_ENDFOR (U ''for'')) (\<lambda>_.
     ret (ForStmt (tok_position start) (tok_lexeme label) (tok_lexeme var) iterable body
       (tok_position label))))))))))"

subsection \<open>One statement\<close>

text \<open>\<open>value = self._expression(); self._line_end()\<close>.\<close>

definition p_value_line :: "parser_fns \<Rightarrow> expr parse" where
  "p_value_line r = andthen (f_expression r) (\<lambda>v. andthen p_line_end (\<lambda>_. ret v))"

definition p_tag_error :: "token \<Rightarrow> 'a parse" where
  "p_tag_error t =
     andthen (reads p_stack) (\<lambda>stack.
     if \<exists>b \<in> set stack. ob_kind b = U ''SEP''
     then raise (mk_error_a 217 ''SEP tag must appear before executable statements'' (tok_position t)
       (U ''@'' @ tok_lexeme t))
     else raise (mk_error_a 216 ''SEP tag outside SEP'' (tok_position t) (U ''@'' @ tok_lexeme t)))"

definition p_end_trigger_error :: "token \<Rightarrow> 'a parse" where
  "p_end_trigger_error t =
     andthen (reads p_stack) (\<lambda>stack.
     raise (mk_error_ea 122 ''Incomplete structural completion token'' (tok_position t)
       (if stack = [] then U ''a complete block closer'' else join_with [10] (map block_closer stack))
       (U '':end'')))"

definition p_index_assignment :: "parser_fns \<Rightarrow> stmt parse" where
  "p_index_assignment r =
     andthen p_advance (\<lambda>t. andthen (p_binding t) (\<lambda>name.
     andthen
       (parser_loop (\<lambda>indexes.
          andthen (p_match [T_LBRACKET]) (\<lambda>b.
          if \<not> b then ret (Inr indexes) else
          andthen (f_expression r) (\<lambda>e.
          andthen (p_consume T_RBRACKET) (\<lambda>_. ret (Inl (indexes @ [e])))))) []) (\<lambda>indexes.
     andthen (p_consume T_EQUAL) (\<lambda>_.
     andthen (p_value_line r) (\<lambda>v.
     ret (IndexAssignment (tok_position name) (tok_lexeme name) indexes v))))))"

definition p_assignment :: "parser_fns \<Rightarrow> stmt parse" where
  "p_assignment r =
     andthen p_advance (\<lambda>t. andthen (p_binding t) (\<lambda>name.
     andthen p_advance (\<lambda>op.
     andthen (p_value_line r) (\<lambda>v.
     ret (Assignment (tok_position name) (tok_lexeme name)
       (case the (map_of ASSIGNMENTS (tok_type op)) of
          None \<Rightarrow> v
        | Some operator \<Rightarrow>
            BinaryExpr (tok_position op) (VariableExpr (tok_position name) (tok_lexeme name)) operator v))))))"

definition p_const :: "parser_fns \<Rightarrow> token \<Rightarrow> stmt parse" where
  "p_const r start =
     andthen p_advance (\<lambda>_.
     andthen (reads starts_typed_declaration) (\<lambda>typed.
     if typed then p_typed_declaration r start True else
     andthen (p_consume T_IDENTIFIER) (\<lambda>t. andthen (p_binding t) (\<lambda>name.
     andthen (p_consume T_EQUAL) (\<lambda>_.
     andthen (p_value_line r) (\<lambda>v.
     ret (ConstDeclaration (tok_position start) (tok_lexeme name) v)))))))"

definition p_return :: "parser_fns \<Rightarrow> token \<Rightarrow> stmt parse" where
  "p_return r start =
     andthen p_advance (\<lambda>_.
     andthen (p_at [T_NEWLINE, T_EOF]) (\<lambda>bare.
     andthen (if bare then ret None else andthen (f_expression r) (\<lambda>v. ret (Some v))) (\<lambda>v.
     andthen p_line_end (\<lambda>_. ret (ReturnStmt (tok_position start) v)))))"

definition top_only :: "bool \<Rightarrow> nat \<Rightarrow> string \<Rightarrow> token \<Rightarrow> stmt parse \<Rightarrow> stmt parse" where
  "top_only outer code cat t m = (if \<not> outer then raise (mk_error code cat (tok_position t)) else m)"

definition not_top :: "bool \<Rightarrow> token \<Rightarrow> stmt parse \<Rightarrow> stmt parse" where
  "not_top outer t m = (if outer then p_top_error t else m)"

definition p_uninitialized_error :: "token \<Rightarrow> token \<Rightarrow> 'a parse" where
  "p_uninitialized_error t name =
     (let shown = type_name t @ U '' '' @ tok_lexeme name
      in raise (mk_error_ea 124 ''Initializer required'' (tok_position name) (shown @ U '' = value'') shown))"

text \<open>The last cases of \<open>_statement\<close>: assignments and expressions.\<close>

definition p_simple_statement :: "parser_fns \<Rightarrow> bool \<Rightarrow> token \<Rightarrow> stmt parse" where
  "p_simple_statement r outer t =
     andthen (reads is_index_assignment) (\<lambda>indexed.
     andthen (p_peek 1) (\<lambda>t1. andthen (p_peek 2) (\<lambda>t2. andthen (p_peek 3) (\<lambda>t3.
     let expression_statement =
       andthen (p_value_line r) (\<lambda>e. ret (ExpressionStmt (tok_position t) e)) in
     if indexed then p_index_assignment r
     else if tok_type t = T_IDENTIFIER \<and> map_of ASSIGNMENTS (tok_type t1) \<noteq> None then p_assignment r
     else if tok_type t = T_IDENTIFIER \<and> tok_type t1 = T_DOT \<and> tok_type t2 = T_IDENTIFIER \<and>
       tok_type t3 = T_EQUAL
     then raise (mk_error_a 214 ''Immutable member'' (tok_position t) (tok_lexeme t @ U ''.'' @ tok_lexeme t2))
     else if outer \<and> tok_type t = T_IDENTIFIER \<and> tok_lexeme t \<in> {U ''http_host'', U ''http_static''}
     then expression_statement
     else not_top outer t expression_statement))))"

definition p_keyword_statement :: "parser_fns \<Rightarrow> bool \<Rightarrow> token \<Rightarrow> stmt parse" where
  "p_keyword_statement r outer t =
     (let line = (\<lambda>f. andthen p_advance (\<lambda>_. andthen (p_value_line r) (\<lambda>v. ret (f (tok_position t) v)))) in
      if tok_type t = T_OBJECT then p_object r
      else if tok_type t = T_LIST then p_block_list r
      else if tok_type t = T_TRY then not_top outer t (p_try r)
      else if tok_type t = T_TRANSACTION then not_top outer t (p_transaction r)
      else if tok_type t = T_THROW then not_top outer t (line ThrowStmt)
      else if tok_type t = T_IF then not_top outer t (p_if r)
      else if tok_type t = T_WHILE then not_top outer t (p_while r)
      else if tok_type t = T_FOR then not_top outer t (p_for r)
      else if tok_type t = T_PRINT then line PrintStmt
      else if tok_type t = T_PRINT_ERROR then line PrintErrorStmt
      else if tok_type t = T_RETURN then not_top outer t (p_return r t)
      else if tok_type t = T_CONST then p_const r t
      else p_simple_statement r outer t)"

definition p_statement :: "parser_fns \<Rightarrow> bool \<Rightarrow> stmt parse" where
  "p_statement r outer =
     andthen (p_peek 0) (\<lambda>t. andthen (p_peek 1) (\<lambda>t1.
     if tok_type t = T_TAG then p_tag_error t
     else if tok_type t = T_COLON \<and> tok_type t1 = T_IDENTIFIER \<and> tok_lexeme t1 = U ''end''
     then p_end_trigger_error t
     else if tok_type t = T_IMPORT then top_only outer 703 ''Nested import'' t p_import
     else if tok_type t = T_ERROR then top_only outer 120 ''Nested error declaration'' t p_error_declaration
     else if tok_type t = T_HTTP_ROUTE then top_only outer 890 ''Nested HTTP route'' t (p_http_route r)
     else if tok_type t = T_IDENTIFIER \<and> tok_lexeme t = U ''function''
     then raise (mk_error_a 100 ''Legacy function syntax is not supported'' (tok_position t) (U ''function''))
     else if tok_type t = T_SEP then
       (if \<not> outer then raise (mk_error_a 110 ''Invalid nested SEP'' (tok_position t) (tok_lexeme t)) else p_sep r)
     else
       andthen (reads starts_typed_declaration) (\<lambda>typed.
       andthen (reads looks_like_uninitialized) (\<lambda>bare.
       if typed then p_typed_declaration r t False
       else if bare then p_uninitialized_error t t1
       else p_keyword_statement r outer t))))"

subsection \<open>Tying the knot, and the program\<close>

definition parser_step :: "parser_fns \<Rightarrow> parser_fns" where
  "parser_step r = \<lparr>f_expression = p_coalesce r, f_unary = p_unary r,
     f_declared_type = p_declared_type r, f_statement = p_statement r, f_object = p_object r\<rparr>"

definition parser_bottom :: parser_fns where
  "parser_bottom = \<lparr>f_expression = no_fuel, f_unary = no_fuel, f_declared_type = no_fuel,
     f_statement = (\<lambda>_. no_fuel), f_object = no_fuel\<rparr>"

primrec parser_n :: "nat \<Rightarrow> parser_fns" where
  "parser_n 0 = parser_bottom"
| "parser_n (Suc n) = parser_step (parser_n n)"

definition p_top_statement :: "parser_fns \<Rightarrow> bool \<Rightarrow> stmt parse" where
  "p_top_statement r seen_executable =
     andthen p_reject_closer (\<lambda>_.
     andthen (f_statement r True) (\<lambda>st.
     if is_import st \<and> seen_executable
     then raise (mk_error 702 ''Late import'' (stmt_position st)) else ret st))"

definition p_program_step ::
  "parser_fns \<Rightarrow> stmt list \<times> bool \<Rightarrow> (stmt list \<times> bool + stmt list) parse" where
  "p_program_step r acc =
     (let (statements, seen_executable) = acc in
      andthen (p_at [T_EOF]) (\<lambda>eof.
      if eof then ret (Inr statements) else
      andthen (p_top_statement r seen_executable) (\<lambda>st.
      andthen p_newlines (\<lambda>_.
      ret (Inl (statements @ [st], seen_executable \<or> \<not> is_import st))))))"

definition p_program :: "parser_fns \<Rightarrow> program parse" where
  "p_program r =
     andthen p_newlines (\<lambda>_.
     andthen (parser_loop (p_program_step r) ([], False)) (\<lambda>statements.
     andthen (p_peek 0) (\<lambda>t.
     ret \<lparr>program_position = tok_position t, program_statements = statements\<rparr>)))"

definition parse :: "unicode_db \<Rightarrow> token list \<Rightarrow> (sep_error, program) outcome" where
  "parse db toks = fst (p_program (parser_n (Suc (length toks))) (new_parser db toks))"

subsection \<open>Parsing on after errors\<close>

definition clear_stack :: "unit parse" where
  "clear_stack = modifies (\<lambda>s. s\<lparr>p_stack := []\<rparr>)"

definition p_skip_line :: "unit parse" where
  "p_skip_line =
     parser_loop (\<lambda>_. andthen (p_at [T_NEWLINE, T_EOF]) (\<lambda>b.
       if b then ret (Inr ()) else andthen p_advance (\<lambda>_. ret (Inl ())))) ()"

definition token_line :: "token \<Rightarrow> nat" where
  "token_line t = pos_line (tok_position t)"

definition p_recover_block :: "token_type list \<Rightarrow> nat \<Rightarrow> token \<Rightarrow> unit parse" where
  "p_recover_block closers start start_token =
     parser_loop (\<lambda>_.
       andthen (p_at [T_EOF]) (\<lambda>eof.
       if eof then andthen clear_stack (\<lambda>_. ret (Inr ())) else
       andthen (p_peek 0) (\<lambda>t. andthen (reads p_current) (\<lambda>i.
       if tok_type t \<in> set closers then
         andthen p_advance (\<lambda>_. andthen p_skip_line (\<lambda>_. andthen p_newlines (\<lambda>_.
         andthen clear_stack (\<lambda>_. ret (Inr ())))))
       else if start < i \<and> tok_type t = T_SEP \<and> token_line start_token < token_line t
       then andthen clear_stack (\<lambda>_. ret (Inr ()))
       else andthen p_advance (\<lambda>_. ret (Inl ())))))) ()"

definition p_recover_line :: "token \<Rightarrow> unit parse" where
  "p_recover_line start_token =
     andthen
       (parser_loop (\<lambda>_.
          andthen (p_at [T_NEWLINE, T_EOF]) (\<lambda>b. andthen (p_peek 0) (\<lambda>t.
          if b \<or> token_line t \<noteq> token_line start_token then ret (Inr ())
          else andthen p_advance (\<lambda>_. ret (Inl ()))))) ())
       (\<lambda>_. p_newlines)"

definition recovery_kind :: "nat \<Rightarrow> parser \<Rightarrow> ustr option" where
  "recovery_kind start s =
     (if p_stack s \<noteq> [] then Some (ob_kind (last (p_stack s)))
      else if tok_type (p_tokens s ! start) = T_SEP then Some (U ''SEP'') else None)"

definition p_recover_top_level :: "nat \<Rightarrow> unit parse" where
  "p_recover_top_level start =
     andthen (reads (\<lambda>s. p_tokens s ! start)) (\<lambda>start_token.
     andthen (reads (recovery_kind start)) (\<lambda>kind.
     case kind of
       Some k \<Rightarrow> p_recover_block (map fst (filter (\<lambda>(_, k'). k' = k) CLOSERS)) start start_token
     | None \<Rightarrow> p_recover_line start_token))"

definition p_diagnostics_step ::
  "parser_fns \<Rightarrow> stmt list \<times> bool \<times> sep_error list \<Rightarrow>
   (stmt list \<times> bool \<times> sep_error list + stmt list \<times> sep_error list) parse" where
  "p_diagnostics_step r acc =
     (let (statements, seen_executable, diagnostics) = acc in
      andthen (p_at [T_EOF]) (\<lambda>eof.
      if eof then ret (Inr (statements, diagnostics)) else
      andthen (reads p_current) (\<lambda>start.
      catching
        (andthen (p_top_statement r seen_executable) (\<lambda>st.
         andthen p_newlines (\<lambda>_.
         ret (Inl (statements @ [st], seen_executable \<or> \<not> is_import st, diagnostics)))))
        (\<lambda>e. andthen (p_recover_top_level start) (\<lambda>_.
         ret (Inl (statements, seen_executable, diagnostics @ [e])))))))"

definition p_program_with_diagnostics :: "parser_fns \<Rightarrow> (program \<times> sep_error list) parse" where
  "p_program_with_diagnostics r =
     andthen p_newlines (\<lambda>_.
     andthen (parser_loop (p_diagnostics_step r) ([], False, [])) (\<lambda>(statements, diagnostics).
     andthen (p_peek 0) (\<lambda>t.
     ret (\<lparr>program_position = tok_position t, program_statements = statements\<rparr>, diagnostics))))"

definition parse_with_diagnostics ::
  "unicode_db \<Rightarrow> token list \<Rightarrow> (sep_error, program \<times> sep_error list) outcome" where
  "parse_with_diagnostics db toks =
     fst (p_program_with_diagnostics (parser_n (Suc (length toks))) (new_parser db toks))"

end
