(* ===== verification/Parser_Facts.thy ===== *)
theory Parser_Facts
  imports Parser
begin

section \<open>Parser: fuel and expressions\<close>

text \<open>
  More fuel gives the same result (the locale \<open>fueled\<close>), the positions a parse moves through, and
  the contracts of the expression methods (the locale \<open>expression_calls\<close>): they end within as many
  nested calls as there are tokens left, move forward, leave the stack of open blocks alone, and
  never chain comparisons. \<open>Parser_Blocks\<close> goes on with statements and programs.
\<close>

subsection \<open>Recursion by fuel\<close>

text \<open>
  A family of methods that call each other through a record of functions is the limit of
  \<open>step ^^ n\<close> on a record that always runs out of fuel. What the step must promise is that
  better results of the calls give better results of the methods.
\<close>

locale fueled =
  fixes le :: "'r \<Rightarrow> 'r \<Rightarrow> bool" and step :: "'r \<Rightarrow> 'r" and bottom :: 'r
  assumes le_refl: "le r r"
    and le_trans: "le r r' \<Longrightarrow> le r' r'' \<Longrightarrow> le r r''"
    and le_bottom: "le bottom r"
    and step_mono: "le r r' \<Longrightarrow> le (step r) (step r')"
begin

lemma powers_mono: "m \<le> n \<Longrightarrow> le ((step ^^ m) bottom) ((step ^^ n) bottom)"
proof (induction m arbitrary: n)
  case 0
  show ?case by (simp add: le_bottom)
next
  case (Suc m)
  then obtain k where "n = Suc k" "m \<le> k" by (cases n) auto
  with Suc.IH show ?case by (simp add: step_mono)
qed

end

definition parser_le :: "parser_fns \<Rightarrow> parser_fns \<Rightarrow> bool" where
  "parser_le r r' \<longleftrightarrow>
     refines (f_expression r) (f_expression r') \<and> refines (f_unary r) (f_unary r') \<and>
     refines (f_declared_type r) (f_declared_type r') \<and>
     (\<forall>b. refines (f_statement r b) (f_statement r' b)) \<and> refines (f_object r) (f_object r')"

lemma refines_parser_loop [refine_intros]:
  "(\<And>a. refines (f a) (f' a)) \<Longrightarrow> refines (parser_loop f a) (parser_loop f' a)"
  using refines_loop_n [of f f'] by (simp add: parser_loop_def refines_def del: loop_n.simps)

lemma parser_leD:
  assumes "parser_le r r'"
  shows "refines (f_expression r) (f_expression r')" "refines (f_unary r) (f_unary r')"
    "refines (f_declared_type r) (f_declared_type r')"
    "refines (f_statement r b) (f_statement r' b)" "refines (f_object r) (f_object r')"
  using assms by (auto simp: parser_le_def)

lemma refines_binary [refine_intros]:
  "refines m m' \<Longrightarrow> refines (p_binary m ks) (p_binary m' ks)"
  by (auto simp: p_binary_def intro!: refine_intros)

named_theorems parser_mono \<open>every method is monotone in the calls it makes\<close>

lemma call_arguments_mono [parser_mono]:
  "parser_le r r' \<Longrightarrow> refines (p_call_arguments r) (p_call_arguments r')"
  by (auto simp: p_call_arguments_def p_argument_def dest: parser_leD intro!: refine_intros)

lemma elements_mono [parser_mono]: "parser_le r r' \<Longrightarrow> refines (p_elements r) (p_elements r')"
  by (auto simp: p_elements_def dest: parser_leD intro!: refine_intros)

lemma primary_mono [parser_mono]: "parser_le r r' \<Longrightarrow> refines (p_primary r) (p_primary r')"
  by (auto simp: p_primary_def dest: parser_leD intro!: refine_intros parser_mono)

lemma postfix_mono [parser_mono]: "parser_le r r' \<Longrightarrow> refines (p_postfix r) (p_postfix r')"
  by (auto simp: p_postfix_def p_postfix_step_def dest: parser_leD intro!: refine_intros parser_mono)

lemma unary_mono [parser_mono]: "parser_le r r' \<Longrightarrow> refines (p_unary r) (p_unary r')"
  by (auto simp: p_unary_def p_power_def dest: parser_leD intro!: refine_intros parser_mono)

lemma term_mono [parser_mono]: "parser_le r r' \<Longrightarrow> refines (p_term r) (p_term r')"
  by (auto simp: p_term_def p_factor_def intro!: refine_intros parser_mono)

lemma empty_test_mono [parser_mono]: "parser_le r r' \<Longrightarrow> refines (p_empty_test r) (p_empty_test r')"
  by (auto simp: p_empty_test_def p_comparison_def intro!: refine_intros parser_mono)

lemma equality_mono [parser_mono]: "parser_le r r' \<Longrightarrow> refines (p_equality r) (p_equality r')"
  by (auto simp: p_equality_def intro!: refine_intros parser_mono)

lemma coalesce_mono [parser_mono]: "parser_le r r' \<Longrightarrow> refines (p_coalesce r) (p_coalesce r')"
  by (auto simp: p_coalesce_def p_or_def p_and_def dest: parser_leD intro!: refine_intros parser_mono)

lemma declared_type_mono [parser_mono]:
  "parser_le r r' \<Longrightarrow> refines (p_declared_type r) (p_declared_type r')"
  by (auto simp: p_declared_type_def Let_def dest: parser_leD intro!: refine_intros parser_mono)

lemma typed_declaration_mono [parser_mono]:
  "parser_le r r' \<Longrightarrow> refines (p_typed_declaration r t b) (p_typed_declaration r' t b)"
  by (auto simp: p_typed_declaration_def dest: parser_leD intro!: refine_intros parser_mono)

lemma body_until_mono [parser_mono]:
  "parser_le r r' \<Longrightarrow> refines (p_body_until r ks) (p_body_until r' ks)"
  by (auto simp: p_body_until_def p_body_step_def dest: parser_leD intro!: refine_intros parser_mono)

lemma parameters_mono [parser_mono]: "parser_le r r' \<Longrightarrow> refines (p_parameters r) (p_parameters r')"
  by (auto simp: p_parameters_def p_parameter_def Let_def intro!: refine_intros parser_mono)

lemma sep_mono [parser_mono]: "parser_le r r' \<Longrightarrow> refines (p_sep r) (p_sep r')"
  by (auto simp: p_sep_def intro!: refine_intros parser_mono)

lemma http_route_mono [parser_mono]: "parser_le r r' \<Longrightarrow> refines (p_http_route r) (p_http_route r')"
  by (auto simp: p_http_route_def Let_def intro!: refine_intros parser_mono)

lemma block_list_mono [parser_mono]: "parser_le r r' \<Longrightarrow> refines (p_block_list r) (p_block_list r')"
  by (auto simp: p_block_list_def p_block_list_step_def dest: parser_leD intro!: refine_intros parser_mono)

lemma object_entry_mono [parser_mono]:
  "parser_le r r' \<Longrightarrow> refines (p_object_entry r) (p_object_entry r')"
  by (auto simp: p_object_entry_def dest: parser_leD intro!: refine_intros parser_mono)

lemma object_mono [parser_mono]: "parser_le r r' \<Longrightarrow> refines (p_object r) (p_object r')"
  by (auto simp: p_object_def p_object_step_def intro!: refine_intros parser_mono)

lemma try_mono [parser_mono]: "parser_le r r' \<Longrightarrow> refines (p_try r) (p_try r')"
  by (auto simp: p_try_def p_catch_step_def Let_def intro!: refine_intros parser_mono)

lemma if_mono [parser_mono]: "parser_le r r' \<Longrightarrow> refines (p_if r) (p_if r')"
  by (auto simp: p_if_def p_if_step_def Let_def dest: parser_leD intro!: refine_intros parser_mono)

lemma control_mono [parser_mono]:
  assumes "parser_le r r'"
  shows "refines (p_transaction r) (p_transaction r')" "refines (p_while r) (p_while r')"
    "refines (p_for r) (p_for r')" "refines (p_value_line r) (p_value_line r')"
    "refines (p_return r t) (p_return r' t)"
  using parser_leD [OF assms] parser_mono [OF assms]
  by (auto simp: p_transaction_def p_while_def p_for_def p_value_line_def p_return_def intro!: refine_intros)

lemma assignment_mono [parser_mono]:
  assumes "parser_le r r'"
  shows "refines (p_index_assignment r) (p_index_assignment r')" "refines (p_assignment r) (p_assignment r')"
    "refines (p_const r t) (p_const r' t)"
  using parser_leD [OF assms] parser_mono [OF assms]
  by (auto simp: p_index_assignment_def p_assignment_def p_const_def intro!: refine_intros)

lemma keyword_statement_mono [parser_mono]:
  assumes "parser_le r r'"
  shows "refines (p_keyword_statement r b t) (p_keyword_statement r' b t)"
  using parser_mono [OF assms]
  by (auto simp: p_keyword_statement_def p_simple_statement_def Let_def not_top_def intro!: refine_intros)

lemma statement_mono [parser_mono]:
  assumes "parser_le r r'"
  shows "refines (p_statement r b) (p_statement r' b)"
  using parser_mono [OF assms]
  by (auto simp: p_statement_def top_only_def Let_def intro!: refine_intros)

interpretation parser_knot: fueled parser_le parser_step parser_bottom
proof
  show "parser_le r r" for r by (simp add: parser_le_def)
  show "parser_le r r' \<Longrightarrow> parser_le r' r'' \<Longrightarrow> parser_le r r''" for r r' r''
    unfolding parser_le_def by (meson refines_trans)
  show "parser_le parser_bottom r" for r by (simp add: parser_le_def parser_bottom_def)
  show "parser_le (parser_step r) (parser_step r')" if "parser_le r r'" for r r'
    using parser_mono [OF that] by (simp add: parser_le_def parser_step_def)
qed

lemma parser_n_power: "parser_n n = (parser_step ^^ n) parser_bottom"
  by (induction n) simp_all

lemma parser_n_mono: "m \<le> n \<Longrightarrow> parser_le (parser_n m) (parser_n n)"
  unfolding parser_n_power by (rule parser_knot.powers_mono)

subsection \<open>The positions a parse moves through\<close>

definition at_state :: "parser \<Rightarrow> nat \<Rightarrow> open_block list \<Rightarrow> parser" where
  "at_state s c st = s\<lparr>p_current := c, p_stack := st\<rparr>"

definition nth_token :: "parser \<Rightarrow> nat \<Rightarrow> token" where
  "nth_token s i = p_tokens s ! min i (length (p_tokens s) - 1)"

lemma at_state_simps [simp]:
  "p_current (at_state s c st) = c" "p_stack (at_state s c st) = st"
  "p_tokens (at_state s c st) = p_tokens s" "p_unicode (at_state s c st) = p_unicode s"
  "at_state (at_state s c st) c' st' = at_state s c' st'"
  "nth_token (at_state s c st) = nth_token s"
  by (simp_all add: at_state_def nth_token_def fun_eq_iff)

lemma at_state_self [simp]: "at_state s (p_current s) (p_stack s) = s"
  by (cases s) (simp add: at_state_def)

lemma at_state_inject [simp]: "at_state s c st = at_state s c' st' \<longleftrightarrow> c = c' \<and> st = st'"
  by (auto dest: arg_cong [of _ _ p_current] arg_cong [of _ _ p_stack])

lemma stack_update [simp]: "s\<lparr>p_stack := st\<rparr> = at_state s (p_current s) st"
  by (simp add: at_state_def)

lemma token_ahead_nth [simp]: "token_ahead k s = nth_token s (p_current s + k)"
  by (simp add: token_ahead_def nth_token_def)

lemma at_types_nth [simp]: "at_types ks s \<longleftrightarrow> tok_type (nth_token s (p_current s)) \<in> set ks"
  by (simp add: at_types_def)

lemma post_peek [simp]: "post (p_peek k) Q X F s = Q (nth_token s (p_current s + k)) s"
  by (simp add: p_peek_def)

lemma post_at [simp]:
  "post (p_at ks) Q X F s = Q (tok_type (nth_token s (p_current s)) \<in> set ks) s"
  by (simp add: p_at_def)

lemma post_advance [simp]:
  "post p_advance Q X F s = Q (nth_token s (p_current s)) (at_state s (Suc (p_current s)) (p_stack s))"
  by (simp add: post_def p_advance_def at_state_def del: stack_update)

lemma post_previous [simp]: "post p_previous Q X F s = Q (p_tokens s ! (p_current s - 1)) s"
  by (simp add: p_previous_def)

lemma post_match [simp]:
  "post (p_match ks) Q X F s =
     (if tok_type (nth_token s (p_current s)) \<in> set ks
      then Q True (at_state s (Suc (p_current s)) (p_stack s)) else Q False s)"
  by (simp add: p_match_def)

lemma post_syntax_error [simp]:
  "post (syntax_error cat) Q X F s =
     X (mk_error_a 100 cat (tok_position (nth_token s (p_current s))) (tok_lexeme (nth_token s (p_current s)))) s"
  by (simp add: syntax_error_def)

lemma post_consume [simp]:
  "post (p_consume k) Q X F s =
     (if tok_type (nth_token s (p_current s)) = k
      then Q (nth_token s (p_current s)) (at_state s (Suc (p_current s)) (p_stack s))
      else post (syntax_error ''Syntax error'') Q X F s)"
  by (simp add: p_consume_def)

lemma post_consume_label [simp]:
  "post p_consume_label Q X F s =
     (if tok_type (nth_token s (p_current s)) \<in> {T_IDENTIFIER, T_LABEL}
      then Q (nth_token s (p_current s)) (at_state s (Suc (p_current s)) (p_stack s))
      else post (syntax_error ''Syntax error'') Q X F s)"
  by (simp add: p_consume_label_def)

lemma post_chained [simp]: "post (p_chained t) Q X F s =
     X (mk_error_a 111 ''Chained comparison'' (tok_position t) (tok_lexeme t)) s"
  by (simp add: p_chained_def)

lemma post_parser_loop:
  assumes "I a s"
    and "\<And>a u. I a u \<Longrightarrow>
      post (f a) (\<lambda>r t. case r of Inl a' \<Rightarrow> I a' t \<and> tokens_left t < tokens_left u | Inr b \<Rightarrow> Q b t) X F u"
  shows "post (parser_loop f a) Q X F s"
proof -
  have "post (loop_n (Suc (tokens_left s)) f a) Q X F s"
    using post_loop_n [of I a s tokens_left "Suc (tokens_left s)" f Q X F] assms by simp
  then show ?thesis by (simp add: parser_loop_def post_def del: loop_n.simps)
qed

text \<open>
  A valid state: the stream ends in EOF, the index is in range, SEP-local labels are used once,
  and, where \<open>sp\<close> asks for it, every operator token is spelled as in the operator tables and
  every \<open>in\<close> in lower case.
\<close>

definition spelled :: "token \<Rightarrow> bool" where
  "spelled t \<longleftrightarrow> symbol_spelled t \<and> (tok_type t = T_IN \<longrightarrow> tok_lexeme t = U ''in'')"

definition generics_distinct :: "open_block list \<Rightarrow> bool" where
  "generics_distinct st = list_all (\<lambda>b. distinct (ob_generic b)) st"

definition stream_ok :: "bool \<Rightarrow> parser \<Rightarrow> bool" where
  "stream_ok sp s \<longleftrightarrow> p_tokens s \<noteq> [] \<and> tok_type (last (p_tokens s)) = T_EOF \<and>
     (sp \<longrightarrow> list_all spelled (p_tokens s))"

definition valid :: "bool \<Rightarrow> parser \<Rightarrow> bool" where
  "valid sp s \<longleftrightarrow>
     stream_ok sp s \<and> p_current s < length (p_tokens s) \<and> generics_distinct (p_stack s)"

definition short :: "nat \<Rightarrow> parser \<Rightarrow> bool" where
  "short b s \<longleftrightarrow> b + p_current s < length (p_tokens s)"

definition failed :: "parser \<Rightarrow> sep_error \<Rightarrow> parser \<Rightarrow> bool" where
  "failed s x t \<longleftrightarrow> (\<exists>c st. t = at_state s c st \<and> p_current s \<le> c \<and> c < length (p_tokens s))"

lemma stream_ok_at_state [simp]: "stream_ok sp (at_state s c st) = stream_ok sp s"
  by (simp add: stream_ok_def)

lemma valid_at_state [simp]:
  "valid sp (at_state s c st) \<longleftrightarrow> stream_ok sp s \<and> c < length (p_tokens s) \<and> generics_distinct st"
  by (simp add: valid_def)

lemma short_at_state [simp]: "short b (at_state s c st) \<longleftrightarrow> b + c < length (p_tokens s)"
  by (simp add: short_def)

lemma failed_at_state [simp]:
  "failed s x (at_state s c st) \<longleftrightarrow> p_current s \<le> c \<and> c < length (p_tokens s)"
  by (auto simp: failed_def)

lemma failed_from_at_state [simp]:
  "failed (at_state s c st) x (at_state s c' st') \<longleftrightarrow> c \<le> c' \<and> c' < length (p_tokens s)"
  by (auto simp: failed_def)

lemma failed_self [simp]: "valid sp s \<Longrightarrow> failed s x s"
  by (metis at_state_self failed_at_state order_refl valid_def)

lemma tokens_left_at_state [simp]: "tokens_left (at_state s c st) = length (p_tokens s) - c"
  by (simp add: tokens_left_def)

text \<open>Only the last token may be an EOF where the parser stops, so an advance stays in range.\<close>

lemma advance_in_range:
  assumes "stream_ok sp s" and "c < length (p_tokens s)" and "tok_type (nth_token s c) \<noteq> T_EOF"
  shows "Suc c < length (p_tokens s)"
proof (rule ccontr)
  assume "\<not> ?thesis"
  with assms(2) have "c = length (p_tokens s) - 1" by simp
  with assms(1,3) show False by (auto simp: nth_token_def stream_ok_def last_conv_nth)
qed

lemma nth_token_in_range: "c < length (p_tokens s) \<Longrightarrow> nth_token s c = p_tokens s ! c"
  by (simp add: nth_token_def min_def)

lemma spelled_token:
  "sp \<Longrightarrow> stream_ok sp s \<Longrightarrow> c < length (p_tokens s) \<Longrightarrow> spelled (p_tokens s ! c)"
  by (simp add: stream_ok_def list_all_length)

subsection \<open>Well-formed expressions\<close>

text \<open>
  A comparison operator, in any case of its letters. In an unchained expression no operand of a
  comparison is itself a comparison or an \<open>is EMPTY\<close> test, unless it stands in parentheses.
\<close>

definition comparison_operator :: "ustr \<Rightarrow> bool" where
  "comparison_operator op \<longleftrightarrow> map ascii_lower op \<in> set (order_operators @ equality_operators)"

definition binary_operator :: "expr \<Rightarrow> ustr option" where
  "binary_operator e = (case e of BinaryExpr _ _ op _ \<Rightarrow> Some op | _ \<Rightarrow> None)"

definition compares :: "expr \<Rightarrow> bool" where
  "compares e \<longleftrightarrow> is_state_test e \<or> (case binary_operator e of None \<Rightarrow> False | Some op \<Rightarrow> comparison_operator op)"

primrec unchained :: "expr \<Rightarrow> bool" where
  "unchained (LiteralExpr _ _) = True"
| "unchained (VariableExpr _ _) = True"
| "unchained (BinaryExpr _ l op r) =
     (unchained l \<and> unchained r \<and> (comparison_operator op \<longrightarrow> \<not> compares l \<and> \<not> compares r))"
| "unchained (UnaryExpr _ _ e) = unchained e"
| "unchained (EmptyTestExpr _ e _) = unchained e"
| "unchained (EmptysTestExpr _ e _) = unchained e"
| "unchained (PositionSelectorExpr _ _) = True"
| "unchained (GroupExpr _ e) = unchained e"
| "unchained (CallExpr _ _ args named) =
     (list_all id (map unchained args) \<and> list_all snd (map (map_prod id unchained) named))"
| "unchained (ListExpr _ es) = list_all id (map unchained es)"
| "unchained (IndexExpr _ e i) = (unchained e \<and> unchained i)"
| "unchained (MemberExpr _ e _) = unchained e"
| "unchained (MemberCallExpr _ e _ args named) =
     (unchained e \<and> list_all id (map unchained args) \<and> list_all snd (map (map_prod id unchained) named))"

text \<open>What each precedence level promises about its result.\<close>

definition term_level :: "expr \<Rightarrow> bool" where
  "term_level e \<longleftrightarrow> unchained e \<and> \<not> compares e"

definition comparison_level :: "expr \<Rightarrow> bool" where
  "comparison_level e \<longleftrightarrow> unchained e \<and> \<not> is_state_test e \<and>
     (compares e \<longrightarrow> is_binary_of order_operators e)"

definition test_level :: "expr \<Rightarrow> bool" where
  "test_level e \<longleftrightarrow> unchained e \<and> (compares e \<longrightarrow> is_state_test e \<or> is_binary_of order_operators e)"

lemma compares_simps [simp]:
  "\<not> compares (LiteralExpr p v)" "\<not> compares (VariableExpr p n)"
  "compares (BinaryExpr p l op r) \<longleftrightarrow> comparison_operator op" "\<not> compares (UnaryExpr p op e)"
  "compares (EmptyTestExpr p e b)" "compares (EmptysTestExpr p e b)"
  "\<not> compares (PositionSelectorExpr p n)" "\<not> compares (GroupExpr p e)"
  "\<not> compares (CallExpr p n as nas)" "\<not> compares (ListExpr p es)" "\<not> compares (IndexExpr p e i)"
  "\<not> compares (MemberExpr p e n)" "\<not> compares (MemberCallExpr p e n as nas)"
  by (simp_all add: compares_def is_state_test_def binary_operator_def)

lemma state_test_compares: "is_state_test e \<Longrightarrow> compares e"
  by (simp add: compares_def)

lemma is_state_test_simps [simp]:
  "\<not> is_state_test (BinaryExpr p l op r)" "is_state_test (EmptyTestExpr p e b)"
  "is_state_test (EmptysTestExpr p e b)"
  by (simp_all add: is_state_test_def)

lemma is_binary_of_simp [simp]: "is_binary_of ops (BinaryExpr p l op r) \<longleftrightarrow> op \<in> set ops"
  by (simp add: is_binary_of_def)

lemma term_comparison: "term_level e \<Longrightarrow> comparison_level e"
  by (auto simp: term_level_def comparison_level_def compares_def)

lemma comparison_test: "comparison_level e \<Longrightarrow> test_level e"
  by (auto simp: comparison_level_def test_level_def)

lemma spelled_arith:
  assumes "spelled t"
    and "tok_type t \<in> {T_PLUS, T_MINUS, T_STAR, T_SLASH, T_FLOOR_DIV, T_PERCENT, T_POWER,
      T_EMPTY_COALESCE, T_AND, T_OR}"
  shows "\<not> comparison_operator (tok_lexeme t)"
proof -
  have "tok_lexeme t \<in> set (map U [''+'', ''-'', ''*'', ''/'', ''//'', ''%'', ''**'', ''??'', ''&&'', ''||''])"
    using assms by (auto simp: spelled_def symbol_spelled_def pairs_def single_def singles_def)
  moreover have "list_all (\<lambda>w. \<not> comparison_operator w)
    (map U [''+'', ''-'', ''*'', ''/'', ''//'', ''%'', ''**'', ''??'', ''&&'', ''||''])" by code_simp
  ultimately show ?thesis by (auto simp: list_all_iff)
qed

lemma spelled_order:
  assumes "spelled t"
    and "tok_type t \<in> {T_GREATER, T_GREATER_EQUAL, T_LESS, T_LESS_EQUAL, T_IN}"
  shows "tok_lexeme t \<in> set order_operators"
  using assms by (auto simp: spelled_def symbol_spelled_def pairs_def single_def singles_def order_operators_def)

lemma spelled_equality:
  assumes "spelled t" and "tok_type t \<in> {T_EQUAL_EQUAL, T_BANG_EQUAL}"
  shows "tok_lexeme t \<in> set equality_operators"
  using assms by (auto simp: spelled_def symbol_spelled_def pairs_def single_def singles_def equality_operators_def)

subsection \<open>Contracts of the expression methods\<close>

text \<open>
  \<open>parses sp b P m\<close>: from a valid state, \<open>m\<close> moves forward by at least one token, leaves the
  stack alone and yields an expression of level \<open>P\<close> (where operators are spelled as they
  should); an error also leaves the index in range; and \<open>b\<close> nested calls are enough when \<open>b\<close> is
  at least the number of tokens left.
\<close>

definition parses :: "bool \<Rightarrow> nat \<Rightarrow> (expr \<Rightarrow> bool) \<Rightarrow> expr parse \<Rightarrow> bool" where
  "parses sp b P m \<longleftrightarrow>
     (\<forall>s. valid sp s \<longrightarrow>
        post m (\<lambda>e t. (sp \<longrightarrow> P e) \<and> (\<exists>c. t = at_state s c (p_stack s) \<and> p_current s < c \<and> c < length (p_tokens s)))
          (failed s) (short b s) s)"

lemma parsesD:
  assumes "parses sp b P m" and "valid sp s"
    and "\<And>e c. (sp \<longrightarrow> P e) \<Longrightarrow> p_current s < c \<Longrightarrow> c < length (p_tokens s) \<Longrightarrow> Q e (at_state s c (p_stack s))"
    and "\<And>x c st. p_current s \<le> c \<Longrightarrow> c < length (p_tokens s) \<Longrightarrow> X x (at_state s c st)"
    and "short b s \<Longrightarrow> F"
  shows "post m Q X F s"
proof -
  from assms(1,2) have "post m (\<lambda>e t. (sp \<longrightarrow> P e) \<and>
    (\<exists>c. t = at_state s c (p_stack s) \<and> p_current s < c \<and> c < length (p_tokens s))) (failed s) (short b s) s"
    by (simp add: parses_def)
  then show ?thesis by (rule post_mono) (auto simp: failed_def assms)
qed

lemma parsesI:
  assumes "\<And>s. valid sp s \<Longrightarrow> stream_ok sp s \<Longrightarrow> p_current s < length (p_tokens s) \<Longrightarrow>
      generics_distinct (p_stack s) \<Longrightarrow>
      post m (\<lambda>e t. (sp \<longrightarrow> P e) \<and> (\<exists>c. t = at_state s c (p_stack s) \<and> p_current s < c \<and> c < length (p_tokens s)))
        (failed s) (short b s) s"
  shows "parses sp b P m"
  using assms by (simp add: parses_def valid_def)

lemma parses_mono: "parses sp b P m \<Longrightarrow> (\<And>e. P e \<Longrightarrow> P' e) \<Longrightarrow> parses sp b P' m"
  unfolding parses_def by (fast elim: post_mono)

text \<open>The loop of a parse: \<open>P\<close> of the accumulator is kept, and a round that goes on moves forward.\<close>

lemma post_parse_loop:
  assumes "valid sp s" and "P a"
    and "\<And>a c. P a \<Longrightarrow> p_current s \<le> c \<Longrightarrow> c < length (p_tokens s) \<Longrightarrow>
      post (f a) (\<lambda>r t. \<exists>c'. t = at_state s c' (p_stack s) \<and> c \<le> c' \<and> c' < length (p_tokens s) \<and>
          (case r of Inl a' \<Rightarrow> P a' \<and> c < c' | Inr b \<Rightarrow> R b \<and> (lt \<longrightarrow> c < c')))
        (failed s) F (at_state s c (p_stack s))"
  shows "post (parser_loop f a)
    (\<lambda>b t. R b \<and> (\<exists>c. t = at_state s c (p_stack s) \<and> p_current s \<le> c \<and> c < length (p_tokens s) \<and>
      (lt \<longrightarrow> p_current s < c))) (failed s) F s"
proof (rule post_parser_loop [where I = "\<lambda>a u. P a \<and>
    (\<exists>c. u = at_state s c (p_stack s) \<and> p_current s \<le> c \<and> c < length (p_tokens s))"])
  show "P a \<and> (\<exists>c. s = at_state s c (p_stack s) \<and> p_current s \<le> c \<and> c < length (p_tokens s))"
    using assms(1,2) by (auto simp: valid_def intro!: exI [of _ "p_current s"])
next
  fix a u
  assume "P a \<and> (\<exists>c. u = at_state s c (p_stack s) \<and> p_current s \<le> c \<and> c < length (p_tokens s))"
  then obtain c where u: "P a" "u = at_state s c (p_stack s)" "p_current s \<le> c" "c < length (p_tokens s)"
    by blast
  from assms(3) [OF u(1,3,4)]
  show "post (f a) (\<lambda>r t. case r of
      Inl a' \<Rightarrow> (P a' \<and> (\<exists>c. t = at_state s c (p_stack s) \<and> p_current s \<le> c \<and> c < length (p_tokens s))) \<and>
        tokens_left t < tokens_left u
    | Inr b \<Rightarrow> R b \<and> (\<exists>c. t = at_state s c (p_stack s) \<and> p_current s \<le> c \<and> c < length (p_tokens s) \<and>
        (lt \<longrightarrow> p_current s < c))) (failed s) F u"
    unfolding u(2) by (rule post_mono) (use u(3) in \<open>auto split: sum.splits\<close>)
qed

lemma post_parse_loopI:
  assumes "valid sp s" and "P a"
    and "\<And>a c. P a \<Longrightarrow> p_current s \<le> c \<Longrightarrow> c < length (p_tokens s) \<Longrightarrow>
      post (f a) (\<lambda>r t. \<exists>c'. t = at_state s c' (p_stack s) \<and> c \<le> c' \<and> c' < length (p_tokens s) \<and>
          (case r of Inl a' \<Rightarrow> P a' \<and> c < c' | Inr b \<Rightarrow> R b \<and> (lt \<longrightarrow> c < c')))
        (failed s) F (at_state s c (p_stack s))"
    and "\<And>b c. R b \<Longrightarrow> p_current s \<le> c \<Longrightarrow> c < length (p_tokens s) \<Longrightarrow> (lt \<longrightarrow> p_current s < c) \<Longrightarrow>
      Q b (at_state s c (p_stack s))"
    and "\<And>x c st. p_current s \<le> c \<Longrightarrow> c < length (p_tokens s) \<Longrightarrow> X x (at_state s c st)"
    and "F \<Longrightarrow> F'"
  shows "post (parser_loop f a) Q X F' s"
  using post_parse_loop [of sp s P a f R lt F, OF assms(1-3)]
  by (rule post_mono) (auto simp: failed_def assms(4-6))

lemma parses_binary:
  assumes "parses sp b P m" and "set ks \<subseteq> - {T_EOF}"
    and "\<And>p l op r. tok_type op \<in> set ks \<Longrightarrow> spelled op \<Longrightarrow> P l \<Longrightarrow> P r \<Longrightarrow> P (BinaryExpr p l (tok_lexeme op) r)"
  shows "parses sp b P (p_binary m ks)"
proof (rule parsesI)
  fix s
  assume v: "valid sp s" "stream_ok sp s" "p_current s < length (p_tokens s)" "generics_distinct (p_stack s)"
  have op: "sp \<Longrightarrow> c < length (p_tokens s) \<Longrightarrow> spelled (nth_token s c)" for c
    using v(2) by (simp add: nth_token_in_range spelled_token)
  show "post (p_binary m ks) (\<lambda>e t. (sp \<longrightarrow> P e) \<and>
    (\<exists>c. t = at_state s c (p_stack s) \<and> p_current s < c \<and> c < length (p_tokens s))) (failed s) (short b s) s"
    unfolding p_binary_def post_andthen
  proof (rule parsesD [OF assms(1) v(1)], goal_cases)
    case (1 e c)
    show ?case
    proof (rule post_parse_loopI [where P = "\<lambda>e. sp \<longrightarrow> P e" and R = "\<lambda>e. sp \<longrightarrow> P e" and sp = sp
          and lt = False and F = "short b s"], goal_cases)
      case (3 a c')
      then have "c' < length (p_tokens s)" by simp
      with 1 3 v show ?case
        using assms(2,3) op
        by (auto simp: short_def intro!: parsesD [OF assms(1)] advance_in_range [OF v(2)])
    qed (use 1 v in auto)
  qed (use v in auto)
qed

lemma list_all_id_map [simp]: "list_all id (map f xs) = list_all f xs"
  by (simp add: list.pred_map)

lemma list_all_snd_map [simp]: "list_all snd (map (map_prod id f) xs) = list_all (f \<circ> snd) xs"
  by (simp add: list.pred_map comp_def)

definition arguments_ok :: "bool \<Rightarrow> expr list \<times> (ustr \<times> expr) list \<Rightarrow> bool" where
  "arguments_ok sp a \<longleftrightarrow> (sp \<longrightarrow> list_all unchained (fst a) \<and> list_all (unchained \<circ> snd) (snd a))"

text \<open>
  What the expression methods may rely on: that the calls through the record keep the contract
  with \<open>b\<close> nested calls.
\<close>

locale expression_calls =
  fixes r :: parser_fns and b :: nat and sp :: bool
  assumes expression_call: "parses sp b unchained (f_expression r)"
    and unary_call: "parses sp b term_level (f_unary r)"
begin

lemmas expression_use = parsesD [OF expression_call]
lemmas unary_use = parsesD [OF unary_call]

lemma call_arguments_use:
  assumes v: "valid sp s"
    and Q: "\<And>a c. arguments_ok sp a \<Longrightarrow> p_current s < c \<Longrightarrow> c < length (p_tokens s) \<Longrightarrow> Q a (at_state s c (p_stack s))"
    and X: "\<And>x c st. p_current s \<le> c \<Longrightarrow> c < length (p_tokens s) \<Longrightarrow> X x (at_state s c st)"
    and F: "short b s \<Longrightarrow> F"
  shows "post (p_call_arguments r) Q X F s"
proof -
  have s: "stream_ok sp s" "p_current s < length (p_tokens s)" "generics_distinct (p_stack s)"
    using v by (simp_all add: valid_def)
  note range = advance_in_range [OF s(1)]
  have self: "X x s" for x using X [of "p_current s" x "p_stack s"] s(2) by simp
  have finish: "post (andthen (p_consume T_RPAREN) (\<lambda>_. ret a)) Q X F (at_state s c (p_stack s))"
    if "arguments_ok sp a" "p_current s \<le> c" "c < length (p_tokens s)" for a c
    using that Q X range [of c] by (auto intro!: Q)
  show ?thesis
  proof (cases "tok_type (nth_token s (p_current s)) = T_RPAREN")
    case True
    with finish [of "([], [])" "p_current s"] s show ?thesis
      by (simp add: p_call_arguments_def arguments_ok_def)
  next
    case False
    have "post (parser_loop (p_argument r) ([], []))
        (\<lambda>a. post (andthen (p_consume T_RPAREN) (\<lambda>_. ret a)) Q X F) X F s"
    proof (rule post_parse_loopI [where P = "arguments_ok sp" and R = "arguments_ok sp" and sp = sp
          and lt = False and F = "short b s"], goal_cases)
      case (3 a c)
      then show ?case
        using s range by (auto simp: p_argument_def short_def arguments_ok_def range split: prod.splits
            intro!: expression_use)
    next
      case (4 a c)
      then show ?case by (intro finish)
    qed (use v X F in \<open>simp_all add: arguments_ok_def\<close>)
    with False show ?thesis by (simp add: p_call_arguments_def)
  qed
qed

lemma elements_use:
  assumes v: "valid sp s"
    and Q: "\<And>es c. (sp \<longrightarrow> list_all unchained es) \<Longrightarrow> p_current s \<le> c \<Longrightarrow> c < length (p_tokens s) \<Longrightarrow>
      Q es (at_state s c (p_stack s))"
    and X: "\<And>x c st. p_current s \<le> c \<Longrightarrow> c < length (p_tokens s) \<Longrightarrow> X x (at_state s c st)"
    and F: "short b s \<Longrightarrow> F"
  shows "post (p_elements r) Q X F s"
  unfolding p_elements_def
proof (rule post_parse_loopI [where P = "\<lambda>es. sp \<longrightarrow> list_all unchained es"
      and R = "\<lambda>es. sp \<longrightarrow> list_all unchained es" and sp = sp and lt = False and F = "short b s"], goal_cases)
  case (3 a c)
  with v show ?case
    by (auto simp: valid_def short_def advance_in_range [of sp] intro!: expression_use)
qed (use assms in auto)

text \<open>From here on the methods are used where a token has been consumed, or consume one first.\<close>

lemma primary_parses: "parses sp (Suc b) term_level (p_primary r)"
proof (rule parsesI, goal_cases)
  case (1 s)
  note range = advance_in_range [OF 1(2)]
  show ?case
    unfolding p_primary_def
    using 1(2-4) failed_self [OF 1(1)]
    by (auto simp: short_def term_level_def arguments_ok_def range split: prod.split
        intro!: expression_use elements_use call_arguments_use)
qed

lemma postfix_parses: "parses sp (Suc b) term_level (p_postfix r)"
proof (rule parsesI, goal_cases)
  case (1 s)
  note range = advance_in_range [OF 1(2)]
  show ?case
    unfolding p_postfix_def post_andthen
  proof (rule parsesD [OF primary_parses 1(1)], goal_cases)
    case (1 e c)
    with \<open>stream_ok sp s\<close> \<open>generics_distinct (p_stack s)\<close> show ?case
    proof (intro post_parse_loopI [where P = "\<lambda>e. sp \<longrightarrow> term_level e" and R = "\<lambda>e. sp \<longrightarrow> term_level e"
          and sp = sp and lt = False and F = "short (Suc b) s"], goal_cases)
      case (3 a c')
      then show ?case
        by (auto simp: p_postfix_step_def short_def term_level_def arguments_ok_def range split: prod.split
          intro!: expression_use elements_use call_arguments_use)
    qed (auto simp: failed_def)
  qed auto
qed

lemma operator_spelled:
  "sp \<Longrightarrow> stream_ok sp s \<Longrightarrow> c < length (p_tokens s) \<Longrightarrow> spelled (nth_token s c)"
  by (simp add: nth_token_in_range spelled_token)

lemma unary_parses: "parses sp (Suc b) term_level (p_unary r)"
proof (rule parsesI, goal_cases)
  case (1 s)
  note range = advance_in_range [OF 1(2)]
  have op: "sp \<Longrightarrow> c < length (p_tokens s) \<Longrightarrow> tok_type (nth_token s c) = T_POWER \<Longrightarrow>
    \<not> comparison_operator (tok_lexeme (p_tokens s ! c))" for c
    using operator_spelled [OF _ 1(2)] by (metis insertCI nth_token_in_range spelled_arith)
  show ?case
    unfolding p_unary_def p_power_def
    using 1 op
    by (auto simp: short_def term_level_def range intro!: unary_use parsesD [OF postfix_parses])
qed

lemma factor_parses: "parses sp (Suc b) term_level (p_factor r)"
  unfolding p_factor_def
  by (rule parses_binary [OF unary_parses]) (auto simp: term_level_def dest: spelled_arith)

lemma term_parses: "parses sp (Suc b) term_level (p_term r)"
  unfolding p_term_def
  by (rule parses_binary [OF factor_parses]) (auto simp: term_level_def dest: spelled_arith)

lemma post_reject_chain:
  "post (p_reject_chain c) Q X F s =
     (if c s then post (p_chained (nth_token s (p_current s))) Q X F s else Q () s)"
  by (simp add: p_reject_chain_def)

lemma comparison_parses: "parses sp (Suc b) comparison_level (p_comparison r)"
proof (rule parsesI, goal_cases)
  case (1 s)
  note range = advance_in_range [OF 1(2)]
  have op: "tok_lexeme (nth_token s c) \<in> set order_operators"
    if "sp" "c < length (p_tokens s)" "tok_type (nth_token s c) \<in> {T_GREATER, T_GREATER_EQUAL, T_LESS, T_LESS_EQUAL, T_IN}" for c
    using that operator_spelled [OF _ 1(2)] spelled_order by blast
  have not_in: "U ''not in'' \<in> set order_operators" by (simp add: order_operators_def)
  show ?case
    unfolding p_comparison_def
    using 1 op not_in
    by (auto simp: short_def at_comparison_def post_reject_chain range term_comparison
        comparison_level_def term_level_def dest: state_test_compares intro!: parsesD [OF term_parses])
qed

lemma empty_test_parses: "parses sp (Suc b) test_level (p_empty_test r)"
proof (rule parsesI, goal_cases)
  case (1 s)
  note range = advance_in_range [OF 1(2)]
  show ?case
    unfolding p_empty_test_def
    using 1
    by (auto simp: short_def post_reject_chain range comparison_level_def test_level_def
        intro!: parsesD [OF comparison_parses])
qed

lemma test_level_chained:
  assumes "test_level e" and "\<not> is_state_test e" and "\<not> is_binary_of order_operators e"
  shows "\<not> compares e"
  using assms by (simp add: test_level_def)

lemma equality_parses: "parses sp (Suc b) unchained (p_equality r)"
proof (rule parsesI, goal_cases)
  case (1 s)
  note range = advance_in_range [OF 1(2)]
  have binary: "is_binary_of order_operators e \<Longrightarrow> is_binary_of (order_operators @ equality_operators) e" for e
    by (cases e) (simp_all add: is_binary_of_def)
  show ?case
    unfolding p_equality_def
    using 1 binary
    by (auto simp: short_def post_reject_chain range test_level_def intro!: parsesD [OF empty_test_parses])
qed

lemma or_parses: "parses sp (Suc b) unchained (p_or r)"
  unfolding p_or_def p_and_def
  by (intro parses_binary equality_parses) (auto dest: spelled_arith)

lemma coalesce_parses: "parses sp (Suc b) unchained (p_coalesce r)"
proof (rule parsesI, goal_cases)
  case (1 s)
  note range = advance_in_range [OF 1(2)]
  have op: "sp \<Longrightarrow> c < length (p_tokens s) \<Longrightarrow> tok_type (nth_token s c) = T_EMPTY_COALESCE \<Longrightarrow>
    \<not> comparison_operator (tok_lexeme (p_tokens s ! c))" for c
    using operator_spelled [OF _ 1(2)] by (metis insertCI nth_token_in_range spelled_arith)
  show ?case
    unfolding p_coalesce_def
    using 1 op
    by (auto simp: short_def range intro!: expression_use parsesD [OF or_parses])
qed

end

end
