(* ===== verification/Parser_Blocks.thy ===== *)
theory Parser_Blocks
  imports Parser_Facts
begin

section \<open>Parser: blocks, statements and programs\<close>

text \<open>
  What the parser accepts is well formed: labels are unique among the blocks that enclose them,
  SEP-local labels are unique in their SEP, comparisons are not chained, reserved names are not
  bound, and declarations stand where the language allows them. The contracts of the block and
  statement methods are the locale \<open>parser_calls\<close>, which \<open>parser_n\<close> interprets; the properties
  of whole programs follow.
\<close>

subsection \<open>Well-formed statements\<close>

definition name_ok :: "ustr \<Rightarrow> bool" where
  "name_ok n \<longleftrightarrow> n \<notin> {U ''system'', U ''pin''}"

primrec spec_ok :: "type_spec \<Rightarrow> bool" where
  "spec_ok (TName n) = (n \<in> set DECLARABLE_TYPES \<and> n \<noteq> U ''list'')"
| "spec_ok (TList e) = (case map_option spec_ok e of None \<Rightarrow> False | Some b \<Rightarrow> b)"

definition declared_ok :: "ustr \<times> type_spec option \<Rightarrow> bool" where
  "declared_ok d \<longleftrightarrow>
     (case d of (n, None) \<Rightarrow> n \<in> set DECLARABLE_TYPES \<and> n \<noteq> U ''list''
      | (n, Some e) \<Rightarrow> n = U ''list'' \<and> spec_ok e)"

definition generic_of :: "ustr \<Rightarrow> nat list" where
  "generic_of l = (case generic_label_number l of None \<Rightarrow> [] | Some n \<Rightarrow> [n])"

definition opt_list :: "'a list option \<Rightarrow> 'a list" where
  "opt_list x = (case x of None \<Rightarrow> [] | Some y \<Rightarrow> y)"

text \<open>The SEP-local labels a statement uses, in the order of the text, outside nested SEPs.\<close>

primrec stmt_generics :: "stmt \<Rightarrow> nat list"
  and entry_generics :: "object_entry \<Rightarrow> nat list"
  and catch_generics :: "catch_branch \<Rightarrow> nat list"
  and branch_generics :: "if_branch \<Rightarrow> nat list"
where
  "stmt_generics (Assignment _ _ _) = []"
| "stmt_generics (IndexAssignment _ _ _ _) = []"
| "stmt_generics (ConstDeclaration _ _ _) = []"
| "stmt_generics (TypedDeclaration _ _ _ _ _ _) = []"
| "stmt_generics (PrintStmt _ _) = []"
| "stmt_generics (PrintErrorStmt _ _) = []"
| "stmt_generics (ReturnStmt _ _) = []"
| "stmt_generics (ExpressionStmt _ _) = []"
| "stmt_generics (ObjectBlock _ n entries _) = generic_of n @ concat (map entry_generics entries)"
| "stmt_generics (ListBlock _ n _ _) = generic_of n"
| "stmt_generics (ImportStmt _ _ _) = []"
| "stmt_generics (TryStmt _ l body catches fin _) =
     generic_of l @ concat (map stmt_generics body) @ concat (map catch_generics catches) @
     concat (opt_list (map_option (map stmt_generics) fin))"
| "stmt_generics (ThrowStmt _ _) = []"
| "stmt_generics (ErrorDecl _ n _) = generic_of n"
| "stmt_generics (HttpRouteDecl _ _ _ l body _) = generic_of l @ concat (map stmt_generics body)"
| "stmt_generics (TransactionStmt _ _ l body _) = generic_of l @ concat (map stmt_generics body)"
| "stmt_generics (IfStmt _ l branches els _) =
     generic_of l @ concat (map branch_generics branches) @
     concat (opt_list (map_option (map stmt_generics) els))"
| "stmt_generics (WhileStmt _ l _ body _) = generic_of l @ concat (map stmt_generics body)"
| "stmt_generics (ForStmt _ l _ _ body _) = generic_of l @ concat (map stmt_generics body)"
| "stmt_generics (LogicDecl _ _ _ _ _ _ _) = []"
| "entry_generics (ObjectField _ _ _ _ _) = []"
| "entry_generics (BlockEntry st) = stmt_generics st"
| "catch_generics (CatchBranch _ _ body) = concat (map stmt_generics body)"
| "branch_generics (IfBranch _ body _) = concat (map stmt_generics body)"

text \<open>
  A statement at top level or inside a block (\<open>outer\<close>), with the labels of the blocks around it.
  \<open>E\<close> is what its expressions must satisfy.
\<close>

definition catch_category :: "catch_branch \<Rightarrow> ustr" where
  "catch_category c = (case c of CatchBranch _ n _ \<Rightarrow> n)"

primrec stmt_ok :: "(expr \<Rightarrow> bool) \<Rightarrow> stmt \<Rightarrow> bool \<Rightarrow> ustr list \<Rightarrow> bool"
  and entry_ok :: "(expr \<Rightarrow> bool) \<Rightarrow> object_entry \<Rightarrow> ustr list \<Rightarrow> bool"
  and catch_ok :: "(expr \<Rightarrow> bool) \<Rightarrow> catch_branch \<Rightarrow> ustr list \<Rightarrow> bool"
  and branch_ok :: "(expr \<Rightarrow> bool) \<Rightarrow> if_branch \<Rightarrow> ustr list \<Rightarrow> bool"
where
  "stmt_ok E (Assignment _ n e) = (\<lambda>outer ls. name_ok n \<and> E e)"
| "stmt_ok E (IndexAssignment _ n es e) = (\<lambda>outer ls. name_ok n \<and> es \<noteq> [] \<and> list_all E es \<and> E e)"
| "stmt_ok E (ConstDeclaration _ n e) = (\<lambda>outer ls. name_ok n \<and> E e)"
| "stmt_ok E (TypedDeclaration _ n d t e _) = (\<lambda>outer ls. name_ok n \<and> declared_ok (d, t) \<and> E e)"
| "stmt_ok E (PrintStmt _ e) = (\<lambda>outer ls. E e)"
| "stmt_ok E (PrintErrorStmt _ e) = (\<lambda>outer ls. E e)"
| "stmt_ok E (ReturnStmt _ e) = (\<lambda>outer ls. \<not> outer \<and> (case e of None \<Rightarrow> True | Some v \<Rightarrow> E v))"
| "stmt_ok E (ExpressionStmt _ e) = (\<lambda>outer ls. E e)"
| "stmt_ok E (ObjectBlock _ n entries _) = (\<lambda>outer ls.
     name_ok n \<and> n \<notin> set ls \<and> distinct (map entry_name entries) \<and>
     list_all (\<lambda>f. f (n # ls)) (map (entry_ok E) entries))"
| "stmt_ok E (ListBlock _ n es _) = (\<lambda>outer ls. name_ok n \<and> n \<notin> set ls \<and> list_all E es)"
| "stmt_ok E (ImportStmt _ _ n) = (\<lambda>outer ls. outer \<and> name_ok n)"
| "stmt_ok E (TryStmt _ l body catches fin _) = (\<lambda>outer ls.
     \<not> outer \<and> l \<notin> set ls \<and> (catches \<noteq> [] \<or> fin \<noteq> None) \<and>
     distinct (map catch_category catches) \<and> U ''any'' \<notin> set (butlast (map catch_category catches)) \<and>
     list_all (\<lambda>f. f False (l # ls)) (map (stmt_ok E) body) \<and>
     list_all (\<lambda>f. f (l # ls)) (map (catch_ok E) catches) \<and>
     list_all (\<lambda>f. f False (l # ls)) (opt_list (map_option (map (stmt_ok E)) fin)))"
| "stmt_ok E (ThrowStmt _ e) = (\<lambda>outer ls. \<not> outer \<and> E e)"
| "stmt_ok E (ErrorDecl _ n _) = (\<lambda>outer ls. outer \<and> n \<notin> set ls \<and> ends_with n (U ''_error''))"
| "stmt_ok E (HttpRouteDecl _ m path l body _) = (\<lambda>outer ls.
     outer \<and> l \<notin> set ls \<and> m \<in> set route_methods \<and> starts_with path [47] \<and>
     list_all (\<lambda>f. f False (l # ls)) (map (stmt_ok E) body))"
| "stmt_ok E (TransactionStmt _ e l body _) = (\<lambda>outer ls.
     \<not> outer \<and> l \<notin> set ls \<and> E e \<and> list_all (\<lambda>f. f False (l # ls)) (map (stmt_ok E) body))"
| "stmt_ok E (IfStmt _ l branches els _) = (\<lambda>outer ls.
     \<not> outer \<and> l \<notin> set ls \<and> branches \<noteq> [] \<and>
     list_all (\<lambda>f. f (l # ls)) (map (branch_ok E) branches) \<and>
     list_all (\<lambda>f. f False (l # ls)) (opt_list (map_option (map (stmt_ok E)) els)))"
| "stmt_ok E (WhileStmt _ l e body _) = (\<lambda>outer ls.
     \<not> outer \<and> l \<notin> set ls \<and> E e \<and> list_all (\<lambda>f. f False (l # ls)) (map (stmt_ok E) body))"
| "stmt_ok E (ForStmt _ l v e body _) = (\<lambda>outer ls.
     \<not> outer \<and> l \<notin> set ls \<and> name_ok v \<and> E e \<and>
     list_all (\<lambda>f. f False (l # ls)) (map (stmt_ok E) body))"
| "stmt_ok E (LogicDecl _ n params tags body _ types) = (\<lambda>outer ls.
     outer \<and> name_ok n \<and> n \<notin> set ls \<and> distinct params \<and> list_all name_ok params \<and> distinct tags \<and>
     list_all (declared_ok \<circ> snd) types \<and> distinct (concat (map stmt_generics body)) \<and>
     list_all (\<lambda>f. f False (n # ls)) (map (stmt_ok E) body))"
| "entry_ok E (ObjectField _ _ e d t) = (\<lambda>ls. E e \<and>
     (case d of None \<Rightarrow> t = None | Some d' \<Rightarrow> declared_ok (d', t)))"
| "entry_ok E (BlockEntry st) = (\<lambda>ls. stmt_ok E st False ls)"
| "catch_ok E (CatchBranch _ _ body) = (\<lambda>ls. list_all (\<lambda>f. f False ls) (map (stmt_ok E) body))"
| "branch_ok E (IfBranch e body _) = (\<lambda>ls. E e \<and> list_all (\<lambda>f. f False ls) (map (stmt_ok E) body))"

lemma list_all_apply_map [simp]:
  "list_all (\<lambda>f. f x) (map g xs) = list_all (\<lambda>a. g a x) xs"
  "list_all (\<lambda>f. f x y) (map h xs) = list_all (\<lambda>a. h a x y) xs"
  by (simp_all add: list.pred_map comp_def)

subsection \<open>The stack under SEP-local labels\<close>

definition add_generics :: "nat list \<Rightarrow> open_block list \<Rightarrow> open_block list" where
  "add_generics ns st = fold use_generic ns st"

lemma add_generics_simps [simp]:
  "add_generics [] st = st" "add_generics [n] st = use_generic n st"
  "add_generics b (add_generics a st) = add_generics (a @ b) st"
  by (simp_all add: add_generics_def)

lemma use_generic_append: "use_generic n (add_generics ns st) = add_generics (ns @ [n]) st"
  by (simp add: add_generics_def)

lemma map_label_use_generic [simp]: "map ob_label (use_generic n st) = map ob_label st"
  by (induction st) auto

lemma map_label_add_generics [simp]: "map ob_label (add_generics ns st) = map ob_label st"
  by (induction ns arbitrary: st) (simp_all add: add_generics_def)

lemma add_generics_Nil [simp]: "add_generics ns [] = []"
  by (induction ns) (simp_all add: add_generics_def)

lemma add_generics_Cons:
  "ob_kind b \<noteq> U ''SEP'' \<Longrightarrow> add_generics ns (b # st) = b # add_generics ns st"
  by (induction ns arbitrary: st) (simp_all add: add_generics_def)

lemma add_generics_sep:
  "ob_kind b = U ''SEP'' \<Longrightarrow>
     add_generics ns (b # st) = b\<lparr>ob_generic := rev ns @ ob_generic b\<rparr> # st"
  by (induction ns arbitrary: b) (simp_all add: add_generics_def)

lemma open_sep_simps [simp]:
  "open_sep [] = None" "open_sep (b # st) = (if ob_kind b = U ''SEP'' then Some b else open_sep st)"
  by (simp_all add: open_sep_def)

lemma open_sep_use_generic [simp]: "open_sep (use_generic n st) = None \<longleftrightarrow> open_sep st = None"
  by (induction st) auto

lemma open_sep_add_generics [simp]: "open_sep (add_generics ns st) = None \<longleftrightarrow> open_sep st = None"
  by (induction ns arbitrary: st) (simp_all add: add_generics_def)

lemma generics_distinct_simps [simp]:
  "generics_distinct []"
  "generics_distinct (b # st) \<longleftrightarrow> distinct (ob_generic b) \<and> generics_distinct st"
  by (simp_all add: generics_distinct_def)

lemma generics_distinct_use:
  "generics_distinct st \<Longrightarrow> open_sep st = Some b \<Longrightarrow> n \<notin> set (ob_generic b) \<Longrightarrow>
     generics_distinct (use_generic n st)"
  by (induction st) (auto split: if_splits)

text \<open>There is room for SEP-local labels: an open SEP in which they are all new.\<close>

definition room :: "nat list \<Rightarrow> open_block list \<Rightarrow> bool" where
  "room ns st \<longleftrightarrow> generics_distinct (add_generics ns st) \<and> (open_sep st = None \<longrightarrow> ns = [])"

lemma generics_distinct_unuse: "generics_distinct (use_generic n st) \<Longrightarrow> generics_distinct st"
  by (induction st) (auto split: if_splits)

lemma room_Nil [simp]: "room [] st = generics_distinct st"
  by (simp add: room_def)

lemma room_distinct: "room ns st \<Longrightarrow> generics_distinct (add_generics ns st)"
  by (simp add: room_def)

lemma generics_distinct_unadd: "generics_distinct (add_generics ns st) \<Longrightarrow> generics_distinct st"
  by (induction ns arbitrary: st) (auto simp: add_generics_def dest: generics_distinct_unuse)

lemma room_append [simp]: "room (a @ b) st \<longleftrightarrow> room a st \<and> room b (add_generics a st)"
  using generics_distinct_unadd [of b "add_generics a st"] by (auto simp: room_def)

lemma new_block_simps [simp]:
  "ob_kind (new_block k l) = k" "ob_label (new_block k l) = tok_lexeme l" "ob_generic (new_block k l) = []"
  by (simp_all add: new_block_def)

lemma add_generics_new_block [simp]:
  "k \<noteq> U ''SEP'' \<Longrightarrow> add_generics ns (new_block k l # st) = new_block k l # add_generics ns st"
  by (simp add: add_generics_Cons)

lemma room_block [simp]: "k \<noteq> U ''SEP'' \<Longrightarrow> room ns (new_block k l # st) = room ns st"
  by (simp add: room_def add_generics_Cons)

lemma room_sep [simp]: "room ns (new_block (U ''SEP'') l # st) \<longleftrightarrow> distinct ns \<and> generics_distinct st"
  by (simp add: room_def add_generics_sep)

definition pushed :: "ustr \<Rightarrow> token \<Rightarrow> open_block list \<Rightarrow> open_block list" where
  "pushed k l st = new_block k l # add_generics (generic_of (tok_lexeme l)) st"

lemma pushed_simps [simp]:
  "map ob_label (pushed k l st) = tok_lexeme l # map ob_label st"
  "tl (pushed k l st) = add_generics (generic_of (tok_lexeme l)) st"
  "room gs (pushed k l st) = room gs (new_block k l # add_generics (generic_of (tok_lexeme l)) st)"
  "generics_distinct (pushed k l st) = generics_distinct (add_generics (generic_of (tok_lexeme l)) st)"
  by (simp_all add: pushed_def)

lemma pushed_add_generics [simp]:
  "k \<noteq> U ''SEP'' \<Longrightarrow> add_generics gs (pushed k l st) = new_block k l # add_generics (generic_of (tok_lexeme l) @ gs) st"
  "tl (add_generics gs (pushed (U ''SEP'') l st)) = add_generics (generic_of (tok_lexeme l)) st"
  by (simp_all add: pushed_def add_generics_Cons add_generics_sep)

lemma with_label_None: "with_label l st = None \<longleftrightarrow> l \<notin> set (map ob_label st)"
  by (auto simp: with_label_def find_None_iff)

text \<open>
  \<open>_push\<close>: it raises before it changes anything, or the label is new, also as a SEP-local one.
\<close>

lemma push_use:
  assumes d: "generics_distinct (p_stack s)"
    and Q: "tok_lexeme l \<notin> set (map ob_label (p_stack s)) \<Longrightarrow>
      room (generic_of (tok_lexeme l)) (p_stack s) \<Longrightarrow>
      Q () (at_state s (p_current s) (pushed kind l (p_stack s)))"
    and X: "\<And>x. X x s"
  shows "post (p_push kind l) Q X F s"
proof (cases "with_label (tok_lexeme l) (p_stack s) = None \<and> \<not> malformed_local_label (p_unicode s) (tok_lexeme l)")
  case False
  then show ?thesis using X by (auto simp: p_push_def Let_def)
next
  case True
  then have new: "tok_lexeme l \<notin> set (map ob_label (p_stack s))" by (simp add: with_label_None)
  show ?thesis
  proof (cases "generic_label_number (tok_lexeme l)")
    case None
    then have g: "generic_of (tok_lexeme l) = []" by (simp add: generic_of_def)
    from Q [OF new] d have "Q () (at_state s (p_current s) (new_block kind l # p_stack s))"
      by (simp add: g pushed_def)
    with True None show ?thesis by (simp add: p_push_def)
  next
    case (Some n)
    then have g: "generic_of (tok_lexeme l) = [n]" by (simp add: generic_of_def)
    show ?thesis
    proof (cases "open_sep (p_stack s)")
      case None
      with True Some X show ?thesis by (simp add: p_push_def)
    next
      case sep: (Some b)
      show ?thesis
      proof (cases "n \<in> set (ob_generic b)")
        case True
        with \<open>with_label _ _ = None \<and> _\<close> Some sep X show ?thesis by (simp add: p_push_def)
      next
        case False
        from generics_distinct_use [OF d sep False] Q [OF new] sep
        have "Q () (at_state s (p_current s) (new_block kind l # use_generic n (p_stack s)))"
          by (simp add: g pushed_def room_def)
        with True Some sep False show ?thesis by (simp add: p_push_def)
      qed
    qed
  qed
qed

subsection \<open>The small steps of a block\<close>

lemma newlines_use:
  assumes v: "stream_ok sp s" "p_current s < length (p_tokens s)"
    and Q: "\<And>c. p_current s \<le> c \<Longrightarrow> c < length (p_tokens s) \<Longrightarrow>
      tok_type (nth_token s c) \<noteq> T_NEWLINE \<Longrightarrow> Q () (at_state s c (p_stack s))"
  shows "post p_newlines Q X F s"
  unfolding p_newlines_def
proof (rule post_parser_loop [where I = "\<lambda>_ u. \<exists>c. u = at_state s c (p_stack s) \<and> p_current s \<le> c \<and>
    c < length (p_tokens s)"])
  show "\<exists>c. s = at_state s c (p_stack s) \<and> p_current s \<le> c \<and> c < length (p_tokens s)"
    using v by (auto intro!: exI [of _ "p_current s"])
qed (use Q advance_in_range [OF v(1)] in auto)

lemma line_end_use:
  assumes "stream_ok sp s" and "p_current s < length (p_tokens s)"
    and "\<And>c. p_current s \<le> c \<Longrightarrow> c < length (p_tokens s) \<Longrightarrow> Q () (at_state s c (p_stack s))"
    and "\<And>x. X x s"
  shows "post p_line_end Q X F s"
  using assms advance_in_range [OF assms(1,2)] assms(3) [of "p_current s"]
  by (auto simp: p_line_end_def)

lemma post_binding [simp]:
  "post (p_binding t) Q X F s =
     (if name_ok (tok_lexeme t) then Q t s
      else X (mk_error_a 215 ''Reserved context name'' (tok_position t) (tok_lexeme t)) s)"
  by (simp add: p_binding_def name_ok_def)

lemma branch_label_use:
  assumes v: "stream_ok sp s" "p_current s < length (p_tokens s)"
    and Q: "\<And>c. p_current s < c \<Longrightarrow> c < length (p_tokens s) \<Longrightarrow> Q () (at_state s c (p_stack s))"
    and X: "\<And>x c. p_current s \<le> c \<Longrightarrow> c < length (p_tokens s) \<Longrightarrow> X x (at_state s c (p_stack s))"
  shows "post (p_branch_label l branch) Q X F s"
proof -
  note range = advance_in_range [OF v(1)]
  have self: "X x s" for x using X [of "p_current s" x] v by simp
  show ?thesis
    using v Q X self
    by (auto simp: p_branch_label_def p_mismatch_def range intro!: line_end_use [of sp])
qed

text \<open>A closer pops the block it closes.\<close>

lemma close_use:
  assumes v: "stream_ok sp s" "p_current s < length (p_tokens s)" and k: "k \<noteq> T_EOF"
    and Q: "\<And>c. p_current s < c \<Longrightarrow> c < length (p_tokens s) \<Longrightarrow> Q () (at_state s c (tl (p_stack s)))"
    and X: "\<And>x c. p_current s \<le> c \<Longrightarrow> c < length (p_tokens s) \<Longrightarrow> X x (at_state s c (p_stack s))"
  shows "post (p_close k kind) Q X F s"
proof -
  note range = advance_in_range [OF v(1)]
  have self: "X x s" for x using X [of "p_current s" x] v by simp
  show ?thesis
    using v k Q X self
    by (auto simp: p_close_def p_mismatch_def Let_def range intro!: line_end_use [of sp])
qed

lemma post_reject_closer:
  assumes "\<And>x. X x s" and "\<not> is_closer (nth_token s (p_current s)) \<Longrightarrow> Q () s"
  shows "post p_reject_closer Q X F s"
  using assms by (auto simp: p_reject_closer_def p_unexpected_or_nesting_def Let_def)

lemma opening_label_use:
  assumes v: "stream_ok sp s" "p_current s < length (p_tokens s)" "generics_distinct (p_stack s)"
    and Q: "\<And>l c. tok_lexeme l \<notin> set (map ob_label (p_stack s)) \<Longrightarrow>
      room (generic_of (tok_lexeme l)) (p_stack s) \<Longrightarrow>
      p_current s < c \<Longrightarrow> c < length (p_tokens s) \<Longrightarrow>
      Q l (at_state s c (pushed kind l (p_stack s)))"
    and X: "\<And>x c. p_current s \<le> c \<Longrightarrow> c < length (p_tokens s) \<Longrightarrow> X x (at_state s c (p_stack s))"
  shows "post (p_opening_label kind) Q X F s"
proof -
  note range = advance_in_range [OF v(1)]
  have self: "X x s" for x using X [of "p_current s" x] v by simp
  show ?thesis
    using v Q X self
    by (auto simp: p_opening_label_def range intro!: line_end_use [of sp] push_use)
qed

lemma post_unclosed:
  assumes "\<And>x. X x s" and "tok_type (nth_token s (p_current s)) \<noteq> T_EOF \<Longrightarrow> Q () s"
  shows "post p_unclosed Q X F s"
  using assms by (auto simp: p_unclosed_def)

subsection \<open>Contracts of the block and statement methods\<close>

text \<open>
  \<open>builds sp N pre G P m\<close>: from a valid state where \<open>pre\<close> holds, \<open>m\<close> moves forward, leaves the
  stack as it was except that the SEP-local labels \<open>G\<close> of its result are taken, and its result is
  well formed (\<open>P\<close>) under the labels of the open blocks. It may run out of nested calls only where
  \<open>N\<close> holds: \<open>short b\<close> for the methods that call others with a bound of \<open>b\<close>, and \<open>late b\<close> for a
  call of a statement with that bound.
\<close>

definition late :: "nat \<Rightarrow> parser \<Rightarrow> bool" where
  "late b s \<longleftrightarrow> b + p_current s < Suc (length (p_tokens s))"

lemma late_at_state [simp]: "late b (at_state s c st) \<longleftrightarrow> b + c < Suc (length (p_tokens s))"
  by (simp add: late_def)

definition labels :: "parser \<Rightarrow> ustr list" where
  "labels s = map ob_label (p_stack s)"

lemma labels_at_state [simp]: "labels (at_state s c st) = map ob_label st"
  by (simp add: labels_def)

definition not_eof :: "parser \<Rightarrow> bool" where
  "not_eof s \<longleftrightarrow> tok_type (nth_token s (p_current s)) \<noteq> T_EOF"

definition builds ::
  "bool \<Rightarrow> (parser \<Rightarrow> bool) \<Rightarrow> (parser \<Rightarrow> bool) \<Rightarrow> ('a \<Rightarrow> nat list) \<Rightarrow> (ustr list \<Rightarrow> 'a \<Rightarrow> bool) \<Rightarrow> 'a parse \<Rightarrow> bool" where
  "builds sp N pre G P m \<longleftrightarrow>
     (\<forall>s. valid sp s \<and> not_eof s \<and> pre s \<longrightarrow>
        post m (\<lambda>a t. P (labels s) a \<and> room (G a) (p_stack s) \<and>
            (\<exists>c. t = at_state s c (add_generics (G a) (p_stack s)) \<and> p_current s < c \<and> c < length (p_tokens s)))
          (failed s) (N s) s)"

lemma buildsD:
  assumes "builds sp N pre G P m" and "valid sp s" and "not_eof s" and "pre s"
    and "\<And>a c. P (labels s) a \<Longrightarrow> room (G a) (p_stack s) \<Longrightarrow> p_current s < c \<Longrightarrow> c < length (p_tokens s) \<Longrightarrow>
      Q a (at_state s c (add_generics (G a) (p_stack s)))"
    and "\<And>x c st. p_current s \<le> c \<Longrightarrow> c < length (p_tokens s) \<Longrightarrow> X x (at_state s c st)"
    and "N s \<Longrightarrow> F"
  shows "post m Q X F s"
proof -
  from assms(1-4) have "post m (\<lambda>a t. P (labels s) a \<and> room (G a) (p_stack s) \<and>
    (\<exists>c. t = at_state s c (add_generics (G a) (p_stack s)) \<and> p_current s < c \<and> c < length (p_tokens s)))
    (failed s) (N s) s" by (simp add: builds_def)
  then show ?thesis by (rule post_mono) (auto simp: failed_def assms)
qed

lemma buildsI:
  assumes "\<And>s. valid sp s \<Longrightarrow> stream_ok sp s \<Longrightarrow> p_current s < length (p_tokens s) \<Longrightarrow>
      generics_distinct (p_stack s) \<Longrightarrow> tok_type (nth_token s (p_current s)) \<noteq> T_EOF \<Longrightarrow> pre s \<Longrightarrow>
      post m (\<lambda>a t. P (labels s) a \<and> room (G a) (p_stack s) \<and>
          (\<exists>c. t = at_state s c (add_generics (G a) (p_stack s)) \<and> p_current s < c \<and> c < length (p_tokens s)))
        (failed s) (N s) s"
  shows "builds sp N pre G P m"
  using assms by (simp add: builds_def valid_def not_eof_def)

text \<open>The loop over the parts of a block: \<open>G\<close> is the labels of the parts so far.\<close>

lemma build_loop_use:
  assumes v: "stream_ok sp s" "p_current s < length (p_tokens s)" "generics_distinct (p_stack s)"
    and P: "P a" "G a = []"
    and step: "\<And>a c. P a \<Longrightarrow> room (G a) (p_stack s) \<Longrightarrow> p_current s \<le> c \<Longrightarrow> c < length (p_tokens s) \<Longrightarrow>
      post (f a) (\<lambda>r t. case r of
          Inl a' \<Rightarrow> P a' \<and> room (G a') (p_stack s) \<and>
            (\<exists>c'. t = at_state s c' (add_generics (G a') (p_stack s)) \<and> c < c' \<and> c' < length (p_tokens s))
        | Inr b \<Rightarrow> R b \<and> room (H b) (p_stack s) \<and>
            (\<exists>c'. t = at_state s c' (add_generics (H b) (p_stack s)) \<and> c \<le> c' \<and> c' < length (p_tokens s) \<and> T b c'))
        (failed s) F (at_state s c (add_generics (G a) (p_stack s)))"
    and Q: "\<And>b c. R b \<Longrightarrow> room (H b) (p_stack s) \<Longrightarrow> p_current s \<le> c \<Longrightarrow> c < length (p_tokens s) \<Longrightarrow> T b c \<Longrightarrow>
      Q b (at_state s c (add_generics (H b) (p_stack s)))"
    and X: "\<And>x c st. p_current s \<le> c \<Longrightarrow> c < length (p_tokens s) \<Longrightarrow> X x (at_state s c st)"
    and F: "F \<Longrightarrow> F'"
  shows "post (parser_loop f a) Q X F' s"
proof -
  let ?I = "\<lambda>a u. P a \<and> room (G a) (p_stack s) \<and>
    (\<exists>c. u = at_state s c (add_generics (G a) (p_stack s)) \<and> p_current s \<le> c \<and> c < length (p_tokens s))"
  let ?Q = "\<lambda>b t. R b \<and> room (H b) (p_stack s) \<and>
    (\<exists>c. t = at_state s c (add_generics (H b) (p_stack s)) \<and> p_current s \<le> c \<and> c < length (p_tokens s) \<and> T b c)"
  have "post (parser_loop f a) ?Q (failed s) F s"
  proof (rule post_parser_loop [where I = ?I])
    show "?I a s" using v P by (auto intro!: exI [of _ "p_current s"])
  next
    fix a u
    assume "?I a u"
    then obtain c where u: "P a" "room (G a) (p_stack s)" "u = at_state s c (add_generics (G a) (p_stack s))"
      "p_current s \<le> c" "c < length (p_tokens s)" by blast
    from step [OF u(1,2,4,5)]
    show "post (f a) (\<lambda>r t. case r of Inl a' \<Rightarrow> ?I a' t \<and> tokens_left t < tokens_left u | Inr b \<Rightarrow> ?Q b t)
      (failed s) F u"
      unfolding u(3) by (rule post_mono) (use u(4) in \<open>fastforce split: sum.splits\<close>)+
  qed
  then show ?thesis by (rule post_mono) (auto simp: failed_def Q X F)
qed

definition body_generics :: "stmt list \<Rightarrow> nat list" where
  "body_generics body = concat (map stmt_generics body)"

lemma body_generics_simps [simp]:
  "body_generics [] = []" "body_generics (a @ b) = body_generics a @ body_generics b"
  "body_generics [st] = stmt_generics st"
  by (simp_all add: body_generics_def)

definition expr_ok :: "bool \<Rightarrow> expr \<Rightarrow> bool" where
  "expr_ok sp e \<longleftrightarrow> (sp \<longrightarrow> unchained e)"

definition body_ok :: "bool \<Rightarrow> ustr list \<Rightarrow> stmt list \<Rightarrow> bool" where
  "body_ok sp ls body \<longleftrightarrow> list_all (\<lambda>st. stmt_ok (expr_ok sp) st False ls) body"

lemma body_ok_simps [simp]:
  "body_ok sp ls []" "body_ok sp ls (a @ b) \<longleftrightarrow> body_ok sp ls a \<and> body_ok sp ls b"
  "body_ok sp ls [st] \<longleftrightarrow> stmt_ok (expr_ok sp) st False ls"
  by (simp_all add: body_ok_def)

text \<open>What the block and statement methods may rely on.\<close>

locale parser_calls = expression_calls +
  assumes declared_type_call:
      "builds sp (short b) (\<lambda>_. True) (\<lambda>_. []) (\<lambda>_. declared_ok) (f_declared_type r)"
    and statement_call:
      "builds sp (late b) (\<lambda>s. outer \<longrightarrow> p_stack s = []) stmt_generics
         (\<lambda>ls st. stmt_ok (expr_ok sp) st outer ls) (f_statement r outer)"
    and object_call:
      "builds sp (late b) (\<lambda>_. True) stmt_generics
         (\<lambda>ls st. stmt_ok (expr_ok sp) st False ls) (f_object r)"
begin

lemmas declared_type_use = buildsD [OF declared_type_call]
lemmas statement_use = buildsD [OF statement_call]
lemmas object_use = buildsD [OF object_call]

lemma expr_use:
  assumes "valid sp s"
    and "\<And>e c. expr_ok sp e \<Longrightarrow> p_current s < c \<Longrightarrow> c < length (p_tokens s) \<Longrightarrow> Q e (at_state s c (p_stack s))"
    and "\<And>x c st. p_current s \<le> c \<Longrightarrow> c < length (p_tokens s) \<Longrightarrow> X x (at_state s c st)"
    and "short b s \<Longrightarrow> F"
  shows "post (f_expression r) Q X F s"
  using assms by (intro expression_use) (auto simp: expr_ok_def)

lemma value_line_use:
  assumes "valid sp s"
    and "\<And>e c. expr_ok sp e \<Longrightarrow> p_current s < c \<Longrightarrow> c < length (p_tokens s) \<Longrightarrow> Q e (at_state s c (p_stack s))"
    and "\<And>x c st. p_current s \<le> c \<Longrightarrow> c < length (p_tokens s) \<Longrightarrow> X x (at_state s c st)"
    and "short b s \<Longrightarrow> F"
  shows "post (p_value_line r) Q X F s"
  using assms by (auto simp: p_value_line_def valid_def intro!: expr_use line_end_use [of sp])

lemma declared_type_builds:
  "builds sp (short (Suc b)) (\<lambda>_. True) (\<lambda>_. []) (\<lambda>_. declared_ok) (p_declared_type r)"
proof (rule buildsI, goal_cases)
  case (1 s)
  note range = advance_in_range [OF 1(2)]
  show ?case
    unfolding p_declared_type_def
    using 1(2-5) failed_self [OF 1(1)]
    by (auto simp: Let_def short_def range declared_ok_def not_eof_def split: prod.split option.splits
        intro!: declared_type_use)
qed

text \<open>A body ends before one of the endings, which is not EOF.\<close>

lemma body_until_use:
  assumes v: "valid sp s"
    and Q: "\<And>body c. body_ok sp (labels s) body \<Longrightarrow> room (body_generics body) (p_stack s) \<Longrightarrow>
      p_current s \<le> c \<Longrightarrow> c < length (p_tokens s) \<Longrightarrow> tok_type (nth_token s c) \<in> set endings \<Longrightarrow>
      Q body (at_state s c (add_generics (body_generics body) (p_stack s)))"
    and X: "\<And>x c st. p_current s \<le> c \<Longrightarrow> c < length (p_tokens s) \<Longrightarrow> X x (at_state s c st)"
    and F: "late b s \<Longrightarrow> F"
  shows "post (p_body_until r endings) Q X F s"
proof -
  have s: "stream_ok sp s" "p_current s < length (p_tokens s)" "generics_distinct (p_stack s)"
    using v by (simp_all add: valid_def)
  note range = advance_in_range [OF s(1)]
  have body: "post (parser_loop (p_body_step r endings) [])
      (\<lambda>a. post (andthen p_unclosed (\<lambda>_. ret a)) Q X F) X F (at_state s c0 (p_stack s))"
    if c0: "p_current s \<le> c0" "c0 < length (p_tokens s)" for c0
  proof (rule build_loop_use [where P = "body_ok sp (labels s)" and G = body_generics and R = "body_ok sp (labels s)"
        and H = body_generics and sp = sp and F = F and
        T = "\<lambda>b c. tok_type (nth_token s c) \<in> set endings \<union> {T_EOF}"], goal_cases)
    case (6 a c)
    with c0 s F show ?case
      by (auto simp: p_body_step_def range short_def late_def labels_def not_eof_def valid_def
          room_distinct intro!: post_reject_closer statement_use newlines_use [of sp])
  next
    case (7 body c)
    with c0 Q X s show ?case by (auto intro!: post_unclosed)
  qed (use s X c0 in \<open>auto simp: range\<close>)
  show ?thesis
    unfolding p_body_until_def post_andthen
  proof (rule newlines_use [OF s(1,2)])
    fix c
    assume "p_current s \<le> c" "c < length (p_tokens s)"
    from body [OF this] show "post (parser_loop (p_body_step r endings) [])
      (\<lambda>a. post p_unclosed (\<lambda>aa. post (ret a) Q X F) X F) X F (at_state s c (p_stack s))"
      unfolding post_andthen .
  qed
qed

text \<open>At the end of the file \<open>_body_until\<close> only raises.\<close>

lemma body_until_eof:
  assumes "tok_type (nth_token s (p_current s)) = T_EOF" and "\<And>x. X x s"
  shows "post (p_body_until r endings) Q X F s"
proof -
  have unroll: "post (parser_loop f a) Q X F s
      = post (andthen (f a) (\<lambda>r. case r of Inl a' \<Rightarrow> loop_n (tokens_left s) f a' | Inr b \<Rightarrow> ret b)) Q X F s"
    for f :: "'b \<Rightarrow> ('b + 'c) parse" and a Q X F
    by (simp add: parser_loop_def post_def)
  show ?thesis
    using assms by (auto simp: p_body_until_def p_newlines_def p_body_step_def unroll intro!: post_unclosed)
qed

abbreviation inner :: "ustr list \<Rightarrow> stmt \<Rightarrow> bool" where
  "inner ls st \<equiv> stmt_ok (expr_ok sp) st False ls"

abbreviation anywhere :: "stmt parse \<Rightarrow> bool" where
  "anywhere m \<equiv> builds sp (short b) (\<lambda>_. True) stmt_generics inner m"

lemma while_builds: "anywhere (p_while r)"
proof (rule buildsI, goal_cases)
  case (1 s)
  note range = advance_in_range [OF 1(2)]
  show ?case
    unfolding p_while_def
    using 1(2-5)
    by (auto simp: short_def range labels_def body_ok_def body_generics_def room_distinct
        intro!: expr_use opening_label_use [of sp] body_until_use close_use [of sp])
qed

lemma for_builds: "anywhere (p_for r)"
proof (rule buildsI, goal_cases)
  case (1 s)
  note range = advance_in_range [OF 1(2)]
  show ?case
    unfolding p_for_def
    using 1(2-5)
    by (auto simp: short_def range labels_def body_ok_def body_generics_def room_distinct
        intro!: expr_use opening_label_use [of sp] body_until_use close_use [of sp])
qed

lemma transaction_builds: "anywhere (p_transaction r)"
proof (rule buildsI, goal_cases)
  case (1 s)
  note range = advance_in_range [OF 1(2)]
  show ?case
    unfolding p_transaction_def
    using 1(2-5)
    by (auto simp: short_def range labels_def body_ok_def body_generics_def room_distinct
        intro!: expr_use opening_label_use [of sp] body_until_use close_use [of sp])
qed

lemma if_branches_use:
  assumes v: "valid sp s" and cond: "expr_ok sp condition"
    and Q: "\<And>branches els c. branches \<noteq> [] \<Longrightarrow>
      list_all (\<lambda>br. branch_ok (expr_ok sp) br (labels s)) branches \<Longrightarrow> body_ok sp (labels s) (opt_list els) \<Longrightarrow>
      room (concat (map branch_generics branches) @ body_generics (opt_list els)) (p_stack s) \<Longrightarrow>
      p_current s \<le> c \<Longrightarrow> c < length (p_tokens s) \<Longrightarrow>
      Q (branches, els) (at_state s c
        (add_generics (concat (map branch_generics branches) @ body_generics (opt_list els)) (p_stack s)))"
    and X: "\<And>x c st. p_current s \<le> c \<Longrightarrow> c < length (p_tokens s) \<Longrightarrow> X x (at_state s c st)"
    and F: "late b s \<Longrightarrow> F"
  shows "post (parser_loop (p_if_step r label) ([], condition, pos)) Q X F s"
proof -
  have s: "stream_ok sp s" "p_current s < length (p_tokens s)" "generics_distinct (p_stack s)"
    using v by (simp_all add: valid_def)
  note range = advance_in_range [OF s(1)]
  let ?ok = "list_all (\<lambda>br. branch_ok (expr_ok sp) br (labels s))"
  let ?gen = "\<lambda>branches. concat (map branch_generics branches)"
  have labels_fold: "map ob_label (p_stack s) = labels s" by (simp add: labels_def)
  show ?thesis
  proof (rule build_loop_use [where sp = sp and F = F
        and P = "\<lambda>(branches, e, _). ?ok branches \<and> expr_ok sp e" and G = "\<lambda>(branches, _). ?gen branches"
        and R = "\<lambda>(branches, els). branches \<noteq> [] \<and> ?ok branches \<and> body_ok sp (labels s) (opt_list els)"
        and H = "\<lambda>(branches, els). ?gen branches @ body_generics (opt_list els)" and T = "\<lambda>_ _. True"], goal_cases)
    case (6 a c)
    with s F show ?case
      by (auto simp: p_if_step_def Let_def range short_def late_def labels_fold room_distinct opt_list_def
          body_ok_def body_generics_def split: prod.splits
          intro!: body_until_use expr_use branch_label_use [of sp])
  next
    case (7 a c)
    with Q show ?case by (auto split: prod.splits)
  qed (use s X cond F in auto)
qed

lemma if_builds: "anywhere (p_if r)"
proof (rule buildsI, goal_cases)
  case (1 s)
  note range = advance_in_range [OF 1(2)]
  have opt: "list_all f (opt_list (map_option (map g) x)) = list_all (\<lambda>a. f (g a)) (opt_list x)"
    "concat (opt_list (map_option (map h) x)) = concat (map h (opt_list x))" for f g h x
    by (cases x; simp add: opt_list_def list.pred_map comp_def)+
  show ?case
    unfolding p_if_def
    using 1(2-5)
    by (auto simp: short_def range labels_def body_ok_def body_generics_def room_distinct opt
        intro!: expr_use opening_label_use [of sp] if_branches_use close_use [of sp])
qed

lemma catches_use:
  assumes v: "valid sp s"
    and Q: "\<And>catches c. distinct (map catch_category catches) \<Longrightarrow>
      U ''any'' \<notin> set (butlast (map catch_category catches)) \<Longrightarrow>
      list_all (\<lambda>br. catch_ok (expr_ok sp) br (labels s)) catches \<Longrightarrow>
      room (concat (map catch_generics catches)) (p_stack s) \<Longrightarrow>
      p_current s \<le> c \<Longrightarrow> c < length (p_tokens s) \<Longrightarrow>
      Q catches (at_state s c (add_generics (concat (map catch_generics catches)) (p_stack s)))"
    and X: "\<And>x c st. p_current s \<le> c \<Longrightarrow> c < length (p_tokens s) \<Longrightarrow> X x (at_state s c st)"
    and F: "late b s \<Longrightarrow> F"
  shows "post (parser_loop (p_catch_step r label) ([], [])) Q X F s"
proof -
  have s: "stream_ok sp s" "p_current s < length (p_tokens s)" "generics_distinct (p_stack s)"
    using v by (simp_all add: valid_def)
  note range = advance_in_range [OF s(1)]
  let ?ok = "\<lambda>catches. distinct (map catch_category catches) \<and>
    U ''any'' \<notin> set (butlast (map catch_category catches)) \<and>
    list_all (\<lambda>br. catch_ok (expr_ok sp) br (labels s)) catches"
  let ?gen = "\<lambda>catches. concat (map catch_generics catches)"
  have labels_fold: "map ob_label (p_stack s) = labels s" by (simp add: labels_def)
  show ?thesis
  proof (rule build_loop_use [where sp = sp and F = F
        and P = "\<lambda>(catches, seen). ?ok catches \<and> seen = map catch_category catches"
        and G = "\<lambda>(catches, _). ?gen catches" and R = ?ok and H = ?gen and T = "\<lambda>_ _. True"], goal_cases)
    case (6 a c)
    with s F show ?case
      by (auto simp: p_catch_step_def Let_def range short_def late_def labels_fold room_distinct catch_category_def
          body_ok_def body_generics_def butlast_append split: prod.splits dest: in_set_butlastD
          intro!: body_until_use branch_label_use [of sp])
  qed (use s X F Q in auto)
qed

lemma opt_list_map:
  "list_all f (opt_list (map_option (map g) x)) = list_all (\<lambda>a. f (g a)) (opt_list x)"
  "concat (opt_list (map_option (map h) x)) = concat (map h (opt_list x))"
  by (cases x; simp add: opt_list_def list.pred_map comp_def)+

lemma opt_list_simps [simp]: "opt_list None = []" "opt_list (Some xs) = xs"
  by (simp_all add: opt_list_def)

lemma try_builds: "anywhere (p_try r)"
proof (rule buildsI, goal_cases)
  case (1 s)
  note range = advance_in_range [OF 1(2)]
  show ?case
    unfolding p_try_def
    using 1(2-5)
    by (auto simp: short_def range labels_def body_ok_def body_generics_def room_distinct opt_list_map
        intro!: opening_label_use [of sp] body_until_use catches_use branch_label_use [of sp] close_use [of sp])
qed

abbreviation freely :: "bool \<Rightarrow> stmt parse \<Rightarrow> bool" where
  "freely outer m \<equiv>
     builds sp (short b) (\<lambda>_. True) stmt_generics (\<lambda>ls st. stmt_ok (expr_ok sp) st outer ls) m"

abbreviation outermost :: "stmt parse \<Rightarrow> bool" where
  "outermost m \<equiv> builds sp (short b) (\<lambda>s. p_stack s = []) stmt_generics
     (\<lambda>ls st. stmt_ok (expr_ok sp) st True ls) m"

lemma import_builds: "outermost p_import"
proof (rule buildsI, goal_cases)
  case (1 s)
  note range = advance_in_range [OF 1(2)]
  show ?case
    unfolding p_import_def
    using 1(2-6) by (auto simp: range intro!: line_end_use [of sp])
qed

lemma error_declaration_builds: "outermost p_error_declaration"
proof (rule buildsI, goal_cases)
  case (1 s)
  note range = advance_in_range [OF 1(2)]
  show ?case
    unfolding p_error_declaration_def
    using 1(2-6)
    by (auto simp: range labels_def room_distinct
        intro!: line_end_use [of sp] push_use newlines_use [of sp] close_use [of sp])
qed

lemma http_route_builds: "outermost (p_http_route r)"
proof (rule buildsI, goal_cases)
  case (1 s)
  note range = advance_in_range [OF 1(2)]
  show ?case
    unfolding p_http_route_def
    using 1(2-6)
    by (auto simp: short_def range Let_def labels_def body_ok_def body_generics_def room_distinct
        intro!: opening_label_use [of sp] body_until_use close_use [of sp])
qed

lemma block_list_builds: "freely outer (p_block_list r)"
proof (rule buildsI, goal_cases)
  case (1 s)
  note range = advance_in_range [OF 1(2)]
  have loop: "post (parser_loop (p_block_list_step r) []) Q X F u"
    if "valid sp u"
      "\<And>es c. list_all (expr_ok sp) es \<Longrightarrow> p_current u \<le> c \<Longrightarrow> c < length (p_tokens u) \<Longrightarrow> Q es (at_state u c (p_stack u))"
      "\<And>x c st. p_current u \<le> c \<Longrightarrow> c < length (p_tokens u) \<Longrightarrow> X x (at_state u c st)" "short b u \<Longrightarrow> F"
    for Q X F u
  proof (rule post_parse_loopI [where sp = sp and P = "list_all (expr_ok sp)" and R = "list_all (expr_ok sp)"
        and lt = False and F = "short b u"], goal_cases)
    case (3 a c)
    with that(1) show ?case
      by (auto simp: p_block_list_step_def short_def valid_def
          intro!: post_reject_closer expr_use line_end_use [of sp] newlines_use [of sp])
  qed (use that in auto)
  show ?case
    unfolding p_block_list_def
    using 1(2-5)
    by (auto simp: short_def range labels_def room_distinct
        intro!: line_end_use [of sp] push_use newlines_use [of sp] loop body_until_eof close_use [of sp])
qed

lemma object_entry_builds:
  "builds sp (late b) (\<lambda>_. True) entry_generics (\<lambda>ls e. entry_ok (expr_ok sp) e ls) (p_object_entry r)"
proof (rule buildsI, goal_cases)
  case (1 s)
  note range = advance_in_range [OF 1(2)]
  show ?case
    unfolding p_object_entry_def
    using 1 failed_self [OF 1(1)]
    by (auto simp: short_def late_def range not_eof_def labels_def
        intro!: buildsD [OF declared_type_builds] buildsD [OF block_list_builds] object_use expr_use
          line_end_use [of sp])
qed

lemma object_builds: "freely outer (p_object r)"
proof (rule buildsI, goal_cases)
  case (1 s)
  note range = advance_in_range [OF 1(2)]
  let ?gen = "\<lambda>es. concat (map entry_generics es)"
  have loop: "post (parser_loop (p_object_step r) []) Q X F u"
    if u: "valid sp u"
      "\<And>es c. list_all (\<lambda>e. entry_ok (expr_ok sp) e (labels u)) es \<Longrightarrow> distinct (map entry_name es) \<Longrightarrow>
        room (?gen es) (p_stack u) \<Longrightarrow> p_current u \<le> c \<Longrightarrow> c < length (p_tokens u) \<Longrightarrow>
        Q es (at_state u c (add_generics (?gen es) (p_stack u)))"
      "\<And>x c st. p_current u \<le> c \<Longrightarrow> c < length (p_tokens u) \<Longrightarrow> X x (at_state u c st)" "late b u \<Longrightarrow> F"
    for Q X F u
  proof (rule build_loop_use [where sp = sp and F = F and G = ?gen and H = ?gen and T = "\<lambda>_ _. True"
        and P = "\<lambda>es. list_all (\<lambda>e. entry_ok (expr_ok sp) e (labels u)) es \<and> distinct (map entry_name es)"
        and R = "\<lambda>es. list_all (\<lambda>e. entry_ok (expr_ok sp) e (labels u)) es \<and> distinct (map entry_name es)"],
      goal_cases)
    case (6 a c)
    have l: "map ob_label (p_stack u) = labels u" by (simp add: labels_def)
    from 6 u(1,4) show ?case
      by (auto simp: p_object_step_def short_def late_def valid_def not_eof_def l room_distinct
          intro!: post_reject_closer buildsD [OF object_entry_builds] newlines_use [of sp])
  qed (use u in \<open>auto simp: valid_def\<close>)
  show ?case
    unfolding p_object_def
    using 1(2-5)
    by (auto simp: short_def late_def range labels_def room_distinct
        intro!: line_end_use [of sp] push_use newlines_use [of sp] loop body_until_eof close_use [of sp])
qed

text \<open>A SEP: its parameters, its tags, and a body with its own SEP-local labels.\<close>

lemma parameters_use:
  assumes v: "valid sp s"
    and Q: "\<And>params types c. distinct params \<Longrightarrow> list_all name_ok params \<Longrightarrow>
      list_all (declared_ok \<circ> snd) types \<Longrightarrow> p_current s \<le> c \<Longrightarrow> c < length (p_tokens s) \<Longrightarrow>
      Q (params, types) (at_state s c (p_stack s))"
    and X: "\<And>x c st. p_current s \<le> c \<Longrightarrow> c < length (p_tokens s) \<Longrightarrow> X x (at_state s c st)"
    and F: "short (Suc b) s \<Longrightarrow> F"
  shows "post (p_parameters r) Q X F s"
proof -
  have s: "stream_ok sp s" "p_current s < length (p_tokens s)" "generics_distinct (p_stack s)"
    using v by (simp_all add: valid_def)
  note range = advance_in_range [OF s(1)]
  have self: "X x s" for x using X [of "p_current s" x "p_stack s"] s by simp
  have declarable: "tok_type (nth_token s c) \<noteq> T_EOF" if "type_name (nth_token s c) \<in> set DECLARABLE_TYPES" for c
    using that by (auto simp: type_name_def DECLARABLE_TYPES_def)
  let ?P = "\<lambda>(params, types). distinct params \<and> list_all name_ok params \<and> list_all (declared_ok \<circ> snd) types"
  have loop: "post (parser_loop (p_parameter r) ([], []))
      (\<lambda>acc. post (andthen (p_consume T_RPAREN) (\<lambda>_. ret acc)) Q X F) X F (at_state s (Suc (p_current s)) (p_stack s))"
    if "Suc (p_current s) < length (p_tokens s)"
  proof (rule post_parse_loopI [where sp = sp and P = ?P and R = ?P and lt = False
        and F = "short (Suc b) (at_state s (Suc (p_current s)) (p_stack s))"], goal_cases)
    case (3 a c)
    with s that show ?case
      by (auto simp: p_parameter_def Let_def short_def late_def range not_eof_def declarable split: prod.splits
          intro!: buildsD [OF declared_type_builds])
  next
    case (4 a c)
    with Q X that show ?case by (auto simp: range split: prod.splits)
  qed (use s X F that in \<open>auto simp: short_def late_def\<close>)
  show ?thesis
    using loop s Q X range [of "Suc (p_current s)"] range [of "p_current s"] Q [of "[]" "[]" "p_current s"]
    by (auto simp: p_parameters_def)
qed

lemma tags_use:
  assumes v: "valid sp s"
    and Q: "\<And>tags c. distinct tags \<Longrightarrow> p_current s \<le> c \<Longrightarrow> c < length (p_tokens s) \<Longrightarrow>
      Q tags (at_state s c (p_stack s))"
    and X: "\<And>x c st. p_current s \<le> c \<Longrightarrow> c < length (p_tokens s) \<Longrightarrow> X x (at_state s c st)"
  shows "post (parser_loop p_tag_step []) Q X F s"
proof (rule post_parse_loopI [where sp = sp and P = distinct and R = distinct and lt = False and F = F], goal_cases)
  case (3 a c)
  with v show ?case
    by (auto simp: p_tag_step_def valid_def advance_in_range [of sp] nth_token_in_range
        intro!: line_end_use [of sp] newlines_use [of sp])
qed (use assms in auto)

lemma sep_builds: "outermost (p_sep r)"
proof (rule buildsI, goal_cases)
  case (1 s)
  note range = advance_in_range [OF 1(2)]
  show ?case
    unfolding p_sep_def
    using 1(2-6)
    by (auto simp: short_def range labels_def body_ok_def body_generics_def room_distinct
        intro!: parameters_use line_end_use [of sp] push_use newlines_use [of sp] tags_use body_until_use
          close_use [of sp])
qed

text \<open>Simple statements.\<close>

lemma typed_declaration_builds: "freely outer (p_typed_declaration r t c)"
proof (rule buildsI, goal_cases)
  case (1 s)
  note range = advance_in_range [OF 1(2)]
  show ?case
    unfolding p_typed_declaration_def
    using 1
    by (auto simp: short_def range not_eof_def Let_def
        intro!: buildsD [OF declared_type_builds] expr_use line_end_use [of sp])
qed

lemma index_target_EOF: "index_target ks \<Longrightarrow> ks \<noteq> [] \<and> hd ks \<in> {T_LBRACKET, T_EQUAL}"
  by (cases ks) (auto split: if_splits)

declare index_target.simps [simp del]

lemma index_assignment_builds:
  "builds sp (short b) is_index_assignment stmt_generics (\<lambda>ls st. stmt_ok (expr_ok sp) st outer ls)
     (p_index_assignment r)"
proof (rule buildsI, goal_cases)
  case (1 s)
  note range = advance_in_range [OF 1(2)]
  have loop: "post (parser_loop (\<lambda>indexes.
      andthen (p_match [T_LBRACKET]) (\<lambda>b.
        if \<not> b then ret (Inr indexes) else
        andthen (f_expression r) (\<lambda>e.
        andthen (p_consume T_RBRACKET) (\<lambda>_. ret (Inl (indexes @ [e])))))) []) Q X F u"
    if u: "valid sp u" "tok_type (nth_token u (p_current u)) = T_LBRACKET"
      "\<And>es c. es \<noteq> [] \<Longrightarrow> list_all (expr_ok sp) es \<Longrightarrow> p_current u \<le> c \<Longrightarrow> c < length (p_tokens u) \<Longrightarrow>
        Q es (at_state u c (p_stack u))"
      "\<And>x c st. p_current u \<le> c \<Longrightarrow> c < length (p_tokens u) \<Longrightarrow> X x (at_state u c st)" "short b u \<Longrightarrow> F"
    for Q X F u
  proof (rule post_parser_loop [where I = "\<lambda>es v. list_all (expr_ok sp) es \<and> (\<exists>c. v = at_state u c (p_stack u) \<and>
      p_current u \<le> c \<and> c < length (p_tokens u) \<and> (es = [] \<longrightarrow> c = p_current u))"], goal_cases)
    case 1
    show ?case using u(1) by (auto simp: valid_def intro!: exI [of _ "p_current u"])
  next
    case (2 es v)
    with u show ?case
      by (auto simp: valid_def short_def tokens_left_def advance_in_range [of sp] intro!: expr_use)
  qed
  from 1(6) have "tok_type (nth_token s (Suc (p_current s))) = T_LBRACKET"
    by (simp add: is_index_assignment_def)
  then show ?case
    unfolding p_index_assignment_def
    using 1(2-5)
    by (auto simp: short_def range intro!: loop value_line_use)
qed

lemma assignment_builds:
  "builds sp (short b) (\<lambda>s. map_of ASSIGNMENTS (tok_type (nth_token s (Suc (p_current s)))) \<noteq> None)
     stmt_generics (\<lambda>ls st. stmt_ok (expr_ok sp) st outer ls) (p_assignment r)"
proof (rule buildsI, goal_cases)
  case (1 s)
  note range = advance_in_range [OF 1(2)]
  have op: "map_of ASSIGNMENTS k = Some (Some op) \<Longrightarrow> \<not> comparison_operator op" for k op
  proof -
    assume "map_of ASSIGNMENTS k = Some (Some op)"
    then have "op \<in> set (map U [''+'', ''-'', ''*'', ''/'', ''//'', ''%'', ''**''])"
      by (auto simp: ASSIGNMENTS_def split: if_splits)
    moreover have "list_all (\<lambda>w. \<not> comparison_operator w)
      (map U [''+'', ''-'', ''*'', ''/'', ''//'', ''%'', ''**''])" by code_simp
    ultimately show ?thesis by (auto simp: list_all_iff)
  qed
  have value_ok: "expr_ok sp e \<Longrightarrow> map_of ASSIGNMENTS k = Some y \<Longrightarrow>
    expr_ok sp (case y of None \<Rightarrow> e | Some op \<Rightarrow> BinaryExpr p (VariableExpr p' n) op e)"
    for e k y p p' n
    using op by (auto simp: expr_ok_def split: option.split)
  have eof: "tok_type (nth_token s (Suc (p_current s))) \<noteq> T_EOF"
    using 1(6) by (auto simp: ASSIGNMENTS_def)
  show ?case
    unfolding p_assignment_def
    using 1 value_ok eof
    by (auto simp: short_def range intro!: value_line_use)
qed

lemma const_builds: "freely outer (p_const r t)"
proof (rule buildsI, goal_cases)
  case (1 s)
  note range = advance_in_range [OF 1(2)]
  have typed: "starts_typed_declaration u \<Longrightarrow> tok_type (nth_token u (p_current u)) \<noteq> T_EOF" for u
    by (auto simp: starts_typed_declaration_def Let_def type_name_def DECLARABLE_TYPES_def split: if_splits)
  show ?case
    unfolding p_const_def
    using 1(2-5) typed [of "at_state s (Suc (p_current s)) (p_stack s)"]
    by (auto simp: short_def range not_eof_def labels_def
        intro!: buildsD [OF typed_declaration_builds] value_line_use)
qed

lemma return_builds: "anywhere (p_return r t)"
proof (rule buildsI, goal_cases)
  case (1 s)
  note range = advance_in_range [OF 1(2)]
  show ?case
    unfolding p_return_def
    using 1(2-5)
    by (auto simp: short_def range intro!: expr_use line_end_use [of sp])
qed

lemma post_look:
  "post (andthen (reads f) k) Q X F s = post (k (f s)) Q X F s"
  "post (andthen (p_peek n) l) Q X F s = post (l (token_ahead n s)) Q X F s"
  by simp_all

lemma if_post:
  "(c \<Longrightarrow> post m Q X F s) \<Longrightarrow> (\<not> c \<Longrightarrow> post k Q X F s) \<Longrightarrow> post (if c then m else k) Q X F s"
  by simp

text \<open>What holds inside a block and does not ask for one holds at top level too.\<close>

lemma simple_statement_builds:
  "builds sp (short b) (\<lambda>s. t = nth_token s (p_current s)) stmt_generics
     (\<lambda>ls st. stmt_ok (expr_ok sp) st outer ls) (p_simple_statement r outer t)"
proof (rule buildsI)
  fix s
  assume s: "valid sp s" "stream_ok sp s" "p_current s < length (p_tokens s)" "generics_distinct (p_stack s)"
    "tok_type (nth_token s (p_current s)) \<noteq> T_EOF" "t = nth_token s (p_current s)"
  have ne: "not_eof s" using s(5) by (simp add: not_eof_def)
  have self: "failed s x s" for x using s(1) by simp
  let ?Q = "\<lambda>st u. stmt_ok (expr_ok sp) st outer (labels s) \<and> room (stmt_generics st) (p_stack s) \<and>
    (\<exists>c. u = at_state s c (add_generics (stmt_generics st) (p_stack s)) \<and> p_current s < c \<and> c < length (p_tokens s))"
  have expression: "post (andthen (p_value_line r) (\<lambda>e. ret (ExpressionStmt p e))) ?Q (failed s) (short b s) s" for p
    using s(1-4) by (auto simp: short_def intro!: value_line_use)
  have fails: "post (raise x) ?Q (failed s) (short b s) s" for x
    using self by simp
  have index: "post (p_index_assignment r) ?Q (failed s) (short b s) s" if "is_index_assignment s"
    by (rule buildsD [OF index_assignment_builds s(1) ne that]) auto
  have assign: "post (p_assignment r) ?Q (failed s) (short b s) s"
    if "tok_type t = T_IDENTIFIER \<and> map_of ASSIGNMENTS (tok_type (token_ahead 1 s)) \<noteq> None"
    by (rule buildsD [OF assignment_builds s(1) ne]) (use that in auto)
  show "post (p_simple_statement r outer t) ?Q (failed s) (short b s) s"
    unfolding p_simple_statement_def Let_def post_look not_top_def p_top_error_def
    by (intro if_post index assign fails expression) simp_all
qed

lemma keyword_statement_builds:
  "builds sp (short b) (\<lambda>s. t = nth_token s (p_current s) \<and> (outer \<longrightarrow> p_stack s = [])) stmt_generics
     (\<lambda>ls st. stmt_ok (expr_ok sp) st outer ls) (p_keyword_statement r outer t)"
proof (rule buildsI)
  fix s
  assume s: "valid sp s" "stream_ok sp s" "p_current s < length (p_tokens s)" "generics_distinct (p_stack s)"
    "tok_type (nth_token s (p_current s)) \<noteq> T_EOF"
    "t = nth_token s (p_current s) \<and> (outer \<longrightarrow> p_stack s = [])"
  note range = advance_in_range [OF s(2)]
  have ne: "not_eof s" using s(5) by (simp add: not_eof_def)
  have self: "failed s x s" for x using s(1) by simp
  let ?Q = "\<lambda>st u. stmt_ok (expr_ok sp) st outer (labels s) \<and> room (stmt_generics st) (p_stack s) \<and>
    (\<exists>c. u = at_state s c (add_generics (stmt_generics st) (p_stack s)) \<and> p_current s < c \<and> c < length (p_tokens s))"
  have use: "post m ?Q (failed s) (short b s) s" if m: "freely outer m" for m
    by (rule buildsD [OF m s(1) ne]) (use s(1) in auto)
  have inside: "post (not_top outer t m) ?Q (failed s) (short b s) s" if m: "anywhere m" for m
    using use [of m] m self by (cases outer) (simp_all add: not_top_def p_top_error_def)
  have line: "post (andthen p_advance (\<lambda>_. andthen (p_value_line r) (\<lambda>v. ret (f (tok_position t) v)))) ?Q
      (failed s) (short b s) s"
    if f: "\<And>p v. stmt_generics (f p v) = []"
      "\<And>p v ls. expr_ok sp v \<Longrightarrow> stmt_ok (expr_ok sp) (f p v) outer ls" for f
    using s(1-5) f range by (auto simp: short_def intro!: value_line_use)
  have throw: "post (not_top outer t (andthen p_advance (\<lambda>_. andthen (p_value_line r)
      (\<lambda>v. ret (ThrowStmt (tok_position t) v))))) ?Q (failed s) (short b s) s"
    using line [of ThrowStmt] self by (cases outer) (simp_all add: not_top_def p_top_error_def)
  show "post (p_keyword_statement r outer t) ?Q (failed s) (short b s) s"
    unfolding p_keyword_statement_def Let_def
    by (intro if_post use [OF object_builds] use [OF block_list_builds] use [OF const_builds]
        inside [OF try_builds] inside [OF transaction_builds] inside [OF if_builds] inside [OF while_builds]
        inside [OF for_builds] inside [OF return_builds] line [of PrintStmt] line [of PrintErrorStmt] throw
        buildsD [OF simple_statement_builds s(1) ne])
      (use s(1,6) self in simp_all)
qed

lemma statement_builds:
  "builds sp (short b) (\<lambda>s. outer \<longrightarrow> p_stack s = []) stmt_generics
     (\<lambda>ls st. stmt_ok (expr_ok sp) st outer ls) (p_statement r outer)"
proof (rule buildsI)
  fix s
  assume s: "valid sp s" "stream_ok sp s" "p_current s < length (p_tokens s)" "generics_distinct (p_stack s)"
    "tok_type (nth_token s (p_current s)) \<noteq> T_EOF" "outer \<longrightarrow> p_stack s = []"
  have ne: "not_eof s" using s(5) by (simp add: not_eof_def)
  have self: "failed s x s" for x using s(1) by simp
  let ?Q = "\<lambda>st u. stmt_ok (expr_ok sp) st outer (labels s) \<and> room (stmt_generics st) (p_stack s) \<and>
    (\<exists>c. u = at_state s c (add_generics (stmt_generics st) (p_stack s)) \<and> p_current s < c \<and> c < length (p_tokens s))"
  have top: "post m ?Q (failed s) (short b s) s" if "outermost m" "outer" for m
    by (rule buildsD [OF that(1) s(1) ne]) (use s that in auto)
  have top_only: "post (top_only outer code cat t m) ?Q (failed s) (short b s) s" if "outermost m" for code cat t m
    using top that self by (cases outer) (auto simp: top_only_def)
  have fails: "post (raise x) ?Q (failed s) (short b s) s" for x
    using self by simp
  have errors: "post (p_tag_error t) ?Q (failed s) (short b s) s"
    "post (p_end_trigger_error t) ?Q (failed s) (short b s) s"
    "post (p_uninitialized_error t t') ?Q (failed s) (short b s) s" for t t'
    using self by (auto simp: p_tag_error_def p_end_trigger_error_def p_uninitialized_error_def Let_def)
  have typed: "post (p_typed_declaration r t c) ?Q (failed s) (short b s) s" for t c
    by (rule buildsD [OF typed_declaration_builds s(1) ne]) auto
  have sep: "post (p_sep r) ?Q (failed s) (short b s) s" if "\<not> \<not> outer"
    using top [OF sep_builds] that by simp
  show "post (p_statement r outer) ?Q (failed s) (short b s) s"
    unfolding p_statement_def post_look
    by (intro if_post iffD2 [OF post_look(1)] errors top_only [OF import_builds]
        top_only [OF error_declaration_builds] top_only [OF http_route_builds] fails sep typed
        buildsD [OF keyword_statement_builds s(1) ne]) (use s(1,6) in simp_all)
qed

end

subsection \<open>The whole parser\<close>

lemma bottom_calls: "parser_calls parser_bottom 0 sp"
proof
  show "parses sp 0 unchained (f_expression parser_bottom)" "parses sp 0 term_level (f_unary parser_bottom)"
    by (auto simp: parses_def parser_bottom_def short_def valid_def)
  show "builds sp (short 0) (\<lambda>_. True) (\<lambda>_. []) (\<lambda>_. declared_ok) (f_declared_type parser_bottom)"
    by (auto simp: builds_def parser_bottom_def short_def valid_def)
  show "builds sp (late 0) (\<lambda>s. outer \<longrightarrow> p_stack s = []) stmt_generics
      (\<lambda>ls st. stmt_ok (expr_ok sp) st outer ls) (f_statement parser_bottom outer)" for outer
    by (auto simp: builds_def parser_bottom_def late_def valid_def)
  show "builds sp (late 0) (\<lambda>_. True) stmt_generics
      (\<lambda>ls st. stmt_ok (expr_ok sp) st False ls) (f_object parser_bottom)"
    by (auto simp: builds_def parser_bottom_def late_def valid_def)
qed

lemma late_Suc [simp]: "late (Suc b) = short b"
  by (simp add: late_def short_def fun_eq_iff)

lemma step_calls: "parser_calls r b sp \<Longrightarrow> parser_calls (parser_step r) (Suc b) sp"
  by (intro parser_calls.intro expression_calls.intro parser_calls_axioms.intro)
    (simp_all add: parser_step_def parser_calls.axioms(1) expression_calls.coalesce_parses
      expression_calls.unary_parses parser_calls.declared_type_builds parser_calls.statement_builds
      parser_calls.object_builds)

interpretation parser_n: parser_calls "parser_n n" n sp for n sp
  by (induction n) (simp_all add: bottom_calls step_calls)

end
