(* ===== verification/Parser_Run.thy ===== *)
theory Parser_Run
  imports Parser
begin

section \<open>Running the parser in the kernel\<close>

text \<open>
  Code equations for evaluation by \<open>code_simp\<close>: a method is unfolded only when it is applied to a
  state, and the calls through \<open>parser_n n\<close> only when they are made.
\<close>

definition call_expression :: "nat \<Rightarrow> expr parse" where
  "call_expression n = f_expression (parser_n n)"

definition call_unary :: "nat \<Rightarrow> expr parse" where
  "call_unary n = f_unary (parser_n n)"

definition call_declared_type :: "nat \<Rightarrow> (ustr \<times> type_spec option) parse" where
  "call_declared_type n = f_declared_type (parser_n n)"

definition call_statement :: "nat \<Rightarrow> bool \<Rightarrow> stmt parse" where
  "call_statement n = f_statement (parser_n n)"

definition call_object :: "nat \<Rightarrow> stmt parse" where
  "call_object n = f_object (parser_n n)"

lemma call_code [code]:
  "call_expression n s = (if n = 0 then no_fuel s else p_coalesce (parser_n (n - 1)) s)"
  "call_unary n s = (if n = 0 then no_fuel s else p_unary (parser_n (n - 1)) s)"
  "call_declared_type n s = (if n = 0 then no_fuel s else p_declared_type (parser_n (n - 1)) s)"
  "call_statement n b s = (if n = 0 then no_fuel s else p_statement (parser_n (n - 1)) b s)"
  "call_object n s = (if n = 0 then no_fuel s else p_object (parser_n (n - 1)) s)"
  by (cases n; simp add: call_expression_def call_unary_def call_declared_type_def call_statement_def
      call_object_def parser_bottom_def parser_step_def)+

lemma parser_n_code [code]:
  "parser_n n = \<lparr>f_expression = call_expression n, f_unary = call_unary n,
     f_declared_type = call_declared_type n, f_statement = call_statement n, f_object = call_object n\<rparr>"
  by (simp add: call_expression_def call_unary_def call_declared_type_def call_statement_def call_object_def)

lemmas parser_code [code] =
    p_peek_def [THEN fun_cong] p_previous_def [THEN fun_cong] p_match_def [THEN fun_cong]
    syntax_error_def [THEN fun_cong] p_consume_def [THEN fun_cong] p_consume_label_def [THEN fun_cong]
    p_newlines_def [THEN fun_cong] p_line_end_def [THEN fun_cong] p_binding_def [THEN fun_cong]
    p_push_def [THEN fun_cong] p_mismatch_def [THEN fun_cong] p_branch_label_def [THEN fun_cong]
    p_close_def [THEN fun_cong] p_unexpected_or_nesting_def [THEN fun_cong]
    p_opening_label_def [THEN fun_cong] p_top_error_def [THEN fun_cong]
    p_reject_closer_def [THEN fun_cong] p_binary_def [THEN fun_cong] p_chained_def [THEN fun_cong]
    p_reject_chain_def [THEN fun_cong] p_argument_def [THEN fun_cong]
    p_call_arguments_def [THEN fun_cong] p_elements_def [THEN fun_cong] p_primary_def [THEN fun_cong]
    p_postfix_step_def [THEN fun_cong] p_postfix_def [THEN fun_cong] p_power_def [THEN fun_cong]
    p_unary_def [THEN fun_cong] p_factor_def [THEN fun_cong] p_term_def [THEN fun_cong]
    p_comparison_def [THEN fun_cong] p_empty_test_def [THEN fun_cong] p_equality_def [THEN fun_cong]
    p_and_def [THEN fun_cong] p_or_def [THEN fun_cong] p_coalesce_def [THEN fun_cong]
    p_declared_type_def [THEN fun_cong] p_typed_declaration_def [THEN fun_cong]
    p_body_step_def [THEN fun_cong] p_unclosed_def [THEN fun_cong] p_body_until_def [THEN fun_cong]
    p_parameter_def [THEN fun_cong] p_parameters_def [THEN fun_cong] p_tag_step_def [THEN fun_cong]
    p_sep_def [THEN fun_cong] p_import_def [THEN fun_cong] p_error_declaration_def [THEN fun_cong]
    p_http_route_def [THEN fun_cong] p_block_list_step_def [THEN fun_cong]
    p_block_list_def [THEN fun_cong] p_object_entry_def [THEN fun_cong] p_object_step_def [THEN fun_cong]
    p_object_def [THEN fun_cong] p_catch_step_def [THEN fun_cong] p_try_def [THEN fun_cong]
    p_transaction_def [THEN fun_cong] p_if_step_def [THEN fun_cong] p_if_def [THEN fun_cong]
    p_while_def [THEN fun_cong] p_for_def [THEN fun_cong] p_value_line_def [THEN fun_cong]
    p_tag_error_def [THEN fun_cong] p_end_trigger_error_def [THEN fun_cong]
    p_index_assignment_def [THEN fun_cong] p_assignment_def [THEN fun_cong] p_const_def [THEN fun_cong]
    p_return_def [THEN fun_cong] top_only_def [THEN fun_cong] not_top_def [THEN fun_cong]
    p_uninitialized_error_def [THEN fun_cong] p_simple_statement_def [THEN fun_cong]
    p_keyword_statement_def [THEN fun_cong] p_statement_def [THEN fun_cong]
    p_top_statement_def [THEN fun_cong] p_program_step_def [THEN fun_cong] p_program_def [THEN fun_cong]
    clear_stack_def [THEN fun_cong] p_skip_line_def [THEN fun_cong] p_recover_block_def [THEN fun_cong]
    p_recover_line_def [THEN fun_cong] p_recover_top_level_def [THEN fun_cong]
    p_diagnostics_step_def [THEN fun_cong] p_program_with_diagnostics_def [THEN fun_cong]

end
