(* ===== verification/Parser_Program.thy ===== *)
theory Parser_Program
  imports Parser_Blocks Parser_Run
begin

section \<open>Parser: programs and diagnostics\<close>

text \<open>
  The loops of \<open>parse\<close> and \<open>parse_with_diagnostics\<close> over the contracts of \<open>Parser_Blocks\<close>, and the
  properties of the parser.
\<close>

subsection \<open>Programs\<close>

definition imports_first :: "stmt list \<Rightarrow> bool" where
  "imports_first sts \<longleftrightarrow> list_all (\<lambda>st. \<not> is_import st) (dropWhile is_import sts)"

definition program_ok :: "bool \<Rightarrow> stmt list \<Rightarrow> bool" where
  "program_ok sp sts \<longleftrightarrow>
     list_all (\<lambda>st. stmt_ok (expr_ok sp) st True [] \<and> stmt_generics st = []) sts \<and> imports_first sts"

lemma imports_first_snoc:
  assumes "imports_first sts" and "is_import st \<longrightarrow> list_all is_import sts"
  shows "imports_first (sts @ [st])"
proof (cases "list_all is_import sts")
  case True
  then show ?thesis by (simp add: imports_first_def list_all_iff dropWhile_append2)
next
  case False
  then obtain x where "x \<in> set sts" "\<not> is_import x" by (auto simp: list_all_iff)
  with False assms show ?thesis by (auto simp: imports_first_def dropWhile_append1)
qed

lemma program_ok_snoc:
  assumes "program_ok sp sts" and "stmt_ok (expr_ok sp) st True []" and "stmt_generics st = []"
    and "is_import st \<longrightarrow> list_all is_import sts"
  shows "program_ok sp (sts @ [st])"
  using assms imports_first_snoc by (simp add: program_ok_def)

lemma room_empty_stack [simp]: "room ns [] \<longleftrightarrow> ns = []"
  by (simp add: room_def)

lemma top_statement_use:
  assumes v: "stream_ok sp s" "c < length (p_tokens s)" "tok_type (nth_token s c) \<noteq> T_EOF"
    and Q: "\<And>st c'. stmt_ok (expr_ok sp) st True [] \<Longrightarrow> stmt_generics st = [] \<Longrightarrow> (is_import st \<longrightarrow> \<not> seen) \<Longrightarrow>
      c < c' \<Longrightarrow> c' < length (p_tokens s) \<Longrightarrow> Q st (at_state s c' [])"
    and X: "\<And>x c' st. c \<le> c' \<Longrightarrow> c' < length (p_tokens s) \<Longrightarrow> X x (at_state s c' st)"
    and F: "late n (at_state s c []) \<Longrightarrow> F"
  shows "post (p_top_statement (parser_n n) seen) Q X F (at_state s c [])"
proof -
  have ne: "not_eof (at_state s c [])" using v by (simp add: not_eof_def)
  have call: "post (f_statement (parser_n n) True)
      (\<lambda>st. post (if is_import st \<and> seen then raise (mk_error 702 ''Late import'' (stmt_position st)) else ret st) Q X F)
      X F (at_state s c [])"
    by (rule parser_n.statement_use [OF _ ne]) (use v Q X F in auto)
  show ?thesis
    unfolding p_top_statement_def post_andthen
    by (rule post_reject_closer) (use call X v in auto)
qed

lemma program_step_use:
  assumes v: "stream_ok sp s" "c < length (p_tokens s)"
    and P: "program_ok sp sts" "seen \<longleftrightarrow> \<not> list_all is_import sts"
    and n: "length (p_tokens s) < n"
  shows "post (p_program_step (parser_n n) (sts, seen)) (\<lambda>r t. case r of
      Inl (sts', seen') \<Rightarrow> program_ok sp sts' \<and> (seen' \<longleftrightarrow> \<not> list_all is_import sts') \<and>
        (\<exists>c'. t = at_state s c' [] \<and> c < c' \<and> c' < length (p_tokens s))
    | Inr sts' \<Rightarrow> program_ok sp sts') (\<lambda>_ _. True) False (at_state s c [])"
  using v P n
  by (auto simp: p_program_step_def intro!: top_statement_use newlines_use [of sp] program_ok_snoc)

lemma program_use:
  assumes v: "stream_ok sp s" "p_current s < length (p_tokens s)" "p_stack s = []"
    and n: "length (p_tokens s) < n"
  shows "post (p_program (parser_n n)) (\<lambda>p _. program_ok sp (program_statements p)) (\<lambda>_ _. True) False s"
proof -
  have loop: "post (parser_loop (p_program_step (parser_n n)) ([], False))
      (\<lambda>sts _. program_ok sp sts) (\<lambda>_ _. True) False (at_state s c [])" if "c < length (p_tokens s)" for c
  proof (rule post_parser_loop [where I = "\<lambda>(sts, seen) u. program_ok sp sts \<and> (seen \<longleftrightarrow> \<not> list_all is_import sts) \<and>
      (\<exists>c'. u = at_state s c' [] \<and> c' < length (p_tokens s))"], goal_cases)
    case 1
    show ?case using that by (simp add: program_ok_def imports_first_def)
  next
    case (2 a u)
    obtain sts seen where a: "a = (sts, seen)" by (cases a)
    with 2 obtain c' where u: "u = at_state s c' []" "c' < length (p_tokens s)" "program_ok sp sts"
      "seen \<longleftrightarrow> \<not> list_all is_import sts" by auto
    show ?case
      unfolding a u(1)
      by (rule post_mono [OF program_step_use [OF v(1) u(2-4) n]]) (use u(2) in \<open>auto split: sum.splits\<close>)
  qed
  show ?thesis
    unfolding p_program_def post_andthen
  proof (rule newlines_use [OF v(1,2)])
    fix c
    assume "c < length (p_tokens s)"
    from loop [OF this] show "post (parser_loop (p_program_step (parser_n n)) ([], False))
      (\<lambda>a. post (p_peek 0) (\<lambda>aa. post (ret \<lparr>program_position = tok_position aa, program_statements = a\<rparr>)
        (\<lambda>p _. program_ok sp (program_statements p)) (\<lambda>_ _. True) False) (\<lambda>_ _. True) False) (\<lambda>_ _. True) False
      (at_state s c (p_stack s))"
      using v(3) by (simp add: post_mono)
  qed
qed

lemma new_parser_ok:
  assumes "toks \<noteq> []" and "tok_type (last toks) = T_EOF" and "sp \<longrightarrow> list_all spelled toks"
  shows "stream_ok sp (new_parser db toks)" "p_current (new_parser db toks) < length (p_tokens (new_parser db toks))"
    "p_stack (new_parser db toks) = []" "p_tokens (new_parser db toks) = toks"
  using assms by (simp_all add: stream_ok_def new_parser_def)

lemma parse_post:
  assumes "toks \<noteq> []" and "tok_type (last toks) = T_EOF" and "sp \<longrightarrow> list_all spelled toks"
  shows "post (p_program (parser_n (Suc (length toks)))) (\<lambda>p _. program_ok sp (program_statements p))
    (\<lambda>_ _. True) False (new_parser db toks)"
  using new_parser_ok [OF assms, of db] by (intro program_use) simp_all

lemma parse_Done_ok:
  assumes "parse db toks = Done p" and "toks \<noteq> []" and "tok_type (last toks) = T_EOF"
    and "sp \<longrightarrow> list_all spelled toks"
  shows "program_ok sp (program_statements p)"
  using parse_post [OF assms(2-4), of db] assms(1)
  by (auto simp: parse_def post_def split: prod.splits)

lemma program_mono [parser_mono]: "parser_le r r' \<Longrightarrow> refines (p_program r) (p_program r')"
  using parser_leD(4) by (auto simp: p_program_def p_program_step_def p_top_statement_def intro!: refine_intros)

lemma parse_not_NoFuel:
  assumes "toks \<noteq> []" and "tok_type (last toks) = T_EOF"
  shows "parse db toks \<noteq> NoFuel"
  using post_total [OF parse_post [OF assms, of False]] by (simp add: parse_def)

subsection \<open>Recovery\<close>

lemma skip_line_use:
  assumes v: "stream_ok sp s" "c < length (p_tokens s)"
    and Q: "\<And>c'. c \<le> c' \<Longrightarrow> c' < length (p_tokens s) \<Longrightarrow> Q () (at_state s c' st)"
  shows "post p_skip_line Q X F (at_state s c st)"
  unfolding p_skip_line_def
proof (rule post_parser_loop [where I = "\<lambda>_ u. \<exists>c'. u = at_state s c' st \<and> c \<le> c' \<and> c' < length (p_tokens s)"])
  show "\<exists>c'. at_state s c st = at_state s c' st \<and> c \<le> c' \<and> c' < length (p_tokens s)" using v by auto
qed (use Q advance_in_range [OF v(1)] in auto)

lemma post_clear_stack [simp]: "post clear_stack Q X F s = Q () (at_state s (p_current s) [])"
  by (simp add: clear_stack_def)

lemma recover_block_use:
  assumes v: "stream_ok sp s" "c < length (p_tokens s)" "start \<le> c" "T_EOF \<notin> set closers"
    "tok_type (nth_token s start) \<noteq> T_EOF"
    and Q: "\<And>c'. start < c' \<Longrightarrow> c' < length (p_tokens s) \<Longrightarrow> tok_type (nth_token s c') \<noteq> T_NEWLINE \<Longrightarrow>
      Q () (at_state s c' [])"
  shows "post (p_recover_block closers start t) Q X F (at_state s c st)"
  unfolding p_recover_block_def
proof (rule post_parser_loop [where I = "\<lambda>_ u. \<exists>c'. u = at_state s c' st \<and> start \<le> c' \<and> c' < length (p_tokens s)"],
    goal_cases)
  case 1
  show ?case using v by auto
next
  case (2 a u)
  then obtain c' where u: "u = at_state s c' st" "start \<le> c'" "c' < length (p_tokens s)" by auto
  then have "start < c'" if "tok_type (nth_token s c') = T_EOF"
    using that v(5) by (cases "c' = start") auto
  with u v(4) Q show ?case
    by (auto simp: advance_in_range [OF v(1)] intro!: skip_line_use [OF v(1)] newlines_use [of sp] v(1))
qed

lemma recover_line_use:
  assumes v: "stream_ok sp s" "c < length (p_tokens s)" "start \<le> c"
    "tok_type (nth_token s start) \<notin> {T_EOF, T_NEWLINE}"
    and Q: "\<And>c'. start < c' \<Longrightarrow> c' < length (p_tokens s) \<Longrightarrow> tok_type (nth_token s c') \<noteq> T_NEWLINE \<Longrightarrow>
      Q () (at_state s c' st)"
  shows "post (p_recover_line (nth_token s start)) Q X F (at_state s c st)"
  unfolding p_recover_line_def post_andthen
proof (rule post_parser_loop [where I = "\<lambda>_ u. \<exists>c'. u = at_state s c' st \<and> start \<le> c' \<and> c' < length (p_tokens s)"],
    goal_cases)
  case 1
  show ?case using v by auto
next
  case (2 a u)
  then obtain c' where u: "u = at_state s c' st" "start \<le> c'" "c' < length (p_tokens s)" by auto
  have "start < c'" if "tok_type (nth_token s c') \<in> {T_NEWLINE, T_EOF} \<or>
      token_line (nth_token s c') \<noteq> token_line (nth_token s start)"
    using that v(4) u(2) by (cases "c' = start") auto
  with u Q show ?case
    by (auto simp: advance_in_range [OF v(1)] intro!: newlines_use [of sp] v(1))
qed

lemma closers_not_eof: "T_EOF \<notin> set (map fst (filter (\<lambda>(_, k'). k' = k) CLOSERS))"
  by (auto simp: CLOSERS_def)

text \<open>Recovery never raises, ends past the token where the statement began, and closes all blocks.\<close>

lemma recover_use:
  assumes v: "stream_ok sp s" "c < length (p_tokens s)" "start \<le> c"
    "tok_type (nth_token s start) \<notin> {T_EOF, T_NEWLINE}"
    and Q: "\<And>c'. start < c' \<Longrightarrow> c' < length (p_tokens s) \<Longrightarrow> tok_type (nth_token s c') \<noteq> T_NEWLINE \<Longrightarrow>
      Q () (at_state s c' [])"
  shows "post (p_recover_top_level start) Q X F (at_state s c st)"
proof -
  have t: "p_tokens s ! start = nth_token s start" using v by (simp add: nth_token_in_range)
  show ?thesis
  proof (cases "recovery_kind start (at_state s c st)")
    case None
    then have "st = []" by (auto simp: recovery_kind_def split: if_splits)
    with None Q v t show ?thesis by (auto simp: p_recover_top_level_def intro!: recover_line_use [of sp])
  next
    case (Some k)
    with Q v t closers_not_eof show ?thesis
      by (auto simp: p_recover_top_level_def simp del: set_map intro!: recover_block_use [of sp])
  qed
qed

subsection \<open>Diagnostics\<close>

definition at_rest :: "parser \<Rightarrow> parser \<Rightarrow> bool" where
  "at_rest s u \<longleftrightarrow> (\<exists>c. u = at_state s c [] \<and> c < length (p_tokens s) \<and> tok_type (nth_token s c) \<noteq> T_NEWLINE)"

lemma diagnostics_step_use:
  assumes v: "stream_ok sp s" "at_rest s u" and n: "length (p_tokens s) < n"
  shows "post (p_diagnostics_step (parser_n n) acc) (\<lambda>r t. case r of
      Inl acc' \<Rightarrow> at_rest s t \<and> tokens_left t < tokens_left u | Inr _ \<Rightarrow> True) (\<lambda>_ _. False) False u"
proof -
  obtain sts seen ds where acc: "acc = (sts, seen, ds)" by (cases acc)
  from v(2) obtain c where u: "u = at_state s c []" "c < length (p_tokens s)" "tok_type (nth_token s c) \<noteq> T_NEWLINE"
    by (auto simp: at_rest_def)
  show ?thesis
    using v u n
    by (auto simp: acc p_diagnostics_step_def at_rest_def
        intro!: top_statement_use [of sp] newlines_use [of sp] recover_use [of sp])
qed

lemma diagnostics_total:
  assumes "stream_ok sp s" and "p_current s < length (p_tokens s)" and "p_stack s = []"
    and n: "length (p_tokens s) < n"
  shows "post (p_program_with_diagnostics (parser_n n)) (\<lambda>_ _. True) (\<lambda>_ _. False) False s"
proof -
  have loop: "post (parser_loop (p_diagnostics_step (parser_n n)) a) Q (\<lambda>_ _. False) False u"
    if "at_rest s u" "\<And>x t. Q x t" for a u Q
  proof (rule post_parser_loop [where I = "\<lambda>_ u. at_rest s u"], goal_cases)
    case (2 a u)
    show ?case
      by (rule post_mono [OF diagnostics_step_use [OF assms(1) 2 n]])
        (use that(2) in \<open>auto split: sum.splits\<close>)
  qed (use that in auto)
  show ?thesis
    unfolding p_program_with_diagnostics_def post_andthen
    by (rule newlines_use [OF assms(1,2)], rule loop) (auto simp: at_rest_def assms(3) split: prod.split)
qed

text \<open>Up to the first error the two loops run in step; then the diagnostics keep that error first.\<close>

lemma diagnostics_keep:
  assumes "loop_n n (p_diagnostics_step r) (sts, seen, ds) s = (Done (sts', ds'), t)"
  shows "\<exists>es. ds' = ds @ es"
  using assms
proof (induction n arbitrary: sts seen ds s)
  case 0
  then show ?case by (simp add: no_fuel_def)
next
  case (Suc n)
  obtain o' u where step: "p_diagnostics_step r (sts, seen, ds) s = (o', u)" by fastforce
  have shape: "\<exists>sts1 seen1 es. acc = (sts1, seen1, ds @ es)" if "o' = Done (Inl acc)" for acc
    using step that
    by (auto simp: p_diagnostics_step_def andthen_def catching_def p_at_def reads_def ret_def
        split: prod.splits outcome.splits if_splits)
  have stop: "ds1 = ds" if "o' = Done (Inr (sts1, ds1))" for sts1 ds1
    using step that
    by (auto simp: p_diagnostics_step_def andthen_def catching_def p_at_def reads_def ret_def
        split: prod.splits outcome.splits if_splits)
  from Suc.prems step show ?case
  proof (cases o')
    case (Done x)
    show ?thesis
    proof (cases x)
      case (Inl acc)
      with Done shape obtain sts1 seen1 es where acc: "acc = (sts1, seen1, ds @ es)" by blast
      with Suc.prems step Done Inl have "loop_n n (p_diagnostics_step r) (sts1, seen1, ds @ es) u = (Done (sts', ds'), t)"
        by (simp add: andthen_def)
      from Suc.IH [OF this] show ?thesis by auto
    next
      case (Inr y)
      with Suc.prems step Done stop show ?thesis by (cases y) (auto simp: andthen_def ret_def)
    qed
  qed (auto simp: andthen_def)
qed

lemma diagnostics_agree:
  assumes "stream_ok sp s" and n: "length (p_tokens s) < n" and "at_rest s u"
  shows "(\<forall>t sts'. loop_n k (p_program_step (parser_n n)) (sts, seen) u = (Done sts', t) \<longrightarrow>
      loop_n k (p_diagnostics_step (parser_n n)) (sts, seen, []) u = (Done (sts', []), t)) \<and>
    (\<forall>t e sts' ds t'. loop_n k (p_program_step (parser_n n)) (sts, seen) u = (Raised e, t) \<longrightarrow>
      loop_n k (p_diagnostics_step (parser_n n)) (sts, seen, []) u = (Done (sts', ds), t') \<longrightarrow>
      (\<exists>es. ds = e # es))"
  using assms(3)
proof (induction k arbitrary: sts seen u)
  case 0
  then show ?case by (simp add: no_fuel_def)
next
  case (Suc k)
  let ?r = "parser_n n"
  show ?case
  proof (cases "at_types [T_EOF] u")
    case True
    then show ?thesis
      by (simp add: p_program_step_def p_diagnostics_step_def p_at_def reads_def andthen_def ret_def
          del: at_types_nth)
  next
    case False
    let ?attempt = "andthen (p_top_statement ?r seen) (\<lambda>st. andthen p_newlines (\<lambda>_. ret st))"
    obtain o' v where run: "?attempt u = (o', v)" by fastforce
    have prog: "p_program_step ?r (sts, seen) u = (case o' of
        Done st \<Rightarrow> (Done (Inl (sts @ [st], seen \<or> \<not> is_import st)), v) | Raised e \<Rightarrow> (Raised e, v) | NoFuel \<Rightarrow> (NoFuel, v))"
      using run False
      by (auto simp: p_program_step_def p_at_def reads_def andthen_def ret_def
          split: prod.splits outcome.splits simp del: at_types_nth)
    have diag: "p_diagnostics_step ?r (sts, seen, []) u = (case o' of
        Done st \<Rightarrow> (Done (Inl (sts @ [st], seen \<or> \<not> is_import st, [])), v)
      | Raised e \<Rightarrow> andthen (p_recover_top_level (p_current u)) (\<lambda>_. ret (Inl (sts, seen, [e]))) v
      | NoFuel \<Rightarrow> (NoFuel, v))"
      using run False
      by (auto simp: p_diagnostics_step_def p_at_def reads_def andthen_def ret_def catching_def
          split: prod.splits outcome.splits simp del: at_types_nth)
    show ?thesis
    proof (cases o')
      case (Done st)
      from diagnostics_step_use [OF assms(1) Suc.prems n, of "(sts, seen, [])"] diag Done
      have "at_rest s v" by (simp add: post_def)
      from Suc.IH [OF this] Done prog diag show ?thesis by (auto simp: andthen_def)
    next
      case (Raised e)
      have "\<exists>es. ds = e # es"
        if "loop_n (Suc k) (p_diagnostics_step ?r) (sts, seen, []) u = (Done (sts', ds), t')" for sts' ds t'
      proof -
        from that diag Raised obtain w where
          "loop_n k (p_diagnostics_step ?r) (sts, seen, [e]) w = (Done (sts', ds), t')"
          by (auto simp: andthen_def ret_def split: prod.splits outcome.splits)
        from diagnostics_keep [OF this] show ?thesis by simp
      qed
      with Raised prog show ?thesis by (auto simp: andthen_def)
    next
      case NoFuel
      with prog show ?thesis by (simp add: andthen_def)
    qed
  qed
qed

subsection \<open>The properties of the parser\<close>

lemma diagnostics_program:
  assumes toks: "toks \<noteq> []" "tok_type (last toks) = T_EOF"
  shows "\<exists>p ds. parse_with_diagnostics db toks = Done (p, ds) \<and>
    (\<forall>q. parse db toks = Done q \<longrightarrow> p = q \<and> ds = []) \<and>
    (\<forall>e. parse db toks = Raised e \<longrightarrow> (\<exists>es. ds = e # es))"
proof -
  let ?n = "Suc (length toks)" and ?s = "new_parser db toks"
  let ?k = "Suc (tokens_left (snd (p_newlines ?s)))"
  note ok = new_parser_ok [OF toks, of False db, simplified]
  have nl: "\<exists>u. p_newlines ?s = (Done (), u) \<and> at_rest ?s u"
  proof -
    have "post p_newlines (\<lambda>_ u. at_rest ?s u) (\<lambda>_ _. False) False ?s"
      by (rule newlines_use [OF ok(1)]) (use ok in \<open>auto simp: at_rest_def\<close>)
    then show ?thesis by (auto simp: post_def split: prod.splits outcome.splits)
  qed
  then obtain u where u: "p_newlines ?s = (Done (), u)" "at_rest ?s u" by blast
  have n: "length (p_tokens ?s) < ?n" using ok by simp
  note agree = diagnostics_agree [OF ok(1) n u(2), of ?k "[]" False]
  have prog: "p_program (parser_n ?n) ?s =
    andthen (loop_n ?k (p_program_step (parser_n ?n)) ([], False)) (\<lambda>sts. andthen (p_peek 0)
      (\<lambda>t. ret \<lparr>program_position = tok_position t, program_statements = sts\<rparr>)) u"
    by (simp add: p_program_def andthen_def [of p_newlines] u parser_loop_def andthen_def [of "parser_loop _ _"]
        del: loop_n.simps parser_n.simps) (simp add: andthen_def del: loop_n.simps parser_n.simps)
  have diag: "p_program_with_diagnostics (parser_n ?n) ?s =
    andthen (loop_n ?k (p_diagnostics_step (parser_n ?n)) ([], False, [])) (\<lambda>(sts, ds). andthen (p_peek 0)
      (\<lambda>t. ret (\<lparr>program_position = tok_position t, program_statements = sts\<rparr>, ds))) u"
    by (simp add: p_program_with_diagnostics_def andthen_def [of p_newlines] u parser_loop_def
        andthen_def [of "parser_loop _ _"] del: loop_n.simps parser_n.simps)
      (simp add: andthen_def del: loop_n.simps parser_n.simps)
  have "post (p_program_with_diagnostics (parser_n ?n)) (\<lambda>_ _. True) (\<lambda>_ _. False) False ?s"
    by (rule diagnostics_total [OF ok(1-3) n])
  then obtain p ds v where fin: "p_program_with_diagnostics (parser_n ?n) ?s = (Done (p, ds), v)"
    by (auto simp: post_def split: prod.splits outcome.splits)
  then obtain sts t where loop: "loop_n ?k (p_diagnostics_step (parser_n ?n)) ([], False, []) u = (Done (sts, ds), t)"
    and p: "p = \<lparr>program_position = tok_position (token_ahead 0 t), program_statements = sts\<rparr>"
    unfolding diag
    by (auto simp: andthen_def p_peek_def reads_def ret_def split: prod.splits outcome.splits simp del: loop_n.simps parser_n.simps)
  have "p = q \<and> ds = []" if "parse db toks = Done q" for q
  proof -
    from that obtain sts' t' where "loop_n ?k (p_program_step (parser_n ?n)) ([], False) u = (Done sts', t')"
      "q = \<lparr>program_position = tok_position (token_ahead 0 t'), program_statements = sts'\<rparr>"
      unfolding parse_def prog
      by (auto simp: andthen_def p_peek_def reads_def ret_def split: prod.splits outcome.splits
          simp del: loop_n.simps parser_n.simps)
    with agree loop p show ?thesis by (auto simp del: loop_n.simps parser_n.simps)
  qed
  moreover have "\<exists>es. ds = e # es" if "parse db toks = Raised e" for e
  proof -
    from that obtain t' where "loop_n ?k (p_program_step (parser_n ?n)) ([], False) u = (Raised e, t')"
      unfolding parse_def prog
      by (auto simp: andthen_def p_peek_def reads_def ret_def split: prod.splits outcome.splits
          simp del: loop_n.simps parser_n.simps)
    with agree loop show ?thesis by (auto simp del: loop_n.simps parser_n.simps)
  qed
  ultimately show ?thesis using fin by (auto simp: parse_with_diagnostics_def)
qed

definition sample :: ustr where
  "sample = join_with [10] [U ''SEP:f(a)'', U ''if a in b:_1_'', U ''endif:_1_'', U ''END_SEP:f'']"

definition sample_tokens :: "token list" where
  "sample_tokens = projr (scan_tokens latin_tables sample [])"

lemma sample_scanned: "scan_tokens latin_tables sample [] = Inr sample_tokens"
proof -
  have "\<not> isl (scan_tokens latin_tables sample [])" by code_simp
  then show ?thesis by (simp add: sample_tokens_def)
qed

definition outcome_value :: "('x, 'a) outcome \<Rightarrow> 'a option" where
  "outcome_value r = (case r of Done a \<Rightarrow> Some a | _ \<Rightarrow> None)"

lemma sample_parsed: "\<exists>p. parse latin_tables sample_tokens = Done p"
proof -
  have "outcome_value (parse latin_tables sample_tokens) \<noteq> None" by code_simp
  then show ?thesis by (auto simp: outcome_value_def split: outcome.splits)
qed

text \<open>
  C18. The parser always ends: on every token stream of the lexer, one nested call more than there
  are tokens is enough, it gives a program or an error, and allowing more nested calls changes
  nothing.
\<close>

theorem parse_terminates:
  assumes "scan_tokens db source file_name = Inr toks"
  shows "parse db toks \<noteq> NoFuel \<and>
    (\<forall>n \<ge> Suc (length toks). fst (p_program (parser_n n) (new_parser db toks)) = parse db toks)"
proof -
  note eof = scan_tokens_eof [OF assms]
  have total: "parse db toks \<noteq> NoFuel" by (rule parse_not_NoFuel [OF eof])
  have "fst (p_program (parser_n n) (new_parser db toks)) = parse db toks" if "Suc (length toks) \<le> n" for n
    using refinesD [OF program_mono [OF parser_n_mono [OF that]]] total by (simp add: parse_def)
  with total show ?thesis by blast
qed

lemma parse_terminates_witness:
  "parse latin_tables sample_tokens \<noteq> NoFuel \<and>
    fst (p_program (parser_n (1000 + length sample_tokens)) (new_parser latin_tables sample_tokens))
      = parse latin_tables sample_tokens"
  using parse_terminates [OF sample_scanned] by simp

text \<open>
  C19. An accepted program is well formed: no block repeats the label of a block around it, the
  SEP-local labels of a SEP are distinct and none stands outside a SEP, imports come first,
  declarations, \<open>return\<close>, \<open>throw\<close> and control blocks stand only where the language allows them,
  catch categories, parameters, tags and object fields are distinct, \<open>any\<close> is the last catch,
  declared types exist, and the reserved context names are not bound.
\<close>

theorem parse_well_formed:
  assumes "scan_tokens db source file_name = Inr toks" and "parse db toks = Done p"
  shows "program_ok False (program_statements p)"
  using parse_Done_ok [OF assms(2) scan_tokens_eof [OF assms(1)]] by simp

lemma parse_well_formed_witness:
  "\<exists>p. parse latin_tables sample_tokens = Done p \<and> program_ok False (program_statements p)"
proof -
  obtain p where "parse latin_tables sample_tokens = Done p" using sample_parsed by blast
  with parse_well_formed [OF sample_scanned this] show ?thesis by blast
qed

text \<open>
  Comparisons are never chained: when every \<open>in\<close> of the source is written in lower case, no
  operand of a comparison in an accepted program is itself a comparison or an \<open>is EMPTY\<close> test,
  unless it is parenthesized.
\<close>

theorem parse_unchained:
  assumes "scan_tokens db source file_name = Inr toks"
    and "\<forall>t \<in> set toks. tok_type t = T_IN \<longrightarrow> tok_lexeme t = U ''in''"
    and "parse db toks = Done p"
  shows "list_all (\<lambda>st. stmt_ok unchained st True []) (program_statements p)"
proof -
  have "list_all spelled toks"
    using scan_tokens_spelled [OF assms(1)] assms(2) by (auto simp: list_all_iff spelled_def)
  then have "program_ok True (program_statements p)"
    using parse_Done_ok [OF assms(3) scan_tokens_eof [OF assms(1)]] by simp
  moreover have "expr_ok True = unchained" by (simp add: expr_ok_def fun_eq_iff)
  ultimately show ?thesis by (auto simp: program_ok_def list_all_iff)
qed

lemma parse_unchained_witness:
  "\<exists>p. parse latin_tables sample_tokens = Done p \<and>
     list_all (\<lambda>st. stmt_ok unchained st True []) (program_statements p)"
proof -
  obtain p where p: "parse latin_tables sample_tokens = Done p" using sample_parsed by blast
  have "\<forall>t \<in> set sample_tokens. tok_type t = T_IN \<longrightarrow> tok_lexeme t = U ''in''" by code_simp
  with parse_unchained [OF sample_scanned this p] p show ?thesis by blast
qed

definition chain_sample :: "string \<Rightarrow> (sep_error, program) outcome" where
  "chain_sample op =
     (case scan_tokens latin_tables (U ''x=a '' @ U op @ U '' b==c'') [] of
        Inl e \<Rightarrow> Raised e | Inr toks \<Rightarrow> parse latin_tables toks)"

text \<open>
  The restriction of \<open>parse_unchained\<close> is needed, since the parser compares lexemes: \<open>a in b == c\<close> is a chained
  comparison, but with \<open>IN\<close> in capitals, the same keyword, it is accepted.
\<close>

theorem chained_in_capitals:
  "(case chain_sample ''in'' of Raised e \<Rightarrow> err_code e = 111 | _ \<Rightarrow> False) \<and>
   (case chain_sample ''IN'' of Done p \<Rightarrow> \<not> list_all (\<lambda>st. stmt_ok unchained st True []) (program_statements p)
    | _ \<Rightarrow> False)"
  by code_simp



text \<open>
  C32. A block is closed only by its own closer: if \<open>_close\<close> succeeds, the current token is the
  closing keyword, a colon follows, then the label of the innermost open block, and exactly that
  block is popped.
\<close>

theorem close_matches:
  assumes "p_close k kind s = (Done (), t)" and "p_stack s \<noteq> []"
  shows "tok_type (token_ahead 0 s) = k \<and> tok_type (token_ahead 1 s) = T_COLON \<and>
    tok_lexeme (token_ahead 2 s) = ob_label (hd (p_stack s)) \<and> p_stack t = tl (p_stack s)"
proof -
  have line_end: "post p_line_end (\<lambda>_ u. p_stack u = p_stack v) (\<lambda>_ _. True) True v" for v
    by (simp add: p_line_end_def)
  have "post (p_close k kind) (\<lambda>_ t. tok_type (token_ahead 0 s) = k \<and> tok_type (token_ahead 1 s) = T_COLON \<and>
    tok_lexeme (token_ahead 2 s) = ob_label (hd (p_stack s)) \<and> p_stack t = tl (p_stack s)) (\<lambda>_ _. True) True s"
    using assms(2)
    by (auto simp: p_close_def Let_def p_mismatch_def numeral_2_eq_2
        intro!: post_mono [OF line_end])
  with post_Done [of "p_close k kind" s "()" t, OF assms(1)] show ?thesis by blast
qed

lemma close_matches_witness:
  "\<exists>s t. p_close T_ENDIF (U ''if'') s = (Done (), t) \<and> p_stack s \<noteq> [] \<and>
     tok_lexeme (token_ahead 2 s) = ob_label (hd (p_stack s)) \<and> p_stack t = []"
proof -
  define toks where "toks = projr (scan_tokens latin_tables (U ''endif:a'') [])"
  define s where "s = (new_parser latin_tables toks)\<lparr>p_stack := [new_block (U ''if'') (toks ! 2)]\<rparr>"
  have "outcome_value (fst (p_close T_ENDIF (U ''if'') s)) = Some ()"
    unfolding s_def toks_def by code_simp
  then have run: "p_close T_ENDIF (U ''if'') s = (Done (), snd (p_close T_ENDIF (U ''if'') s))"
    by (cases "p_close T_ENDIF (U ''if'') s") (auto simp: outcome_value_def split: outcome.splits)
  have st: "p_stack s = [new_block (U ''if'') (toks ! 2)]" by (simp add: s_def at_state_def del: stack_update)
  from close_matches [OF run] st
  have "p_stack s \<noteq> []" "tok_lexeme (token_ahead 2 s) = ob_label (hd (p_stack s))"
    "p_stack (snd (p_close T_ENDIF (U ''if'') s)) = []" by simp_all
  with run show ?thesis by blast
qed

end
