(* ===== verification/Values.thy ===== *)
theory Values
  imports Ast
begin

section \<open>Runtime values and their type specifications\<close>

text \<open>
  The values the interpreter computes with (\<open>runtime_values.py\<close>, \<open>objects.py\<close>,
  \<open>temporal.py\<close>, \<open>randomness.py\<close>, \<open>errors.py\<close> and \<open>interpreter.py\<close>) and the functions
  on type specifications of \<open>interpreter.py\<close>: a specification is absent (\<open>None\<close>), a type
  name, or a list of elements of a specification.

  A list is a value: the identity of a Python list object is not modelled. The fields and the
  field types of an object are association lists in the order of the source's dictionaries. The
  values of host services (connections, profiles, secrets and the like) are handles that carry
  only their kind and a number; their own components are not modelled.

  A failing function returns \<open>Inl\<close> of the error it raises, with its code, category, position and
  related position; the texts \<open>expected\<close> and \<open>actual\<close> of run-time errors are not modelled.
\<close>

datatype timezone = Zone_UTC | Zone_Fixed ustr int | Zone_Named ustr

datatype host_kind =
    H_system | H_board | H_pin_namespace | H_pin | H_embedded_bus
  | H_ip_address | H_network_interface | H_tcp_connection | H_udp_socket | H_dhcp_server
  | H_dns_server | H_regex_match_result | H_exec_result | H_http_profile | H_http_response
  | H_secret | H_http_auth | H_oauth_token | H_cookie_jar | H_mail_address
  | H_mail_message | H_mail_sender | H_mail_send_result | H_xml_document | H_xml_element
  | H_db_connection

datatype sep_value =
    VInt int | VFlt b64 | VStr ustr | VBool bool
  | VList "sep_value list"
  | VObj "(ustr \<times> sep_value) list" "(ustr \<times> ustr \<times> type_spec option) list"
  | VBytes "nat list"
  | VEmpty "ustr option" "type_spec option" bool
  | VEmptys
  | VVoid
  | VErr ustr ustr
  | VLogic nat ustr
  | VNamespace nat "ustr list"
  | VDatetime int timezone | VLocal int | VZone timezone | VDuration int
  | VHost host_kind nat

type_synonym field_spec = "ustr \<times> type_spec option"
type_synonym 'a result = "sep_error + 'a"

text \<open>Sequencing of computations that may fail, and the check of a condition.\<close>

definition bind_sum :: "'e + 'a \<Rightarrow> ('a \<Rightarrow> 'e + 'b) \<Rightarrow> 'e + 'b" where
  "bind_sum r f = (case r of Inl e \<Rightarrow> Inl e | Inr a \<Rightarrow> f a)"

definition check :: "bool \<Rightarrow> 'e \<Rightarrow> 'e + unit" where
  "check b e = (if b then Inr () else Inl e)"

lemma bind_sum_simps [simp]: "bind_sum (Inl e) f = Inl e" "bind_sum (Inr a) f = f a"
  by (simp_all add: bind_sum_def)

lemma check_simps [simp]: "check True e = Inr ()" "check False e = Inl e"
  by (simp_all add: check_def)

lemma bind_sum_Inr_iff [simp]: "bind_sum r f = Inr b \<longleftrightarrow> (\<exists>a. r = Inr a \<and> f a = Inr b)"
  by (cases r) auto

lemma check_Inr_iff [simp]: "check b e = Inr u \<longleftrightarrow> b"
  by (cases b) auto

lemma bind_sum_cong [fundef_cong]:
  "r = r' \<Longrightarrow> (\<And>a. r' = Inr a \<Longrightarrow> f a = f' a) \<Longrightarrow> bind_sum r f = bind_sum r' f'"
  by (cases r') auto

text \<open>The results of a computation on the elements of a list, in order, up to the first error.\<close>

fun map_result :: "('a \<Rightarrow> 'e + 'b) \<Rightarrow> 'a list \<Rightarrow> 'e + 'b list" where
  "map_result f [] = Inr []"
| "map_result f (a # as) = bind_sum (f a) (\<lambda>b. bind_sum (map_result f as) (\<lambda>bs. Inr (b # bs)))"

lemma map_result_cong [fundef_cong]:
  "as = bs \<Longrightarrow> (\<And>a. a \<in> set bs \<Longrightarrow> f a = g a) \<Longrightarrow> map_result f as = map_result g bs"
  by (induction bs arbitrary: as) (auto intro!: bind_sum_cong)

lemma map_result_Inr_iff: "map_result f as = Inr bs \<longleftrightarrow> list_all2 (\<lambda>a b. f a = Inr b) as bs"
  by (induction as arbitrary: bs) (auto simp: list_all2_Cons1)

lemma map_result_id: "(\<And>a. a \<in> set as \<Longrightarrow> f a = Inr a) \<Longrightarrow> map_result f as = Inr as"
  by (induction as) auto

lemma map_result_all:
  "map_result f as = Inr bs \<Longrightarrow> (\<And>a b. a \<in> set as \<Longrightarrow> f a = Inr b \<Longrightarrow> P b) \<Longrightarrow> list_all P bs"
  by (induction as arbitrary: bs) fastforce+

lemma map_result_again:
  assumes "map_result f as = Inr bs" and "\<And>a b. a \<in> set as \<Longrightarrow> f a = Inr b \<Longrightarrow> f b = Inr b"
  shows "map_result f bs = Inr bs"
proof (rule map_result_id)
  fix b assume "b \<in> set bs"
  moreover have "list_all (\<lambda>b. f b = Inr b) bs"
    using assms(1) by (rule map_result_all) (rule assms(2))
  ultimately show "f b = Inr b" by (simp add: list_all_iff)
qed

lemma length_map_result: "map_result f as = Inr bs \<Longrightarrow> length bs = length as"
  by (auto simp: map_result_Inr_iff dest: list_all2_lengthD)

text \<open>The commonest run-time error, \<open>runtime.type_error\<close>.\<close>

definition type_error :: "source_position \<Rightarrow> sep_error" where
  "type_error p = mk_error 201 ''Type error'' p"

lemma type_error_sel [simp]: "err_code (type_error p) = 201" "err_position (type_error p) = p"
  by (simp_all add: type_error_def)

subsection \<open>Kinds of values\<close>

definition zone_name :: "timezone \<Rightarrow> ustr" where
  "zone_name z = (case z of Zone_UTC \<Rightarrow> U ''UTC'' | Zone_Fixed n _ \<Rightarrow> n | Zone_Named n \<Rightarrow> n)"

primrec host_type_name :: "host_kind \<Rightarrow> ustr" where
  "host_type_name H_system = U ''system''"
| "host_type_name H_board = U ''board''"
| "host_type_name H_pin_namespace = U ''pin_namespace''"
| "host_type_name H_pin = U ''pin''"
| "host_type_name H_embedded_bus = U ''embedded_bus''"
| "host_type_name H_ip_address = U ''ip_address''"
| "host_type_name H_network_interface = U ''network_interface''"
| "host_type_name H_tcp_connection = U ''tcp_connection''"
| "host_type_name H_udp_socket = U ''udp_socket''"
| "host_type_name H_dhcp_server = U ''dhcp_server''"
| "host_type_name H_dns_server = U ''dns_server''"
| "host_type_name H_regex_match_result = U ''regex_match_result''"
| "host_type_name H_exec_result = U ''exec_result''"
| "host_type_name H_http_profile = U ''http_profile''"
| "host_type_name H_http_response = U ''http_response''"
| "host_type_name H_secret = U ''secret''"
| "host_type_name H_http_auth = U ''http_auth''"
| "host_type_name H_oauth_token = U ''oauth_token''"
| "host_type_name H_cookie_jar = U ''cookie_jar''"
| "host_type_name H_mail_address = U ''mail_address''"
| "host_type_name H_mail_message = U ''mail_message''"
| "host_type_name H_mail_sender = U ''mail_sender''"
| "host_type_name H_mail_send_result = U ''mail_send_result''"
| "host_type_name H_xml_document = U ''xml_document''"
| "host_type_name H_xml_element = U ''xml_element''"
| "host_type_name H_db_connection = U ''db_connection''"

fun value_type_name :: "sep_value \<Rightarrow> ustr" where
  "value_type_name (VEmpty d e x) = (case d of None \<Rightarrow> U ''EMPTY'' | Some t \<Rightarrow> t)"
| "value_type_name VEmptys = U ''EMPTYS''"
| "value_type_name VVoid = U ''VOID''"
| "value_type_name (VBytes b) = U ''bytes''"
| "value_type_name (VObj fs ts) = U ''object''"
| "value_type_name (VNamespace r ns) = U ''namespace''"
| "value_type_name (VLogic r n) = U ''logic''"
| "value_type_name (VErr c m) = U ''error''"
| "value_type_name (VDatetime i z) = U ''datetime''"
| "value_type_name (VLocal i) = U ''local_datetime''"
| "value_type_name (VZone z) = U ''timezone''"
| "value_type_name (VDuration i) = U ''duration''"
| "value_type_name (VBool b) = U ''boolean''"
| "value_type_name (VInt i) = U ''number''"
| "value_type_name (VFlt x) = U ''number''"
| "value_type_name (VStr s) = U ''string''"
| "value_type_name (VList vs) = U ''list''"
| "value_type_name (VHost t h) = host_type_name t"

fun is_empty_state :: "sep_value \<Rightarrow> bool" where
  "is_empty_state (VEmpty d e x) = True"
| "is_empty_state _ = False"

fun is_external_empty :: "sep_value \<Rightarrow> bool" where
  "is_external_empty (VEmpty d e x) = x"
| "is_external_empty _ = False"

fun is_number :: "sep_value \<Rightarrow> bool" where
  "is_number (VInt i) = True"
| "is_number (VFlt x) = True"
| "is_number _ = False"

fun is_list_value :: "sep_value \<Rightarrow> bool" where
  "is_list_value (VList vs) = True"
| "is_list_value _ = False"

fun is_container :: "sep_value \<Rightarrow> bool" where
  "is_container (VList vs) = True"
| "is_container (VObj fs ts) = True"
| "is_container _ = False"

fun is_temporal :: "sep_value \<Rightarrow> bool" where
  "is_temporal (VDatetime i z) = True"
| "is_temporal (VLocal i) = True"
| "is_temporal (VZone z) = True"
| "is_temporal (VDuration i) = True"
| "is_temporal _ = False"

lemma is_list_value_iff: "is_list_value v \<longleftrightarrow> (\<exists>vs. v = VList vs)"
  by (cases v) auto

lemma is_empty_state_iff: "is_empty_state v \<longleftrightarrow> (\<exists>d e x. v = VEmpty d e x)"
  by (cases v) auto

text \<open>Python's \<open>==\<close> on these values: numbers and booleans are compared by value, lists and
  dictionaries by their elements.\<close>

definition num_eq :: "sep_value \<Rightarrow> sep_value \<Rightarrow> bool" where
  "num_eq a b = (case (a, b) of (VInt i, VInt j) \<Rightarrow> i = j | (VFlt x, VFlt y) \<Rightarrow> eq64 x y
     | (VInt i, VFlt y) \<Rightarrow> cmp_int64 i y = Some 0 | (VFlt x, VInt j) \<Rightarrow> cmp_int64 j x = Some 0
     | _ \<Rightarrow> False)"

fun as_number :: "sep_value \<Rightarrow> sep_value" where
  "as_number (VBool b) = VInt (if b then 1 else 0)"
| "as_number v = v"

definition same_map :: "('k \<times> 'v) list \<Rightarrow> ('k \<times> 'v) list \<Rightarrow> bool" where
  "same_map xs ys \<longleftrightarrow> length xs = length ys \<and> list_all (\<lambda>(k, v). map_of ys k = Some v) xs"

definition scalar_eq :: "sep_value \<Rightarrow> sep_value \<Rightarrow> bool" where
  "scalar_eq a b =
     (case a of VDatetime i z \<Rightarrow> (case b of VDatetime j w \<Rightarrow> i = j | _ \<Rightarrow> False)
      | VZone z \<Rightarrow> (case b of VZone w \<Rightarrow> zone_name z = zone_name w | _ \<Rightarrow> False)
      | VInt i \<Rightarrow> num_eq a (as_number b) | VFlt x \<Rightarrow> num_eq a (as_number b)
      | VBool c \<Rightarrow> num_eq (as_number a) (as_number b)
      | _ \<Rightarrow> a = b)"

fun py_eq :: "sep_value \<Rightarrow> sep_value \<Rightarrow> bool"
  and py_eq_list :: "sep_value list \<Rightarrow> sep_value list \<Rightarrow> bool"
  and py_eq_fields :: "(ustr \<times> sep_value) list \<Rightarrow> (ustr \<times> sep_value) list \<Rightarrow> bool" where
  "py_eq (VList xs) b = (case b of VList ys \<Rightarrow> py_eq_list xs ys | _ \<Rightarrow> False)"
| "py_eq (VObj fs ts) b =
     (case b of VObj gs us \<Rightarrow> length fs = length gs \<and> py_eq_fields fs gs \<and> same_map ts us
      | _ \<Rightarrow> False)"
| "py_eq a b = scalar_eq a b"
| "py_eq_list [] ys = (ys = [])"
| "py_eq_list (x # xs) ys = (case ys of [] \<Rightarrow> False | y # ys' \<Rightarrow> py_eq x y \<and> py_eq_list xs ys')"
| "py_eq_fields [] gs = True"
| "py_eq_fields ((k, v) # fs) gs =
     ((case map_of gs k of None \<Rightarrow> False | Some w \<Rightarrow> py_eq v w) \<and> py_eq_fields fs gs)"

subsection \<open>Type specifications\<close>

definition is_list_type_spec :: "type_spec option \<Rightarrow> bool" where
  "is_list_type_spec s = (case s of Some (TList e) \<Rightarrow> True | _ \<Rightarrow> False)"

definition element_spec :: "type_spec option \<Rightarrow> type_spec option" where
  \<comment> \<open>\<open>spec[1]\<close> of a list specification\<close>
  "element_spec s = (case s of Some (TList e) \<Rightarrow> e | _ \<Rightarrow> None)"

fun type_spec_text :: "type_spec option \<Rightarrow> ustr" where
  "type_spec_text None = U ''unknown''"
| "type_spec_text (Some (TName n)) = n"
| "type_spec_text (Some (TList e)) = U ''list<'' @ type_spec_text e @ U ''>''"

definition retained_empty_type :: "ustr option \<Rightarrow> type_spec option \<Rightarrow> type_spec option" where
  "retained_empty_type d e =
     (case d of None \<Rightarrow> None | Some t \<Rightarrow> Some (if t = U ''list'' then TList e else TName t))"

fun type_specs_compatible :: "type_spec option \<Rightarrow> type_spec option \<Rightarrow> bool" where
  "type_specs_compatible None _ = True"
| "type_specs_compatible _ None = True"
| "type_specs_compatible (Some (TList a)) (Some (TList b)) = type_specs_compatible a b"
| "type_specs_compatible a b = (a = b)"

fun merge_type_specs :: "type_spec option \<Rightarrow> type_spec option \<Rightarrow> type_spec option" where
  "merge_type_specs None r = r"
| "merge_type_specs l None = l"
| "merge_type_specs (Some (TList a)) (Some (TList b)) = Some (TList (merge_type_specs a b))"
| "merge_type_specs l _ = l"

definition empty_for_type_spec :: "type_spec option \<Rightarrow> bool \<Rightarrow> sep_value" where
  "empty_for_type_spec s x =
     (case s of Some (TList e) \<Rightarrow> VEmpty (Some (U ''list'')) e x
      | Some (TName n) \<Rightarrow> VEmpty (Some n) None x | None \<Rightarrow> VEmpty None None x)"

lemma compatible_refl [simp]: "type_specs_compatible s s"
  by (induction s rule: type_spec_text.induct) auto

lemma compatible_None [simp]: "type_specs_compatible s None"
  by (cases s) auto

lemma merge_None [simp]: "merge_type_specs s None = s"
  by (cases s) auto

lemma compatible_sym: "type_specs_compatible s t \<Longrightarrow> type_specs_compatible t s"
  by (induction s t rule: type_specs_compatible.induct) auto

lemma merge_idem [simp]: "merge_type_specs s s = s"
  by (induction s rule: type_spec_text.induct) auto

text \<open>On compatible specifications the merge is the least upper bound: it keeps what either
  side knows, whatever the order.\<close>

lemma merge_commute: "type_specs_compatible s t \<Longrightarrow> merge_type_specs s t = merge_type_specs t s"
  by (induction s t rule: type_specs_compatible.induct) auto

lemma merge_absorb:
  "type_specs_compatible s t \<Longrightarrow> merge_type_specs s (merge_type_specs s t) = merge_type_specs s t"
  by (induction s t rule: type_specs_compatible.induct) auto

lemma merge_left_idem: "merge_type_specs (merge_type_specs s t) s = merge_type_specs s t"
  by (induction s t rule: merge_type_specs.induct) auto

lemma compatible_merge: "type_specs_compatible s (merge_type_specs s t)"
  by (induction s t rule: merge_type_specs.induct) auto

lemma merge_compatible_trans:
  "type_specs_compatible (merge_type_specs s t) u \<Longrightarrow> type_specs_compatible s t \<Longrightarrow>
   type_specs_compatible s u \<and> type_specs_compatible t u"
proof (induction s t arbitrary: u rule: type_specs_compatible.induct)
  case (3 a b)
  then show ?case by (cases u rule: type_spec_text.cases) auto
qed auto

subsection \<open>The type of a value\<close>

fun value_type_spec :: "source_position \<Rightarrow> sep_value \<Rightarrow> type_spec option result"
  and list_element_type :: "source_position \<Rightarrow> sep_value list \<Rightarrow> type_spec option result"
  and element_types ::
    "source_position \<Rightarrow> type_spec option \<Rightarrow> sep_value list \<Rightarrow> type_spec option result" where
  "value_type_spec p (VEmpty d e x) = Inr (retained_empty_type d e)"
| "value_type_spec p (VList vs) =
     (if VVoid \<in> set vs then Inl (mk_error 127 ''VOID value use'' p)
      else if VEmptys \<in> set vs then Inl (mk_error 133 ''EMPTYS list element'' p)
      else bind_sum (element_types p None vs) (\<lambda>e. Inr (Some (TList e))))"
| "value_type_spec p v = Inr (Some (TName (value_type_name v)))"
| "list_element_type p vs =
     (if VVoid \<in> set vs then Inl (mk_error 127 ''VOID value use'' p)
      else if VEmptys \<in> set vs then Inl (mk_error 133 ''EMPTYS list element'' p)
      else element_types p None vs)"
| "element_types p found [] = Inr found"
| "element_types p found (v # vs) =
     bind_sum (value_type_spec p v) (\<lambda>actual.
       if \<not> type_specs_compatible found actual then Inl (mk_error 203 ''Heterogeneous list'' p)
       else element_types p (merge_type_specs found actual) vs)"

lemma value_type_spec_list:
  "value_type_spec p (VList vs) = bind_sum (list_element_type p vs) (\<lambda>e. Inr (Some (TList e)))"
  by simp

declare value_type_spec.simps(2) [simp del] list_element_type.simps [simp del]

lemma list_element_type_Nil [simp]: "list_element_type p [] = Inr None"
  by (simp add: list_element_type.simps)

subsection \<open>Values brought to a specification\<close>

fun normalize_value_for_type_spec :: "source_position \<Rightarrow> sep_value \<Rightarrow> type_spec option \<Rightarrow> sep_value result" where
  "normalize_value_for_type_spec p (VEmpty d e x) s = Inr (empty_for_type_spec s x)"
| "normalize_value_for_type_spec p (VList vs) s =
     (if is_list_type_spec s then
        (if vs \<noteq> [] \<and> element_spec s = None then
           (if list_all is_external_empty vs then Inr (VList vs)
            else Inl (mk_error 134 ''List element type required'' p))
         else bind_sum (map_result (\<lambda>v. normalize_value_for_type_spec p v (element_spec s)) vs)
                (\<lambda>ws. Inr (VList ws)))
      else if s \<noteq> Some (TName (U ''list'')) then Inl (mk_error 203 ''Heterogeneous list'' p)
      else Inr (VList vs))"
| "normalize_value_for_type_spec p v s =
     (if is_list_type_spec s then Inl (type_error p)
      else if s \<noteq> Some (TName (value_type_name v)) then Inl (mk_error 203 ''Heterogeneous list'' p)
      else Inr v)"

definition normalize_list_values ::
  "source_position \<Rightarrow> sep_value list \<Rightarrow> type_spec option \<Rightarrow> sep_value list result" where
  "normalize_list_values p vs e =
     (if vs \<noteq> [] \<and> e = None then
        (if list_all is_external_empty vs then Inr vs
         else Inl (mk_error 134 ''List element type required'' p))
      else map_result (\<lambda>v. normalize_value_for_type_spec p v e) vs)"

lemma normalize_list_spec:
  "normalize_value_for_type_spec p (VList vs) (Some (TList e)) =
   bind_sum (normalize_list_values p vs e) (\<lambda>ws. Inr (VList ws))"
  by (simp add: is_list_type_spec_def element_spec_def normalize_list_values_def)

text \<open>
  A value that fits a specification: what normalization produces. A list without an element type
  holds nothing but EMPTY slots.
\<close>

fun fits :: "type_spec option \<Rightarrow> sep_value \<Rightarrow> bool" where
  "fits s (VEmpty d e x) = (VEmpty d e x = empty_for_type_spec s x)"
| "fits s (VList vs) =
     (if is_list_type_spec s then
        (if element_spec s = None then list_all is_empty_state vs
         else list_all (fits (element_spec s)) vs)
      else s = Some (TName (U ''list'')))"
| "fits s v = (s = Some (TName (value_type_name v)))"

definition fits_all :: "type_spec option \<Rightarrow> sep_value list \<Rightarrow> bool" where
  "fits_all e vs = (if e = None then list_all is_empty_state vs else list_all (fits e) vs)"

lemma fits_list: "fits (Some (TList e)) (VList vs) = fits_all e vs"
  by (simp add: is_list_type_spec_def element_spec_def fits_all_def)

lemma fits_empty_for [simp]: "fits s (empty_for_type_spec s x)"
  by (cases s rule: type_spec_text.cases) (simp_all add: empty_for_type_spec_def)

lemma external_empties: "list_all is_external_empty vs \<Longrightarrow> list_all is_empty_state vs"
  by (erule list.pred_mono_strong, erule is_external_empty.elims) auto

lemma normalize_fits: "normalize_value_for_type_spec p v s = Inr w \<Longrightarrow> fits s w"
proof (induction p v s arbitrary: w rule: normalize_value_for_type_spec.induct)
  case (2 p vs s)
  then show ?case
    by (auto split: if_splits intro: external_empties elim!: map_result_all)
qed (auto split: if_splits)

lemma normalize_list_fits: "normalize_list_values p vs e = Inr ws \<Longrightarrow> fits_all e ws"
  by (auto simp: normalize_list_values_def fits_all_def split: if_splits
      intro: normalize_fits external_empties elim!: map_result_all)

text \<open>Normalizing a second time changes nothing.\<close>

lemma normalize_again:
  "normalize_value_for_type_spec p v s = Inr w \<Longrightarrow> normalize_value_for_type_spec p w s = Inr w"
proof (induction p v s arbitrary: w rule: normalize_value_for_type_spec.induct)
  case (1 p d e x s)
  then show ?case
    by (cases s rule: type_spec_text.cases) (auto simp: empty_for_type_spec_def)
next
  case (2 p vs s)
  then show ?case
    by (auto split: if_splits dest: length_map_result elim!: map_result_again)
qed (auto split: if_splits)

subsection \<open>Containers and \<open>EMPTYS\<close>\<close>

fun container_is_emptys :: "sep_value \<Rightarrow> bool" where
  "container_is_emptys (VList vs) =
     list_all (\<lambda>v. is_empty_state v \<or> is_container v \<and> container_is_emptys v) vs"
| "container_is_emptys (VObj fs ts) =
     list_all (\<lambda>(k, v). is_empty_state v \<or> is_container v \<and> container_is_emptys v) fs"
| "container_is_emptys _ = False"

text \<open>\<open>field_types.get(key, (type_name(item), None))\<close>, and the dictionary after storing it back.\<close>

definition field_type :: "(ustr \<times> field_spec) list \<Rightarrow> ustr \<Rightarrow> sep_value \<Rightarrow> field_spec" where
  "field_type ts k v = (case map_of ts k of None \<Rightarrow> (value_type_name v, None) | Some x \<Rightarrow> x)"

fun dict_set :: "('k \<times> 'v) list \<Rightarrow> 'k \<Rightarrow> 'v \<Rightarrow> ('k \<times> 'v) list" where
  "dict_set [] k v = [(k, v)]"
| "dict_set ((k', v') # d) k v = (if k' = k then (k, v) # d else (k', v') # dict_set d k v)"

fun dict_del :: "('k \<times> 'v) list \<Rightarrow> 'k \<Rightarrow> ('k \<times> 'v) list" where
  "dict_del [] k = []"
| "dict_del ((k', v') # d) k = (if k' = k then d else (k', v') # dict_del d k)"

definition with_field_type ::
  "(ustr \<times> field_spec) list \<Rightarrow> ustr \<times> sep_value \<Rightarrow> (ustr \<times> field_spec) list" where
  "with_field_type ts f = dict_set ts (fst f) (field_type ts (fst f) (snd f))"

lemma map_of_dict_set [simp]: "map_of (dict_set d k v) = (map_of d)(k \<mapsto> v)"
  by (induction d k v rule: dict_set.induct) auto

lemma set_dict_set: "set (dict_set d k v) \<subseteq> insert (k, v) (set d)"
  by (induction d k v rule: dict_set.induct) auto

lemma distinct_dict_set [simp]: "distinct (map fst (dict_set d k v)) = distinct (map fst d)"
proof (induction d k v rule: dict_set.induct)
  case (2 k' v' d k v)
  have "fst ` set (dict_set d k v) = insert k (fst ` set d)"
    by (induction d k v rule: dict_set.induct) auto
  with 2 show ?case by auto
qed simp

lemma map_of_dict_del: "distinct (map fst d) \<Longrightarrow> map_of (dict_del d k) = (map_of d)(k := None)"
  by (induction d k rule: dict_del.induct) (auto simp: fun_eq_iff map_of_eq_None_iff dom_map_of_conv_image_fst)

lemma set_dict_del: "set (dict_del d k) \<subseteq> set d"
  by (induction d k rule: dict_del.induct) auto

lemma distinct_dict_del: "distinct (map fst d) \<Longrightarrow> distinct (map fst (dict_del d k))"
proof (induction d k rule: dict_del.induct)
  case (2 k' v' d k)
  have "fst ` set (dict_del d k) \<subseteq> fst ` set d" using set_dict_del [of d k] by auto
  with 2 show ?case by auto
qed simp

text \<open>
  \<open>clear_container_value\<close>: a cleared list or object keeps its shape, and every slot that is not
  a container becomes an EMPTY of the slot's type.
\<close>

definition emptys_error :: "source_position \<Rightarrow> ustr \<Rightarrow> sep_error" where
  "emptys_error p d =
     mk_error 133 (if d = U ''list'' \<or> d = U ''object'' then ''EMPTYS container required'' else ''EMPTYS scalar'') p"

fun clear_container_value ::
  "source_position \<Rightarrow> sep_value \<Rightarrow> ustr \<Rightarrow> type_spec option \<Rightarrow> sep_value result" where
  "clear_container_value p (VList vs) d e =
     (if d = U ''list'' then
        bind_sum
          (map_result (\<lambda>v.
             if is_container v then
               clear_container_value p v (value_type_name v) (if is_list_value v then element_spec e else None)
             else bind_sum (case e of None \<Rightarrow> value_type_spec p v | Some s \<Rightarrow> Inr e)
                    (\<lambda>s. Inr (empty_for_type_spec s False))) vs)
          (\<lambda>ws. Inr (VList ws))
      else Inl (emptys_error p d))"
| "clear_container_value p (VObj fs ts) d e =
     (if d = U ''object'' then
        bind_sum
          (map_result (\<lambda>(k, v).
             bind_sum
               (if is_container v then clear_container_value p v (value_type_name v) (snd (field_type ts k v))
                else Inr (empty_for_type_spec
                       (retained_empty_type (Some (fst (field_type ts k v))) (snd (field_type ts k v))) False))
               (\<lambda>w. Inr (k, w))) fs)
          (\<lambda>gs. Inr (VObj gs (foldl with_field_type ts fs)))
      else Inl (emptys_error p d))"
| "clear_container_value p (VEmpty d' e' x) d e =
     (if d = U ''list'' then Inr (VList []) else Inl (emptys_error p d))"
| "clear_container_value p v d e = Inl (emptys_error p d)"

subsection \<open>A value for a declared name\<close>

definition prepare_typed_value ::
  "source_position \<Rightarrow> ustr \<Rightarrow> type_spec option \<Rightarrow> sep_value \<Rightarrow> sep_value result" where
  "prepare_typed_value p d e v =
     (case v of
        VEmptys \<Rightarrow> if d = U ''list'' then Inr (VList []) else Inl (mk_error 133 ''EMPTYS container required'' p)
      | VEmpty d' _ _ \<Rightarrow>
          if d' \<noteq> None \<and> d' \<noteq> Some d then Inl (type_error p) else Inr (VEmpty (Some d) e False)
      | VList vs \<Rightarrow>
          if d \<noteq> U ''list'' then Inl (type_error p)
          else bind_sum (list_element_type p vs) (\<lambda>found.
            if \<not> type_specs_compatible e found then Inl (type_error p)
            else bind_sum (normalize_list_values p vs e) (\<lambda>ws. Inr (VList ws)))
      | _ \<Rightarrow>
          if value_type_name v \<noteq> d then Inl (type_error p) else Inr v)"

end
