(* ===== verification/Environment.thy ===== *)
theory Environment
  imports Values
begin

section \<open>Bindings and scopes\<close>

text \<open>
  \<open>Binding\<close> and \<open>Environment\<close> of \<open>interpreter.py\<close>. A scope is the dictionary of one
  \<open>Environment\<close>; an environment is the chain of scopes from the innermost to the outermost, as
  the \<open>parent\<close> links give it. Assignments and definitions work on the innermost scope, reads and
  indexed assignments on the first scope that has the name.
\<close>

record binding =
  b_value :: sep_value
  b_type :: ustr
  b_elem :: "type_spec option"
  b_const :: bool
  b_pos :: source_position

definition mk_binding :: "sep_value \<Rightarrow> ustr \<Rightarrow> type_spec option \<Rightarrow> bool \<Rightarrow> source_position \<Rightarrow> binding" where
  "mk_binding v t e c p = \<lparr>b_value = v, b_type = t, b_elem = e, b_const = c, b_pos = p\<rparr>"

lemma mk_binding_sel [simp]:
  "b_value (mk_binding v t e c p) = v" "b_type (mk_binding v t e c p) = t"
  "b_elem (mk_binding v t e c p) = e" "b_const (mk_binding v t e c p) = c"
  "b_pos (mk_binding v t e c p) = p"
  by (simp_all add: mk_binding_def)

type_synonym scope = "ustr \<rightharpoonup> binding"
type_synonym environment = "scope list"

definition related_error :: "nat \<Rightarrow> string \<Rightarrow> source_position \<Rightarrow> source_position \<Rightarrow> sep_error" where
  "related_error n cat p q = (mk_error n cat p)\<lparr>err_related := Some q\<rparr>"

text \<open>The element type that goes with a value: none unless it is a list.\<close>

definition value_element_type :: "source_position \<Rightarrow> sep_value \<Rightarrow> type_spec option result" where
  "value_element_type p v = (case v of VList vs \<Rightarrow> list_element_type p vs | _ \<Rightarrow> Inr None)"

definition normalize_if_list ::
  "source_position \<Rightarrow> sep_value \<Rightarrow> type_spec option \<Rightarrow> sep_value result" where
  "normalize_if_list p v e =
     (case v of VList vs \<Rightarrow> bind_sum (normalize_list_values p vs e) (\<lambda>ws. Inr (VList ws)) | _ \<Rightarrow> Inr v)"

subsection \<open>Assignment and definition\<close>

definition assign_existing ::
  "source_position \<Rightarrow> binding \<Rightarrow> sep_value \<Rightarrow> binding result" where
  "assign_existing p old v =
     (if b_const old then Inl (related_error 211 ''Constant reassignment'' p (b_pos old))
      else case v of
        VEmptys \<Rightarrow>
          bind_sum (clear_container_value p (b_value old) (b_type old) (b_elem old))
            (\<lambda>w. Inr (old\<lparr>b_value := w\<rparr>))
      | VEmpty _ _ _ \<Rightarrow> Inr (old\<lparr>b_value := VEmpty (Some (b_type old)) (b_elem old) False\<rparr>)
      | _ \<Rightarrow>
          bind_sum (value_element_type p v) (\<lambda>element.
          if b_type old \<noteq> value_type_name v then Inl (type_error p)
          else if is_list_value v \<and> \<not> type_specs_compatible (b_elem old) element then Inl (type_error p)
          else let merged = (if is_list_value v then merge_type_specs (b_elem old) element else element) in
          bind_sum (normalize_if_list p v merged) (\<lambda>w.
          Inr (old\<lparr>b_value := w, b_elem := merge_type_specs (b_elem old) merged\<rparr>))))"

definition assign_new :: "source_position \<Rightarrow> sep_value \<Rightarrow> binding result" where
  "assign_new p v =
     (case v of
        VEmptys \<Rightarrow> Inl (mk_error 133 ''EMPTYS container required'' p)
      | VEmpty d e _ \<Rightarrow>
          (case d of None \<Rightarrow> Inl (mk_error 129 ''EMPTY type required'' p)
           | Some t \<Rightarrow> Inr (mk_binding v t e False p))
      | _ \<Rightarrow>
          bind_sum (value_element_type p v) (\<lambda>element.
          bind_sum (normalize_if_list p v element) (\<lambda>w.
          Inr (mk_binding w (value_type_name v) element False p))))"

definition assign :: "source_position \<Rightarrow> ustr \<Rightarrow> sep_value \<Rightarrow> scope \<Rightarrow> scope result" where
  "assign p name v s =
     (if v = VVoid then Inl (mk_error 126 ''VOID assignment'' p)
      else bind_sum (case s name of Some old \<Rightarrow> assign_existing p old v | None \<Rightarrow> assign_new p v)
             (\<lambda>b. Inr (s(name \<mapsto> b))))"

definition define_const :: "source_position \<Rightarrow> ustr \<Rightarrow> sep_value \<Rightarrow> scope \<Rightarrow> scope result" where
  "define_const p name v s =
     (if v = VVoid then Inl (mk_error 126 ''VOID assignment'' p)
      else case s name of
        Some previous \<Rightarrow> Inl (related_error 210 ''Duplicate binding'' p (b_pos previous))
      | None \<Rightarrow>
          if is_empty_state v \<or> v = VEmptys then Inl (mk_error 130 ''EMPTY constant'' p)
          else bind_sum (value_element_type p v)
                 (\<lambda>element. Inr (s(name \<mapsto> mk_binding v (value_type_name v) element True p))))"

definition define_typed ::
  "source_position \<Rightarrow> ustr \<Rightarrow> ustr \<Rightarrow> type_spec option \<Rightarrow> sep_value \<Rightarrow> bool \<Rightarrow> scope \<Rightarrow> scope result" where
  "define_typed p name d e v constant s =
     (if v = VVoid then Inl (mk_error 126 ''VOID assignment'' p)
      else case s name of
        Some previous \<Rightarrow> Inl (related_error 210 ''Duplicate binding'' p (b_pos previous))
      | None \<Rightarrow>
          if constant \<and> (is_empty_state v \<or> v = VEmptys) then Inl (mk_error 130 ''EMPTY constant'' p)
          else bind_sum (prepare_typed_value p d e v)
                 (\<lambda>w. Inr (s(name \<mapsto> mk_binding w d e constant p))))"

subsection \<open>Reading through the chain\<close>

fun env_contains :: "ustr \<Rightarrow> environment \<Rightarrow> bool" where
  "env_contains name [] = False"
| "env_contains name (s # ss) = (s name \<noteq> None \<or> env_contains name ss)"

fun env_binding :: "source_position \<Rightarrow> ustr \<Rightarrow> environment \<Rightarrow> binding result" where
  "env_binding p name [] = Inl (mk_error 202 ''Undefined variable'' p)"
| "env_binding p name (s # ss) = (case s name of Some b \<Rightarrow> Inr b | None \<Rightarrow> env_binding p name ss)"

fun env_get :: "source_position \<Rightarrow> ustr \<Rightarrow> environment \<Rightarrow> sep_value result" where
  "env_get p name [] = Inl (mk_error 202 ''Undefined variable'' p)"
| "env_get p name (s # ss) = (case s name of Some b \<Rightarrow> Inr (b_value b) | None \<Rightarrow> env_get p name ss)"

text \<open>The chain after the binding that \<open>env_binding\<close> finds has been changed in place.\<close>

fun env_update :: "ustr \<Rightarrow> (binding \<Rightarrow> binding) \<Rightarrow> environment \<Rightarrow> environment" where
  "env_update name f [] = []"
| "env_update name f (s # ss) =
     (case s name of Some b \<Rightarrow> s(name \<mapsto> f b) # ss | None \<Rightarrow> s # env_update name f ss)"

subsection \<open>Indexed assignment\<close>

fun update_indexes ::
  "source_position \<Rightarrow> sep_value \<Rightarrow> sep_value list \<Rightarrow> sep_value list \<Rightarrow> type_spec option \<Rightarrow>
   (sep_value list \<times> type_spec option) result" where
  "update_indexes p v [] container expected = Inr (container, expected)"
| "update_indexes p v (index # rest) container expected =
     (case index of
        VInt i \<Rightarrow>
          if i < 0 then Inl (type_error p)
          else if int (length container) \<le> i then Inl (mk_error 302 ''Index out of range'' p)
          else let current = container ! nat i in
          bind_sum
            (if rest \<noteq> [] then
               (case current of
                  VEmpty _ _ _ \<Rightarrow> Inl (mk_error 131 ''EMPTY value use'' p)
                | VList inner \<Rightarrow>
                    bind_sum (if is_list_type_spec expected then Inr (element_spec expected)
                              else list_element_type p inner) (\<lambda>child.
                    bind_sum (update_indexes p v rest inner child) (\<lambda>(replacement, adopted).
                    Inr (VList replacement, Some (TList adopted))))
                | _ \<Rightarrow> Inl (type_error p))
             else
               (case v of
                  VEmptys \<Rightarrow>
                    if \<not> is_container current then Inl (mk_error 133 ''EMPTYS container required'' p)
                    else bind_sum (clear_container_value p current (value_type_name current)
                             (if is_list_type_spec expected then element_spec expected else None))
                           (\<lambda>w. Inr (w, expected))
                | VEmpty _ _ _ \<Rightarrow>
                    bind_sum (if expected = None then value_type_spec p current else Inr expected)
                      (\<lambda>slot. Inr (empty_for_type_spec slot False, slot))
                | _ \<Rightarrow>
                    bind_sum (value_type_spec p v) (\<lambda>actual.
                    if expected \<noteq> None \<and> \<not> type_specs_compatible expected actual then Inl (type_error p)
                    else let adopted = merge_type_specs expected actual in
                    bind_sum (normalize_value_for_type_spec p v adopted) (\<lambda>w. Inr (w, adopted)))))
            (\<lambda>(replacement, adopted).
               Inr (container[nat i := replacement], merge_type_specs expected adopted))
      | _ \<Rightarrow> Inl (type_error p))"

text \<open>
  \<open>assign_indexes\<close>. The binding is written before its value is normalized, so an error of the
  last step leaves the new value behind: the result is the error, if any, and the environment.
\<close>

definition assign_indexes ::
  "source_position \<Rightarrow> ustr \<Rightarrow> sep_value list \<Rightarrow> sep_value \<Rightarrow> environment \<Rightarrow> sep_error option \<times> environment" where
  "assign_indexes p name indexes v env =
     (case env_binding p name env of
        Inl e \<Rightarrow> (Some e, env)
      | Inr b \<Rightarrow>
          if b_const b then (Some (related_error 211 ''Constant reassignment'' p (b_pos b)), env)
          else case b_value b of
            VList vs \<Rightarrow>
              if b_type b \<noteq> U ''list'' then (Some (type_error p), env)
              else if indexes = [] then (Some (mk_error 302 ''Index required'' p), env)
              else (case update_indexes p v indexes vs (b_elem b) of
                 Inl e \<Rightarrow> (Some e, env)
               | Inr (ws, element) \<Rightarrow>
                   let stored = env_update name (\<lambda>b. b\<lparr>b_value := VList ws, b_elem := element\<rparr>) env in
                   (case normalize_list_values p ws element of
                      Inl e \<Rightarrow> (Some e, stored)
                    | Inr us \<Rightarrow> (None, env_update name (\<lambda>b. b\<lparr>b_value := VList us\<rparr>) stored)))
          | _ \<Rightarrow> (Some (type_error p), env))"

subsection \<open>What a binding keeps\<close>

text \<open>
  The invariant of a binding: its value has the declared type, the elements of a variable's list
  fit the element type, and a constant is never EMPTY.
\<close>

definition binding_ok :: "binding \<Rightarrow> bool" where
  "binding_ok b \<longleftrightarrow> value_type_name (b_value b) = b_type b \<and> b_value b \<noteq> VVoid \<and> b_value b \<noteq> VEmptys \<and>
     (b_const b \<longrightarrow> \<not> is_empty_state (b_value b)) \<and>
     (\<forall>vs. b_value b = VList vs \<and> \<not> b_const b \<longrightarrow> fits_all (b_elem b) vs)"

definition scope_ok :: "scope \<Rightarrow> bool" where
  "scope_ok s \<longleftrightarrow> (\<forall>name b. s name = Some b \<longrightarrow> binding_ok b)"

text \<open>What no operation changes in a binding that exists.\<close>

definition binding_step :: "binding \<Rightarrow> binding \<Rightarrow> bool" where
  "binding_step b b' \<longleftrightarrow> b_type b' = b_type b \<and> b_const b' = b_const b \<and> b_pos b' = b_pos b \<and>
     (b_const b \<longrightarrow> b' = b)"

definition scope_step :: "scope \<Rightarrow> scope \<Rightarrow> bool" where
  "scope_step s s' \<longleftrightarrow> (\<forall>name b. s name = Some b \<longrightarrow> (\<exists>b'. s' name = Some b' \<and> binding_step b b'))"

lemma type_name_list [simp]:
  "value_type_name v = U ''list'' \<longleftrightarrow> is_list_value v \<or> (\<exists>e x. v = VEmpty (Some (U ''list'')) e x)"
proof (cases v)
  case (VHost k h)
  then show ?thesis by (cases k) simp_all
qed (auto split: option.splits)

lemma is_empty_state_empty_for [simp]: "is_empty_state (empty_for_type_spec s x)"
  by (auto simp: empty_for_type_spec_def split: option.splits type_spec.splits)

lemma clear_type_name:
  "clear_container_value p v d e = Inr w \<Longrightarrow>
   value_type_name w = d \<and> w \<noteq> VVoid \<and> w \<noteq> VEmptys \<and> (is_empty_state v \<longrightarrow> w = VList [])"
  by (cases v) (auto split: if_splits)

lemma clear_to_list:
  "clear_container_value p v d e = Inr (VList ws) \<Longrightarrow> is_empty_state v \<and> ws = [] \<or> is_list_value v"
  by (cases v) (auto split: if_splits)

lemma clear_fits:
  "clear_container_value p v d e = Inr w \<Longrightarrow> v = VList vs \<Longrightarrow> fits_all e vs \<Longrightarrow>
   \<exists>ws. w = VList ws \<and> fits_all e ws"
proof (induction p v d e arbitrary: vs w rule: clear_container_value.induct)
  case (1 p us d e)
  let ?step = "\<lambda>v. if is_container v then
      clear_container_value p v (value_type_name v) (if is_list_value v then element_spec e else None)
    else bind_sum (case e of None \<Rightarrow> value_type_spec p v | Some s \<Rightarrow> Inr e)
      (\<lambda>s. Inr (empty_for_type_spec s False))"
  from 1(2) obtain ws where d: "d = U ''list''" and m: "map_result ?step us = Inr ws" and w: "w = VList ws"
    by (auto split: if_splits)
  have "if e = None then is_empty_state b else fits e b" if a: "a \<in> set us" "?step a = Inr b" for a b
  proof (cases "is_container a")
    case False
    with a(2) show ?thesis by (cases e) auto
  next
    case True
    have fit: "if e = None then is_empty_state a else fits e a"
      using 1(3,4) a(1) by (auto simp: fits_all_def list_all_iff)
    with True have e: "e \<noteq> None" "fits e a" by (cases a; auto split: if_splits)+
    show ?thesis
    proof (cases a)
      case (VList xs)
      show ?thesis
      proof (cases "is_list_type_spec e")
        case True
        then obtain f where f: "e = Some (TList f)"
          by (auto simp: is_list_type_spec_def split: option.splits type_spec.splits)
        with e VList have "fits_all f xs" by (simp only: fits_list)
        then obtain ys where "b = VList ys" "fits_all f ys"
          using 1(1) [OF d a(1) \<open>is_container a\<close>, of b xs] a(2) VList f
          by (auto simp: element_spec_def)
        with f show ?thesis by (simp only: fits_list) simp
      next
        case False
        with e VList have "e = Some (TName (U ''list''))" by simp
        with a(2) VList show ?thesis
          by (auto simp: element_spec_def is_list_type_spec_def split: if_splits)
      qed
    qed (use True e a(2) in \<open>auto split: if_splits\<close>)
  qed
  then have "list_all (\<lambda>b. if e = None then is_empty_state b else fits e b) ws"
    using m by (rule map_result_all [rotated])
  with w show ?case by (auto simp: fits_all_def)
qed simp_all

lemma prepare_ok:
  assumes "prepare_typed_value p d e v = Inr w" and "v \<noteq> VVoid"
  shows "value_type_name w = d" "w \<noteq> VVoid" "w \<noteq> VEmptys" "w = VList ws \<Longrightarrow> fits_all e ws"
    "is_empty_state w \<Longrightarrow> is_empty_state v"
  using assms
  by (cases v; auto simp: prepare_typed_value_def fits_all_def dest: normalize_list_fits split: if_splits; fail)+

lemma normalize_if_list_ok:
  assumes "normalize_if_list p v e = Inr w"
  shows "value_type_name w = value_type_name v" "w = VVoid \<longleftrightarrow> v = VVoid" "w = VEmptys \<longleftrightarrow> v = VEmptys"
    "is_empty_state w = is_empty_state v" "w = VList ws \<Longrightarrow> fits_all e ws"
  using assms by (cases v; auto simp: normalize_if_list_def dest: normalize_list_fits; fail)+

lemma assign_existing_step: "assign_existing p b v = Inr b' \<Longrightarrow> binding_step b b'"
  by (auto simp: assign_existing_def binding_step_def Let_def split: if_splits sep_value.splits)

lemma clear_ok:
  assumes "clear_container_value p v d e = Inr w" and "\<And>vs. v = VList vs \<Longrightarrow> fits_all e vs"
  shows "w = VList ws \<Longrightarrow> fits_all e ws"
  using assms clear_to_list [of p v d e ws] clear_fits [OF assms(1)]
  by (auto simp: is_list_value_iff fits_all_def)

lemma assign_existing_value:
  assumes "v \<noteq> VEmptys" and "\<not> is_empty_state v"
  shows "assign_existing p b v =
     (if b_const b then Inl (related_error 211 ''Constant reassignment'' p (b_pos b))
      else bind_sum (value_element_type p v) (\<lambda>element.
          if b_type b \<noteq> value_type_name v then Inl (type_error p)
          else if is_list_value v \<and> \<not> type_specs_compatible (b_elem b) element then Inl (type_error p)
          else let merged = (if is_list_value v then merge_type_specs (b_elem b) element else element) in
          bind_sum (normalize_if_list p v merged) (\<lambda>w.
          Inr (b\<lparr>b_value := w, b_elem := merge_type_specs (b_elem b) merged\<rparr>))))"
  using assms by (cases v; hypsubst; simp add: assign_existing_def)

lemma assign_existing_ok:
  assumes "assign_existing p b v = Inr b'" and "binding_ok b" and "v \<noteq> VVoid"
  shows "binding_ok b'"
proof (cases "v = VEmptys")
  case True
  with assms(1) obtain w where w: "clear_container_value p (b_value b) (b_type b) (b_elem b) = Inr w"
    "b' = b\<lparr>b_value := w\<rparr>" "\<not> b_const b"
    by (auto simp: assign_existing_def split: if_splits)
  with assms(2) clear_type_name [OF w(1)] clear_ok [OF w(1)] show ?thesis
    by (auto simp: binding_ok_def)
next
  case False
  show ?thesis
  proof (cases "is_empty_state v")
    case True
    with assms show ?thesis
      by (cases v) (auto simp: assign_existing_def binding_ok_def split: if_splits)
  next
    case concrete: False
    from assms(1) obtain element w where w: "\<not> b_const b" "value_element_type p v = Inr element"
      "b_type b = value_type_name v" "is_list_value v \<longrightarrow> type_specs_compatible (b_elem b) element"
      "normalize_if_list p v (if is_list_value v then merge_type_specs (b_elem b) element else element) = Inr w"
      "b' = b\<lparr>b_value := w, b_elem := merge_type_specs (b_elem b)
          (if is_list_value v then merge_type_specs (b_elem b) element else element)\<rparr>"
      unfolding assign_existing_value [OF False concrete] by (auto simp: Let_def split: if_splits)
    have "is_list_value w \<longleftrightarrow> is_list_value v"
      using w(5) by (cases v) (auto simp: normalize_if_list_def)
    with w normalize_if_list_ok [OF w(5)] assms(3) False show ?thesis
      by (auto simp: binding_ok_def merge_absorb split: if_splits)
  qed
qed

lemma assign_new_ok:
  assumes "assign_new p v = Inr b" and "v \<noteq> VVoid"
  shows "binding_ok b"
proof (cases "v = VEmptys \<or> is_empty_state v")
  case True
  with assms show ?thesis
    by (auto simp: assign_new_def binding_ok_def is_empty_state_iff split: option.splits)
next
  case False
  then have "assign_new p v = bind_sum (value_element_type p v) (\<lambda>element.
          bind_sum (normalize_if_list p v element) (\<lambda>w.
          Inr (mk_binding w (value_type_name v) element False p)))"
    by (cases v; hypsubst; simp add: assign_new_def)
  with assms False show ?thesis
    by (auto simp: binding_ok_def dest: normalize_if_list_ok)
qed

lemma define_const_ok:
  "define_const p name v s = Inr s' \<Longrightarrow> scope_ok s \<Longrightarrow> scope_ok s'"
  by (auto simp: define_const_def scope_ok_def binding_ok_def split: if_splits option.splits)

lemma define_typed_ok:
  assumes "define_typed p name d e v c s = Inr s'" and "scope_ok s"
  shows "scope_ok s'"
proof -
  from assms(1) obtain w where w: "prepare_typed_value p d e v = Inr w" "v \<noteq> VVoid"
    "c \<longrightarrow> \<not> is_empty_state v" "s' = s(name \<mapsto> mk_binding w d e c p)"
    by (auto simp: define_typed_def split: if_splits option.splits)
  with prepare_ok [OF w(1,2)] have "binding_ok (mk_binding w d e c p)"
    by (auto simp: binding_ok_def)
  with assms(2) w(4) show ?thesis by (auto simp: scope_ok_def)
qed

lemma assign_ok: "assign p name v s = Inr s' \<Longrightarrow> scope_ok s \<Longrightarrow> scope_ok s'"
  by (auto simp: assign_def scope_ok_def split: if_splits option.splits
      dest: assign_existing_ok assign_new_ok)

lemma binding_step_refl [simp]: "binding_step b b"
  by (simp add: binding_step_def)

lemma scope_step_refl [simp]: "scope_step s s"
  by (auto simp: scope_step_def)

lemma assign_step:
  assumes "assign p name v s = Inr s'"
  shows "scope_step s s'"
proof (cases "s name")
  case None
  with assms show ?thesis by (auto simp: assign_def scope_step_def split: if_splits)
next
  case (Some old)
  with assms obtain b where b: "assign_existing p old v = Inr b" "s' = s(name \<mapsto> b)"
    by (auto simp: assign_def split: if_splits)
  from assign_existing_step [OF b(1)] b(2) Some show ?thesis
    by (auto simp: scope_step_def)
qed

lemma define_const_step: "define_const p name v s = Inr s' \<Longrightarrow> scope_step s s'"
  by (auto simp: define_const_def scope_step_def split: if_splits option.splits)

lemma define_typed_step: "define_typed p name d e v c s = Inr s' \<Longrightarrow> scope_step s s'"
  by (auto simp: define_typed_def scope_step_def split: if_splits option.splits)

lemmas scope_operations_ok = assign_ok define_const_ok define_typed_ok

lemmas scope_operations_step = assign_step define_const_step define_typed_step

definition env_ok :: "environment \<Rightarrow> bool" where
  "env_ok env \<longleftrightarrow> list_all scope_ok env"

definition env_step :: "environment \<Rightarrow> environment \<Rightarrow> bool" where
  "env_step = list_all2 scope_step"

lemma env_step_refl [simp]: "env_step env env"
  by (simp add: env_step_def list_all2_refl)

lemma binding_step_trans: "binding_step a b \<Longrightarrow> binding_step b c \<Longrightarrow> binding_step a c"
  by (auto simp: binding_step_def)

lemma scope_step_trans: "scope_step a b \<Longrightarrow> scope_step b c \<Longrightarrow> scope_step a c"
  unfolding scope_step_def by (meson binding_step_trans)

lemma env_step_trans: "env_step a b \<Longrightarrow> env_step b c \<Longrightarrow> env_step a c"
  unfolding env_step_def by (rule list_all2_trans [OF scope_step_trans])

lemma env_update_step:
  "env_binding p name env = Inr b \<Longrightarrow> binding_step b (f b) \<Longrightarrow> env_step env (env_update name f env)"
  by (induction env)
    (auto simp: env_step_def scope_step_def list_all2_refl split: option.splits if_splits)

lemma env_update_ok:
  "env_binding p name env = Inr b \<Longrightarrow> binding_ok (f b) \<Longrightarrow> env_ok env \<Longrightarrow> env_ok (env_update name f env)"
  by (induction env) (auto simp: env_ok_def scope_ok_def split: option.splits if_splits)

lemma env_binding_update [simp]:
  "env_binding p name env = Inr b \<Longrightarrow> env_binding p name (env_update name f env) = Inr (f b)"
  by (induction env) (auto split: option.splits)

lemma env_update_update [simp]:
  "env_update name f (env_update name g env) = env_update name (f \<circ> g) env"
  by (induction env) (auto split: option.splits)

lemma env_binding_ok: "env_binding p name env = Inr b \<Longrightarrow> env_ok env \<Longrightarrow> binding_ok b"
  by (induction env) (auto simp: env_ok_def scope_ok_def split: option.splits)

lemma env_get_binding: "env_get p name env = map_sum id b_value (env_binding p name env)"
  by (induction env) (auto split: option.splits)

lemma env_contains_iff: "env_contains name env \<longleftrightarrow> (\<exists>b. env_binding p name env = Inr b)"
  by (induction env) (auto split: option.splits)

text \<open>The two ways an indexed assignment ends.\<close>

lemma assign_indexes_cases:
  assumes "assign_indexes p name indexes v env = (r, env')"
  obtains (same) e where "r = Some e" "env' = env"
  | (written) b vs ws element where "env_binding p name env = Inr b" "\<not> b_const b" "b_value b = VList vs"
      "update_indexes p v indexes vs (b_elem b) = Inr (ws, element)"
      "r = None \<and> (\<exists>us. normalize_list_values p ws element = Inr us \<and>
          env' = env_update name (\<lambda>b. b\<lparr>b_value := VList us, b_elem := element\<rparr>) env) \<or>
       (\<exists>e. r = Some e \<and> env' = env_update name (\<lambda>b. b\<lparr>b_value := VList ws, b_elem := element\<rparr>) env)"
proof -
  have c: "(\<lambda>b. b\<lparr>b_value := x\<rparr>) \<circ> (\<lambda>b. b\<lparr>b_value := y, b_elem := z\<rparr>) =
      (\<lambda>b. b\<lparr>b_value := x, b_elem := z\<rparr>)" for x y z
    by (auto simp: fun_eq_iff)
  show thesis
    using assms that
    by (auto simp: assign_indexes_def Let_def c split: sum.splits if_splits sep_value.splits prod.splits)
qed

subsection \<open>Sequences of operations\<close>

text \<open>One operation that succeeds, on a chain of scopes.\<close>

inductive env_op :: "environment \<Rightarrow> environment \<Rightarrow> bool" where
  op_assign: "assign p name v s = Inr s' \<Longrightarrow> env_op (s # env) (s' # env)"
| op_const: "define_const p name v s = Inr s' \<Longrightarrow> env_op (s # env) (s' # env)"
| op_typed: "define_typed p name d e v c s = Inr s' \<Longrightarrow> env_op (s # env) (s' # env)"
| op_indexes: "assign_indexes p name indexes v env = (None, env') \<Longrightarrow> env_op env env'"

inductive_cases env_opE: "env_op env env'"

lemma assign_indexes_step: "assign_indexes p name indexes v env = (r, env') \<Longrightarrow> env_step env env'"
  by (erule assign_indexes_cases) (auto intro!: env_update_step simp: binding_step_def)

lemma assign_indexes_ok:
  assumes "assign_indexes p name indexes v env = (None, env')" and "env_ok env"
  shows "env_ok env'"
  using assms(1)
proof (cases rule: assign_indexes_cases)
  case (written b vs ws element)
  then obtain us where "normalize_list_values p ws element = Inr us"
    "env' = env_update name (\<lambda>b. b\<lparr>b_value := VList us, b_elem := element\<rparr>) env"
    by auto
  moreover have "binding_ok b" using written(1) assms(2) by (rule env_binding_ok)
  ultimately show ?thesis
    using written assms(2)
    by (auto intro!: env_update_ok simp: binding_ok_def dest: normalize_list_fits)
qed simp

lemma env_op_ok: "env_op env env' \<Longrightarrow> env_ok env \<Longrightarrow> env_ok env'"
  by (erule env_opE) (auto simp: env_ok_def dest: scope_operations_ok assign_indexes_ok [unfolded env_ok_def])

lemma env_op_step: "env_op env env' \<Longrightarrow> env_step env env'"
  by (erule env_opE)
    (auto simp: env_step_def list_all2_refl dest: scope_operations_step
      assign_indexes_step [unfolded env_step_def])

text \<open>
  Whatever sequence of assignments, constant and typed definitions and indexed assignments
  succeeds, starting from well-formed scopes, every binding keeps the invariant: its value has
  its declared type, the elements of a variable's list fit the element type recorded for it, no
  binding holds VOID or EMPTYS, and no constant is EMPTY.
\<close>

theorem bindings_stay_well_typed:
  assumes "env_op\<^sup>*\<^sup>* env env'" and "env_ok env"
  shows "env_ok env'"
  using assms by (induction rule: rtranclp_induct) (auto intro: env_op_ok)

theorem bindings_stay_well_typed_witness:
  "env_ok [[U ''x'' \<mapsto> mk_binding (VList [VInt 1, VEmpty (Some (U ''number'')) None False]) (U ''list'')
     (Some (TName (U ''number''))) False (mk_pos [] 1 1 [])]]"
proof (rule bindings_stay_well_typed [of "[Map.empty]"])
  have "assign (mk_pos [] 1 1 []) (U ''x'') (VList [VInt 1, VEmpty None None False]) Map.empty =
    Inr [U ''x'' \<mapsto> mk_binding (VList [VInt 1, VEmpty (Some (U ''number'')) None False]) (U ''list'')
      (Some (TName (U ''number''))) False (mk_pos [] 1 1 [])]"
    by (simp add: assign_def assign_new_def value_element_type_def list_element_type.simps
        retained_empty_type_def normalize_if_list_def normalize_list_values_def
        is_list_type_spec_def empty_for_type_spec_def)
  then show "env_op\<^sup>*\<^sup>* [Map.empty] [[U ''x'' \<mapsto> mk_binding
      (VList [VInt 1, VEmpty (Some (U ''number'')) None False]) (U ''list'')
      (Some (TName (U ''number''))) False (mk_pos [] 1 1 [])]]"
    by (blast intro: op_assign)
qed (simp add: env_ok_def scope_ok_def)

text \<open>
  No sequence of operations changes the type, the constness or the declaration of a name
  that a scope of the chain binds, and the binding of a constant is not changed at all; an
  indexed assignment that follows keeps this even when it fails halfway.
\<close>

theorem types_and_constants_fixed:
  assumes "env_op\<^sup>*\<^sup>* env env'" and "assign_indexes p name indexes v env' = (r, env'')"
    and "i < length env" and "(env ! i) other = Some b"
  shows "i < length env'' \<and> (\<exists>b''. (env'' ! i) other = Some b'' \<and> b_type b'' = b_type b \<and>
    b_const b'' = b_const b \<and> b_pos b'' = b_pos b \<and> (b_const b \<longrightarrow> b'' = b))"
proof -
  have "env_step env env'"
    using assms(1) by (induction rule: rtranclp_induct) (auto intro: env_step_trans env_op_step)
  then have "env_step env env''"
    using assign_indexes_step [OF assms(2)] by (rule env_step_trans)
  then show ?thesis
    using assms(3,4) unfolding env_step_def list_all2_conv_all_nth scope_step_def binding_step_def
    by metis
qed

lemma types_and_constants_fixed_witness:
  "let p = mk_pos [] 1 1 []; b = mk_binding (VInt 1) (U ''number'') None True p; s = [U ''x'' \<mapsto> b]
   in assign_indexes p (U ''x'') [VInt 0] (VInt 2) [s] =
        (Some (related_error 211 ''Constant reassignment'' p p), [s]) \<and> ([s] ! 0) (U ''x'') = Some b"
  using types_and_constants_fixed [of "[[U ''x'' \<mapsto> mk_binding (VInt 1) (U ''number'') None True (mk_pos [] 1 1 [])]]"
      "[[U ''x'' \<mapsto> mk_binding (VInt 1) (U ''number'') None True (mk_pos [] 1 1 [])]]"
      "mk_pos [] 1 1 []" "U ''x''" "[VInt 0]" "VInt 2"
      "Some (related_error 211 ''Constant reassignment'' (mk_pos [] 1 1 []) (mk_pos [] 1 1 []))"
      "[[U ''x'' \<mapsto> mk_binding (VInt 1) (U ''number'') None True (mk_pos [] 1 1 [])]]" 0 "U ''x''"
      "mk_binding (VInt 1) (U ''number'') None True (mk_pos [] 1 1 [])"]
  by (simp add: assign_indexes_def Let_def)

end
