(* ===== verification/Objects.thy ===== *)
theory Objects
  imports Environment "HOL-Library.List_Lexorder" "HOL-Library.Product_Lexorder"
begin

section \<open>Object values\<close>

text \<open>
  \<open>objects.py\<close>, with the interpreter's \<open>prepare_object_field\<close>. An object is immutable: every
  operation gives a new object. Fields and field types are dictionaries in insertion order;
  the order of keys that \<open>object_keys\<close> uses is the order of code points.
\<close>

fun require_object :: "source_position \<Rightarrow> sep_value \<Rightarrow> ((ustr \<times> sep_value) list \<times> (ustr \<times> field_spec) list) result" where
  "require_object p (VObj fs ts) = Inr (fs, ts)"
| "require_object p _ = Inl (type_error p)"

fun require_key :: "source_position \<Rightarrow> sep_value \<Rightarrow> ustr result" where
  "require_key p (VStr k) = Inr k"
| "require_key p _ = Inl (type_error p)"

definition missing_field :: "source_position \<Rightarrow> sep_error" where
  "missing_field p = mk_error 212 ''Missing object field'' p"

definition object_get :: "source_position \<Rightarrow> sep_value \<Rightarrow> sep_value \<Rightarrow> sep_value result" where
  "object_get p v key =
     bind_sum (require_object p v) (\<lambda>(fs, ts). bind_sum (require_key p key) (\<lambda>k.
     case map_of fs k of None \<Rightarrow> Inl (missing_field p) | Some w \<Rightarrow> Inr w))"

definition object_has :: "source_position \<Rightarrow> sep_value \<Rightarrow> sep_value \<Rightarrow> sep_value result" where
  "object_has p v key =
     bind_sum (require_object p v) (\<lambda>(fs, ts). bind_sum (require_key p key) (\<lambda>k.
     Inr (VBool (map_of fs k \<noteq> None))))"

definition prepare_object_field ::
  "source_position \<Rightarrow> field_spec option \<Rightarrow> sep_value \<Rightarrow> sep_value option \<Rightarrow> sep_value result" where
  "prepare_object_field p expected v current =
     (if v = VEmptys then
        (case current of None \<Rightarrow> Inl (mk_error 133 ''EMPTYS container required'' p)
         | Some c \<Rightarrow> (case expected of
               None \<Rightarrow> clear_container_value p c (value_type_name c) None
             | Some (d, e) \<Rightarrow> clear_container_value p c d e))
      else case expected of
        None \<Rightarrow> if is_empty_state v then Inl (mk_error 129 ''EMPTY type required'' p) else Inr v
      | Some (d, e) \<Rightarrow> prepare_typed_value p d e v)"

definition object_field_type ::
  "(ustr \<times> sep_value) list \<Rightarrow> (ustr \<times> field_spec) list \<Rightarrow> ustr \<Rightarrow> field_spec option" where
  "object_field_type fs ts k =
     (case map_of ts k of Some x \<Rightarrow> Some x
      | None \<Rightarrow> (case map_of fs k of
            Some old \<Rightarrow> if is_empty_state old then None else Some (value_type_name old, None)
          | None \<Rightarrow> None))"

definition object_set :: "source_position \<Rightarrow> sep_value \<Rightarrow> sep_value \<Rightarrow> sep_value \<Rightarrow> sep_value result" where
  "object_set p v key field =
     bind_sum (require_object p v) (\<lambda>(fs, ts). bind_sum (require_key p key) (\<lambda>k.
     let expected = object_field_type fs ts k in
     bind_sum (prepare_object_field p expected field (map_of fs k)) (\<lambda>w.
     bind_sum
       (if expected = None \<and> \<not> is_empty_state w then
          bind_sum (value_element_type p w) (\<lambda>e. Inr (Some (value_type_name w, e)))
        else Inr expected) (\<lambda>expected'.
     Inr (VObj (dict_set fs k w) (case expected' of None \<Rightarrow> ts | Some x \<Rightarrow> dict_set ts k x))))))"

definition object_remove :: "source_position \<Rightarrow> sep_value \<Rightarrow> sep_value \<Rightarrow> sep_value result" where
  "object_remove p v key =
     bind_sum (require_object p v) (\<lambda>(fs, ts). bind_sum (require_key p key) (\<lambda>k.
     if map_of fs k = None then Inl (missing_field p)
     else Inr (VObj (dict_del fs k) (dict_del ts k))))"

definition object_keys :: "source_position \<Rightarrow> sep_value \<Rightarrow> sep_value result" where
  "object_keys p v = bind_sum (require_object p v) (\<lambda>(fs, ts). Inr (VList (map VStr (sort (map fst fs)))))"

definition object_values :: "source_position \<Rightarrow> sep_value \<Rightarrow> sep_value result" where
  "object_values p v =
     bind_sum (require_object p v) (\<lambda>(fs, ts). Inr (VList (map (the \<circ> map_of fs) (sort (map fst fs)))))"

subsection \<open>Laws\<close>

text \<open>The dictionaries of an object have distinct keys.\<close>

fun object_ok :: "sep_value \<Rightarrow> bool" where
  "object_ok (VObj fs ts) = (distinct (map fst fs) \<and> distinct (map fst ts))"
| "object_ok _ = False"

lemma require_object_Inr [simp]: "require_object p v = Inr x \<longleftrightarrow> v = VObj (fst x) (snd x)"
  by (cases v) auto

lemma require_key_Inr [simp]: "require_key p v = Inr k \<longleftrightarrow> v = VStr k"
  by (cases v) auto

lemma object_get_Inr: "object_get p v (VStr k) = Inr w \<longleftrightarrow> (\<exists>fs ts. v = VObj fs ts \<and> map_of fs k = Some w)"
  by (cases v) (auto simp: object_get_def split: option.splits)

lemma object_set_Inr:
  assumes "object_set p v (VStr k) f = Inr v'"
  obtains fs ts w us where "v = VObj fs ts" "v' = VObj (dict_set fs k w) us"
    "us = ts \<or> (\<exists>x. us = dict_set ts k x)"
proof (cases v)
  case (VObj fs ts)
  with assms obtain w x where "v' = VObj (dict_set fs k w) (case x of None \<Rightarrow> ts | Some x \<Rightarrow> dict_set ts k x)"
    by (auto simp: object_set_def Let_def)
  with VObj that show thesis by (cases x) auto
qed (use assms in \<open>simp_all add: object_set_def\<close>)

text \<open>
  Setting a field succeeds only on an object and a string key; the result is again an object
  with distinct keys, has exactly one more key at most, agrees with the old object on every other
  field, and removing the field afterwards gives back the object without it.
\<close>

theorem object_set_frame:
  assumes "object_set p v (VStr k) f = Inr v'" and "object_ok v"
  shows "object_ok v' \<and> object_has p v' (VStr k) = Inr (VBool True) \<and>
    (\<forall>k'. k' \<noteq> k \<longrightarrow> object_get p v' (VStr k') = object_get p v (VStr k')) \<and>
    (\<exists>u u'. object_remove p v' (VStr k) = Inr u \<and> object_ok u \<and>
       object_has p u (VStr k) = Inr (VBool False) \<and>
       (object_remove p v (VStr k) = Inr u' \<longrightarrow> u = u'))"
proof -
  obtain fs ts w us where v: "v = VObj fs ts" "v' = VObj (dict_set fs k w) us"
    "us = ts \<or> (\<exists>x. us = dict_set ts k x)"
    using object_set_Inr [OF assms(1)] .
  have del: "dict_del (dict_set d k x) k = dict_del d k" for d :: "(ustr \<times> 'a) list" and x
    by (induction d k x rule: dict_set.induct) auto
  from v assms(2) have ok: "distinct (map fst fs)" "distinct (map fst us)" by auto
  have "dict_del us k = dict_del ts k" using v(3) del by auto
  with v ok show ?thesis
    by (auto simp: object_has_def object_get_def object_remove_def del map_of_dict_del distinct_dict_del)
qed

lemma object_set_frame_witness:
  "object_has (mk_pos [] 1 1 []) (VObj [(U ''a'', VInt 2)] [(U ''a'', U ''number'', None)]) (VStr (U ''a'')) =
     Inr (VBool True)"
  using object_set_frame [of "mk_pos [] 1 1 []" "VObj [(U ''a'', VInt 1)] [(U ''a'', U ''number'', None)]"
      "U ''a''" "VInt 2" "VObj [(U ''a'', VInt 2)] [(U ''a'', U ''number'', None)]"]
  by (simp add: object_set_def object_field_type_def prepare_object_field_def prepare_typed_value_def)

text \<open>
  A typed field keeps its type: setting a field whose type is recorded succeeds only with a
  value of that type (or EMPTY, which then retains it, or EMPTYS on a container), the recorded
  type stays, and reading the field gives a value of that type.
\<close>

theorem object_set_typed:
  assumes "object_set p (VObj fs ts) (VStr k) f = Inr v'" and "map_of ts k = Some (d, e)" and "f \<noteq> VVoid"
  shows "\<exists>w gs us. v' = VObj gs us \<and> map_of us k = Some (d, e) \<and> object_get p v' (VStr k) = Inr w \<and>
    value_type_name w = d"
proof -
  from assms(1,2) obtain w where w: "prepare_object_field p (Some (d, e)) f (map_of fs k) = Inr w"
    "v' = VObj (dict_set fs k w) (dict_set ts k (d, e))"
    by (auto simp: object_set_def Let_def object_field_type_def)
  have "value_type_name w = d"
    using w(1) assms(3) prepare_ok(1) clear_type_name
    by (fastforce simp: prepare_object_field_def split: if_splits option.splits)
  with w(2) show ?thesis by (simp add: object_get_def)
qed

lemma object_set_typed_witness:
  "object_get (mk_pos [] 1 1 []) (VObj [(U ''a'', VEmpty (Some (U ''number'')) None False)]
     [(U ''a'', U ''number'', None)]) (VStr (U ''a'')) = Inr (VEmpty (Some (U ''number'')) None False)"
  using object_set_typed [of "mk_pos [] 1 1 []" "[(U ''a'', VInt 1)]" "[(U ''a'', U ''number'', None)]"
      "U ''a''" "VEmpty None None False"
      "VObj [(U ''a'', VEmpty (Some (U ''number'')) None False)] [(U ''a'', U ''number'', None)]"
      "U ''number''" None]
  by (auto simp: object_set_def object_field_type_def prepare_object_field_def prepare_typed_value_def object_get_def)

text \<open>
  A list field without a recorded type can never be given a list with elements: the type
  \<open>object_set\<close> derives from the old value has no element type, which \<open>prepare_typed_value\<close>
  rejects with E134 whatever the elements are (unless they are all external EMPTY values).
\<close>

theorem object_set_untyped_list:
  assumes "map_of ts k = None" and "map_of fs k = Some (VList us)"
    and "list_element_type p vs = Inr e" and "\<not> list_all is_external_empty vs"
  shows "object_set p (VObj fs ts) (VStr k) (VList vs) = Inl (mk_error 134 ''List element type required'' p)"
proof -
  have "vs \<noteq> []" using assms(4) by auto
  with assms show ?thesis
    by (simp add: object_set_def object_field_type_def prepare_object_field_def prepare_typed_value_def normalize_list_values_def)
qed

lemma object_set_untyped_list_witness:
  "object_set (mk_pos [] 1 1 []) (VObj [(U ''a'', VList [VInt 1])] []) (VStr (U ''a'')) (VList [VInt 2]) =
     Inl (mk_error 134 ''List element type required'' (mk_pos [] 1 1 []))"
  by (rule object_set_untyped_list [of _ _ _ "[VInt 1]" _ _ "Some (TName (U ''number''))"])
    (simp_all add: list_element_type.simps)

end
