(* ===== verification/ListOps.thy ===== *)
theory ListOps
  imports Objects "HOL-Library.Multiset" "HOL-Library.Sublist"
begin

section \<open>List operations\<close>

text \<open>
  \<open>list_ops.py\<close>: each operation takes the position of the call and its arguments and gives a
  new list, a value or an error. Python's \<open>sorted\<close> is a stable sort by a key: numbers are
  compared exactly as rationals (with the infinities at the ends), text by code points, times by
  their instants. A list with a NaN has no order; its sort is left to the key of NaN and nothing
  is claimed about it. \<open>str.casefold\<close> is a parameter.
\<close>

subsection \<open>Guards\<close>

fun require_list :: "source_position \<Rightarrow> sep_value \<Rightarrow> sep_value list result" where
  "require_list p (VList vs) = Inr vs"
| "require_list p _ = Inl (type_error p)"

fun require_index :: "source_position \<Rightarrow> sep_value \<Rightarrow> nat result" where
  "require_index p (VInt i) = (if i < 0 then Inl (type_error p) else Inr (nat i))"
| "require_index p _ = Inl (type_error p)"

definition first_type :: "sep_value list \<Rightarrow> ustr option" where
  "first_type vs = (case vs of [] \<Rightarrow> None | v # _ \<Rightarrow> Some (value_type_name v))"

definition compatible_search :: "source_position \<Rightarrow> sep_value list \<Rightarrow> sep_value \<Rightarrow> unit result" where
  "compatible_search p vs v =
     check (first_type vs = None \<or> first_type vs = Some (value_type_name v)) (type_error p)"

lemma require_list_Inr [simp]: "require_list p v = Inr vs \<longleftrightarrow> v = VList vs"
  by (cases v) auto

lemma require_index_Inr: "require_index p v = Inr n \<longleftrightarrow> v = VInt (int n)"
  by (cases v) auto

subsection \<open>Searching, with Python's equality\<close>

fun find_index :: "sep_value \<Rightarrow> sep_value list \<Rightarrow> nat option" where
  "find_index v [] = None"
| "find_index v (x # xs) = (if py_eq x v then Some 0 else map_option Suc (find_index v xs))"

definition find_last_index :: "sep_value \<Rightarrow> sep_value list \<Rightarrow> nat option" where
  "find_last_index v xs = map_option (\<lambda>i. length xs - 1 - i) (find_index v (rev xs))"

definition member_of :: "sep_value \<Rightarrow> sep_value list \<Rightarrow> bool" where
  "member_of v xs \<longleftrightarrow> find_index v xs \<noteq> None"

lemma find_index_Some:
  "find_index v xs = Some i \<longleftrightarrow> i < length xs \<and> py_eq (xs ! i) v \<and> (\<forall>j < i. \<not> py_eq (xs ! j) v)"
proof (induction xs arbitrary: i)
  case (Cons x xs)
  have all: "(\<forall>j < Suc k. \<not> py_eq ((x # xs) ! j) v) \<longleftrightarrow> \<not> py_eq x v \<and> (\<forall>j < k. \<not> py_eq (xs ! j) v)" for k
    by (auto simp: nth_Cons split: nat.splits)
  show ?case by (cases i) (auto simp: Cons.IH all)
qed simp

lemma find_index_None: "find_index v xs = None \<longleftrightarrow> (\<forall>x \<in> set xs. \<not> py_eq x v)"
  by (induction xs) auto

subsection \<open>Operations\<close>

definition list_append :: "source_position \<Rightarrow> sep_value \<Rightarrow> sep_value \<Rightarrow> sep_value result" where
  "list_append p values v =
     bind_sum (require_list p values) (\<lambda>vs. bind_sum (compatible_search p vs v) (\<lambda>_.
     Inr (VList (vs @ [v]))))"

definition list_prepend :: "source_position \<Rightarrow> sep_value \<Rightarrow> sep_value \<Rightarrow> sep_value result" where
  "list_prepend p values v =
     bind_sum (require_list p values) (\<lambda>vs. bind_sum (compatible_search p vs v) (\<lambda>_.
     Inr (VList (v # vs))))"

definition list_remove :: "source_position \<Rightarrow> sep_value list \<Rightarrow> sep_value result" where
  "list_remove p arguments =
     (case arguments of
        [values, v] \<Rightarrow>
          bind_sum (require_list p values) (\<lambda>vs. bind_sum (compatible_search p vs v) (\<lambda>_.
          case find_index v vs of
            None \<Rightarrow> Inl (mk_error 604 ''List value not found'' p)
          | Some i \<Rightarrow> Inr (VList (take i vs @ drop (i + 1) vs))))
      | _ \<Rightarrow> Inl (mk_error 605 ''List shape target required'' p))"

definition direct_shape_operation :: "source_position \<Rightarrow> sep_value result" where
  "direct_shape_operation p = Inl (mk_error 605 ''List shape target required'' p)"

definition remove_at :: "source_position \<Rightarrow> sep_value \<Rightarrow> sep_value \<Rightarrow> sep_value result" where
  "remove_at p values index =
     bind_sum (require_list p values) (\<lambda>vs. bind_sum (require_index p index) (\<lambda>i.
     if length vs \<le> i then Inl (mk_error 603 ''List index out of range'' p)
     else Inr (VList (take i vs @ drop (i + 1) vs))))"

fun unique_values :: "sep_value list \<Rightarrow> sep_value list \<Rightarrow> sep_value list" where
  "unique_values seen [] = seen"
| "unique_values seen (v # vs) = unique_values (if member_of v seen then seen else seen @ [v]) vs"

definition list_unique :: "source_position \<Rightarrow> sep_value \<Rightarrow> sep_value result" where
  "list_unique p values = bind_sum (require_list p values) (\<lambda>vs. Inr (VList (unique_values [] vs)))"

definition list_size :: "source_position \<Rightarrow> sep_value \<Rightarrow> sep_value result" where
  "list_size p values = bind_sum (require_list p values) (\<lambda>vs. Inr (VInt (int (length vs))))"

definition list_first :: "source_position \<Rightarrow> sep_value \<Rightarrow> sep_value result" where
  "list_first p values =
     bind_sum (require_list p values) (\<lambda>vs.
     case vs of [] \<Rightarrow> Inl (mk_error 602 ''Empty list access'' p) | v # _ \<Rightarrow> Inr v)"

definition list_last :: "source_position \<Rightarrow> sep_value \<Rightarrow> sep_value result" where
  "list_last p values =
     bind_sum (require_list p values) (\<lambda>vs.
     if vs = [] then Inl (mk_error 602 ''Empty list access'' p) else Inr (last vs))"

definition list_contains :: "source_position \<Rightarrow> sep_value \<Rightarrow> sep_value \<Rightarrow> sep_value result" where
  "list_contains p values v =
     bind_sum (require_list p values) (\<lambda>vs. bind_sum (compatible_search p vs v) (\<lambda>_.
     Inr (VBool (member_of v vs))))"

definition empty_number :: sep_value where
  "empty_number = VEmpty (Some (U ''number'')) None False"

definition list_index_of :: "source_position \<Rightarrow> sep_value \<Rightarrow> sep_value \<Rightarrow> sep_value result" where
  "list_index_of p values v =
     bind_sum (require_list p values) (\<lambda>vs. bind_sum (compatible_search p vs v) (\<lambda>_.
     Inr (case find_index v vs of None \<Rightarrow> empty_number | Some i \<Rightarrow> VInt (int i))))"

definition list_last_index_of :: "source_position \<Rightarrow> sep_value \<Rightarrow> sep_value \<Rightarrow> sep_value result" where
  "list_last_index_of p values v =
     bind_sum (require_list p values) (\<lambda>vs. bind_sum (compatible_search p vs v) (\<lambda>_.
     Inr (case find_last_index v vs of None \<Rightarrow> empty_number | Some i \<Rightarrow> VInt (int i))))"

definition slice_list :: "source_position \<Rightarrow> sep_value \<Rightarrow> sep_value \<Rightarrow> sep_value \<Rightarrow> sep_value result" where
  "slice_list p values start stop =
     bind_sum (require_list p values) (\<lambda>vs. bind_sum (require_index p start) (\<lambda>i.
     bind_sum (require_index p stop) (\<lambda>j.
     if j < i \<or> length vs < j then Inl (mk_error 603 ''Invalid list range'' p)
     else Inr (VList (drop i (take j vs))))))"

definition list_reverse :: "source_position \<Rightarrow> sep_value \<Rightarrow> sep_value result" where
  "list_reverse p values = bind_sum (require_list p values) (\<lambda>vs. Inr (VList (rev vs)))"

subsection \<open>Sorting\<close>

definition ORDERED_TYPES :: "ustr list" where
  "ORDERED_TYPES = [U ''number'', U ''string'', U ''datetime'', U ''local_datetime'', U ''duration'']"

definition ordered_list :: "source_position \<Rightarrow> sep_value \<Rightarrow> (ustr option \<times> sep_value list) result" where
  "ordered_list p values =
     bind_sum (require_list p values) (\<lambda>vs.
     if list_ex is_empty_state vs then Inl (mk_error 131 ''EMPTY value use'' p)
     else case first_type vs of
       None \<Rightarrow> Inr (None, vs)
     | Some t \<Rightarrow> if t \<in> set ORDERED_TYPES then Inr (Some t, vs) else Inl (type_error p))"

text \<open>The key of an ordered value: a rank, a rational and a text, compared in this order.\<close>

type_synonym order_key = "nat \<times> rat \<times> ustr"

definition rat64 :: "bool \<Rightarrow> nat \<Rightarrow> int \<Rightarrow> rat" where
  "rat64 s m e = Fract (num64 s m e) (int (den64 e))"

fun value_key :: "sep_value \<Rightarrow> order_key" where
  "value_key (VInt i) = (1, of_int i, [])"
| "value_key (VFlt x) =
     (case x of Fin s m e \<Rightarrow> (1, rat64 s m e, []) | Infty s \<Rightarrow> (if s then 0 else 2, 0, []) | NaN \<Rightarrow> (1, 0, []))"
| "value_key (VStr s) = (0, 0, s)"
| "value_key (VDatetime i z) = (0, of_int i, [])"
| "value_key (VLocal i) = (0, of_int i, [])"
| "value_key (VDuration i) = (0, of_int i, [])"
| "value_key _ = (0, 0, [])"

text \<open>\<open>_natural_key\<close>: the runs of digits and of other characters, digits first and by value.\<close>

datatype natural_part = NPart nat | TPart ustr

instantiation natural_part :: linorder
begin

definition less_natural_part :: "natural_part \<Rightarrow> natural_part \<Rightarrow> bool" where
  "less_natural_part a b =
     (case (a, b) of (NPart m, NPart n) \<Rightarrow> m < n | (NPart _, TPart _) \<Rightarrow> True
      | (TPart _, NPart _) \<Rightarrow> False | (TPart s, TPart t) \<Rightarrow> s < t)"

definition less_eq_natural_part :: "natural_part \<Rightarrow> natural_part \<Rightarrow> bool" where
  "less_eq_natural_part a b = (a = b \<or> a < b)"

instance
  by standard
    (auto simp: less_natural_part_def less_eq_natural_part_def split: natural_part.splits)

end

fun digit_runs :: "ustr \<Rightarrow> ustr list" where
  "digit_runs [] = []"
| "digit_runs (c # cs) =
     (case digit_runs cs of
        (d # ds) # rs \<Rightarrow> if is_digit c = is_digit d then (c # d # ds) # rs else [c] # (d # ds) # rs
      | _ \<Rightarrow> [[c]])"

definition natural_part :: "ustr \<Rightarrow> natural_part" where
  "natural_part r = (if list_all is_digit r then NPart (digits_value 10 r) else TPart r)"

definition natural_key :: "(ustr \<Rightarrow> ustr) \<Rightarrow> bool \<Rightarrow> ustr \<Rightarrow> natural_part list" where
  "natural_key casefold ignore_case s = map natural_part (digit_runs (if ignore_case then casefold s else s))"

text \<open>\<open>sorted(values, key=key, reverse=descending)\<close>.\<close>

definition sorted_by :: "('a \<Rightarrow> 'k::linorder) \<Rightarrow> bool \<Rightarrow> 'a list \<Rightarrow> 'a list" where
  "sorted_by key descending xs = (if descending then rev (sort_key key (rev xs)) else sort_key key xs)"

fun text_of :: "sep_value \<Rightarrow> ustr" where
  "text_of (VStr s) = s"
| "text_of _ = []"

text \<open>\<open>_sort_values\<close>; keys of different kinds cannot be compared, which Python reports as a
  \<open>TypeError\<close>. The caller's lists are homogeneous, so the model does not have this case.\<close>

definition sort_values ::
  "(ustr \<Rightarrow> ustr) \<Rightarrow> bool \<Rightarrow> bool \<Rightarrow> bool \<Rightarrow> source_position \<Rightarrow> sep_value \<Rightarrow> sep_value result" where
  "sort_values casefold descending ignore_case natural p values =
     bind_sum (ordered_list p values) (\<lambda>(element, vs).
     if (ignore_case \<or> natural) \<and> element \<noteq> None \<and> element \<noteq> Some (U ''string'') then Inl (type_error p)
     else Inr (VList
       (if natural then sorted_by (\<lambda>v. natural_key casefold ignore_case (text_of v)) descending vs
        else if ignore_case then sorted_by (\<lambda>v. casefold (text_of v)) descending vs
        else sorted_by value_key descending vs)))"

definition sort_list :: "(ustr \<Rightarrow> ustr) \<Rightarrow> source_position \<Rightarrow> sep_value \<Rightarrow> sep_value result" where
  "sort_list cf = sort_values cf False False False"

definition sort_descending :: "(ustr \<Rightarrow> ustr) \<Rightarrow> source_position \<Rightarrow> sep_value \<Rightarrow> sep_value result" where
  "sort_descending cf = sort_values cf True False False"

definition sort_ignore_case :: "(ustr \<Rightarrow> ustr) \<Rightarrow> source_position \<Rightarrow> sep_value \<Rightarrow> sep_value result" where
  "sort_ignore_case cf = sort_values cf False True False"

definition sort_ignore_case_descending :: "(ustr \<Rightarrow> ustr) \<Rightarrow> source_position \<Rightarrow> sep_value \<Rightarrow> sep_value result" where
  "sort_ignore_case_descending cf = sort_values cf True True False"

definition sort_natural :: "(ustr \<Rightarrow> ustr) \<Rightarrow> source_position \<Rightarrow> sep_value \<Rightarrow> sep_value result" where
  "sort_natural cf = sort_values cf False False True"

definition sort_natural_descending :: "(ustr \<Rightarrow> ustr) \<Rightarrow> source_position \<Rightarrow> sep_value \<Rightarrow> sep_value result" where
  "sort_natural_descending cf = sort_values cf True False True"

definition sort_natural_ignore_case :: "(ustr \<Rightarrow> ustr) \<Rightarrow> source_position \<Rightarrow> sep_value \<Rightarrow> sep_value result" where
  "sort_natural_ignore_case cf = sort_values cf False True True"

definition sort_natural_ignore_case_descending :: "(ustr \<Rightarrow> ustr) \<Rightarrow> source_position \<Rightarrow> sep_value \<Rightarrow> sep_value result" where
  "sort_natural_ignore_case_descending cf = sort_values cf True True True"

text \<open>\<open>_object_sort\<close>: the keys are the values of a field, all of one ordered type.\<close>

definition sort_field :: "source_position \<Rightarrow> ustr \<Rightarrow> sep_value \<Rightarrow> sep_value result" where
  "sort_field p field v =
     (case v of
        VObj fs ts \<Rightarrow> (case map_of fs field of None \<Rightarrow> Inl (missing_field p) | Some w \<Rightarrow> Inr w)
      | _ \<Rightarrow> Inl (type_error p))"

definition object_sort :: "bool \<Rightarrow> source_position \<Rightarrow> sep_value \<Rightarrow> sep_value \<Rightarrow> sep_value result" where
  "object_sort descending p values field =
     bind_sum (require_list p values) (\<lambda>vs.
     case field of
       VStr name \<Rightarrow>
         if name = [] then Inl (type_error p)
         else bind_sum (map_result (sort_field p name) vs) (\<lambda>keys.
         if list_ex is_empty_state keys then Inl (mk_error 131 ''EMPTY value use'' p)
         else case first_type keys of
           None \<Rightarrow> Inr (VList [])
         | Some t \<Rightarrow>
             if t \<notin> set ORDERED_TYPES then Inl (type_error p)
             else if list_ex (\<lambda>k. value_type_name k \<noteq> t) keys then Inl (type_error p)
             else Inr (VList (map snd (sorted_by (value_key \<circ> fst) descending (zip keys vs)))))
     | _ \<Rightarrow> Inl (type_error p))"

definition sort_by :: "source_position \<Rightarrow> sep_value \<Rightarrow> sep_value \<Rightarrow> sep_value result" where
  "sort_by = object_sort False"

definition sort_by_descending :: "source_position \<Rightarrow> sep_value \<Rightarrow> sep_value \<Rightarrow> sep_value result" where
  "sort_by_descending = object_sort True"

subsection \<open>What sorting gives\<close>

lemma sorted_by_mset [simp]: "mset (sorted_by key d xs) = mset xs"
  by (simp add: sorted_by_def)

lemma sorted_by_stable: "filter (\<lambda>x. key x = k) (sorted_by key d xs) = filter (\<lambda>x. key x = k) xs"
  by (simp add: sorted_by_def sort_key_stable flip: rev_filter)

lemma sorted_by_sorted:
  "sorted_wrt (\<lambda>x y. if d then key y \<le> key x else key x \<le> key y) (sorted_by key d xs)"
  using sorted_sort_key [of key "rev xs"] sorted_sort_key [of key xs]
  by (auto simp: sorted_by_def sorted_wrt_rev sorted_wrt_map)

lemma ordered_list_Inr: "ordered_list p v = Inr (t, vs) \<Longrightarrow> v = VList vs"
  by (cases v) (auto simp: ordered_list_def split: if_splits option.splits)



text \<open>
  \<open>sort_by\<close> and \<open>sort_by_descending\<close> succeed only when every element is an object that has
  the field; they permute the objects, order them by the field, and keep the order of objects
  whose fields are equal.
\<close>

theorem object_sort_correct:
  assumes "object_sort descending p (VList vs) (VStr name) = Inr w"
  shows "\<exists>ws. w = VList ws \<and> mset ws = mset vs \<and> (\<forall>v \<in> set vs. \<exists>x. sort_field p name v = Inr x) \<and>
    (let key = (\<lambda>v. value_key (projr (sort_field p name v))) in
     sorted_wrt (\<lambda>x y. if descending then key y \<le> key x else key x \<le> key y) ws \<and>
     (\<forall>k. filter (\<lambda>x. key x = k) ws = filter (\<lambda>x. key x = k) vs))"
proof -
  obtain keys where k: "map_result (sort_field p name) vs = Inr keys"
    and w: "w = (if keys = [] then VList [] else
      VList (map snd (sorted_by (value_key \<circ> fst) descending (zip keys vs))))"
    using assms
    by (auto simp: object_sort_def first_type_def split: if_splits option.splits list.splits)
  let ?f = "\<lambda>v. projr (sort_field p name v)"
  have keys: "keys = map ?f vs"
    using k by (auto simp: map_result_Inr_iff list_all2_conv_all_nth intro!: nth_equalityI)
  have def_all: "\<exists>x. sort_field p name v = Inr x" if "v \<in> set vs" for v
    using k that by (auto simp: map_result_Inr_iff list_all2_conv_all_nth in_set_conv_nth)
  let ?s = "sorted_by (value_key \<circ> fst) descending (zip keys vs)"
  have fst_snd: "fst x = ?f (snd x)" if "x \<in> set ?s" for x
  proof -
    have "x \<in> set (zip keys vs)" using that by (metis mset_eq_setD sorted_by_mset)
    then show ?thesis by (auto simp: keys set_zip)
  qed
  have ms: "mset (map snd ?s) = mset vs"
    by (simp add: mset_map keys flip: map_fst_zip)  (simp flip: mset_map add: keys)
  have so: "sorted_wrt (\<lambda>x y. if descending then value_key (?f y) \<le> value_key (?f x)
      else value_key (?f x) \<le> value_key (?f y)) (map snd ?s)"
    unfolding sorted_wrt_map
    by (rule sorted_wrt_mono_rel [OF _ sorted_by_sorted [of descending "value_key \<circ> fst"]])
      (auto simp: fst_snd split: if_splits)
  have st: "filter (\<lambda>x. value_key (?f x) = k) (map snd ?s) = filter (\<lambda>x. value_key (?f x) = k) vs" for k
  proof -
    have "filter (\<lambda>x. value_key (?f x) = k) (map snd ?s) =
        map snd (filter (\<lambda>x. (value_key \<circ> fst) x = k) ?s)"
      by (auto simp: filter_map dest: fst_snd intro!: arg_cong [where f = "map snd"] filter_cong)
    also have "\<dots> = map snd (filter (\<lambda>x. (value_key \<circ> fst) x = k) (zip (map ?f vs) vs))"
      by (simp only: sorted_by_stable keys)
    also have "\<dots> = filter (\<lambda>x. value_key (?f x) = k) vs"
      by (induction vs) auto
    finally show ?thesis .
  qed
  show ?thesis
    using w ms so st def_all keys by (cases "vs = []") (auto simp: Let_def)
qed

lemma object_sort_correct_witness:
  "let x = VObj [(U ''n'', VInt 2)] []; y = VObj [(U ''n'', VInt 1)] []
   in \<forall>ws. object_sort False (mk_pos [] 1 1 []) (VList [x, y]) (VStr (U ''n'')) = Inr (VList ws) \<longrightarrow>
        mset ws = {#x, y#}"
proof -
  define x y where "x = VObj [(U ''n'', VInt 2)] []" and "y = VObj [(U ''n'', VInt 1)] []"
  have "object_sort False (mk_pos [] 1 1 []) (VList [x, y]) (VStr (U ''n'')) = Inr (VList [y, x])"
    by (simp add: x_def y_def object_sort_def sort_field_def first_type_def ORDERED_TYPES_def sorted_by_def)
  from object_sort_correct [OF this] this show ?thesis
    by (auto simp: x_def [symmetric] y_def [symmetric] Let_def)
qed

subsection \<open>What searching and \<open>unique\<close> give\<close>

lemma find_last_index_Some:
  "find_last_index v xs = Some i \<longleftrightarrow> i < length xs \<and> py_eq (xs ! i) v \<and> (\<forall>j. i < j \<and> j < length xs \<longrightarrow> \<not> py_eq (xs ! j) v)"
  (is "?l \<longleftrightarrow> ?r")
proof
  assume ?l
  then obtain k where k: "find_index v (rev xs) = Some k" and i: "i = length xs - 1 - k"
    by (auto simp: find_last_index_def)
  then have k': "k < length xs" "py_eq (rev xs ! k) v" "\<forall>j < k. \<not> py_eq (rev xs ! j) v"
    by (auto simp: find_index_Some)
  have "\<not> py_eq (xs ! j) v" if "i < j" "j < length xs" for j
    using k'(3) [rule_format, of "length xs - 1 - j"] that i k'(1) by (simp add: rev_nth)
  with k' i show ?r by (auto simp: rev_nth)
next
  assume r: ?r
  have "find_index v (rev xs) = Some (length xs - 1 - i)"
    unfolding find_index_Some
  proof (intro conjI allI impI)
    fix j assume "j < length xs - 1 - i"
    then have "j < length xs" "i < length xs - Suc j \<and> length xs - Suc j < length xs" by linarith+
    with r show "\<not> py_eq (rev xs ! j) v" by (simp add: rev_nth)
  qed (use r in \<open>auto simp: rev_nth\<close>)
  with r show ?l by (simp add: find_last_index_def)
qed

text \<open>
  On a list and a value of its element type, \<open>index_of\<close> and \<open>last_index_of\<close> give the least and
  the greatest index of an equal element, \<open>contains\<close> says whether there is one, and both searches
  give EMPTY exactly when there is none.
\<close>

theorem searches_agree:
  assumes "list_contains p (VList vs) v = Inr (VBool c)"
  shows "(c \<longrightarrow> (\<exists>i j. list_index_of p (VList vs) v = Inr (VInt (int i)) \<and>
        list_last_index_of p (VList vs) v = Inr (VInt (int j)) \<and> i \<le> j \<and> j < length vs \<and>
        py_eq (vs ! i) v \<and> py_eq (vs ! j) v \<and> (\<forall>k < length vs. py_eq (vs ! k) v \<longrightarrow> i \<le> k \<and> k \<le> j))) \<and>
    (\<not> c \<longrightarrow> (\<forall>x \<in> set vs. \<not> py_eq x v) \<and> list_index_of p (VList vs) v = Inr empty_number \<and>
        list_last_index_of p (VList vs) v = Inr empty_number)"
proof -
  from assms have ok: "compatible_search p vs v = Inr ()" and c: "c \<longleftrightarrow> find_index v vs \<noteq> None"
    by (auto simp: list_contains_def member_of_def)
  show ?thesis
  proof (cases "find_index v vs")
    case None
    then have "find_last_index v vs = None"
      by (simp add: find_last_index_def find_index_None)
    moreover have "\<forall>x \<in> set vs. \<not> py_eq x v" using None by (simp add: find_index_None)
    ultimately show ?thesis
      using None ok c by (simp add: list_index_of_def list_last_index_of_def)
  next
    case (Some i)
    then have "find_index v (rev vs) \<noteq> None"
      by (metis find_index_None option.distinct(1) set_rev)
    then obtain j where j: "find_last_index v vs = Some j"
      by (auto simp: find_last_index_def)
    have i: "i < length vs" "py_eq (vs ! i) v" "\<forall>k < i. \<not> py_eq (vs ! k) v"
      using Some by (simp_all add: find_index_Some)
    have j': "j < length vs" "py_eq (vs ! j) v" "\<forall>k. j < k \<and> k < length vs \<longrightarrow> \<not> py_eq (vs ! k) v"
      using j by (simp_all add: find_last_index_Some)
    have "i \<le> j" "\<forall>k < length vs. py_eq (vs ! k) v \<longrightarrow> i \<le> k \<and> k \<le> j"
      using i j' by (meson not_le)+
    with Some j i j' ok c show ?thesis
      by (auto simp: list_index_of_def list_last_index_of_def)
  qed
qed

lemma searches_agree_witness:
  "\<exists>i j. list_index_of (mk_pos [] 1 1 []) (VList [VInt 1, VInt 2, VInt 1]) (VInt 1) = Inr (VInt (int i)) \<and>
     list_last_index_of (mk_pos [] 1 1 []) (VList [VInt 1, VInt 2, VInt 1]) (VInt 1) = Inr (VInt (int j)) \<and>
     i \<le> j"
  using searches_agree [of "mk_pos [] 1 1 []" "[VInt 1, VInt 2, VInt 1]" "VInt 1" True]
  by (auto simp: list_contains_def compatible_search_def first_type_def member_of_def scalar_eq_def num_eq_def)

lemma unique_values_props:
  assumes "\<forall>i < length seen. \<forall>j < i. \<not> py_eq (seen ! j) (seen ! i)"
  shows "(\<exists>r. unique_values seen vs = seen @ r \<and> subseq r vs) \<and>
    (\<forall>i < length (unique_values seen vs). \<forall>j < i. \<not> py_eq (unique_values seen vs ! j) (unique_values seen vs ! i)) \<and>
    (\<forall>v \<in> set vs. py_eq v v \<longrightarrow> member_of v (unique_values seen vs))"
  using assms
proof (induction seen vs rule: unique_values.induct)
  case (1 seen)
  then show ?case by simp
next
  case (2 seen v vs)
  let ?seen = "if member_of v seen then seen else seen @ [v]"
  have "\<forall>i < length ?seen. \<forall>j < i. \<not> py_eq (?seen ! j) (?seen ! i)"
    using 2(2) by (auto simp: member_of_def find_index_None nth_append less_Suc_eq)
  note IH = 2(1) [OF this]
  from IH obtain r where r: "unique_values ?seen vs = ?seen @ r" "subseq r vs" by blast
  have "\<exists>r'. unique_values seen (v # vs) = seen @ r' \<and> subseq r' (v # vs)"
    using r by (cases "member_of v seen") auto
  moreover have "member_of v (?seen @ r)" if "py_eq v v"
    using that by (auto simp: member_of_def find_index_None)
  ultimately show ?case using IH r by auto
qed

text \<open>
  \<open>unique\<close> keeps a subsequence of the list in which no element equals an earlier one and in
  which every value of the list that equals itself (any but a NaN) is found.
\<close>

theorem unique_correct:
  assumes "list_unique p (VList vs) = Inr w"
  shows "\<exists>ws. w = VList ws \<and> subseq ws vs \<and> (\<forall>i < length ws. \<forall>j < i. \<not> py_eq (ws ! j) (ws ! i)) \<and>
    (\<forall>v \<in> set vs. py_eq v v \<longrightarrow> list_ex (\<lambda>x. py_eq x v) ws)"
  using assms unique_values_props [of "[]" vs]
  by (auto simp: list_unique_def member_of_def find_index_None list_ex_iff)

lemma unique_correct_witness:
  "list_unique (mk_pos [] 1 1 []) (VList [VInt 1, VInt 1]) = Inr (VList [VInt 1]) \<and> subseq [VInt 1] [VInt 1, VInt 1]"
  using unique_correct [of "mk_pos [] 1 1 []" "[VInt 1, VInt 1]" "VList [VInt 1]"]
  by (simp add: list_unique_def member_of_def scalar_eq_def num_eq_def)

end
