(* ===== verification/Numbers.thy ===== *)
theory Numbers
  imports ListOps
begin

section \<open>Numbers: arithmetic, comparison and their text\<close>

text \<open>
  The operators of \<open>interpreter.py\<close> on numbers, integers of any size and floats, and Python's
  text of them. A mixed operation converts its integer to a float first; \<open>None\<close> is the
  \<open>OverflowError\<close> Python raises where there is no finite float, which the interpreter does not
  catch for the operators below \<open>**\<close>. Comparisons are exact, without conversion.
\<close>

subsection \<open>Arithmetic\<close>

definition to_float :: "sep_value \<Rightarrow> b64 option" where
  "to_float v = (case v of VInt i \<Rightarrow> of_int64 i | VFlt x \<Rightarrow> Some x | _ \<Rightarrow> None)"

definition float_op :: "(b64 \<Rightarrow> b64 \<Rightarrow> b64) \<Rightarrow> sep_value \<Rightarrow> sep_value \<Rightarrow> sep_value option" where
  "float_op f a b =
     (case to_float a of None \<Rightarrow> None | Some x \<Rightarrow> (case to_float b of None \<Rightarrow> None | Some y \<Rightarrow> Some (VFlt (f x y))))"

definition number_op ::
  "(int \<Rightarrow> int \<Rightarrow> sep_value option) \<Rightarrow> (b64 \<Rightarrow> b64 \<Rightarrow> b64) \<Rightarrow> sep_value \<Rightarrow> sep_value \<Rightarrow> sep_value option" where
  "number_op f g a b = (case (a, b) of (VInt i, VInt j) \<Rightarrow> f i j | _ \<Rightarrow> float_op g a b)"

definition num_add :: "sep_value \<Rightarrow> sep_value \<Rightarrow> sep_value option" where
  "num_add = number_op (\<lambda>i j. Some (VInt (i + j))) add64"

definition num_sub :: "sep_value \<Rightarrow> sep_value \<Rightarrow> sep_value option" where
  "num_sub = number_op (\<lambda>i j. Some (VInt (i - j))) sub64"

definition num_mul :: "sep_value \<Rightarrow> sep_value \<Rightarrow> sep_value option" where
  "num_mul = number_op (\<lambda>i j. Some (VInt (i * j))) mul64"

definition num_div :: "sep_value \<Rightarrow> sep_value \<Rightarrow> sep_value option" where
  "num_div = number_op (\<lambda>i j. map_option VFlt (int_div64 i j)) div64"

definition num_mod :: "sep_value \<Rightarrow> sep_value \<Rightarrow> sep_value option" where
  "num_mod = number_op (\<lambda>i j. Some (VInt (i mod j))) mod64"

fun num_neg :: "sep_value \<Rightarrow> sep_value" where
  "num_neg (VInt i) = VInt (- i)"
| "num_neg (VFlt x) = VFlt (neg64 x)"
| "num_neg v = v"

fun num_abs :: "sep_value \<Rightarrow> sep_value" where
  "num_abs (VInt i) = VInt \<bar>i\<bar>"
| "num_abs (VFlt x) = VFlt (if sign64 x then neg64 x else x)"
| "num_abs v = v"

definition is_finite_number :: "sep_value \<Rightarrow> bool" where
  "is_finite_number v = (case v of VFlt x \<Rightarrow> is_finite64 x | _ \<Rightarrow> True)"

definition num_less :: "sep_value \<Rightarrow> sep_value \<Rightarrow> bool" where
  "num_less a b = (case (a, b) of (VInt i, VInt j) \<Rightarrow> i < j | (VFlt x, VFlt y) \<Rightarrow> less64 x y
     | (VInt i, VFlt y) \<Rightarrow> cmp_int64 i y = Some (- 1) | (VFlt x, VInt j) \<Rightarrow> cmp_int64 j x = Some 1
     | _ \<Rightarrow> False)"

definition num_less_eq :: "sep_value \<Rightarrow> sep_value \<Rightarrow> bool" where
  "num_less_eq a b \<longleftrightarrow> num_less a b \<or> num_eq a b"

text \<open>
  \<open>_power\<close>: \<open>base ** exponent\<close>. Integers with a non-negative exponent are exact; everything else
  is the C library's \<open>pow\<close> on floats (a parameter, \<open>None\<close> where the result is complex or pow
  reports an error), and a conversion that overflows, a zero base with a negative exponent and a
  result that is not finite are E308.
\<close>

definition power_value ::
  "(b64 \<Rightarrow> b64 \<Rightarrow> b64 option) \<Rightarrow> source_position \<Rightarrow> sep_value \<Rightarrow> sep_value \<Rightarrow> sep_value result" where
  "power_value fpow p base exponent =
     (let domain = Inl (mk_error 308 ''Math domain error'' p);
          floats = (case (to_float base, to_float exponent) of
             (Some x, Some y) \<Rightarrow>
               if is_zero64 x \<and> less64 y (Fin False 0 (-1074)) then domain
               else (case fpow x y of None \<Rightarrow> domain
                     | Some z \<Rightarrow> if is_finite64 z then Inr (VFlt z) else domain)
           | _ \<Rightarrow> domain)
      in case (base, exponent) of
           (VInt i, VInt j) \<Rightarrow> if 0 \<le> j then Inr (VInt (i ^ nat j)) else floats
         | _ \<Rightarrow> floats)"

subsection \<open>The order of numbers\<close>

definition is_nan :: "sep_value \<Rightarrow> bool" where
  "is_nan v \<longleftrightarrow> v = VFlt NaN"

lemma den64_pos [simp]: "0 < den64 e"
  by (simp add: den64_def)

lemma rat64_less: "rat64 s m e < rat64 t n f \<longleftrightarrow> less64 (Fin s m e) (Fin t n f)"
proof -
  have "0 < int (den64 e) * int (den64 f)" by simp
  then show ?thesis
    by (simp add: rat64_def mult_less_cancel_right_pos mult.assoc)
qed

lemma rat64_eq: "rat64 s m e = rat64 t n f \<longleftrightarrow> eq64 (Fin s m e) (Fin t n f)"
  by (simp add: rat64_def eq_rat)

lemma of_int_rat64: "(of_int i :: rat) = rat64 (i < 0) (nat \<bar>i\<bar>) 0"
  by (simp add: rat64_def num64_def den64_def Fract_of_int_eq)

lemma int_rat64:
  "(of_int i :: rat) < rat64 s m e \<longleftrightarrow> i * int (den64 e) < num64 s m e"
  "rat64 s m e < of_int i \<longleftrightarrow> num64 s m e < i * int (den64 e)"
  "(of_int i :: rat) = rat64 s m e \<longleftrightarrow> i * int (den64 e) = num64 s m e"
  "rat64 s m e = of_int i \<longleftrightarrow> i * int (den64 e) = num64 s m e"
  by (auto simp add: rat64_def Fract_of_int_eq [symmetric] eq_rat)

text \<open>
  On numbers other than NaN the comparisons are a total order that agrees with equality,
  whether the numbers are integers, floats or a mixture: they are the comparison of the exact
  values, and the order \<open>sort\<close> uses.
\<close>

theorem number_order:
  assumes "is_number a" and "is_number b" and "\<not> is_nan a" and "\<not> is_nan b"
  shows "(num_less a b \<longleftrightarrow> value_key a < value_key b) \<and> (num_eq a b \<longleftrightarrow> value_key a = value_key b) \<and>
    (num_less a b \<or> num_eq a b \<or> num_less b a) \<and> (py_eq a b \<longleftrightarrow> num_eq a b)"
proof -
  have num: "(\<exists>i. v = VInt i) \<or> (\<exists>s m e. v = VFlt (Fin s m e)) \<or> (\<exists>s. v = VFlt (Infty s))"
    if "is_number v" "\<not> is_nan v" for v
    using that by (cases v; simp add: is_nan_def) (metis b64.exhaust)
  have sgn: "sgn x = - 1 \<longleftrightarrow> x < 0" "sgn x = 1 \<longleftrightarrow> 0 < x" for x :: int
    by (auto simp: sgn_if)
  have less: "num_less a b \<longleftrightarrow> value_key a < value_key b"
    using num [OF assms(1,3)] num [OF assms(2,4)]
    by (auto simp: num_less_def sgn int_rat64 rat64_less simp del: less64.simps(1) split: if_splits)
  have eq: "num_eq a b \<longleftrightarrow> value_key a = value_key b"
    using num [OF assms(1,3)] num [OF assms(2,4)]
    by (auto simp: num_eq_def sgn_0_0 int_rat64 rat64_eq simp del: eq64.simps(1) split: if_splits)
  have less': "num_less b a \<longleftrightarrow> value_key b < value_key a"
    using num [OF assms(1,3)] num [OF assms(2,4)]
    by (auto simp: num_less_def sgn int_rat64 rat64_less simp del: less64.simps(1) split: if_splits)
  have "py_eq a b \<longleftrightarrow> num_eq a b"
    using assms(1,2) by (cases a; cases b) (simp_all add: scalar_eq_def)
  with less eq less' show ?thesis by (metis linorder_less_linear)
qed

lemma number_order_witness:
  "num_less (VInt (2 ^ 53 + 1)) (VFlt (Fin False (2 ^ 52 + 1) 1)) \<longleftrightarrow>
     value_key (VInt (2 ^ 53 + 1)) < value_key (VFlt (Fin False (2 ^ 52 + 1) 1))"
  using number_order [of "VInt (2 ^ 53 + 1)" "VFlt (Fin False (2 ^ 52 + 1) 1)"]
  by (simp add: is_nan_def)

end
