(* ===== verification/Decimals.thy ===== *)
theory Decimals
  imports Numbers
begin

section \<open>The decimal text of numbers\<close>

text \<open>
  What the runtime uses of Python's \<open>repr\<close> of a float (the shortest decimal that reads back as
  the float, the nearest one where there are several) and of \<open>decimal.Decimal\<close> (the digits of
  that text, and arithmetic correctly rounded to 28 significant digits, half to even).
\<close>

subsection \<open>Shortest digits\<close>

fun leading_zeros :: "nat \<Rightarrow> nat \<Rightarrow> nat \<Rightarrow> nat" where
  "leading_zeros 0 n d = 0"
| "leading_zeros (Suc f) n d = (if d \<le> 10 * n then 0 else Suc (leading_zeros f (10 * n) d))"

definition dec_point :: "nat \<Rightarrow> nat \<Rightarrow> int" where
  \<comment> \<open>the \<open>k\<close> with \<open>10^(k-1) <= n/d < 10^k\<close>\<close>
  "dec_point n d =
     (if d \<le> n then int (length (show_nat (n div d))) else - int (leading_zeros d n d))"

definition scaled_num :: "nat \<Rightarrow> int \<Rightarrow> nat" where "scaled_num n e = n * 10 ^ nat e"
definition scaled_den :: "nat \<Rightarrow> int \<Rightarrow> nat" where "scaled_den d e = d * 10 ^ nat (- e)"

text \<open>The \<open>k\<close>-digit decimal that reads back as \<open>n/d\<close> rounded, if there is one.\<close>

definition reads_back :: "b64 \<Rightarrow> nat \<Rightarrow> int \<Rightarrow> bool" where
  "reads_back x q e \<longleftrightarrow> round_ratio False (q * 10 ^ nat (- e)) (10 ^ nat e) = x"

definition try_digits :: "b64 \<Rightarrow> nat \<Rightarrow> nat \<Rightarrow> nat \<Rightarrow> (nat \<times> int) option" where
  "try_digits x n d k =
     (let e = int k - dec_point n d; a = scaled_num n e; b = scaled_den d e; q = a div b; r = a mod b;
          low = reads_back x q e; high = reads_back x (q + 1) e
      in if low \<and> (\<not> high \<or> 2 * r < b \<or> 2 * r = b \<and> even q) then Some (q, e)
         else if high then Some (q + 1, e) else None)"

fun first_digits :: "b64 \<Rightarrow> nat \<Rightarrow> nat \<Rightarrow> nat list \<Rightarrow> (nat \<times> int) option" where
  "first_digits x n d [] = None"
| "first_digits x n d (k # ks) =
     (case try_digits x n d k of Some r \<Rightarrow> Some r | None \<Rightarrow> first_digits x n d ks)"

text \<open>Digits \<open>q\<close> and scale \<open>e\<close>: the value is \<open>q / 10^e\<close>.\<close>

definition shortest_digits :: "nat \<Rightarrow> nat \<Rightarrow> nat \<times> int" where
  "shortest_digits n d =
     (case first_digits (round_ratio False n d) n d [1..<18] of Some r \<Rightarrow> r
      | None \<Rightarrow> (let e = 17 - dec_point n d in (half_even (scaled_num n e) (scaled_den d e), e)))"

fun strip_zeros :: "ustr \<Rightarrow> ustr" where
  "strip_zeros [] = []"
| "strip_zeros (c # cs) = (case strip_zeros cs of [] \<Rightarrow> if c = 48 then [] else [c] | r \<Rightarrow> c # r)"

definition zeros :: "nat \<Rightarrow> ustr" where "zeros n = replicate n 48"

definition two_digits :: "nat \<Rightarrow> ustr" where
  "two_digits n = (if n < 10 then 48 # show_nat n else show_nat n)"

definition repr_digits :: "ustr \<Rightarrow> int \<Rightarrow> ustr" where
  \<comment> \<open>digits without trailing zeros and the position of the point\<close>
  "repr_digits ds pt =
     (if pt \<le> - 4 \<or> 16 < pt then
        (let x = pt - 1 in
         take 1 ds @ (if length ds = 1 then [] else 46 # drop 1 ds) @ U ''e'' @
         (if x < 0 then U ''-'' else U ''+'') @ two_digits (nat \<bar>x\<bar>))
      else if pt \<le> 0 then U ''0.'' @ zeros (nat (- pt)) @ ds
      else if int (length ds) \<le> pt then ds @ zeros (nat pt - length ds) @ U ''.0''
      else take (nat pt) ds @ U ''.'' @ drop (nat pt) ds)"

definition repr64 :: "b64 \<Rightarrow> ustr" where
  "repr64 x =
     (case x of
        NaN \<Rightarrow> U ''nan''
      | Infty s \<Rightarrow> if s then U ''-inf'' else U ''inf''
      | Fin s m e \<Rightarrow>
          (if s then U ''-'' else []) @
          (if m = 0 then U ''0.0''
           else let (q, k) = shortest_digits (m * 2 ^ nat e) (den64 e); t = show_nat q
                in repr_digits (strip_zeros t) (int (length t) - k)))"

definition show_number :: "sep_value \<Rightarrow> ustr" where
  "show_number v = (case v of VInt i \<Rightarrow> show_int i | VFlt x \<Rightarrow> repr64 x | _ \<Rightarrow> [])"

text \<open>The digits found read back as the float.\<close>

lemma first_digits_reads_back:
  "first_digits x n d ks = Some (q, e) \<Longrightarrow> reads_back x q e"
  by (induction x n d ks rule: first_digits.induct)
    (auto simp: try_digits_def Let_def split: option.splits if_splits)

subsection \<open>Decimal numbers\<close>

text \<open>\<open>Decimal(str(v))\<close>: an infinity, a NaN, or a signed fraction \<open>c / 10^e\<close>.\<close>

datatype decimal = DFin bool nat int | DInf bool | DNaN

definition decimal_of :: "sep_value \<Rightarrow> decimal" where
  "decimal_of v =
     (case v of
        VInt i \<Rightarrow> DFin (i < 0) (nat \<bar>i\<bar>) 0
      | VFlt (Fin s m e) \<Rightarrow>
          if m = 0 then DFin s 0 1
          else let (q, k) = shortest_digits (m * 2 ^ nat e) (den64 e) in DFin s q k
      | VFlt (Infty s) \<Rightarrow> DInf s
      | _ \<Rightarrow> DNaN)"

text \<open>A quotient rounded to 28 significant digits: \<open>c / 10^e\<close>.\<close>

definition round28 :: "nat \<Rightarrow> nat \<Rightarrow> nat \<times> int" where
  "round28 n d =
     (if n = 0 then (0, 0)
      else let e = 28 - dec_point n d in (half_even (scaled_num n e) (scaled_den d e), e))"

definition integral_part :: "nat \<times> int \<Rightarrow> nat option" where
  \<comment> \<open>the value if it is a whole number\<close>
  "integral_part r =
     (case r of (c, e) \<Rightarrow> if e \<le> 0 then Some (c * 10 ^ nat (- e))
        else if c mod 10 ^ nat e = 0 then Some (c div 10 ^ nat e) else None)"

text \<open>Division rounded half up, away from zero: \<open>ROUND_HALF_UP\<close>.\<close>

definition half_up :: "nat \<Rightarrow> nat \<Rightarrow> nat" where
  "half_up n d = (2 * n + d) div (2 * d)"

lemma half_up_bounds:
  assumes "0 < d"
  shows "2 * half_up n d * d \<le> 2 * n + d \<and> 2 * n + d < 2 * (half_up n d + 1) * d"
proof -
  define q where "q = (2 * n + d) div (2 * d)"
  define r where "r = (2 * n + d) mod (2 * d)"
  have "2 * n + d = q * (2 * d) + r"
    by (simp only: q_def r_def div_mult_mod_eq)
  moreover have "r < 2 * d"
    using assms by (simp add: r_def)
  moreover have "half_up n d = q" by (simp only: half_up_def q_def)
  ultimately show ?thesis by (simp add: algebra_simps)
qed

end
