(* ===== verification/Temporal.thy ===== *)
theory Temporal
  imports Decimals
begin

section \<open>Dates, times, zones and durations\<close>

text \<open>
  \<open>temporal.py\<close>. An instant (\<open>VDatetime\<close>) and a local time (\<open>VLocal\<close>) are milliseconds since
  1970-01-01T00:00:00, UTC or without zone; every datetime of the language is a whole number of
  milliseconds. The proleptic Gregorian calendar is Python's \<open>datetime\<close>, years 1 to 9999.

  The time zone database is a parameter: whether a name is known, the offset of a zone at an
  instant, and the two offsets (\<open>fold\<close> 0 and 1) it assigns to a local time. So is the value of
  a character that the pattern \<open>\d\<close> accepts, any decimal digit of Unicode.
\<close>

record tz_db =
  zone_known :: "ustr \<Rightarrow> bool"
  offset_at :: "ustr \<Rightarrow> int \<Rightarrow> int"
  offset_of_local :: "ustr \<Rightarrow> bool \<Rightarrow> int \<Rightarrow> int"
  decimal_value :: "uchar \<Rightarrow> nat option"

definition ascii_decimal :: "uchar \<Rightarrow> nat option" where
  "ascii_decimal c = (if is_digit c then Some (c - 48) else None)"

subsection \<open>The calendar\<close>

definition is_leap :: "nat \<Rightarrow> bool" where
  "is_leap y \<longleftrightarrow> y mod 4 = 0 \<and> (y mod 100 \<noteq> 0 \<or> y mod 400 = 0)"

definition days_in_month :: "nat \<Rightarrow> nat \<Rightarrow> nat" where
  "days_in_month y m =
     (if m = 2 then (if is_leap y then 29 else 28) else if m \<in> {4, 6, 9, 11} then 30 else 31)"

definition days_before_year :: "nat \<Rightarrow> nat" where
  "days_before_year y = (let z = y - 1 in z * 365 + z div 4 - z div 100 + z div 400)"

definition days_before_month :: "nat \<Rightarrow> nat \<Rightarrow> nat" where
  "days_before_month y m = sum_list (map (days_in_month y) [1..<m])"

text \<open>The day number of a date, 1 for 0001-01-01, and the date of a day number.\<close>

definition ordinal :: "nat \<Rightarrow> nat \<Rightarrow> nat \<Rightarrow> nat" where
  "ordinal y m d = days_before_year y + days_before_month y m + d"

definition year_of :: "nat \<Rightarrow> nat" where
  \<comment> \<open>the year that has day number \<open>n\<close>\<close>
  "year_of n =
     (let a = n - 1; c4 = a div 146097; a = a mod 146097; c = a div 36524; a = a mod 36524;
          q = a div 1461; a = a mod 1461; z = a div 365
      in if c = 4 \<or> z = 4 then c4 * 400 + c * 100 + q * 4 + z else c4 * 400 + c * 100 + q * 4 + z + 1)"

function month_of :: "nat \<Rightarrow> nat \<Rightarrow> nat \<Rightarrow> nat \<times> nat" where
  \<comment> \<open>the month and day, from a month and a day number of it that may lie beyond its end\<close>
  "month_of y m d = (if 12 \<le> m \<or> d \<le> days_in_month y m then (m, d) else month_of y (Suc m) (d - days_in_month y m))"

  by pat_completeness auto
termination by (relation "measure (\<lambda>(y, m, d). 12 - m)") auto

declare month_of.simps [simp del]

definition date_of :: "nat \<Rightarrow> nat \<times> nat \<times> nat" where
  "date_of n = (let y = year_of n; (m, d) = month_of y 1 (n - days_before_year y) in (y, m, d))"

definition date_ok :: "nat \<Rightarrow> nat \<Rightarrow> nat \<Rightarrow> bool" where
  "date_ok y m d \<longleftrightarrow> 1 \<le> y \<and> y \<le> 9999 \<and> 1 \<le> m \<and> m \<le> 12 \<and> 1 \<le> d \<and> d \<le> days_in_month y m"

definition EPOCH :: nat where "EPOCH = 719163"

definition DAY :: int where "DAY = 86400000"

definition millis_of :: "nat \<Rightarrow> nat \<Rightarrow> nat \<Rightarrow> nat \<Rightarrow> nat \<Rightarrow> nat \<Rightarrow> nat \<Rightarrow> int" where
  "millis_of y m d h mi s ms =
     (int (ordinal y m d) - int EPOCH) * DAY + int (((h * 60 + mi) * 60 + s) * 1000 + ms)"

definition MIN_TIME :: int where "MIN_TIME = - 62135596800000"
definition MAX_TIME :: int where "MAX_TIME = 253402300799999"

definition time_ok :: "int \<Rightarrow> bool" where
  "time_ok t \<longleftrightarrow> MIN_TIME \<le> t \<and> t \<le> MAX_TIME"

text \<open>The date and the clock of an instant.\<close>

definition parts_of :: "int \<Rightarrow> (nat \<times> nat \<times> nat) \<times> (nat \<times> nat \<times> nat \<times> nat)" where
  "parts_of t =
     (let r = nat (t mod DAY)
      in (date_of (nat (t div DAY + int EPOCH)),
          (r div 3600000, r div 60000 mod 60, r div 1000 mod 60, r mod 1000)))"

subsection \<open>Dates and day numbers correspond\<close>

lemma days_before_year_Suc:
  assumes "1 \<le> y"
  shows "days_before_year (Suc y) = days_before_year y + (if is_leap y then 366 else 365)"
proof -
  obtain z where z: "y = Suc z" using assms by (cases y) auto
  have d: "Suc z div k = z div k + of_bool (k dvd Suc z)" if "0 < k" for k
    using that by (simp add: div_Suc dvd_eq_mod_eq_0)
  have leap: "is_leap y \<longleftrightarrow> 4 dvd Suc z \<and> (\<not> 100 dvd Suc z \<or> 400 dvd Suc z)"
    by (simp add: z is_leap_def dvd_eq_mod_eq_0)
  have imp: "100 dvd Suc z \<Longrightarrow> 4 dvd Suc z" "400 dvd Suc z \<Longrightarrow> 100 dvd Suc z"
    by (rule dvd_trans; simp)+
  have le: "z div 100 \<le> z div 4" by (rule div_le_mono2) simp_all
  have gen: "Suc z * 365 + (p + of_bool a) - (q + of_bool b) + (r + of_bool c) =
      z * 365 + p - q + r + (if a \<and> (\<not> b \<or> c) then 366 else 365)"
    if "q \<le> p" "b \<longrightarrow> a" "c \<longrightarrow> b" for p q r :: nat and a b c
    using that by (cases a; cases b; cases c) simp_all
  have "days_before_year (Suc y) = Suc z * 365 + (z div 4 + of_bool (4 dvd Suc z)) -
      (z div 100 + of_bool (100 dvd Suc z)) + (z div 400 + of_bool (400 dvd Suc z))"
    unfolding z days_before_year_def Let_def diff_Suc_1 by (simp only: d zero_less_numeral)
  also have "\<dots> = z * 365 + z div 4 - z div 100 + z div 400 + (if is_leap y then 366 else 365)"
    unfolding leap using imp by (intro gen [OF le]) blast+
  also have "z * 365 + z div 4 - z div 100 + z div 400 = days_before_year y"
    by (simp only: z days_before_year_def Let_def diff_Suc_1)
  finally show ?thesis .
qed

lemma days_before_year_mono: "1 \<le> x \<Longrightarrow> x \<le> y \<Longrightarrow> days_before_year x \<le> days_before_year y"
proof (induction y)
  case (Suc y)
  then show ?case by (cases "x = Suc y") (auto simp: days_before_year_Suc)
qed simp

lemma days_before_year_1 [simp]: "days_before_year (Suc 0) = 0"
  by (simp add: days_before_year_def)

lemma year_unique:
  assumes "1 \<le> x" "days_before_year x < n" "n \<le> days_before_year (Suc x)"
    and "1 \<le> y" "days_before_year y < n" "n \<le> days_before_year (Suc y)"
  shows "x = y"
  using days_before_year_mono [of "Suc x" y] days_before_year_mono [of "Suc y" x] assms
  by (cases x y rule: linorder_cases) auto

lemma year_of_bounds:
  assumes "1 \<le> n"
  shows "1 \<le> year_of n \<and> days_before_year (year_of n) < n \<and> n \<le> days_before_year (Suc (year_of n))"
proof -
  define c4 where "c4 = (n - 1) div 146097"
  define a where "a = (n - 1) mod 146097"
  define c where "c = a div 36524"
  define b where "b = a mod 36524"
  define q where "q = b div 1461"
  define e where "e = b mod 1461"
  define z where "z = e div 365"
  define r where "r = e mod 365"
  have n: "n = Suc (c4 * 146097 + a)" "a = c * 36524 + b" "b = q * 1461 + e" "e = z * 365 + r"
    using assms by (simp_all only: c4_def a_def c_def b_def q_def e_def z_def r_def div_mult_mod_eq)
  have lt: "a < 146097" "b < 36524" "e < 1461" "r < 365"
    by (simp_all add: a_def b_def e_def r_def)
  have y: "year_of n = (if c = 4 \<or> z = 4 then c4 * 400 + c * 100 + q * 4 + z
      else c4 * 400 + c * 100 + q * 4 + z + 1)"
    by (simp add: year_of_def Let_def c4_def a_def c_def b_def q_def e_def z_def)
  have dby: "days_before_year (Suc (c4 * 400 + c * 100 + q * 4 + z)) = c4 * 146097 + c * 36524 + q * 1461 + z * 365"
    if "c \<le> 3" "q \<le> 24" "z \<le> 3" for c4 c q z
  proof -
    let ?x = "c4 * 400 + c * 100 + q * 4 + z"
    have "?x div 4 = c4 * 100 + c * 25 + q" "?x div 100 = c4 * 4 + c" "?x div 400 = c4"
      using that by presburger+
    then show ?thesis by (simp add: days_before_year_def Let_def)
  qed
  have small: "c \<le> 4" "q \<le> 24" "z \<le> 4"
    using n lt by linarith+
  consider "c = 4" | "c \<le> 3" "z = 4" | "c \<le> 3" "z \<le> 3"
    using small by linarith
  then show ?thesis
  proof cases
    case 1
    then have "b = 0" using n lt by linarith
    then have n': "n = c4 * 146097 + 146097" using 1 n by linarith
    have "q = 0" "z = 0" using \<open>b = 0\<close> n by simp_all
    with 1 y have y': "year_of n = Suc (c4 * 400 + 3 * 100 + 24 * 4 + 3)"
      "Suc (year_of n) = Suc ((c4 + 1) * 400 + 0 * 100 + 0 * 4 + 0)"
      by simp_all
    show ?thesis
      unfolding y'(2) dby [OF zero_le zero_le zero_le] unfolding y'(1) by (subst dby) (simp_all add: n')
  next
    case 2
    then have r: "r = 0" using n lt by linarith
    then have q: "q + 1 \<le> 24" using 2 n lt by linarith
    have y': "year_of n = Suc (c4 * 400 + c * 100 + q * 4 + 3)"
      "Suc (year_of n) = Suc (c4 * 400 + c * 100 + (q + 1) * 4 + 0)"
      using 2 y by simp_all
    show ?thesis
      unfolding y'(2) dby [OF 2(1) q zero_le] unfolding y'(1) dby [OF 2(1) small(2) order_refl]
      using 2 n r by simp
  next
    case 3
    then have y': "year_of n = Suc (c4 * 400 + c * 100 + q * 4 + z)" using y by simp
    have "days_before_year (year_of n) = c4 * 146097 + c * 36524 + q * 1461 + z * 365"
      unfolding y' by (rule dby [OF 3(1) small(2) 3(2)])
    moreover have "days_before_year (year_of n) + 365 \<le> days_before_year (Suc (year_of n))"
      by (subst days_before_year_Suc) (simp_all add: y')
    moreover have "1 \<le> year_of n" by (simp add: y')
    ultimately show ?thesis using n lt by linarith
  qed
qed

lemma year_of_eq:
  assumes "1 \<le> y" "days_before_year y < n" "n \<le> days_before_year (Suc y)"
  shows "year_of n = y"
  using year_unique [of "year_of n" n y] year_of_bounds [of n] assms by auto

lemma days_in_month_le: "days_in_month y m \<le> 31" "28 \<le> days_in_month y m"
  by (auto simp: days_in_month_def)

lemma days_before_month_Suc: "1 \<le> m \<Longrightarrow> days_before_month y (Suc m) = days_before_month y m + days_in_month y m"
  by (simp add: days_before_month_def)

lemma days_before_month_1 [simp]: "days_before_month y (Suc 0) = 0"
  by (simp add: days_before_month_def)

lemma days_before_month_mono: "x \<le> m \<Longrightarrow> days_before_month y x \<le> days_before_month y m"
proof (induction m)
  case (Suc m)
  then show ?case
    by (cases "x = Suc m") (auto simp: days_before_month_def intro: order_trans)
qed simp

lemma days_of_year: "days_before_month y 13 = (if is_leap y then 366 else 365)"
proof -
  have "[1..<13] = [1, 2, 3, 4, 5, 6, 7, 8, 9, 10, 11, 12 :: nat]" by (simp add: upt_rec)
  then show ?thesis by (simp add: days_before_month_def days_in_month_def)
qed

lemma month_of_step:
  "k \<le> m \<Longrightarrow> 1 \<le> k \<Longrightarrow> m \<le> 12 \<Longrightarrow> 1 \<le> d \<Longrightarrow> d \<le> days_in_month y m \<Longrightarrow>
   month_of y k (days_before_month y m - days_before_month y k + d) = (m, d)"
proof (induction "m - k" arbitrary: k)
  case 0
  then show ?case by (simp add: month_of.simps)
next
  case (Suc x)
  then have k: "k < m" by simp
  have le: "days_before_month y (Suc k) \<le> days_before_month y m"
    using k by (intro days_before_month_mono) simp
  note s = days_before_month_Suc [OF Suc(4), of y]
  have "month_of y (Suc k) (days_before_month y m - days_before_month y (Suc k) + d) = (m, d)"
    using Suc k by (intro Suc(1)) auto
  moreover have "days_before_month y m - days_before_month y (Suc k) + d =
      days_before_month y m - days_before_month y k + d - days_in_month y k"
    using s le by simp
  ultimately show ?case
    using Suc(5,6) k s le by (subst month_of.simps) auto
qed

lemma date_of_ordinal:
  assumes "date_ok y m d"
  shows "date_of (ordinal y m d) = (y, m, d)"
proof -
  have y: "1 \<le> y" and m: "1 \<le> m" "m \<le> 12" and d: "1 \<le> d" "d \<le> days_in_month y m"
    using assms by (auto simp: date_ok_def)
  have "days_before_month y m + days_in_month y m \<le> days_before_month y 13"
    using days_before_month_mono [of "Suc m" 13 y] days_before_month_Suc [OF m(1), of y] m by simp
  then have "days_before_month y m + d \<le> (if is_leap y then 366 else 365)"
    using d unfolding days_of_year by linarith
  then have "year_of (ordinal y m d) = y"
    using y d by (intro year_of_eq) (auto simp: ordinal_def days_before_year_Suc)
  moreover have "month_of y 1 (days_before_month y m + d) = (m, d)"
    using month_of_step [of 1 m d y] m d by simp
  ultimately show ?thesis
    by (simp add: date_of_def Let_def ordinal_def)
qed

subsection \<open>Text patterns\<close>

text \<open>Exactly \<open>k\<close> characters that \<open>\d\<close> accepts, with their values.\<close>

fun take_digits :: "tz_db \<Rightarrow> nat \<Rightarrow> ustr \<Rightarrow> (nat list \<times> ustr) option" where
  "take_digits db 0 s = Some ([], s)"
| "take_digits db (Suc k) [] = None"
| "take_digits db (Suc k) (c # s) =
     (case decimal_value db c of None \<Rightarrow> None
      | Some v \<Rightarrow> map_option (\<lambda>(vs, r). (v # vs, r)) (take_digits db k s))"

definition number_of :: "nat list \<Rightarrow> nat" where
  "number_of vs = foldl (\<lambda>n v. n * 10 + v) 0 vs"

definition match_number :: "tz_db \<Rightarrow> nat \<Rightarrow> ustr \<Rightarrow> (nat \<times> ustr) option" where
  "match_number db k s = map_option (\<lambda>(vs, r). (number_of vs, r)) (take_digits db k s)"

definition match_char :: "uchar \<Rightarrow> ustr \<Rightarrow> ustr option" where
  "match_char c s = (case s of [] \<Rightarrow> None | x # r \<Rightarrow> if x = c then Some r else None)"

text \<open>\<open>(?:\.(\d{1,3}))?\<close>, as milliseconds.\<close>

definition match_fraction :: "tz_db \<Rightarrow> ustr \<Rightarrow> nat \<times> ustr" where
  "match_fraction db s =
     (case s of [] \<Rightarrow> (0, [])
      | c # r \<Rightarrow>
          let ds = takeWhile (\<lambda>x. decimal_value db x \<noteq> None) (take 3 r) in
          if c \<noteq> 46 \<or> ds = [] then (0, s)
          else (number_of (map (the \<circ> decimal_value db) ds) * 10 ^ (3 - length ds), drop (length ds) r))"

record clock_text =
  ct_date :: "nat \<times> nat \<times> nat"
  ct_time :: "nat \<times> nat \<times> nat"
  ct_millis :: nat

definition match_local :: "tz_db \<Rightarrow> ustr \<Rightarrow> (clock_text \<times> ustr) option" where
  "match_local db s =
     Option.bind (match_number db 4 s) (\<lambda>(y, s). Option.bind (match_char 45 s) (\<lambda>s.
     Option.bind (match_number db 2 s) (\<lambda>(mo, s). Option.bind (match_char 45 s) (\<lambda>s.
     Option.bind (match_number db 2 s) (\<lambda>(d, s). Option.bind (match_char 84 s) (\<lambda>s.
     Option.bind (match_number db 2 s) (\<lambda>(h, s). Option.bind (match_char 58 s) (\<lambda>s.
     Option.bind (match_number db 2 s) (\<lambda>(mi, s). Option.bind (match_char 58 s) (\<lambda>s.
     Option.bind (match_number db 2 s) (\<lambda>(sec, s).
     let (ms, s) = match_fraction db s in
     Some (\<lparr>ct_date = (y, mo, d), ct_time = (h, mi, sec), ct_millis = ms\<rparr>, s))))))))))))"

definition match_offset :: "tz_db \<Rightarrow> ustr \<Rightarrow> (bool \<times> nat \<times> nat) option" where
  "match_offset db s =
     (case s of [] \<Rightarrow> None
      | c # r \<Rightarrow>
          if c \<noteq> 43 \<and> c \<noteq> 45 then None
          else Option.bind (match_number db 2 r) (\<lambda>(h, r). Option.bind (match_char 58 r) (\<lambda>r.
               Option.bind (match_number db 2 r) (\<lambda>(mi, r).
               if r = [] then Some (c = 45, h, mi) else None))))"

text \<open>\<open>LOCAL_PATTERN\<close> and \<open>DATETIME_PATTERN\<close>; the text after the clock is \<open>Z\<close> or an offset.\<close>

definition local_pattern :: "tz_db \<Rightarrow> ustr \<Rightarrow> clock_text option" where
  "local_pattern db s = (case match_local db s of Some (c, []) \<Rightarrow> Some c | _ \<Rightarrow> None)"

definition datetime_pattern :: "tz_db \<Rightarrow> ustr \<Rightarrow> (clock_text \<times> ustr) option" where
  "datetime_pattern db s =
     (case match_local db s of None \<Rightarrow> None
      | Some (c, r) \<Rightarrow> if r = U ''Z'' \<or> match_offset db r \<noteq> None then Some (c, r) else None)"

subsection \<open>Parsing\<close>

definition calendar :: "source_position \<Rightarrow> nat \<Rightarrow> string \<Rightarrow> clock_text \<Rightarrow> int result" where
  "calendar p code category c =
     (case (ct_date c, ct_time c) of ((y, mo, d), (h, mi, s)) \<Rightarrow>
        if date_ok y mo d \<and> h \<le> 23 \<and> mi \<le> 59 \<and> s \<le> 59 then Inr (millis_of y mo d h mi s (ct_millis c))
        else Inl (mk_error code category p))"

definition parse_timezone :: "tz_db \<Rightarrow> source_position \<Rightarrow> ustr \<Rightarrow> timezone result" where
  "parse_timezone db p s =
     (if s = U ''UTC'' then Inr Zone_UTC
      else case match_offset db s of
        Some (neg, h, mi) \<Rightarrow>
          if 59 < mi \<or> 14 < h \<or> h = 14 \<and> mi \<noteq> 0 \<or> s = U ''-00:00''
          then Inl (mk_error 403 ''Invalid timezone'' p)
          else (let span = int (h * 60 + mi) * (if neg then - 1 else 1)
                in Inr (if span = 0 then Zone_UTC else Zone_Fixed s (span * 60000)))
      | None \<Rightarrow> if zone_known db s then Inr (Zone_Named s) else Inl (mk_error 403 ''Unknown timezone'' p))"

definition local_offset :: "tz_db \<Rightarrow> timezone \<Rightarrow> bool \<Rightarrow> int \<Rightarrow> int" where
  "local_offset db z late t = (case z of Zone_UTC \<Rightarrow> 0 | Zone_Fixed _ m \<Rightarrow> m | Zone_Named n \<Rightarrow> offset_of_local db n late t)"

definition instant_offset :: "tz_db \<Rightarrow> timezone \<Rightarrow> int \<Rightarrow> int" where
  "instant_offset db z t = (case z of Zone_UTC \<Rightarrow> 0 | Zone_Fixed _ m \<Rightarrow> m | Zone_Named n \<Rightarrow> offset_at db n t)"

definition parse_datetime :: "tz_db \<Rightarrow> source_position \<Rightarrow> ustr \<Rightarrow> sep_value result" where
  "parse_datetime db p s =
     (case datetime_pattern db s of
        None \<Rightarrow> Inl (if local_pattern db s \<noteq> None then mk_error 402 ''Missing timezone'' p
                    else mk_error 401 ''Invalid datetime text'' p)
      | Some (c, zone) \<Rightarrow>
          bind_sum (calendar p 401 ''Invalid datetime text'' c) (\<lambda>t.
          bind_sum (parse_timezone db p (if zone = U ''Z'' then U ''UTC'' else zone)) (\<lambda>z.
          let instant = t - local_offset db z False t in
          if time_ok instant then Inr (VDatetime instant z) else Inl (mk_error 401 ''Datetime overflow'' p))))"

definition parse_local_datetime :: "tz_db \<Rightarrow> source_position \<Rightarrow> ustr \<Rightarrow> sep_value result" where
  "parse_local_datetime db p s =
     (case local_pattern db s of
        None \<Rightarrow> Inl (if datetime_pattern db s \<noteq> None then mk_error 402 ''Forbidden timezone'' p
                    else mk_error 404 ''Invalid local datetime text'' p)
      | Some c \<Rightarrow> bind_sum (calendar p 404 ''Invalid local datetime text'' c) (\<lambda>t. Inr (VLocal t)))"

text \<open>Durations: components \<open>(\d+)(ms|d|h|m|s)\<close> in the order d, h, m, s, ms.\<close>

definition match_unit :: "ustr \<Rightarrow> (nat \<times> int \<times> ustr) option" where
  \<comment> \<open>the order and the factor of a unit, and the rest\<close>
  "match_unit s =
     (if starts_with s (U ''ms'') then Some (4, 1, drop 2 s)
      else case s of [] \<Rightarrow> None
      | c # r \<Rightarrow> if c = 100 then Some (0, 86400000, r) else if c = 104 then Some (1, 3600000, r)
                 else if c = 109 then Some (2, 60000, r) else if c = 115 then Some (3, 1000, r) else None)"

definition match_component :: "tz_db \<Rightarrow> ustr \<Rightarrow> (nat \<times> nat \<times> int \<times> ustr) option" where
  "match_component db s =
     (let ds = takeWhile (\<lambda>c. decimal_value db c \<noteq> None) s
      in if ds = [] then None
         else map_option (\<lambda>(rank, factor, r). (number_of (map (the \<circ> decimal_value db) ds), rank, factor, r))
                (match_unit (drop (length ds) s)))"

fun duration_parts :: "tz_db \<Rightarrow> nat \<Rightarrow> nat \<Rightarrow> int \<Rightarrow> ustr \<Rightarrow> int \<times> ustr" where
  \<comment> \<open>at most five components: the ranks rise\<close>
  "duration_parts db 0 lowest acc s = (acc, s)"
| "duration_parts db (Suc n) lowest acc s =
     (case match_component db s of
        None \<Rightarrow> (acc, s)
      | Some (amount, rank, factor, r) \<Rightarrow>
          if rank < lowest then (acc, s)
          else duration_parts db n (Suc rank) (acc + int amount * factor) r)"

definition MIN_MILLIS :: int where "MIN_MILLIS = - (2 ^ 63)"
definition MAX_MILLIS :: int where "MAX_MILLIS = 2 ^ 63 - 1"

definition duration_result :: "source_position \<Rightarrow> int \<Rightarrow> sep_value result" where
  "duration_result p ms =
     (if MIN_MILLIS \<le> ms \<and> ms \<le> MAX_MILLIS then Inr (VDuration ms) else Inl (mk_error 407 ''Duration overflow'' p))"

definition parse_duration :: "tz_db \<Rightarrow> source_position \<Rightarrow> ustr \<Rightarrow> sep_value result" where
  "parse_duration db p s =
     (let neg = starts_with s (U ''-''); body = (if neg then drop 1 s else s);
          (acc, r) = duration_parts db 6 0 0 body
      in if body = [] \<or> r \<noteq> [] then Inl (mk_error 407 ''Invalid duration text'' p)
         else duration_result p (if neg then - acc else acc))"

subsection \<open>Conversions\<close>

definition datetime_from_local :: "tz_db \<Rightarrow> source_position \<Rightarrow> sep_value \<Rightarrow> sep_value \<Rightarrow> sep_value result" where
  "datetime_from_local db p local zone =
     (case (local, zone) of
        (VLocal t, VZone z) \<Rightarrow>
          let candidate = (\<lambda>late.
                let i = t - local_offset db z late t; back = i + instant_offset db z i in
                if time_ok i \<and> time_ok back then Inr (if back = t then [i] else [])
                else Inl (mk_error 401 ''Datetime overflow'' p))
          in bind_sum (candidate False) (\<lambda>a. bind_sum (candidate True) (\<lambda>b.
             case remdups (a @ b) of
               [] \<Rightarrow> Inl (mk_error 406 ''Nonexistent local datetime'' p)
             | [i] \<Rightarrow> Inr (VDatetime i z)
             | _ \<Rightarrow> Inl (mk_error 405 ''Ambiguous local datetime'' p)))
      | _ \<Rightarrow> Inl (type_error p))"

definition from_unix_milliseconds :: "source_position \<Rightarrow> sep_value \<Rightarrow> sep_value \<Rightarrow> sep_value result" where
  "from_unix_milliseconds p ms zone =
     (case (ms, zone) of
        (VInt t, VZone z) \<Rightarrow> if time_ok t then Inr (VDatetime t z) else Inl (mk_error 401 ''Datetime overflow'' p)
      | _ \<Rightarrow> Inl (type_error p))"

text \<open>
  \<open>duration_scaled\<close>: exact decimal arithmetic to 28 digits; \<open>Inr None\<close> is the \<open>OverflowError\<close>
  of \<open>int(Infinity)\<close>, which nothing catches.
\<close>

definition duration_scaled ::
  "source_position \<Rightarrow> int \<Rightarrow> sep_value \<Rightarrow> bool \<Rightarrow> sep_value option result" where
  "duration_scaled p ms number dividing =
     (if \<not> is_number number then Inl (type_error p)
      else if dividing \<and> num_eq number (VInt 0) then Inl (mk_error 301 ''Division by zero'' p)
      else case decimal_of number of
        DNaN \<Rightarrow> Inl (mk_error 409 ''Temporal precision loss'' p)
      | DInf s \<Rightarrow>
          if dividing then Inr (Some (VDuration 0))
          else if ms = 0 then Inl (mk_error 409 ''Temporal precision loss'' p) else Inr None
      | DFin s q k \<Rightarrow>
          let a = nat \<bar>ms\<bar>;
              r = (if dividing then round28 (a * 10 ^ nat k) (q * 10 ^ nat (- k))
                   else round28 (a * q * 10 ^ nat (- k)) (10 ^ nat k))
          in case integral_part r of
               None \<Rightarrow> Inl (mk_error 409 ''Temporal precision loss'' p)
             | Some w \<Rightarrow>
                 bind_sum (duration_result p (if (ms < 0) \<noteq> s then - int w else int w)) (\<lambda>v. Inr (Some v)))"

subsection \<open>Text\<close>

definition pad :: "nat \<Rightarrow> nat \<Rightarrow> ustr" where
  "pad w n = zeros (w - length (show_nat n)) @ show_nat n"

definition format_clock :: "int \<Rightarrow> ustr" where
  "format_clock t =
     (case parts_of t of ((y, mo, d), (h, mi, s, ms)) \<Rightarrow>
        pad 4 y @ U ''-'' @ pad 2 mo @ U ''-'' @ pad 2 d @ U ''T'' @ pad 2 h @ U '':'' @ pad 2 mi @
        U '':'' @ pad 2 s @ (if ms = 0 then [] else U ''.'' @ pad 3 ms))"

definition format_local :: "int \<Rightarrow> ustr" where
  "format_local t = format_clock t"

definition format_datetime :: "tz_db \<Rightarrow> int \<Rightarrow> timezone \<Rightarrow> ustr" where
  "format_datetime db t z =
     (let offset = instant_offset db z t;
          minutes = offset div 60000; m = nat \<bar>minutes\<bar>
      in format_clock (t + offset) @
         (if offset = 0 then U ''Z''
          else (if 0 \<le> minutes then U ''+'' else U ''-'') @ pad 2 (m div 60) @ U '':'' @ pad 2 (m mod 60)))"

fun duration_text :: "(nat \<times> string) list \<Rightarrow> nat \<Rightarrow> ustr" where
  "duration_text [] remaining = []"
| "duration_text ((factor, unit) # us) remaining =
     (if remaining div factor = 0 then [] else show_nat (remaining div factor) @ U unit) @
     duration_text us (remaining mod factor)"

definition DURATION_UNITS :: "(nat \<times> string) list" where
  "DURATION_UNITS = [(86400000, ''d''), (3600000, ''h''), (60000, ''m''), (1000, ''s''), (1, ''ms'')]"

definition format_duration :: "int \<Rightarrow> ustr" where
  "format_duration ms =
     (if ms = 0 then U ''0ms''
      else (if ms < 0 then U ''-'' else []) @ duration_text DURATION_UNITS (nat \<bar>ms\<bar>))"

subsection \<open>Day numbers correspond to dates\<close>

lemma month_of_bounds:
  "1 \<le> k \<Longrightarrow> k \<le> 12 \<Longrightarrow> 1 \<le> d \<Longrightarrow> days_before_month y k + d \<le> days_before_month y 13 \<Longrightarrow>
   month_of y k d = (m, e) \<Longrightarrow>
   k \<le> m \<and> m \<le> 12 \<and> 1 \<le> e \<and> e \<le> days_in_month y m \<and> days_before_month y k + d = days_before_month y m + e"
proof (induction y k d rule: month_of.induct)
  case (1 y k d)
  show ?case
  proof (cases "12 \<le> k \<or> d \<le> days_in_month y k")
    case True
    then have "m = k" "e = d" using 1(6) by (auto simp: month_of.simps)
    moreover have "d \<le> days_in_month y k"
      using True 1(3,5) days_before_month_Suc [of 12 y] by auto
    ultimately show ?thesis using 1(2-5) by auto
  next
    case False
    then have step: "month_of y (Suc k) (d - days_in_month y k) = (m, e)"
      using 1(6) by (simp add: month_of.simps)
    have "Suc k \<le> m \<and> m \<le> 12 \<and> 1 \<le> e \<and> e \<le> days_in_month y m \<and>
        days_before_month y (Suc k) + (d - days_in_month y k) = days_before_month y m + e"
      using 1(1) [OF False _ _ _ _ step] 1(2,5) False days_before_month_Suc [OF 1(2), of y] by auto
    then show ?thesis
      using False days_before_month_Suc [OF 1(2), of y] by auto
  qed
qed

lemma date_of_bounds:
  assumes "1 \<le> n" and "n \<le> 3652059" and "date_of n = (y, m, d)"
  shows "date_ok y m d \<and> ordinal y m d = n"
proof -
  have y: "y = year_of n" and md: "month_of y 1 (n - days_before_year y) = (m, d)"
    using assms(3) by (auto simp: date_of_def Let_def split: prod.splits)
  note b = year_of_bounds [OF assms(1), folded y]
  have "y \<le> 9999"
  proof (rule ccontr)
    assume "\<not> y \<le> 9999"
    then have "days_before_year 10000 \<le> days_before_year y"
      by (intro days_before_year_mono) simp_all
    then show False using b assms(2) by (simp add: days_before_year_def)
  qed
  moreover have "n - days_before_year y \<le> days_before_month y 13"
    using b days_before_year_Suc [of y] by (auto simp: days_of_year)
  moreover have pos: "1 \<le> n - days_before_year y" using b by linarith
  ultimately have "1 \<le> m \<and> m \<le> 12 \<and> 1 \<le> d \<and> d \<le> days_in_month y m \<and>
      days_before_month y 1 + (n - days_before_year y) = days_before_month y m + d"
    using md by (intro month_of_bounds) simp_all
  note c = this
  then have "days_before_year y + days_before_month y m + d = n" using b by simp linarith
  with b c \<open>y \<le> 9999\<close> show ?thesis
    by (simp add: date_ok_def ordinal_def)
qed

lemma date_time_split:
  assumes "time_ok t" and "parts_of t = ((y, mo, d), (h, mi, s, ms))"
  shows "date_ok y mo d \<and> h \<le> 23 \<and> mi \<le> 59 \<and> s \<le> 59 \<and> ms \<le> 999 \<and> millis_of y mo d h mi s ms = t"
proof -
  let ?n = "nat (t div DAY + int EPOCH)"
  let ?r = "nat (t mod DAY)"
  have t: "t = t div DAY * DAY + t mod DAY" "0 \<le> t mod DAY" "t mod DAY < DAY"
    by (simp_all add: DAY_def)
  have n: "1 \<le> ?n" "?n \<le> 3652059" "int ?n = t div DAY + int EPOCH"
    using assms(1) by (auto simp: time_ok_def MIN_TIME_def MAX_TIME_def DAY_def EPOCH_def)
  have parts: "date_of ?n = (y, mo, d)" "h = ?r div 3600000" "mi = ?r div 60000 mod 60"
    "s = ?r div 1000 mod 60" "ms = ?r mod 1000"
    using assms(2) by (auto simp: parts_of_def Let_def)
  have r: "int ?r = t mod DAY" "?r < 86400000"
    using t by (simp_all add: DAY_def nat_less_iff)
  have split: "((a div 3600000 * 60 + a div 60000 mod 60) * 60 + a div 1000 mod 60) * 1000 + a mod 1000 = a" for a :: nat
  proof -
    have "a div 60000 = a div 1000 div 60" "a div 3600000 = a div 1000 div 60 div 60"
      by (simp_all add: div_mult2_eq [symmetric])
    moreover have "x div 60 * 60 + x mod 60 = x" for x :: nat by simp
    ultimately show ?thesis by simp
  qed
  have "millis_of y mo d h mi s ms = (int ?n - int EPOCH) * DAY + int ?r"
    unfolding millis_of_def parts(2-5) split using date_of_bounds [OF n(1,2) parts(1)] by simp
  then have "millis_of y mo d h mi s ms = t"
    using n(3) r(1) t(1) by simp
  moreover have "h \<le> 23"
    using r(2) less_mult_imp_div_less [of ?r 24 3600000] by (simp add: parts(2))
  moreover have "mi \<le> 59" "s \<le> 59" "ms \<le> 999"
    unfolding parts(3-5) using mod_less_divisor [of 60 "?r div 60000"]
      mod_less_divisor [of 60 "?r div 1000"] mod_less_divisor [of 1000 ?r] by linarith+
  ultimately show ?thesis
    using date_of_bounds [OF n(1,2) parts(1)] by blast
qed

subsection \<open>Text read back\<close>

text \<open>What is used of \<open>\d\<close>: on ASCII characters it is the ten digits.\<close>

definition ascii_digits :: "tz_db \<Rightarrow> bool" where
  "ascii_digits db \<longleftrightarrow> (\<forall>c < 128. decimal_value db c = ascii_decimal c)"

lemma ascii_digitsD: "ascii_digits db \<Longrightarrow> c < 128 \<Longrightarrow> decimal_value db c = ascii_decimal c"
  by (simp add: ascii_digits_def)

definition digit_values :: "ustr \<Rightarrow> nat list" where
  "digit_values s = map (\<lambda>c. c - 48) s"

lemma number_of_snoc [simp]: "number_of (vs @ [v]) = number_of vs * 10 + v"
  by (simp add: number_of_def)

lemma number_of_show_nat [simp]: "number_of (digit_values (show_nat n)) = n"
proof (induction n rule: show_nat.induct)
  case (1 n)
  then show ?case
    by (cases "n < 10") (simp_all add: show_nat.simps [of n] digit_values_def number_of_def)
qed

lemma number_of_zeros [simp]: "number_of (digit_values (zeros k @ s)) = number_of (digit_values s)"
  by (induction k) (simp_all add: zeros_def digit_values_def number_of_def)

lemma take_digits_text:
  assumes "ascii_digits db" and "list_all is_digit t"
  shows "take_digits db (length t) (t @ r) = Some (digit_values t, r)"
  using assms(2)
  by (induction t) (simp_all add: ascii_digitsD [OF assms(1)] is_digit_def ascii_decimal_def digit_values_def)

lemma length_show_nat: "1 \<le> k \<Longrightarrow> n < 10 ^ k \<Longrightarrow> length (show_nat n) \<le> k"
proof (induction n arbitrary: k rule: show_nat.induct)
  case (1 n)
  show ?case
  proof (cases "n < 10")
    case False
    then obtain j where k: "k = Suc j" "1 \<le> j"
      using 1(2,3) by (cases k; cases "k - 1") auto
    have "length (show_nat (n div 10)) \<le> j"
      using 1(1) [OF False k(2)] 1(3) k(1) by (simp add: less_mult_imp_div_less mult.commute)
    then show ?thesis using False k by (simp add: show_nat.simps [of n])
  qed (use 1(2) in \<open>simp add: show_nat.simps [of n]\<close>)
qed

lemma pad_digits: "list_all is_digit (pad k n)" "list_all is_digit (zeros j @ show_nat n)"
proof -
  have "list_all is_digit (zeros j)" for j by (simp add: zeros_def list_all_iff is_digit_def)
  then show "list_all is_digit (pad k n)" "list_all is_digit (zeros j @ show_nat n)"
    by (simp_all add: pad_def show_nat_digits)
qed

lemma match_number_pad:
  assumes "ascii_digits db" and "1 \<le> k" and "n < 10 ^ k"
  shows "match_number db k (pad k n @ r) = Some (n, r)"
proof -
  let ?t = "zeros (k - length (show_nat n)) @ show_nat n"
  have "list_all is_digit ?t"
    by (rule pad_digits)
  moreover have "length ?t = k"
    using length_show_nat [OF assms(2,3)] by (simp add: zeros_def)
  ultimately have "take_digits db k (?t @ r) = Some (digit_values ?t, r)"
    using take_digits_text [OF assms(1), of ?t r] by simp
  then show ?thesis by (simp add: match_number_def pad_def)
qed

lemma match_char_hit [simp]: "match_char c (c # r) = Some r"
  by (simp add: match_char_def)

lemma match_fraction_pad:
  assumes "ascii_digits db" and "ms < 1000" and "\<And>c r'. r = c # r' \<Longrightarrow> decimal_value db c = None \<and> c \<noteq> 46"
  shows "match_fraction db ((if ms = 0 then [] else U ''.'' @ pad 3 ms) @ r) = (ms, r)"
proof (cases "ms = 0")
  case True
  then show ?thesis using assms(3) by (cases r) (auto simp: match_fraction_def Let_def)
next
  case False
  let ?t = "pad 3 ms"
  have len: "length ?t = 3"
    using length_show_nat [of 3 ms] assms(2) by (simp add: pad_def zeros_def)
  have dig: "list_all is_digit ?t"
    by (rule pad_digits)
  have val: "decimal_value db c = Some (c - 48)" if "c \<in> set ?t" for c
    using dig that by (auto simp: list_all_iff ascii_digitsD [OF assms(1)] is_digit_def ascii_decimal_def)
  obtain a b c where t: "?t = [a, b, c]"
    using len by (auto simp: numeral_3_eq_3 length_Suc_conv)
  have "number_of (digit_values ?t) = ms" by (simp add: pad_def)
  then have "number_of [a - 48, b - 48, c - 48] = ms" by (simp add: t digit_values_def)
  then show ?thesis
    using False val by (simp add: match_fraction_def U.simps t)
qed

lemma match_local_format:
  assumes db: "ascii_digits db" and t: "time_ok t"
    and r: "\<And>c r'. r = c # r' \<Longrightarrow> decimal_value db c = None \<and> c \<noteq> 46"
  shows "\<exists>c. match_local db (format_clock t @ r) = Some (c, r) \<and>
    (\<forall>p code cat. calendar p code cat c = Inr t)"
proof -
  obtain y mo d h mi s ms where p: "parts_of t = ((y, mo, d), (h, mi, s, ms))"
    by (metis prod.exhaust)
  note ok = date_time_split [OF t p]
  have lt: "y < 10000" "mo < 100" "d < 100" "h < 100" "mi < 100" "s < 100" "ms < 1000"
    using ok days_in_month_le(1) [of y mo] by (auto simp: date_ok_def)
  note m = match_number_pad [OF db]
  have f: "format_clock t @ r = pad 4 y @ 45 # pad 2 mo @ 45 # pad 2 d @ 84 # pad 2 h @ 58 # pad 2 mi @ 58 #
      pad 2 s @ (if ms = 0 then [] else U ''.'' @ pad 3 ms) @ r"
    by (simp add: format_clock_def p U.simps)
  have "match_local db (format_clock t @ r) =
      Some (\<lparr>ct_date = (y, mo, d), ct_time = (h, mi, s), ct_millis = ms\<rparr>, r)"
    unfolding f match_local_def
    by (simp add: m lt match_fraction_pad [OF db lt(7) r] del: append_assoc)
  with ok show ?thesis by (simp add: calendar_def)
qed

text \<open>
  C33. The text of a UTC datetime and of a local datetime reads back as the same instant: for every
  instant of the years 1 to 9999, to the millisecond, parsing what the formatter prints gives the
  value printed.
\<close>

theorem datetime_roundtrip:
  assumes "ascii_digits db" and "time_ok t"
  shows "parse_datetime db p (format_datetime db t Zone_UTC) = Inr (VDatetime t Zone_UTC) \<and>
    parse_local_datetime db p (format_local t) = Inr (VLocal t)"
proof -
  have z: "decimal_value db 90 = None"
    using assms(1) by (simp add: ascii_digits_def ascii_decimal_def is_digit_def)
  obtain c where c: "match_local db (format_clock t @ U ''Z'') = Some (c, U ''Z'')"
    "\<And>p code cat. calendar p code cat c = Inr t"
    using match_local_format [OF assms, of "U ''Z''"] z by (auto simp: U.simps)
  obtain c' where c': "match_local db (format_clock t @ []) = Some (c', [])"
    "\<And>p code cat. calendar p code cat c' = Inr t"
    using match_local_format [OF assms, of "[]"] by auto
  show ?thesis
    using c c' assms(2)
    by (simp add: parse_datetime_def format_datetime_def instant_offset_def datetime_pattern_def
        parse_timezone_def local_offset_def parse_local_datetime_def format_local_def local_pattern_def
        Let_def)
qed

definition ascii_db :: tz_db where
  "ascii_db = \<lparr>zone_known = (\<lambda>_. False), offset_at = (\<lambda>_ _. 0), offset_of_local = (\<lambda>_ _ _. 0),
     decimal_value = ascii_decimal\<rparr>"

lemma ascii_db [simp]: "ascii_digits ascii_db"
  by (simp add: ascii_digits_def ascii_db_def)

lemma datetime_roundtrip_witness:
  "parse_local_datetime ascii_db (mk_pos [] 1 1 []) (format_local 951782400123) = Inr (VLocal 951782400123)"
  using datetime_roundtrip [OF ascii_db, of 951782400123 "mk_pos [] 1 1 []"]
  by (simp add: time_ok_def MIN_TIME_def MAX_TIME_def)

lemma match_component_text:
  assumes db: "ascii_digits db" and u: "match_unit (U unit @ r) = Some (rank, factor, r)"
  shows "match_component db (show_nat n @ U unit @ r) = Some (n, rank, factor, r)"
proof -
  have val: "decimal_value db c = Some (c - 48)" if "c \<in> set (show_nat n)" for c
    using show_nat_digits [of n] that
    by (auto simp: list_all_iff ascii_digitsD [OF db] is_digit_def ascii_decimal_def)
  have "decimal_value db (hd (U unit @ r)) = None \<and> U unit @ r \<noteq> []"
    using u ascii_digitsD [OF db]
    by (cases "U unit @ r")
      (auto simp: match_unit_def ascii_decimal_def is_digit_def U.simps split: if_splits)
  then have "takeWhile (\<lambda>c. decimal_value db c \<noteq> None) (show_nat n @ U unit @ r) = show_nat n"
    using val by (cases "U unit @ r") (auto simp: takeWhile_append2)
  moreover have "map (the \<circ> decimal_value db) (show_nat n) = digit_values (show_nat n)"
    using val by (simp add: digit_values_def)
  ultimately show ?thesis
    using u by (simp add: match_component_def Let_def del: append_assoc) 
qed

lemma duration_text_starts: "duration_text us n = [] \<or> is_digit (hd (duration_text us n))"
proof (induction us n rule: duration_text.induct)
  case (2 factor unit us n)
  have "is_digit (hd (show_nat k))" for k
    using show_nat_digits [of k] show_nat_nonempty [of k] by (cases "show_nat k") simp_all
  with 2 show ?case by simp
qed simp

text \<open>The units \<open>us\<close> read back every amount below \<open>bound\<close>.\<close>

definition parses_units :: "tz_db \<Rightarrow> nat \<Rightarrow> nat \<Rightarrow> (nat \<times> string) list \<Rightarrow> nat \<Rightarrow> bool" where
  "parses_units db k rank us bound \<longleftrightarrow> (\<forall>n \<ge> k. \<forall>low \<le> rank. \<forall>acc. \<forall>m < bound.
     duration_parts db n low acc (duration_text us m) = (acc + int m, []))"

lemma parses_units_Nil: "parses_units db 0 rank [] 1"
proof -
  have "duration_parts db n low acc [] = (acc, [])" for n low acc
    by (cases n) (simp_all add: match_component_def)
  then show ?thesis by (simp add: parses_units_def)
qed

lemma parses_units_Cons:
  assumes "ascii_digits db" and "parses_units db k (Suc rank) us factor" and "0 < factor"
    and "\<And>r. r = [] \<or> is_digit (hd r) \<Longrightarrow> match_unit (U unit @ r) = Some (rank, int factor, r)"
  shows "parses_units db (Suc k) rank ((factor, unit) # us) bound"
  unfolding parses_units_def
proof (intro allI impI)
  fix n low m :: nat and acc :: int
  assume n: "Suc k \<le> n" and low: "low \<le> rank"
  have IH: "duration_parts db n' low' acc' (duration_text us (m mod factor)) = (acc' + int (m mod factor), [])"
    if "k \<le> n'" "low' \<le> Suc rank" for n' low' acc'
    using assms(2,3) that by (simp add: parses_units_def)
  show "duration_parts db n low acc (duration_text ((factor, unit) # us) m) = (acc + int m, [])"
  proof (cases "m div factor = 0")
    case True
    then have "m mod factor = m" using assms(3) by (simp add: div_eq_0_iff)
    with True IH [of n low acc] n low show ?thesis by simp
  next
    case False
    obtain n' where n': "n = Suc n'" "k \<le> n'" using n by (cases n) auto
    have "int m = int (m div factor) * int factor + int (m mod factor)"
      by (metis div_mult_mod_eq of_nat_add of_nat_mult)
    then show ?thesis
      using False n' low IH [OF n'(2) order_refl, of "acc + int (m div factor) * int factor"]
        match_component_text [OF assms(1) assms(4) [OF duration_text_starts]]
      by simp
  qed
qed

lemma parses_duration_units:
  assumes "ascii_digits db"
  shows "parses_units db 5 0 DURATION_UNITS bound"
proof -
  have "parses_units db (Suc (Suc (Suc (Suc (Suc 0))))) 0 DURATION_UNITS bound"
    unfolding DURATION_UNITS_def
    by (intro parses_units_Cons [OF assms] parses_units_Nil)
      (auto simp: match_unit_def U.simps is_digit_def, (case_tac r; auto simp: is_digit_def)+)
  then show ?thesis by (simp add: eval_nat_numeral)
qed

text \<open>
  The text of a duration reads back as the duration: for every signed 64-bit number of
  milliseconds, the units the formatter prints are accepted, in order, and sum to it.
\<close>

theorem duration_roundtrip:
  assumes "ascii_digits db" and "MIN_MILLIS \<le> ms" and "ms \<le> MAX_MILLIS"
  shows "parse_duration db p (format_duration ms) = Inr (VDuration ms)"
proof -
  let ?m = "nat \<bar>ms\<bar>" and ?t = "duration_text DURATION_UNITS (nat \<bar>ms\<bar>)"
  have parts: "duration_parts db 6 0 0 ?t = (int ?m, [])"
    using parses_duration_units [OF assms(1), of "Suc ?m"] by (simp add: parses_units_def)
  then have t: "?t \<noteq> []" if "ms \<noteq> 0"
    using that by (auto simp: eval_nat_numeral match_component_def)
  have minus: "\<not> starts_with ?t (U ''-'')"
    using duration_text_starts [of DURATION_UNITS ?m]
    by (cases ?t) (auto simp: U.simps is_digit_def)
  show ?thesis
  proof (cases "ms = 0")
    case True
    have "match_component db (show_nat 0 @ U ''ms'' @ []) = Some (0, 4, 1, [])"
      by (rule match_component_text [OF assms(1)]) (simp add: match_unit_def U.simps)
    then have "match_component db (U ''0ms'') = Some (0, 4, 1, [])"
      by (simp add: show_nat.simps [of 0] U.simps)
    then show ?thesis
      using True by (simp add: parse_duration_def format_duration_def duration_result_def eval_nat_numeral
          match_component_def U.simps MIN_MILLIS_def MAX_MILLIS_def)
  next
    case False
    then show ?thesis
      using parts t minus assms(2,3)
      by (auto simp: parse_duration_def format_duration_def duration_result_def Let_def U.simps)
  qed
qed

lemma duration_roundtrip_witness:
  "parse_duration ascii_db (mk_pos [] 1 1 []) (format_duration (- 90061001)) = Inr (VDuration (- 90061001))"
  by (rule duration_roundtrip) (simp_all add: MIN_MILLIS_def MAX_MILLIS_def)

end
