(* ===== verification/Display.thy ===== *)
theory Display
  imports Temporal
begin

section \<open>The host and the text of values\<close>

text \<open>
  What the runtime takes from its surroundings: the time zone database, Python's Unicode tables
  and the functions of its \<open>math\<close> and \<open>statistics\<close> modules (\<open>None\<close> where Python raises or the
  result is complex), the sum of a list with floats, and the text of the components of host handles.
\<close>

record host =
  h_tz :: tz_db
  h_casefold :: "ustr \<Rightarrow> ustr"
  h_upper :: "ustr \<Rightarrow> ustr"
  h_lower :: "ustr \<Rightarrow> ustr"
  h_is_alpha :: "uchar \<Rightarrow> bool"
  h_libm :: "ustr \<Rightarrow> sep_value \<Rightarrow> sep_value option"
  h_pow :: "b64 \<Rightarrow> b64 \<Rightarrow> b64 option"
  h_libm2 :: "ustr \<Rightarrow> sep_value \<Rightarrow> sep_value \<Rightarrow> sep_value option"
  h_statistics :: "ustr \<Rightarrow> sep_value list \<Rightarrow> sep_value option"
  h_float_sum :: "sep_value list \<Rightarrow> sep_value option"
  h_display :: "host_kind \<Rightarrow> nat \<Rightarrow> ustr"

text \<open>The handles whose text never depends on what they hold.\<close>

definition fixed_text :: "host_kind \<Rightarrow> ustr option" where
  "fixed_text k =
     (case k of H_system \<Rightarrow> Some (U ''system:[READONLY]'') | H_pin_namespace \<Rightarrow> Some (U ''pin:[READONLY]'')
      | H_secret \<Rightarrow> Some (U ''[REDACTED]'') | H_http_auth \<Rightarrow> Some (U ''http_auth:[REDACTED]'')
      | H_oauth_token \<Rightarrow> Some (U ''oauth_token:[REDACTED]'') | H_cookie_jar \<Rightarrow> Some (U ''cookie_jar:[REDACTED]'')
      | _ \<Rightarrow> None)"

definition hex_digit :: "nat \<Rightarrow> uchar" where
  "hex_digit n = (if n < 10 then 48 + n else 87 + n)"

definition hex_byte :: "nat \<Rightarrow> ustr" where
  "hex_byte b = [hex_digit (b div 16), hex_digit (b mod 16)]"

fun display :: "host \<Rightarrow> sep_value \<Rightarrow> ustr" where
  "display h (VInt i) = show_int i"
| "display h (VFlt x) = repr64 x"
| "display h (VStr s) = s"
| "display h (VBool b) = (if b then U ''true'' else U ''false'')"
| "display h (VList vs) = U ''['' @ join_with (U '', '') (map (display h) vs) @ U '']''"
| "display h (VObj fs ts) =
     U ''object:'' @ join_with (U '', '') (map (\<lambda>(k, v). k @ U ''='' @ display h v) fs)"
| "display h (VBytes bs) = U ''0x'' @ concat (map hex_byte bs)"
| "display h (VEmpty d e x) = U ''EMPTY''"
| "display h VEmptys = U ''EMPTYS''"
| "display h VVoid = U ''VOID''"
| "display h (VErr c m) = c @ U '': '' @ m"
| "display h (VLogic r n) = U ''<logic:'' @ n @ U ''>''"
| "display h (VNamespace r ns) = U ''namespace''"
| "display h (VDatetime t z) = format_datetime (h_tz h) t z"
| "display h (VLocal t) = format_local t"
| "display h (VZone z) = zone_name z"
| "display h (VDuration ms) = format_duration ms"
| "display h (VHost k n) = (case fixed_text k of Some t \<Rightarrow> t | None \<Rightarrow> h_display h k n)"

text \<open>\<open>_display_value\<close>: what \<open>print\<close> writes.\<close>

definition display_value :: "host \<Rightarrow> source_position \<Rightarrow> sep_value \<Rightarrow> ustr result" where
  "display_value h p v =
     (case v of VEmptys \<Rightarrow> Inl (mk_error 133 ''EMPTYS value use'' p)
      | VEmpty _ _ _ \<Rightarrow> Inl (mk_error 131 ''EMPTY value use'' p)
      | VVoid \<Rightarrow> Inl (mk_error 127 ''VOID value use'' p)
      | _ \<Rightarrow> Inr (display h v))"

text \<open>A value with every secret replaced by another one.\<close>

fun scrub :: "nat \<Rightarrow> sep_value \<Rightarrow> sep_value" where
  "scrub n (VList vs) = VList (map (scrub n) vs)"
| "scrub n (VObj fs ts) = VObj (map (\<lambda>(k, v). (k, scrub n v)) fs) ts"
| "scrub n (VHost k h) = VHost k (if k \<in> {H_secret, H_http_auth, H_oauth_token} then n else h)"
| "scrub n v = v"

lemma display_scrub: "display h (scrub n v) = display h v"
  by (induction n v rule: scrub.induct)
    (auto simp: fixed_text_def split: host_kind.splits intro!: arg_cong [where f = "join_with _"])

text \<open>
  C34. What is printed of a value does not depend on the secrets in it: replacing every secret,
  authentication and token handle, at any depth of lists and objects, leaves the text and the
  errors of \<open>_display_value\<close> unchanged.
\<close>

theorem secrets_not_displayed:
  "display h (scrub n v) = display h v \<and> display_value h p (scrub n v) = display_value h p v"
  using display_scrub [of h n v] by (cases v) (simp_all add: display_value_def)

end
