(* ===== verification/TextOps.thy ===== *)
theory TextOps
  imports Display
begin

section \<open>Text\<close>

text \<open>
  The string and conversion functions of \<open>builtins.py\<close>: each takes the position of the call and
  its arguments. Python's \<open>str.find\<close>, \<open>str.split\<close>, \<open>str.replace\<close>, \<open>str.count\<close> and the UTF-8 codec
  are written out.
\<close>

definition MAX_TEXT_LENGTH :: nat where "MAX_TEXT_LENGTH = 1048576"

subsection \<open>Python's string methods\<close>

fun find_sub :: "ustr \<Rightarrow> ustr \<Rightarrow> nat option" where
  "find_sub t s =
     (if starts_with s t then Some 0
      else case s of [] \<Rightarrow> None | c # r \<Rightarrow> map_option Suc (find_sub t r))"

declare find_sub.simps [simp del]

definition rfind_sub :: "ustr \<Rightarrow> ustr \<Rightarrow> nat option" where
  "rfind_sub t s = map_option (\<lambda>i. length s - length t - i) (find_sub (rev t) (rev s))"

lemma find_sub_Some:
  "find_sub t s = Some i \<longleftrightarrow> i + length t \<le> length s \<and> starts_with (drop i s) t \<and> (\<forall>j < i. \<not> starts_with (drop j s) t)"
proof (induction s arbitrary: i)
  case Nil
  show ?case by (cases t) (auto simp: find_sub.simps [of _ "[]"])
next
  case (Cons c s)
  have len: "starts_with (drop i s) t \<Longrightarrow> i \<le> length s \<Longrightarrow> i + length t \<le> length s" for i s
    by (auto simp: starts_with_iff dest: arg_cong [where f = length])
  show ?case
  proof (cases "starts_with (c # s) t")
    case True
    then have "length t \<le> Suc (length s)" by (auto simp: starts_with_iff dest: arg_cong [where f = length])
    with True show ?thesis by (cases i) (auto simp: find_sub.simps [of _ "c # s"])
  next
    case False
    have all: "(\<forall>j < Suc k. \<not> starts_with (drop j (c # s)) t) \<longleftrightarrow>
        \<not> starts_with (c # s) t \<and> (\<forall>j < k. \<not> starts_with (drop j s) t)" for k
      by (auto simp: drop_Cons split: nat.splits)
    show ?thesis
      using False by (cases i) (auto simp: find_sub.simps [of _ "c # s"] Cons.IH all)
  qed
qed

lemma find_sub_None: "find_sub t s = None \<longleftrightarrow> (\<forall>i \<le> length s. \<not> starts_with (drop i s) t)"
proof (induction s)
  case Nil
  show ?case by (cases t) (auto simp: find_sub.simps [of _ "[]"])
next
  case (Cons c s)
  have "(\<forall>i \<le> Suc (length s). \<not> starts_with (drop i (c # s)) t) \<longleftrightarrow>
      \<not> starts_with (c # s) t \<and> (\<forall>i \<le> length s. \<not> starts_with (drop i s) t)"
    by (auto simp: drop_Cons less_eq_nat.simps split: nat.splits)
  with Cons.IH show ?case by (auto simp: find_sub.simps [of _ "c # s"])
qed

lemma find_sub_split:
  assumes "find_sub t s = Some i"
  shows "s = take i s @ t @ drop (i + length t) s"
proof -
  obtain r where r: "drop i s = t @ r"
    using assms by (auto simp: find_sub_Some starts_with_iff)
  then have "drop (i + length t) s = r" by (metis add.commute append_eq_conv_conj drop_drop)
  with r show ?thesis by (metis append_take_drop_id)
qed

function split_text :: "ustr \<Rightarrow> ustr \<Rightarrow> ustr list" where
  "split_text t s =
     (if t = [] then [s]
      else case find_sub t s of None \<Rightarrow> [s] | Some i \<Rightarrow> take i s # split_text t (drop (i + length t) s))"
  by pat_completeness auto
termination
proof (relation "measure (\<lambda>(t, s). length s)")
  fix t s :: ustr and i
  assume "t \<noteq> []" "find_sub t s = Some i"
  then show "((t, drop (i + length t) s), t, s) \<in> measure (\<lambda>(t, s). length s)"
    by (cases t) (auto simp: find_sub_Some)
qed simp

declare split_text.simps [simp del]

lemma split_text_nonempty [simp]: "split_text t s \<noteq> []"
  by (simp add: split_text.simps [of t s] split: option.split)

definition replace_text :: "ustr \<Rightarrow> ustr \<Rightarrow> ustr \<Rightarrow> ustr" where
  "replace_text old new s = join_with new (split_text old s)"

text \<open>The starts of the matches, left to right and not overlapping.\<close>

function find_every :: "ustr \<Rightarrow> nat \<Rightarrow> ustr \<Rightarrow> nat list" where
  "find_every t k s =
     (if t = [] then []
      else case find_sub t s of None \<Rightarrow> []
      | Some i \<Rightarrow> (k + i) # find_every t (k + i + length t) (drop (i + length t) s))"
  by pat_completeness auto
termination
proof (relation "measure (\<lambda>(t, k, s). length s)")
  fix t s :: ustr and k i :: nat
  assume "t \<noteq> []" "find_sub t s = Some i"
  then show "((t, k + i + length t, drop (i + length t) s), t, k, s) \<in> measure (\<lambda>(t, k, s). length s)"
    by (cases t) (auto simp: find_sub_Some)
qed simp

declare find_every.simps [simp del]

subsection \<open>UTF-8\<close>

definition utf8_char :: "uchar \<Rightarrow> nat list" where
  "utf8_char c =
     (if c < 128 then [c]
      else if c < 2048 then [192 + c div 64, 128 + c mod 64]
      else if c < 65536 then [224 + c div 4096, 128 + c div 64 mod 64, 128 + c mod 64]
      else [240 + c div 262144, 128 + c div 4096 mod 64, 128 + c div 64 mod 64, 128 + c mod 64])"

definition utf8_encode :: "ustr \<Rightarrow> nat list" where
  "utf8_encode s = concat (map utf8_char s)"

definition continuation :: "nat \<Rightarrow> bool" where
  "continuation b \<longleftrightarrow> 128 \<le> b \<and> b < 192"

definition scalar_value :: "uchar \<Rightarrow> bool" where
  "scalar_value c \<longleftrightarrow> c < 55296 \<or> 57344 \<le> c \<and> c < 1114112"

text \<open>One character from the front of a byte string, if a well-formed one stands there.\<close>

fun utf8_next :: "nat list \<Rightarrow> (uchar \<times> nat list) option" where
  "utf8_next [] = None"
| "utf8_next (a # r) =
     (if a < 128 then Some (a, r)
      else if a < 194 \<or> 245 \<le> a then None
      else if a < 224 then
        (case r of b # r' \<Rightarrow> if continuation b then Some ((a - 192) * 64 + (b - 128), r') else None | _ \<Rightarrow> None)
      else if a < 240 then
        (case r of b # c # r' \<Rightarrow>
           (let v = (a - 224) * 4096 + (b - 128) * 64 + (c - 128)
            in if continuation b \<and> continuation c \<and> 2048 \<le> v \<and> scalar_value v then Some (v, r') else None)
         | _ \<Rightarrow> None)
      else
        (case r of b # c # d # r' \<Rightarrow>
           (let v = (a - 240) * 262144 + (b - 128) * 4096 + (c - 128) * 64 + (d - 128)
            in if continuation b \<and> continuation c \<and> continuation d \<and> 65536 \<le> v \<and> v < 1114112
               then Some (v, r') else None)
         | _ \<Rightarrow> None))"

lemma utf8_next_shorter: "utf8_next bs = Some (c, r) \<Longrightarrow> length r < length bs"
  by (cases bs) (auto simp: Let_def split: if_splits list.splits)

function utf8_decode :: "nat list \<Rightarrow> ustr option" where
  "utf8_decode bs =
     (if bs = [] then Some []
      else case utf8_next bs of None \<Rightarrow> None | Some (c, r) \<Rightarrow> map_option ((#) c) (utf8_decode r))"
  by pat_completeness auto
termination by (relation "measure length") (auto dest: utf8_next_shorter)

declare utf8_decode.simps [simp del]

text \<open>\<open>errors="ignore"\<close>: bytes where no character stands are dropped.\<close>

function utf8_decode_ignore :: "nat list \<Rightarrow> ustr" where
  "utf8_decode_ignore bs =
     (if bs = [] then []
      else case utf8_next bs of None \<Rightarrow> utf8_decode_ignore (tl bs) | Some (c, r) \<Rightarrow> c # utf8_decode_ignore r)"
  by pat_completeness auto
termination by (relation "measure length") (auto dest: utf8_next_shorter)

declare utf8_decode_ignore.simps [simp del]

lemma utf8_next_char:
  assumes "scalar_value c"
  shows "utf8_next (utf8_char c @ r) = Some (c, r)"
proof -
  consider "c < 128" | "128 \<le> c" "c < 2048" | "2048 \<le> c" "c < 65536" | "65536 \<le> c" "c < 1114112"
    using assms unfolding scalar_value_def by linarith
  then show ?thesis
  proof cases
    case 2
    then have "2 \<le> c div 64" "c div 64 < 32" "c mod 64 < 64"
      using div_le_mono [of 128 c 64] by (auto simp: less_mult_imp_div_less)
    with 2 show ?thesis by (simp add: utf8_char_def continuation_def)
  next
    case 3
    have d: "c div 4096 = c div 64 div 64" by (simp add: div_mult2_eq [symmetric])
    have "c div 4096 * 4096 + c div 64 mod 64 * 64 + c mod 64 = c"
      unfolding d using div_mult_mod_eq [of "c div 64" 64] div_mult_mod_eq [of c 64] by linarith
    moreover have "c div 4096 < 16" "c mod 64 < 64" "c div 64 mod 64 < 64"
      using 3 by (auto simp: less_mult_imp_div_less)
    ultimately show ?thesis
      using 3 assms by (simp add: utf8_char_def continuation_def Let_def)
  next
    case 4
    have d: "c div 4096 = c div 64 div 64" "c div 262144 = c div 64 div 64 div 64"
      by (simp_all add: div_mult2_eq [symmetric])
    have "c div 262144 * 262144 + c div 4096 mod 64 * 4096 + c div 64 mod 64 * 64 + c mod 64 = c"
      unfolding d using div_mult_mod_eq [of "c div 64 div 64" 64] div_mult_mod_eq [of "c div 64" 64]
        div_mult_mod_eq [of c 64] by linarith
    moreover have "c div 262144 < 5" "c mod 64 < 64" "c div 64 mod 64 < 64" "c div 4096 mod 64 < 64"
      using 4 by (auto simp: less_mult_imp_div_less)
    ultimately show ?thesis
      using 4 by (simp add: utf8_char_def continuation_def Let_def)
  qed (simp add: utf8_char_def)
qed

lemma utf8_char_nonempty [simp]: "utf8_char c \<noteq> []"
  by (simp add: utf8_char_def)

lemma utf8_decode_encode: "list_all scalar_value s \<Longrightarrow> utf8_decode (utf8_encode s) = Some s"
proof (induction s)
  case Nil
  show ?case by (simp add: utf8_encode_def utf8_decode.simps)
next
  case (Cons c s)
  then have "utf8_next (utf8_encode (c # s)) = Some (c, utf8_encode s)"
    by (simp add: utf8_encode_def utf8_next_char)
  moreover have "utf8_encode (c # s) \<noteq> []" by (simp add: utf8_encode_def)
  ultimately show ?case using Cons by (simp add: utf8_decode.simps [of "utf8_encode (c # s)"])
qed

subsection \<open>Functions on text\<close>

fun require_text :: "source_position \<Rightarrow> sep_value \<Rightarrow> ustr result" where
  "require_text p (VStr s) = Inr s"
| "require_text p _ = Inl (type_error p)"

definition require_texts :: "source_position \<Rightarrow> sep_value \<Rightarrow> sep_value \<Rightarrow> (ustr \<times> ustr) result" where
  "require_texts p a b = bind_sum (require_text p a) (\<lambda>s. bind_sum (require_text p b) (\<lambda>t. Inr (s, t)))"

definition empty_search :: "source_position \<Rightarrow> sep_error" where
  "empty_search p = mk_error 305 ''Empty search string'' p"

lemma require_text_Inr [simp]: "require_text p v = Inr s \<longleftrightarrow> v = VStr s"
  by (cases v) auto

definition text_len :: "source_position \<Rightarrow> sep_value \<Rightarrow> sep_value result" where
  "text_len p v =
     (case v of VBytes b \<Rightarrow> Inr (VInt (int (length b))) | VStr s \<Rightarrow> Inr (VInt (int (length s)))
      | VList vs \<Rightarrow> Inr (VInt (int (length vs))) | _ \<Rightarrow> Inl (type_error p))"

definition text_is_empty :: "source_position \<Rightarrow> sep_value \<Rightarrow> sep_value result" where
  "text_is_empty p v =
     (case v of VBytes b \<Rightarrow> Inr (VBool (b = [])) | VStr s \<Rightarrow> Inr (VBool (s = []))
      | VList vs \<Rightarrow> Inr (VBool (vs = [])) | _ \<Rightarrow> Inl (type_error p))"

definition value_is_type :: "string \<Rightarrow> sep_value \<Rightarrow> sep_value result" where
  "value_is_type expected v = Inr (VBool (value_type_name v = U expected))"

definition text_reverse :: "source_position \<Rightarrow> sep_value \<Rightarrow> sep_value result" where
  "text_reverse p v = (case v of VStr s \<Rightarrow> Inr (VStr (rev s)) | _ \<Rightarrow> list_reverse p v)"

definition char_at :: "source_position \<Rightarrow> sep_value \<Rightarrow> sep_value \<Rightarrow> sep_value result" where
  "char_at p v index =
     bind_sum (require_text p v) (\<lambda>s. bind_sum (require_index p index) (\<lambda>i.
     if length s \<le> i then Inl (mk_error 302 ''Index out of range'' p) else Inr (VStr [s ! i])))"

definition clip_utf8 :: "source_position \<Rightarrow> sep_value \<Rightarrow> sep_value \<Rightarrow> sep_value result" where
  "clip_utf8 p v maximum =
     bind_sum (require_text p v) (\<lambda>s. bind_sum (require_index p maximum) (\<lambda>n.
     let encoded = utf8_encode s in
     Inr (VStr (if length encoded \<le> n then s else utf8_decode_ignore (take n encoded)))))"

definition text_find_all :: "source_position \<Rightarrow> sep_value \<Rightarrow> sep_value \<Rightarrow> sep_value result" where
  "text_find_all p v search =
     bind_sum (require_texts p v search) (\<lambda>(s, t).
     if t = [] then Inl (empty_search p) else Inr (VList (map (VInt \<circ> int) (find_every t 0 s))))"

definition text_trim :: "source_position \<Rightarrow> sep_value \<Rightarrow> sep_value result" where
  "text_trim p v = bind_sum (require_text p v) (\<lambda>s. Inr (VStr (rstrip (lstrip s))))"

definition text_upper :: "host \<Rightarrow> source_position \<Rightarrow> sep_value \<Rightarrow> sep_value result" where
  "text_upper h p v = bind_sum (require_text p v) (\<lambda>s. Inr (VStr (h_upper h s)))"

definition text_lower :: "host \<Rightarrow> source_position \<Rightarrow> sep_value \<Rightarrow> sep_value result" where
  "text_lower h p v = bind_sum (require_text p v) (\<lambda>s. Inr (VStr (h_lower h s)))"

definition text_contains :: "source_position \<Rightarrow> sep_value \<Rightarrow> sep_value \<Rightarrow> sep_value result" where
  "text_contains p v search =
     (case v of VList _ \<Rightarrow> list_contains p v search
      | _ \<Rightarrow> bind_sum (require_texts p v search) (\<lambda>(s, t). Inr (VBool (find_sub t s \<noteq> None))))"

definition text_starts_with :: "source_position \<Rightarrow> sep_value \<Rightarrow> sep_value \<Rightarrow> sep_value result" where
  "text_starts_with p v w = bind_sum (require_texts p v w) (\<lambda>(s, t). Inr (VBool (starts_with s t)))"

definition text_ends_with :: "source_position \<Rightarrow> sep_value \<Rightarrow> sep_value \<Rightarrow> sep_value result" where
  "text_ends_with p v w = bind_sum (require_texts p v w) (\<lambda>(s, t). Inr (VBool (ends_with s t)))"

definition text_split :: "source_position \<Rightarrow> sep_value \<Rightarrow> sep_value \<Rightarrow> sep_value result" where
  "text_split p v delimiter =
     bind_sum (require_texts p v delimiter) (\<lambda>(s, t).
     if t = [] then Inl (mk_error 305 ''Empty delimiter'' p) else Inr (VList (map VStr (split_text t s))))"

definition text_join :: "source_position \<Rightarrow> sep_value \<Rightarrow> sep_value \<Rightarrow> sep_value result" where
  "text_join p values separator =
     bind_sum (require_list p values) (\<lambda>vs. bind_sum (require_text p separator) (\<lambda>t.
     bind_sum (map_result (require_text p) vs) (\<lambda>parts. Inr (VStr (join_with t parts)))))"

definition text_replace :: "source_position \<Rightarrow> sep_value \<Rightarrow> sep_value \<Rightarrow> sep_value \<Rightarrow> sep_value result" where
  "text_replace p v old new =
     bind_sum (require_texts p v old) (\<lambda>(s, t). bind_sum (require_text p new) (\<lambda>u.
     if t = [] then Inl (empty_search p) else Inr (VStr (replace_text t u s))))"

definition text_substring :: "source_position \<Rightarrow> sep_value \<Rightarrow> sep_value list \<Rightarrow> sep_value result" where
  "text_substring p v indexes =
     bind_sum (require_text p v) (\<lambda>s. bind_sum (map_result (require_index p) indexes) (\<lambda>is.
     let i = hd is; j = (if length is = 2 then is ! 1 else length s) in
     if j < i \<or> length s < j then Inl (mk_error 306 ''Invalid string range'' p)
     else Inr (VStr (drop i (take j s)))))"

definition text_compare :: "(ustr \<Rightarrow> ustr) \<Rightarrow> source_position \<Rightarrow> sep_value \<Rightarrow> sep_value \<Rightarrow> sep_value result" where
  "text_compare fold_case p v w =
     bind_sum (require_texts p v w) (\<lambda>(a, b).
     let s = fold_case a; t = fold_case b in Inr (VInt (if s < t then - 1 else if t < s then 1 else 0)))"

definition search_part :: "bool \<Rightarrow> source_position \<Rightarrow> sep_value \<Rightarrow> sep_value \<Rightarrow> sep_value result" where
  "search_part after p v search =
     bind_sum (require_texts p v search) (\<lambda>(s, t).
     if t = [] then Inl (empty_search p)
     else case find_sub t s of
         None \<Rightarrow> Inr (VEmpty (Some (U ''string'')) None False)
       | Some i \<Rightarrow> Inr (VStr (if after then drop (i + length t) s else take i s)))"

definition count_occurrences :: "source_position \<Rightarrow> sep_value \<Rightarrow> sep_value \<Rightarrow> sep_value result" where
  "count_occurrences p v search =
     bind_sum (require_texts p v search) (\<lambda>(s, t).
     if t = [] then Inl (empty_search p) else Inr (VInt (int (length (find_every t 0 s)))))"

text \<open>\<open>format\<close>: the template is read left to right; the result is the text or the category of the
  error.\<close>

fun format_fill :: "host \<Rightarrow> ustr \<Rightarrow> sep_value list \<Rightarrow> string + ustr" where
  "format_fill h [] vs = (if vs = [] then Inr [] else Inl ''Format argument mismatch'')"
| "format_fill h (c # s) vs =
     (case s of
        d # s' \<Rightarrow>
          if (c = 123 \<or> c = 125) \<and> d = c then bind_sum (format_fill h s' vs) (\<lambda>t. Inr (c # t))
          else if c = 123 \<and> d = 125 then
            (case vs of [] \<Rightarrow> Inl ''Format argument mismatch''
             | v # vs' \<Rightarrow> bind_sum (format_fill h s' vs') (\<lambda>t. Inr (display h v @ t)))
          else if c = 123 \<or> c = 125 then Inl ''Invalid format template''
          else bind_sum (format_fill h s vs) (\<lambda>t. Inr (c # t))
      | [] \<Rightarrow> if c = 123 \<or> c = 125 then Inl ''Invalid format template''
              else bind_sum (format_fill h s vs) (\<lambda>t. Inr (c # t)))"

definition text_format :: "host \<Rightarrow> source_position \<Rightarrow> sep_value \<Rightarrow> sep_value list \<Rightarrow> sep_value result" where
  "text_format h p template values =
     bind_sum (require_text p template) (\<lambda>s.
     case format_fill h s values of
       Inl category \<Rightarrow> Inl (mk_error 307 category p)
     | Inr t \<Rightarrow> if MAX_TEXT_LENGTH < length t then Inl (mk_error 607 ''Text size limit'' p) else Inr (VStr t))"

definition text_index_of :: "source_position \<Rightarrow> sep_value \<Rightarrow> sep_value \<Rightarrow> sep_value result" where
  "text_index_of p v search =
     (case v of VList _ \<Rightarrow> list_index_of p v search
      | _ \<Rightarrow> bind_sum (require_texts p v search) (\<lambda>(s, t).
          if t = [] then Inl (empty_search p)
          else Inr (case find_sub t s of None \<Rightarrow> empty_number | Some i \<Rightarrow> VInt (int i))))"

definition text_last_index_of :: "source_position \<Rightarrow> sep_value \<Rightarrow> sep_value \<Rightarrow> sep_value result" where
  "text_last_index_of p v search =
     (case v of VList _ \<Rightarrow> list_last_index_of p v search
      | _ \<Rightarrow> bind_sum (require_texts p v search) (\<lambda>(s, t).
          if t = [] then Inl (empty_search p)
          else Inr (case rfind_sub t s of None \<Rightarrow> empty_number | Some i \<Rightarrow> VInt (int i))))"

definition text_repeat :: "source_position \<Rightarrow> sep_value \<Rightarrow> sep_value \<Rightarrow> sep_value result" where
  "text_repeat p v amount =
     bind_sum (require_text p v) (\<lambda>s. bind_sum (require_index p amount) (\<lambda>n.
     if MAX_TEXT_LENGTH < length s * n then Inl (mk_error 607 ''Text size limit'' p)
     else Inr (VStr (concat (replicate n s)))))"

definition text_pad :: "bool \<Rightarrow> source_position \<Rightarrow> sep_value \<Rightarrow> sep_value \<Rightarrow> sep_value option \<Rightarrow> sep_value result" where
  "text_pad left p v target filler =
     bind_sum (require_text p v) (\<lambda>s. bind_sum (require_index p target) (\<lambda>n.
     case (case filler of None \<Rightarrow> VStr (U '' '') | Some f \<Rightarrow> f) of
       VStr [c] \<Rightarrow>
         if MAX_TEXT_LENGTH < n then Inl (mk_error 607 ''Text size limit'' p)
         else let padding = replicate (n - length s) c in
              Inr (VStr (if left then padding @ s else s @ padding))
     | _ \<Rightarrow> Inl (mk_error 606 ''Invalid padding character'' p)))"

subsection \<open>Conversions\<close>

text \<open>\<open>NUMBER_TEXT\<close>: a sign, digits, and possibly a point with digits.\<close>

definition to_number :: "source_position \<Rightarrow> sep_value \<Rightarrow> sep_value result" where
  "to_number p v =
     (case v of
        VInt _ \<Rightarrow> Inr v | VFlt _ \<Rightarrow> Inr v
      | VStr s \<Rightarrow>
          (let neg = starts_with s (U ''-''); body = (if neg then drop 1 s else s);
               whole = takeWhile is_digit body; r = drop (length whole) body;
               fraction = takeWhile is_digit (drop 1 r)
           in if whole = [] then Inl (mk_error 304 ''Conversion error'' p)
              else if r = [] then
                (let i = int (digits_value 10 whole) in Inr (VInt (if neg then - i else i)))
              else if hd r = 46 \<and> fraction \<noteq> [] \<and> drop (Suc (length fraction)) r = [] then
                (let x = of_decimal64 (digits_value 10 (whole @ fraction)) (length fraction)
                 in Inr (VFlt (if neg then neg64 x else x)))
              else Inl (mk_error 304 ''Conversion error'' p))
      | _ \<Rightarrow> Inl (type_error p))"

definition to_string :: "host \<Rightarrow> source_position \<Rightarrow> sep_value \<Rightarrow> sep_value result" where
  "to_string h p v =
     (case v of VList _ \<Rightarrow> Inl (type_error p) | VBytes _ \<Rightarrow> Inl (type_error p)
      | VHost k _ \<Rightarrow> if k = H_secret then Inl (type_error p) else Inr (VStr (display h v))
      | _ \<Rightarrow> Inr (VStr (display h v)))"

definition to_boolean :: "source_position \<Rightarrow> sep_value \<Rightarrow> sep_value result" where
  "to_boolean p v =
     (case v of VBool b \<Rightarrow> Inr v
      | VStr s \<Rightarrow> if s = U ''true'' then Inr (VBool True) else if s = U ''false'' then Inr (VBool False)
                 else Inl (mk_error 304 ''Conversion error'' p)
      | _ \<Rightarrow> Inl (type_error p))"

text \<open>\<open>list(range(start, stop, step))\<close>.\<close>

definition int_range :: "int \<Rightarrow> int \<Rightarrow> int \<Rightarrow> int list" where
  "int_range start stop step =
     (let n = (if 0 < step then (stop - start + step - 1) div step else (start - stop - step - 1) div (- step))
      in map (\<lambda>k. start + int k * step) [0..<nat n])"

fun require_int :: "source_position \<Rightarrow> sep_value \<Rightarrow> int result" where
  "require_int p (VInt i) = Inr i"
| "require_int p _ = Inl (type_error p)"

definition number_range :: "source_position \<Rightarrow> sep_value list \<Rightarrow> sep_value result" where
  "number_range p arguments =
     bind_sum (map_result (require_int p) arguments) (\<lambda>is.
     let (start, stop, step) =
       (case is of [b] \<Rightarrow> (0, b, 1) | [a, b] \<Rightarrow> (a, b, 1) | a # b # c # _ \<Rightarrow> (a, b, c) | [] \<Rightarrow> (0, 0, 1))
     in if step = 0 then Inl (mk_error 303 ''Invalid range step'' p)
        else Inr (VList (map VInt (int_range start stop step))))"

subsection \<open>Laws\<close>

lemma join_split_text: "join_with t (split_text t s) = s"
proof (induction t s rule: split_text.induct)
  case (1 t s)
  show ?case
  proof (cases "t = [] \<or> find_sub t s = None")
    case True
    then show ?thesis by (auto simp: split_text.simps [of t s])
  next
    case False
    then obtain i where i: "find_sub t s = Some i" by auto
    with False 1 have IH: "join_with t (split_text t (drop (i + length t) s)) = drop (i + length t) s" by auto
    then show ?thesis
      using False i find_sub_split [OF i]
      by (cases "split_text t (drop (i + length t) s)") (simp_all add: split_text.simps [of t s])
  qed
qed

lemma split_text_clean: "t \<noteq> [] \<Longrightarrow> x \<in> set (split_text t s) \<Longrightarrow> find_sub t x = None"
proof (induction t s rule: split_text.induct)
  case (1 t s)
  show ?case
  proof (cases "find_sub t s")
    case None
    then show ?thesis using 1(2,3) by (simp add: split_text.simps [of t s])
  next
    case (Some i)
    have "find_sub t (take i s) = None"
    proof (rule ccontr)
      assume "find_sub t (take i s) \<noteq> None"
      then obtain j where j: "j + length t \<le> length (take i s)" "starts_with (drop j (take i s)) t"
        by (auto simp: find_sub_Some)
      have "drop j s = drop j (take i s @ drop i s)" by simp
      also have "\<dots> = drop j (take i s) @ drop i s" using j(1) by (simp del: append_take_drop_id)
      finally have "starts_with (drop j s) t"
        using j(2) by (auto simp: starts_with_iff simp del: append_take_drop_id)
      moreover have "j < i" using j(1) 1(2) by (cases t) auto
      ultimately show False using Some by (simp add: find_sub_Some)
    qed
    then show ?thesis
      using 1 Some by (auto simp: split_text.simps [of t s])
  qed
qed

lemma map_require_text [simp]: "map_result (require_text p) (map VStr parts) = Inr parts"
  by (induction parts) auto

text \<open>
  \<open>split\<close> and \<open>join\<close> are inverse: joining the parts of a split with the same delimiter gives
  the text back, no part contains the delimiter, and replacing the delimiter by a text joins the
  same parts with it.
\<close>

theorem split_join:
  assumes "text_split p (VStr s) (VStr t) = Inr v"
  shows "text_join p v (VStr t) = Inr (VStr s) \<and>
    (\<exists>parts. v = VList (map VStr parts) \<and> (\<forall>x \<in> set parts. text_contains p (VStr x) (VStr t) = Inr (VBool False)) \<and>
       (\<forall>u. text_replace p (VStr s) (VStr t) (VStr u) = text_join p v (VStr u)))"
proof -
  from assms have "t \<noteq> []" and v: "v = VList (map VStr (split_text t s))"
    by (auto simp: text_split_def require_texts_def split: if_splits)
  then show ?thesis
    using split_text_clean [of t]
    by (auto simp: text_join_def join_split_text text_contains_def require_texts_def text_replace_def
        replace_text_def)
qed

lemma split_join_witness:
  "text_join (mk_pos [] 1 1 []) (VList [VStr (U ''a''), VStr []]) (VStr (U '','')) = Inr (VStr (U ''a,''))"
proof -
  have "split_text (U '','') (U ''a,'') = [U ''a'', []]"
    by (simp add: split_text.simps find_sub.simps U.simps)
  then show ?thesis
    using split_join [of "mk_pos [] 1 1 []" "U ''a,''" "U '',''"]
    by (simp add: text_split_def require_texts_def)
qed

lemma length_utf8_encode_append [simp]: "utf8_encode (s @ t) = utf8_encode s @ utf8_encode t"
  by (simp add: utf8_encode_def)

lemma utf8_next_prefix:
  assumes "scalar_value c" and "n < length (utf8_char c)"
  shows "utf8_next (take n (utf8_char c)) = None"
  using assms
  by (auto simp: utf8_char_def take_Cons less_Suc_eq numeral_2_eq_2 split: if_splits nat.splits)

lemma decode_ignore_prefix:
  assumes "scalar_value c" and "n < length (utf8_char c)"
  shows "utf8_decode_ignore (take n (utf8_char c)) = []"
proof -
  have tail: "utf8_next (take k (drop (Suc j) (utf8_char c))) = None" for j k
  proof (cases "take k (drop (Suc j) (utf8_char c))")
    case (Cons a r)
    then have "a \<in> set (drop (Suc j) (utf8_char c))" by (metis in_set_takeD list.set_intros(1))
    then have "a \<in> set (tl (utf8_char c))" by (metis drop_Suc in_set_dropD)
    then have "128 \<le> a \<and> a < 192" by (auto simp: utf8_char_def split: if_splits)
    then show ?thesis using Cons by simp
  qed auto
  have rest: "utf8_decode_ignore (take k (drop (Suc j) (utf8_char c))) = []" for j k
  proof (induction k arbitrary: j)
    case 0
    then show ?case by (simp add: utf8_decode_ignore.simps)
  next
    case (Suc k)
    have "tl (take (Suc k) (drop (Suc j) (utf8_char c))) = take k (drop (Suc (Suc j)) (utf8_char c))"
      by (simp add: tl_take drop_Suc tl_drop)
    then show ?case
      using tail Suc by (subst utf8_decode_ignore.simps) simp
  qed
  show ?thesis
  proof (cases n)
    case 0
    then show ?thesis by (simp add: utf8_decode_ignore.simps)
  next
    case (Suc k)
    have "tl (take (Suc k) (utf8_char c)) = take k (drop (Suc 0) (utf8_char c))"
      by (simp add: tl_take drop_Suc)
    then show ?thesis
      using utf8_next_prefix [OF assms] rest [of k 0] Suc by (subst utf8_decode_ignore.simps) simp
  qed
qed

text \<open>The text of a clipped encoding is the longest prefix that fits.\<close>

lemma clip_prefix:
  "list_all scalar_value s \<Longrightarrow> n < length (utf8_encode s) \<Longrightarrow>
   \<exists>c t. s = utf8_decode_ignore (take n (utf8_encode s)) @ c # t \<and>
     length (utf8_encode (utf8_decode_ignore (take n (utf8_encode s)))) \<le> n \<and>
     n < length (utf8_encode (utf8_decode_ignore (take n (utf8_encode s)) @ [c]))"
proof (induction s arbitrary: n)
  case Nil
  then show ?case by (simp add: utf8_encode_def)
next
  case (Cons c s)
  have e: "utf8_encode (c # s) = utf8_char c @ utf8_encode s" by (simp add: utf8_encode_def)
  show ?case
  proof (cases "n < length (utf8_char c)")
    case True
    then show ?thesis
      using Cons.prems decode_ignore_prefix [of c n] by (simp add: e) (simp add: utf8_encode_def)
  next
    case False
    let ?m = "n - length (utf8_char c)"
    have d: "utf8_decode_ignore (utf8_char c @ r) = c # utf8_decode_ignore r" for r
      using Cons.prems(1) by (subst utf8_decode_ignore.simps) (simp add: utf8_next_char)
    have "?m < length (utf8_encode s)" using Cons.prems(2) False by (simp add: e)
    then obtain a t where
      "s = utf8_decode_ignore (take ?m (utf8_encode s)) @ a # t"
      "length (utf8_encode (utf8_decode_ignore (take ?m (utf8_encode s)))) \<le> ?m"
      "?m < length (utf8_encode (utf8_decode_ignore (take ?m (utf8_encode s)) @ [a]))"
      using Cons.IH [of ?m] Cons.prems(1) by auto
    moreover have "utf8_decode_ignore (take n (utf8_encode (c # s))) = c # utf8_decode_ignore (take ?m (utf8_encode s))"
      using False by (simp add: e d)
    moreover have "utf8_encode (c # x) = utf8_char c @ utf8_encode x" for x by (simp add: utf8_encode_def)
    ultimately show ?thesis using False
      by (intro exI [of _ a] exI [of _ t]) auto
  qed
qed

text \<open>
  \<open>clip_utf8\<close> gives the longest prefix of the text whose UTF-8 encoding has at most the given
  number of bytes: it never cuts a character in two, and one more character would not fit.
\<close>

theorem clip_utf8_longest:
  assumes "list_all scalar_value s"
  shows "\<exists>r t. clip_utf8 p (VStr s) (VInt (int n)) = Inr (VStr r) \<and> s = r @ t \<and> length (utf8_encode r) \<le> n \<and>
    (t \<noteq> [] \<longrightarrow> n < length (utf8_encode (r @ [hd t])))"
proof (cases "length (utf8_encode s) \<le> n")
  case True
  then show ?thesis by (simp add: clip_utf8_def)
next
  case False
  with clip_prefix [OF assms, of n] show ?thesis
    by (auto simp: clip_utf8_def)
qed

lemma clip_utf8_longest_witness:
  "\<exists>r t. clip_utf8 (mk_pos [] 1 1 []) (VStr [97, 233, 8364]) (VInt (int 4)) = Inr (VStr r) \<and>
     [97, 233, 8364] = r @ t \<and> length (utf8_encode r) \<le> 4"
  using clip_utf8_longest [of "[97, 233, 8364]" "mk_pos [] 1 1 []" 4] by (auto simp: scalar_value_def)

end
