(* ===== verification/CollectionOps.thy ===== *)
theory CollectionOps
  imports TextOps
begin

section \<open>Higher-order and aggregate functions\<close>

text \<open>
  \<open>collection_ops.py\<close>. The functions that take a function value call back into the interpreter:
  the call (\<open>runtime.call_logic_value\<close> at a position) is an argument, a computation on the
  interpreter's state, and so is the injection of a language error into its exceptions. Lists are
  walked from the left, one call per element, in order.
\<close>

type_synonym ('s, 'x) caller = "sep_value \<Rightarrow> sep_value list \<Rightarrow> ('s, 'x, sep_value) sem"

definition lift_result :: "(sep_error \<Rightarrow> 'x) \<Rightarrow> 'a result \<Rightarrow> ('s, 'x, 'a) sem" where
  "lift_result exn r = (case r of Inl e \<Rightarrow> raise (exn e) | Inr a \<Rightarrow> ret a)"

definition validate_logic_value :: "source_position \<Rightarrow> sep_value \<Rightarrow> unit result" where
  "validate_logic_value p f = (case f of VLogic _ _ \<Rightarrow> Inr () | _ \<Rightarrow> Inl (type_error p))"

definition map_list ::
  "(sep_error \<Rightarrow> 'x) \<Rightarrow> ('s, 'x) caller \<Rightarrow> source_position \<Rightarrow> sep_value \<Rightarrow> sep_value \<Rightarrow> ('s, 'x, sep_value) sem" where
  "map_list exn call p values callback =
     andthen (lift_result exn (require_list p values)) (\<lambda>vs.
     andthen (lift_result exn (validate_logic_value p callback)) (\<lambda>_.
     andthen (map_sem (\<lambda>v. call callback [v]) vs) (\<lambda>results.
     andthen (lift_result exn (list_element_type p results)) (\<lambda>_.
     ret (VList results)))))"

fun filter_values ::
  "(sep_error \<Rightarrow> 'x) \<Rightarrow> ('s, 'x) caller \<Rightarrow> source_position \<Rightarrow> sep_value \<Rightarrow> sep_value list \<Rightarrow> ('s, 'x, sep_value list) sem" where
  "filter_values exn call p predicate [] = ret []"
| "filter_values exn call p predicate (v # vs) =
     andthen (call predicate [v]) (\<lambda>selected.
     case selected of
       VBool b \<Rightarrow> andthen (filter_values exn call p predicate vs) (\<lambda>rest. ret (if b then v # rest else rest))
     | _ \<Rightarrow> raise (exn (type_error p)))"

definition filter_list ::
  "(sep_error \<Rightarrow> 'x) \<Rightarrow> ('s, 'x) caller \<Rightarrow> source_position \<Rightarrow> sep_value \<Rightarrow> sep_value \<Rightarrow> ('s, 'x, sep_value) sem" where
  "filter_list exn call p values predicate =
     andthen (lift_result exn (require_list p values)) (\<lambda>vs.
     andthen (lift_result exn (validate_logic_value p predicate)) (\<lambda>_.
     andthen (filter_values exn call p predicate vs) (\<lambda>rest. ret (VList rest))))"

fun reduce_values ::
  "(sep_error \<Rightarrow> 'x) \<Rightarrow> ('s, 'x) caller \<Rightarrow> source_position \<Rightarrow> sep_value \<Rightarrow> ustr \<Rightarrow> sep_value list \<Rightarrow> sep_value \<Rightarrow>
   ('s, 'x, sep_value) sem" where
  "reduce_values exn call p callback t [] acc = ret acc"
| "reduce_values exn call p callback t (v # vs) acc =
     andthen (call callback [acc, v]) (\<lambda>next_value.
     if value_type_name next_value \<noteq> t then raise (exn (type_error p))
     else reduce_values exn call p callback t vs next_value)"

definition reduce_list ::
  "(sep_error \<Rightarrow> 'x) \<Rightarrow> ('s, 'x) caller \<Rightarrow> source_position \<Rightarrow> sep_value \<Rightarrow> sep_value \<Rightarrow> sep_value \<Rightarrow>
   ('s, 'x, sep_value) sem" where
  "reduce_list exn call p values callback acc =
     andthen (lift_result exn (require_list p values)) (\<lambda>vs.
     andthen (lift_result exn (validate_logic_value p callback)) (\<lambda>_.
     reduce_values exn call p callback (value_type_name acc) vs acc))"

definition flatten :: "source_position \<Rightarrow> sep_value \<Rightarrow> sep_value result" where
  "flatten p values =
     bind_sum (require_list p values) (\<lambda>vs.
     bind_sum (map_result (require_list p) vs) (\<lambda>rows.
     bind_sum (list_element_type p (concat rows)) (\<lambda>_. Inr (VList (concat rows)))))"

text \<open>
  The sum of numbers: exact on integers; with a float in the list the order and the compensation
  of the additions are Python's, a parameter (\<open>Inr None\<close> is an \<open>OverflowError\<close>).
\<close>

fun int_of :: "sep_value \<Rightarrow> int" where
  "int_of (VInt i) = i"
| "int_of _ = 0"

definition is_int :: "sep_value \<Rightarrow> bool" where
  "is_int v = (case v of VInt _ \<Rightarrow> True | _ \<Rightarrow> False)"

definition sum_numbers :: "host \<Rightarrow> sep_value list \<Rightarrow> sep_value option" where
  "sum_numbers h vs = (if list_all is_int vs then Some (VInt (sum_list (map int_of vs))) else h_float_sum h vs)"

definition sum_values :: "host \<Rightarrow> source_position \<Rightarrow> sep_value \<Rightarrow> sep_value option result" where
  "sum_values h p values =
     bind_sum (require_list p values) (\<lambda>vs.
     if \<not> list_all is_number vs then Inl (type_error p) else Inr (sum_numbers h vs))"

definition average :: "host \<Rightarrow> source_position \<Rightarrow> sep_value \<Rightarrow> sep_value option result" where
  "average h p values =
     bind_sum (require_list p values) (\<lambda>vs.
     if vs = [] then Inl (mk_error 602 ''Empty collection'' p)
     else if \<not> list_all is_number vs then Inl (type_error p)
     else Inr (Option.bind (sum_numbers h vs) (\<lambda>s. num_div s (VInt (int (length vs))))))"

definition count_values :: "source_position \<Rightarrow> sep_value \<Rightarrow> sep_value \<Rightarrow> sep_value result" where
  "count_values p values search =
     bind_sum (require_list p values) (\<lambda>vs.
     bind_sum (compatible_search p vs search) (\<lambda>_.
     Inr (VInt (int (length (filter (\<lambda>v. py_eq v search) vs))))))"

subsection \<open>With a callback that is a function\<close>

lemma andthen_ret [simp]: "andthen (ret a) g = g a"
  by (rule ext) (simp add: andthen_def ret_def)

lemma andthen_raise [simp]: "andthen (raise x) g = raise x"
  by (rule ext) (simp add: andthen_def raise_def)

lemma lift_result_simps [simp]: "lift_result exn (Inr a) = ret a" "lift_result exn (Inl e) = raise (exn e)"
  by (simp_all add: lift_result_def)

lemma map_sem_pure: "(\<And>v. g v = ret (f v)) \<Longrightarrow> map_sem g vs = ret (map f vs)"
  by (induction vs) simp_all

lemma filter_values_pure:
  "(\<And>args. call callback args = ret (f args)) \<Longrightarrow> (\<And>v. v \<in> set vs \<Longrightarrow> \<exists>b. f [v] = VBool b) \<Longrightarrow>
   filter_values exn call p callback vs = ret (filter (\<lambda>v. f [v] = VBool True) vs)"
proof (induction vs)
  case (Cons v vs)
  from Cons.prems(2) [of v] obtain b where "f [v] = VBool b" by auto
  with Cons show ?case by (cases b) simp_all
qed simp

lemma reduce_values_pure:
  "(\<And>args. call callback args = ret (f args)) \<Longrightarrow>
   (\<And>a v. value_type_name a = t \<Longrightarrow> value_type_name (f [a, v]) = t) \<Longrightarrow> value_type_name acc = t \<Longrightarrow>
   reduce_values exn call p callback t vs acc = ret (foldl (\<lambda>a v. f [a, v]) acc vs)"
  by (induction vs arbitrary: acc) simp_all

text \<open>
  With a function that has no effects, \<open>map\<close>, \<open>filter\<close> and \<open>reduce\<close> are the map, the filter
  and the left fold of the list, and leave the interpreter's state alone.
\<close>

theorem higher_order_pure:
  assumes "\<And>args. call (VLogic r n) args = ret (f args)"
  shows "(list_element_type p (map (\<lambda>v. f [v]) vs) = Inr e \<longrightarrow>
      map_list exn call p (VList vs) (VLogic r n) = ret (VList (map (\<lambda>v. f [v]) vs))) \<and>
    ((\<forall>v \<in> set vs. \<exists>b. f [v] = VBool b) \<longrightarrow>
      filter_list exn call p (VList vs) (VLogic r n) = ret (VList (filter (\<lambda>v. f [v] = VBool True) vs))) \<and>
    ((\<forall>a v. value_type_name a = value_type_name acc \<longrightarrow> value_type_name (f [a, v]) = value_type_name acc) \<longrightarrow>
      reduce_list exn call p (VList vs) (VLogic r n) acc = ret (foldl (\<lambda>a v. f [a, v]) acc vs))"
  using assms
  by (simp add: map_list_def filter_list_def reduce_list_def validate_logic_value_def
      map_sem_pure filter_values_pure reduce_values_pure)

lemma higher_order_pure_witness:
  "reduce_list id (\<lambda>_ args. (ret (VInt (sum_list (map int_of args))) :: (nat, sep_error, sep_value) sem)) (mk_pos [] 1 1 [])
     (VList [VInt 2, VInt 3]) (VLogic 0 (U ''add'')) (VInt 1) = ret (VInt 6)"
  using higher_order_pure [of "\<lambda>_ args. (ret (VInt (sum_list (map int_of args))) :: (nat, sep_error, sep_value) sem)" 0 "U ''add''"
      "\<lambda>args. VInt (sum_list (map int_of args))" "mk_pos [] 1 1 []" "[VInt 2, VInt 3]" None id "VInt 1"]
  by simp

end
