(* ===== verification/MathOps.thy ===== *)
theory MathOps
  imports CollectionOps
begin

section \<open>Mathematics\<close>

text \<open>
  \<open>math_ops.py\<close> and the numeric functions of \<open>builtins.py\<close>. Functions of the modules \<open>math\<close> and
  \<open>statistics\<close> are the host's; \<open>round\<close> works on the decimal text of the number, half up. A result \<open>Inr None\<close> is an
  \<open>OverflowError\<close> that the source does not catch.
\<close>

definition MAX_FACTORIAL :: int where "MAX_FACTORIAL = 1000"
definition MAX_ROUND_DIGITS :: int where "MAX_ROUND_DIGITS = 100"

definition domain_error :: "source_position \<Rightarrow> sep_error" where
  "domain_error p = mk_error 308 ''Math domain error'' p"

definition range_error :: "source_position \<Rightarrow> sep_error" where
  "range_error p = mk_error 308 ''Math range error'' p"

subsection \<open>Guards\<close>

definition require_number :: "source_position \<Rightarrow> sep_value \<Rightarrow> sep_value result" where
  "require_number p v = (if is_number v then Inr v else Inl (type_error p))"

definition require_finite :: "source_position \<Rightarrow> sep_value \<Rightarrow> sep_value result" where
  "require_finite p v =
     bind_sum (require_number p v) (\<lambda>x. if is_finite_number x then Inr x else Inl (domain_error p))"

definition finite_result :: "source_position \<Rightarrow> sep_value \<Rightarrow> sep_value result" where
  "finite_result p v = (if is_finite_number v then Inr v else Inl (domain_error p))"

text \<open>The integer a float is, if it is one.\<close>

definition integer_value :: "b64 \<Rightarrow> int option" where
  "integer_value x =
     (case x of Fin s m e \<Rightarrow>
        if num64 s m e mod int (den64 e) = 0 then Some (num64 s m e div int (den64 e)) else None
      | _ \<Rightarrow> None)"

definition require_integer :: "source_position \<Rightarrow> sep_value \<Rightarrow> int result" where
  "require_integer p v =
     bind_sum (require_number p v) (\<lambda>x.
     case x of VInt i \<Rightarrow> Inr i
     | VFlt f \<Rightarrow> (case integer_value f of Some i \<Rightarrow> Inr i | None \<Rightarrow> Inl (type_error p))
     | _ \<Rightarrow> Inl (type_error p))"

subsection \<open>Functions of one and two numbers\<close>

text \<open>\<open>_unary\<close> and \<open>_binary\<close>: \<open>None\<close> of the implementation is an exception they turn into E308.\<close>

definition math_unary :: "(sep_value \<Rightarrow> sep_value option) \<Rightarrow> source_position \<Rightarrow> sep_value \<Rightarrow> sep_value result" where
  "math_unary f p v =
     bind_sum (require_finite p v) (\<lambda>x.
     case f x of None \<Rightarrow> Inl (domain_error p) | Some r \<Rightarrow> finite_result p r)"

definition math_binary ::
  "(sep_value \<Rightarrow> sep_value \<Rightarrow> sep_value option) \<Rightarrow> source_position \<Rightarrow> sep_value \<Rightarrow> sep_value \<Rightarrow> sep_value result" where
  "math_binary f p a b =
     bind_sum (require_finite p a) (\<lambda>x. bind_sum (require_finite p b) (\<lambda>y.
     case f x y of None \<Rightarrow> Inl (domain_error p) | Some r \<Rightarrow> finite_result p r))"

definition libm_unary :: "host \<Rightarrow> string \<Rightarrow> sep_value \<Rightarrow> sep_value option" where
  "libm_unary h name = h_libm h (U name)"

definition libm_binary :: "host \<Rightarrow> string \<Rightarrow> sep_value \<Rightarrow> sep_value \<Rightarrow> sep_value option" where
  "libm_binary h name = h_libm2 h (U name)"

text \<open>\<open>math.trunc\<close>, \<open>math.floor\<close> and \<open>math.ceil\<close>: towards zero, down and up.\<close>

definition float_floor :: "bool \<Rightarrow> nat \<Rightarrow> int \<Rightarrow> int" where
  "float_floor s m e = num64 s m e div int (den64 e)"

fun num_floor :: "sep_value \<Rightarrow> sep_value option" where
  "num_floor (VInt i) = Some (VInt i)"
| "num_floor (VFlt (Fin s m e)) = Some (VInt (float_floor s m e))"
| "num_floor _ = None"

fun num_ceil :: "sep_value \<Rightarrow> sep_value option" where
  "num_ceil (VInt i) = Some (VInt i)"
| "num_ceil (VFlt (Fin s m e)) = Some (VInt (- float_floor (\<not> s) m e))"
| "num_ceil _ = None"

definition num_trunc :: "sep_value \<Rightarrow> sep_value option" where
  "num_trunc v = (if num_less v (VInt 0) then num_ceil v else num_floor v)"

definition math_absolute :: "source_position \<Rightarrow> sep_value \<Rightarrow> sep_value result" where
  "math_absolute = math_unary (\<lambda>v. Some (num_abs v))"

definition math_truncate :: "source_position \<Rightarrow> sep_value \<Rightarrow> sep_value result" where
  "math_truncate = math_unary num_trunc"

definition math_power :: "host \<Rightarrow> source_position \<Rightarrow> sep_value \<Rightarrow> sep_value \<Rightarrow> sep_value result" where
  "math_power h p a b =
     bind_sum (require_finite p a) (\<lambda>x. bind_sum (require_finite p b) (\<lambda>y. power_value (h_pow h) p x y))"

text \<open>\<open>_numeric\<close> and \<open>_abs\<close> of \<open>builtins.py\<close>: like \<open>_unary\<close>, but the argument may be infinite or NaN.\<close>

definition numeric_unary :: "(sep_value \<Rightarrow> sep_value option) \<Rightarrow> source_position \<Rightarrow> sep_value \<Rightarrow> sep_value result" where
  "numeric_unary f p v =
     bind_sum (require_number p v) (\<lambda>x.
     case f x of None \<Rightarrow> Inl (domain_error p) | Some r \<Rightarrow> finite_result p r)"

definition builtin_abs :: "source_position \<Rightarrow> sep_value \<Rightarrow> sep_value result" where
  "builtin_abs p v = bind_sum (require_number p v) (\<lambda>x. Inr (num_abs x))"

definition builtin_pow :: "host \<Rightarrow> source_position \<Rightarrow> sep_value \<Rightarrow> sep_value \<Rightarrow> sep_value result" where
  "builtin_pow h p a b =
     (if \<not> is_number a \<or> \<not> is_number b then Inl (type_error p) else power_value (h_pow h) p a b)"

subsection \<open>Least, greatest, clamp, sign\<close>

fun min_number :: "sep_value \<Rightarrow> sep_value list \<Rightarrow> sep_value" where
  "min_number m [] = m"
| "min_number m (v # vs) = min_number (if num_less v m then v else m) vs"

fun max_number :: "sep_value \<Rightarrow> sep_value list \<Rightarrow> sep_value" where
  "max_number m [] = m"
| "max_number m (v # vs) = max_number (if num_less m v then v else m) vs"

definition choose_number ::
  "(sep_value \<Rightarrow> sep_value list \<Rightarrow> sep_value) \<Rightarrow> source_position \<Rightarrow> sep_value list \<Rightarrow> sep_value result" where
  "choose_number pick p arguments =
     (let values = (case arguments of [VList vs] \<Rightarrow> vs | _ \<Rightarrow> arguments)
      in case values of
           [] \<Rightarrow> Inl (mk_error 602 ''Empty collection'' p)
         | v # vs \<Rightarrow> bind_sum (map_result (require_finite p) values) (\<lambda>_. Inr (pick v vs)))"

text \<open>\<open>min\<close> and \<open>max\<close> of \<open>builtins.py\<close> take their arguments only, and do not look for infinities.\<close>

definition builtin_choose ::
  "(sep_value \<Rightarrow> sep_value list \<Rightarrow> sep_value) \<Rightarrow> source_position \<Rightarrow> sep_value list \<Rightarrow> sep_value result" where
  "builtin_choose pick p arguments =
     (if \<not> list_all is_number arguments then Inl (type_error p)
      else Inr (pick (hd arguments) (tl arguments)))"

definition math_clamp :: "source_position \<Rightarrow> sep_value \<Rightarrow> sep_value \<Rightarrow> sep_value \<Rightarrow> sep_value result" where
  "math_clamp p v lo hi =
     bind_sum (require_finite p v) (\<lambda>x. bind_sum (require_finite p lo) (\<lambda>a. bind_sum (require_finite p hi) (\<lambda>b.
     if num_less b a then Inl (range_error p)
     else Inr (min_number (max_number x [a]) [b]))))"

definition math_sign :: "source_position \<Rightarrow> sep_value \<Rightarrow> sep_value result" where
  "math_sign p v =
     bind_sum (require_finite p v) (\<lambda>x.
     Inr (VInt (if num_less x (VInt 0) then - 1 else if num_less (VInt 0) x then 1 else 0)))"

definition math_cube_root :: "host \<Rightarrow> source_position \<Rightarrow> sep_value \<Rightarrow> sep_value option result" where
  "math_cube_root h p v =
     bind_sum (require_finite p v) (\<lambda>x.
     Inr (Option.bind (to_float (num_abs x)) (\<lambda>a.
       map_option (\<lambda>r. VFlt (if num_less x (VInt 0) then neg64 r else r))
         (h_pow h a (div64 (Fin False (2 ^ 52) (-52)) (Fin False (3 * 2 ^ 51) (-51)))))))"

subsection \<open>Integers\<close>

definition math_gcd :: "source_position \<Rightarrow> sep_value \<Rightarrow> sep_value \<Rightarrow> sep_value result" where
  "math_gcd p a b =
     bind_sum (require_integer p a) (\<lambda>i. bind_sum (require_integer p b) (\<lambda>j. Inr (VInt (gcd i j))))"

definition math_lcm :: "source_position \<Rightarrow> sep_value \<Rightarrow> sep_value \<Rightarrow> sep_value result" where
  "math_lcm p a b =
     bind_sum (require_integer p a) (\<lambda>i. bind_sum (require_integer p b) (\<lambda>j. Inr (VInt (lcm i j))))"

definition math_factorial :: "source_position \<Rightarrow> sep_value \<Rightarrow> sep_value result" where
  "math_factorial p v =
     bind_sum (require_integer p v) (\<lambda>i.
     if i < 0 \<or> MAX_FACTORIAL < i then Inl (range_error p) else Inr (VInt (fact (nat i))))"

definition math_is_finite :: "source_position \<Rightarrow> sep_value \<Rightarrow> sep_value result" where
  "math_is_finite p v = bind_sum (require_number p v) (\<lambda>x. Inr (VBool (is_finite_number x)))"

definition math_is_infinite :: "source_position \<Rightarrow> sep_value \<Rightarrow> sep_value result" where
  "math_is_infinite p v =
     bind_sum (require_number p v) (\<lambda>x. Inr (VBool (case x of VFlt (Infty _) \<Rightarrow> True | _ \<Rightarrow> False)))"

definition math_is_nan :: "source_position \<Rightarrow> sep_value \<Rightarrow> sep_value result" where
  "math_is_nan p v = bind_sum (require_number p v) (\<lambda>x. Inr (VBool (is_nan x)))"

definition math_is_integer_value :: "source_position \<Rightarrow> sep_value \<Rightarrow> sep_value result" where
  "math_is_integer_value p v =
     bind_sum (require_number p v) (\<lambda>x.
     Inr (VBool (case x of VFlt f \<Rightarrow> integer_value f \<noteq> None | _ \<Rightarrow> True)))"

subsection \<open>Rounding\<close>

text \<open>How many digits \<open>Decimal(str(value))\<close> has: a float without exponent shows at least one
  digit after the point.\<close>

definition decimal_length :: "sep_value \<Rightarrow> nat" where
  "decimal_length v =
     (case v of
        VInt i \<Rightarrow> length (show_nat (nat \<bar>i\<bar>))
      | VFlt (Fin s m e) \<Rightarrow>
          if m = 0 then 1
          else let (q, k) = shortest_digits (m * 2 ^ nat e) (den64 e); t = show_nat q;
                   point = int (length t) - k; n = length (strip_zeros t)
               in if - 4 < point \<and> point \<le> 16 \<and> int n \<le> point then nat point + 1 else n
      | _ \<Rightarrow> 0)"

definition math_round :: "source_position \<Rightarrow> sep_value list \<Rightarrow> sep_value result" where
  "math_round p arguments =
     bind_sum (require_finite p (hd arguments)) (\<lambda>v.
     bind_sum (case tl arguments of [] \<Rightarrow> Inr 0 | d # _ \<Rightarrow> require_integer p d) (\<lambda>digits.
     if digits < - MAX_ROUND_DIGITS \<or> MAX_ROUND_DIGITS < digits then Inl (range_error p)
     else case decimal_of v of
       DFin s q k \<Rightarrow>
         let e = digits - k;
             rounded = half_up (q * 10 ^ nat e) (10 ^ nat (- e));
             precision = max 50 (decimal_length v + nat \<bar>digits\<bar> + 4)
         in if precision < length (show_nat rounded) then Inl (domain_error p)
            else if digits \<le> 0 then
              Inr (VInt ((if s then - 1 else 1) * int rounded * 10 ^ nat (- digits)))
            else let x = round_ratio s rounded (10 ^ nat digits)
                 in if is_finite64 x then Inr (VFlt x)
                    else if rounded mod 10 ^ nat digits = 0
                    then Inr (VInt ((if s then - 1 else 1) * int (rounded div 10 ^ nat digits)))
                    else Inl (domain_error p)
     | _ \<Rightarrow> Inl (domain_error p)))"

subsection \<open>Closeness, lists of numbers\<close>

text \<open>\<open>math.isclose\<close> with a relative tolerance of 1e-9; integers beyond the floats are compared as
  decimals, and \<open>None\<close> is an integer beyond the floats against a float.\<close>

definition is_close64 :: "b64 \<Rightarrow> b64 \<Rightarrow> bool" where
  "is_close64 x y =
     (if eq64 x y then True
      else if \<not> is_finite64 x \<or> \<not> is_finite64 y then False
      else let abs64 = (\<lambda>z. if sign64 z then neg64 z else z);
               diff = abs64 (sub64 y x); tol = of_decimal64 1 9;
               near = (\<lambda>z. less64 diff z \<or> eq64 diff z)
           in near (abs64 (mul64 tol y)) \<or> near (abs64 (mul64 tol x)) \<or> near (Fin False 0 (-1074)))"

definition math_is_close :: "source_position \<Rightarrow> sep_value \<Rightarrow> sep_value \<Rightarrow> sep_value option result" where
  "math_is_close p a b =
     bind_sum (require_number p a) (\<lambda>x. bind_sum (require_number p b) (\<lambda>y.
     Inr (case (to_float x, to_float y) of
        (Some f, Some g) \<Rightarrow> Some (VBool (is_close64 f g))
      | _ \<Rightarrow> (case (x, y) of
            (VInt i, VInt j) \<Rightarrow>
              (let (c, e) = round28 (nat (max \<bar>i\<bar> \<bar>j\<bar>)) (10 ^ 9)
               in Some (VBool (nat \<bar>i - j\<bar> * 10 ^ nat e \<le> c * 10 ^ nat (- e))))
          | _ \<Rightarrow> None))))"

definition number_list :: "source_position \<Rightarrow> nat \<Rightarrow> sep_value \<Rightarrow> sep_value list result" where
  "number_list p minimum v =
     bind_sum (require_list p v) (\<lambda>vs.
     if length vs < minimum then Inl (mk_error 602 ''Empty or insufficient collection'' p)
     else bind_sum (map_result (require_finite p) vs) (\<lambda>_. Inr vs))"

definition median :: "sep_value list \<Rightarrow> sep_value option" where
  "median vs =
     (let s = sorted_by value_key False vs; n = length vs in
      if odd n then Some (s ! (n div 2))
      else Option.bind (num_add (s ! (n div 2 - 1)) (s ! (n div 2))) (\<lambda>t. num_div t (VInt 2)))"

definition math_statistic ::
  "(sep_value list \<Rightarrow> sep_value option) \<Rightarrow> nat \<Rightarrow> source_position \<Rightarrow> sep_value \<Rightarrow> sep_value option result" where
  "math_statistic f minimum p v =
     bind_sum (number_list p minimum v) (\<lambda>vs.
     case f vs of None \<Rightarrow> Inr None | Some r \<Rightarrow> bind_sum (finite_result p r) (\<lambda>r. Inr (Some r)))"

definition math_percentile :: "source_position \<Rightarrow> sep_value \<Rightarrow> sep_value \<Rightarrow> sep_value option result" where
  "math_percentile p values percent =
     bind_sum (number_list p 1 values) (\<lambda>vs.
     bind_sum (require_finite p percent) (\<lambda>q.
     if num_less q (VInt 0) \<or> num_less (VInt 100) q then Inl (range_error p)
     else let sorted_values = sorted_by value_key False vs in
       case Option.bind (num_mul (VInt (int (length vs - 1))) q) (\<lambda>m. num_div m (VInt 100)) of
         Some rank \<Rightarrow>
           (case (num_floor rank, num_ceil rank) of
              (Some (VInt lower), Some (VInt upper)) \<Rightarrow>
                let a = sorted_values ! nat lower; b = sorted_values ! nat upper in
                if lower = upper then Inr (Some a)
                else (case Option.bind (num_sub rank (VInt lower)) (\<lambda>fraction.
                        Option.bind (num_sub b a) (\<lambda>d. Option.bind (num_mul d fraction) (\<lambda>m. num_add a m))) of
                        None \<Rightarrow> Inr None
                      | Some r \<Rightarrow> bind_sum (finite_result p r) (\<lambda>r. Inr (Some r)))
            | _ \<Rightarrow> Inr None)
       | None \<Rightarrow> Inr None))"

fun map_option_list :: "('a \<Rightarrow> 'b option) \<Rightarrow> 'a list \<Rightarrow> 'b list option" where
  "map_option_list f [] = Some []"
| "map_option_list f (a # as) =
     Option.bind (f a) (\<lambda>b. map_option ((#) b) (map_option_list f as))"

definition math_moving_average :: "host \<Rightarrow> source_position \<Rightarrow> sep_value \<Rightarrow> sep_value \<Rightarrow> sep_value option result" where
  "math_moving_average h p values window =
     bind_sum (number_list p 1 values) (\<lambda>vs.
     bind_sum (require_integer p window) (\<lambda>w.
     if w < 1 \<or> int (length vs) < w then Inl (range_error p)
     else Inr (map_option VList (map_option_list
       (\<lambda>i. Option.bind (sum_numbers h (take (nat w) (drop i vs))) (\<lambda>s. num_div s (VInt w)))
       [0..<length vs - nat w + 1]))))"

subsection \<open>Bases\<close>

definition require_base :: "source_position \<Rightarrow> sep_value \<Rightarrow> nat result" where
  "require_base p v =
     bind_sum (require_integer p v) (\<lambda>b. if b < 2 \<or> 36 < b then Inl (range_error p) else Inr (nat b))"

definition base_digit :: "nat \<Rightarrow> uchar" where
  "base_digit n = (if n < 10 then 48 + n else 87 + n)"

function base_digits :: "nat \<Rightarrow> nat \<Rightarrow> ustr" where
  "base_digits b n = (if n = 0 \<or> b < 2 then [] else base_digits b (n div b) @ [base_digit (n mod b)])"
  by pat_completeness auto
termination by (relation "measure snd") auto

declare base_digits.simps [simp del]

definition number_to_base :: "source_position \<Rightarrow> sep_value \<Rightarrow> sep_value \<Rightarrow> sep_value result" where
  "number_to_base p v base =
     bind_sum (require_integer p v) (\<lambda>i. bind_sum (require_base p base) (\<lambda>b.
     Inr (VStr (if i = 0 then U ''0''
       else (if i < 0 then U ''-'' else []) @ base_digits b (nat \<bar>i\<bar>)))))"

definition base_to_number :: "host \<Rightarrow> source_position \<Rightarrow> sep_value \<Rightarrow> sep_value \<Rightarrow> sep_value result" where
  "base_to_number h p v base =
     bind_sum (require_text p v) (\<lambda>s. bind_sum (require_base p base) (\<lambda>b.
     let neg = starts_with s (U ''-''); digits = (if neg then drop 1 s else s);
         normalized = h_lower h (filter (\<lambda>c. c \<noteq> 95) digits) in
     if digits = [] \<or> hd digits = 95 \<or> last digits = 95 \<or> has_double_underscore digits \<or>
        \<not> list_all (\<lambda>c. c \<in> set (map base_digit [0..<b])) normalized
     then Inl (mk_error 304 ''Conversion error'' p)
     else let i = int (digits_value b normalized) in Inr (VInt (if neg then - i else i))))"

lemma digit_value_base_digit [simp]: "n < 36 \<Longrightarrow> digit_value (base_digit n) = n"
  by (simp add: digit_value_def base_digit_def is_digit_def)

lemma base_digits_set: "2 \<le> b \<Longrightarrow> set (base_digits b n) \<subseteq> base_digit ` {0..<b}"
proof (induction b n rule: base_digits.induct)
  case (1 b n)
  then show ?case
    by (simp add: base_digits.simps [of b n])
qed

lemma base_digits_value: "2 \<le> b \<Longrightarrow> b \<le> 36 \<Longrightarrow> digits_value b (base_digits b n) = n"
proof (induction b n rule: base_digits.induct)
  case (1 b n)
  have "n mod b < 36" using "1.prems" by (meson mod_less_divisor less_le_trans zero_less_numeral order_less_le_trans)
  with 1 show ?case
    by (cases "n = 0") (simp_all add: base_digits.simps [of b n] base_digits.simps [of b 0] digits_value_append digits_value_def [of _ "[]"])
qed

lemma base_digits_nonempty: "0 < n \<Longrightarrow> 2 \<le> b \<Longrightarrow> base_digits b n \<noteq> []"
  by (simp add: base_digits.simps [of b n])

text \<open>What the text of a number in a base is made of.\<close>

definition plain_digits :: "nat \<Rightarrow> ustr \<Rightarrow> bool" where
  "plain_digits b s \<longleftrightarrow> s \<noteq> [] \<and> set s \<subseteq> base_digit ` {0..<b}"

lemma plain_digitsD:
  assumes "plain_digits b s" and "b \<le> 36"
  shows "s \<noteq> []" "hd s \<noteq> 95" "last s \<noteq> 95" "\<not> has_double_underscore s" "filter (\<lambda>c. c \<noteq> 95) s = s"
    "list_all (\<lambda>c. c \<in> set (map base_digit [0..<b])) s" "\<not> starts_with s (U ''-'')" "list_all (\<lambda>c. c < 128) s"
proof -
  have d: "\<forall>c \<in> set s. c \<noteq> 95 \<and> c \<noteq> 45 \<and> c < 128"
    using assms by (auto simp: plain_digits_def base_digit_def)
  show ne: "s \<noteq> []" using assms by (simp add: plain_digits_def)
  show "hd s \<noteq> 95" "last s \<noteq> 95" using d ne by (meson hd_in_set last_in_set)+
  show "\<not> has_double_underscore s" using d by (induction s rule: has_double_underscore.induct) auto
  show "filter (\<lambda>c. c \<noteq> 95) s = s" using d by simp
  show "list_all (\<lambda>c. c \<in> set (map base_digit [0..<b])) s"
    using assms(1) by (auto simp: plain_digits_def list_all_iff)
  show "\<not> starts_with s (U ''-'')" using d ne by (cases s) (auto simp: U.simps)
  show "list_all (\<lambda>c. c < 128) s" using d by (simp add: list_all_iff)
qed

lemma base_digits_plain: "0 < n \<Longrightarrow> 2 \<le> b \<Longrightarrow> plain_digits b (base_digits b n)"
  using base_digits_set base_digits_nonempty by (simp add: plain_digits_def)



text \<open>
  \<open>clamp\<close> returns a number between its bounds, one of its three arguments, and the first
  argument itself if that already is between them; bounds in the wrong order are E308.
\<close>

theorem clamp_correct:
  assumes "is_number v" "is_number lo" "is_number hi"
    and "is_finite_number v" "is_finite_number lo" "is_finite_number hi"
  shows "if num_less hi lo then math_clamp p v lo hi = Inl (range_error p)
    else \<exists>r. math_clamp p v lo hi = Inr r \<and> r \<in> {v, lo, hi} \<and> num_less_eq lo r \<and> num_less_eq r hi \<and>
      (num_less_eq lo v \<and> num_less_eq v hi \<longrightarrow> r = v)"
proof -
  have le: "num_less_eq a b \<longleftrightarrow> value_key a \<le> value_key b" and ls: "num_less a b \<longleftrightarrow> value_key a < value_key b"
    if "a \<in> {v, lo, hi}" "b \<in> {v, lo, hi}" for a b
  proof -
    have "is_number a \<and> \<not> is_nan a \<and> is_number b \<and> \<not> is_nan b"
      using that assms by (auto simp: is_finite_number_def is_nan_def)
    then have "num_less a b \<longleftrightarrow> value_key a < value_key b" "num_eq a b \<longleftrightarrow> value_key a = value_key b"
      using number_order [of a b] by auto
    then show "num_less_eq a b \<longleftrightarrow> value_key a \<le> value_key b" "num_less a b \<longleftrightarrow> value_key a < value_key b"
      by (auto simp: num_less_eq_def)
  qed
  define w where "w = (if num_less v lo then lo else v)"
  have run: "math_clamp p v lo hi = (if num_less hi lo then Inl (range_error p)
      else Inr (if num_less hi w then hi else w))"
    using assms by (simp add: math_clamp_def require_finite_def require_number_def w_def)
  show ?thesis
    using le [of lo v] le [of v hi] le [of lo lo] le [of lo hi] le [of hi hi] ls [of v lo] ls [of hi lo] ls [of hi v]
    unfolding run w_def by (cases "value_key v < value_key lo"; cases "value_key hi < value_key lo"; cases "value_key hi < value_key v") auto
qed

lemma clamp_correct_witness:
  "\<forall>p. \<exists>r. math_clamp p (VInt 7) (VInt 1) (VInt 5) = Inr r \<and> num_less_eq (VInt 1) r \<and> num_less_eq r (VInt 5)"
proof
  fix p
  show "\<exists>r. math_clamp p (VInt 7) (VInt 1) (VInt 5) = Inr r \<and> num_less_eq (VInt 1) r \<and> num_less_eq r (VInt 5)"
    using clamp_correct [of "VInt 7" "VInt 1" "VInt 5" p]
    by (auto simp: is_finite_number_def num_less_def)
qed

end
