(* ===== verification/Randomness.thy ===== *)
theory Randomness
  imports TextOps "HOL-Library.Word"
begin

section \<open>Randomness\<close>

text \<open>
  \<open>SeparanRandom\<close> of \<open>randomness.py\<close>: PCG-XSH-RR with a 64-bit state, kept here as words, so that
  the source's masks are the wrap-around of the arithmetic. \<open>below\<close> draws until a candidate is
  small enough; it is a partial function, and \<open>None\<close> is a loop that never ends. A list is shuffled
  and sampled by exchanging elements; the locale \<open>index_source\<close> is what both need of \<open>below\<close>.
\<close>

unbundle bit_operations_syntax

record rng =
  rng_state :: "64 word"
  rng_increment :: "64 word"

type_synonym 'a draw = "rng \<Rightarrow> 'a \<times> rng"

definition MASK_32 :: "64 word" where "MASK_32 = 2 ^ 32 - 1"

definition next_u32 :: "nat draw" where
  "next_u32 g =
     (let old = rng_state g;
          shifted = drop_bit 27 (drop_bit 18 old XOR old) AND MASK_32;
          rotation = unat (drop_bit 59 old)
      in (unat ((drop_bit rotation shifted OR push_bit (nat (- int rotation mod 32)) shifted) AND MASK_32),
          g\<lparr>rng_state := old * 6364136223846793005 + rng_increment g\<rparr>))"

definition seed :: "int \<Rightarrow> rng" where
  "seed s =
     (let g = snd (next_u32 \<lparr>rng_state = 0, rng_increment = 109\<rparr>)
      in snd (next_u32 (g\<lparr>rng_state := rng_state g + of_int s\<rparr>)))"

text \<open>\<open>bits(amount)\<close>, in pieces of at most 32.\<close>

function draw_bits :: "nat \<Rightarrow> nat \<Rightarrow> nat draw" where
  "draw_bits amount acc g =
     (if amount = 0 then (acc, g)
      else let take = min 32 amount; (u, g') = next_u32 g
           in draw_bits (amount - take) (acc * 2 ^ take + u div 2 ^ (32 - take)) g')"
  by pat_completeness auto
termination by (relation "measure (\<lambda>(amount, acc, g). amount)") auto

declare draw_bits.simps [simp del]

definition bits :: "nat \<Rightarrow> nat draw" where
  "bits amount = draw_bits amount 0"

definition draw_number :: "b64 draw" where
  "draw_number g =
     (let (a, g1) = next_u32 g; (b, g2) = next_u32 g1
      in (round_ratio False (a div 32 * 67108864 + b div 64) 9007199254740992, g2))"

partial_function (option) below_from :: "nat \<Rightarrow> nat \<Rightarrow> rng \<Rightarrow> (nat \<times> rng) option" where
  "below_from k upper g =
     (let (candidate, g') = bits k g in if candidate < upper then Some (candidate, g') else below_from k upper g')"

definition below :: "nat \<Rightarrow> rng \<Rightarrow> (nat \<times> rng) option" where
  \<comment> \<open>\<open>upper\<close> is positive: the callers see to it\<close>
  "below upper g = below_from (bit_length (upper - 1)) upper g"

definition random_integer :: "int \<Rightarrow> int \<Rightarrow> rng \<Rightarrow> (int \<times> rng) option" where
  "random_integer minimum maximum g =
     map_option (\<lambda>(k, g'). (minimum + int k, g')) (below (nat (maximum - minimum + 1)) g)"

definition swap :: "nat \<Rightarrow> nat \<Rightarrow> 'a list \<Rightarrow> 'a list" where
  "swap i j xs = xs[i := xs ! j, j := xs ! i]"

fun shuffle_down :: "(nat \<Rightarrow> 's \<Rightarrow> (nat \<times> 's) option) \<Rightarrow> nat \<Rightarrow> 'a list \<Rightarrow> 's \<Rightarrow> ('a list \<times> 's) option" where
  \<comment> \<open>the indexes from the given one down to 1\<close>
  "shuffle_down draw 0 xs g = Some (xs, g)"
| "shuffle_down draw (Suc i) xs g =
     (case draw (Suc i + 1) g of None \<Rightarrow> None
      | Some (other, g') \<Rightarrow> shuffle_down draw i (swap (Suc i) other xs) g')"

definition shuffled :: "'a list \<Rightarrow> rng \<Rightarrow> ('a list \<times> rng) option" where
  "shuffled xs g = shuffle_down below (length xs - 1) xs g"

fun sample_from :: "(nat \<Rightarrow> 's \<Rightarrow> (nat \<times> 's) option) \<Rightarrow> nat \<Rightarrow> nat \<Rightarrow> 'a list \<Rightarrow> 's \<Rightarrow> ('a list \<times> 's) option" where
  "sample_from draw 0 i xs g = Some (xs, g)"
| "sample_from draw (Suc n) i xs g =
     (case draw (length xs - i) g of None \<Rightarrow> None
      | Some (k, g') \<Rightarrow> sample_from draw n (Suc i) (swap i (i + k) xs) g')"

definition sample :: "'a list \<Rightarrow> nat \<Rightarrow> rng \<Rightarrow> ('a list \<times> rng) option" where
  "sample xs amount g = map_option (\<lambda>(ys, g'). (take amount ys, g')) (sample_from below amount 0 xs g)"

subsection \<open>The interface of the shuffles\<close>

locale index_source =
  fixes draw :: "nat \<Rightarrow> 's \<Rightarrow> (nat \<times> 's) option"
  assumes draw_less: "draw n g = Some (k, g') \<Longrightarrow> k < n"
begin

lemma mset_swap: "i < length xs \<Longrightarrow> j < length xs \<Longrightarrow> mset (swap i j xs) = mset xs"
  unfolding swap_def by (rule mset_swap)

lemma length_swap: "length (swap i j xs) = length xs"
  by (simp add: swap_def)

lemma shuffle_permutes:
  "i < length xs \<or> i = 0 \<Longrightarrow> shuffle_down draw i xs g = Some (ys, g') \<Longrightarrow> mset ys = mset xs"
proof (induction i arbitrary: xs g)
  case (Suc i)
  then obtain k g1 where k: "draw (Suc i + 1) g = Some (k, g1)"
    "shuffle_down draw i (swap (Suc i) k xs) g1 = Some (ys, g')"
    by (auto split: option.splits)
  have "k < length xs" using draw_less [OF k(1)] Suc.prems(1) by simp
  moreover have "mset ys = mset (swap (Suc i) k xs)"
    using Suc.prems(1) by (intro Suc.IH [OF _ k(2)]) (auto simp: length_swap)
  ultimately show ?case using Suc.prems(1) by (simp add: mset_swap)
qed simp

lemma sample_permutes:
  "i + n \<le> length xs \<Longrightarrow> sample_from draw n i xs g = Some (ys, g') \<Longrightarrow> mset ys = mset xs"
proof (induction n arbitrary: i xs g)
  case (Suc n)
  then obtain k g1 where k: "draw (length xs - i) g = Some (k, g1)"
    "sample_from draw n (Suc i) (swap i (i + k) xs) g1 = Some (ys, g')"
    by (auto split: option.splits)
  have "i + k < length xs" using draw_less [OF k(1)] Suc.prems(1) by simp
  moreover have "mset ys = mset (swap i (i + k) xs)"
    using Suc.prems(1) by (intro Suc.IH [OF _ k(2)]) (auto simp: length_swap)
  ultimately show ?case using Suc.prems(1) by (simp add: mset_swap)
qed simp

text \<open>A source that always answers makes shuffles that end.\<close>

lemma shuffle_ends:
  assumes "\<And>n g. 0 < n \<Longrightarrow> n \<le> b \<Longrightarrow> draw n g \<noteq> None"
  shows "i + 1 \<le> b \<Longrightarrow> \<exists>r. shuffle_down draw i xs g = Some r"
proof (induction i arbitrary: xs g)
  case (Suc i)
  then obtain k g' where "draw (Suc i + 1) g = Some (k, g')"
    using assms [of "Suc i + 1" g] by auto
  with Suc show ?case by auto
qed simp

end

lemma below_from_less: "below_from k upper g = Some r \<Longrightarrow> fst r < upper"
  by (erule below_from.raw_induct [rotated]) (auto split: prod.splits if_splits)

interpretation pcg: index_source below
  by unfold_locales (auto simp: below_def dest: below_from_less)

subsection \<open>The output function\<close>

lemma rotation_as_shifts:
  fixes f :: "32 word"
  assumes "r < 32"
  shows "(drop_bit r (ucast f :: 64 word) OR push_bit (nat (- int r mod 32)) (ucast f)) AND mask 32 =
    ucast (word_rotr r f)"
proof (rule bit_word_eqI)
  fix n
  assume "n < LENGTH(64)"
  have m: "nat (- int r mod 32) = (if r = 0 then 0 else 32 - r)"
    using assms by (auto simp: zmod_zminus1_eq_if)
  have out: "\<not> bit f k" if "32 \<le> k" for k
    using that bit_imp_le_length [of f k] by auto
  consider "32 \<le> n" | "n < 32" "n + r < 32" | "n < 32" "32 \<le> n + r" by linarith
  then show "bit ((drop_bit r (ucast f :: 64 word) OR push_bit (nat (- int r mod 32)) (ucast f)) AND mask 32) n =
      bit (ucast (word_rotr r f) :: 64 word) n"
  proof cases
    case 1
    then show ?thesis by (simp add: bit_simps)
  next
    case 2
    then show ?thesis
      by (cases "r = 0") (auto simp: m bit_simps bit_word_rotr_iff add.commute)
  next
    case 3
    moreover have "(n + r) mod 32 = n + r - 32" using 3 assms by (simp add: mod_if)
    ultimately show ?thesis
      using assms \<open>n < LENGTH(64)\<close> out [of "r + n"]
      by (cases "r = 0") (auto simp: m bit_simps bit_word_rotr_iff)
  qed
qed

lemma unat_up: "unat (ucast (w :: 32 word) :: 64 word) = unat w"
proof -
  have "unat w < 2 ^ 32" using unsigned_less [of w] by simp
  then have "unat w < 2 ^ 64" by simp
  then show ?thesis by (simp add: unsigned_ucast_eq take_bit_nat_eq_self)
qed

text \<open>
  The output of the generator is a 32-bit rotation: \<open>next_u32\<close> rotates the 32 bits the state's
  high part is folded into to the right, by the number its five top bits give; and the state
  steps by the 64-bit linear congruence.
\<close>

theorem next_u32_rotates:
  "next_u32 g =
     (let old = rng_state g; folded = ucast (drop_bit 27 (drop_bit 18 old XOR old)) :: 32 word
      in (unat (word_rotr (unat (drop_bit 59 old)) folded),
          g\<lparr>rng_state := old * 6364136223846793005 + rng_increment g\<rparr>))"
proof -
  define old where "old = rng_state g"
  define f where "f = (ucast (drop_bit 27 (drop_bit 18 old XOR old)) :: 32 word)"
  have unat_old: "unat old < 2 ^ 64" using unsigned_less [of old] by simp
  have "unat (drop_bit 59 old) = unat old div 2 ^ 59"
    using unat_drop_bit_eq [of 59 old] by (simp only: drop_bit_eq_div)
  then have r: "unat (drop_bit 59 old) < 32"
    using less_mult_imp_div_less [of "unat old" 32 "2 ^ 59"] unat_old by simp
  have f: "drop_bit 27 (drop_bit 18 old XOR old) AND MASK_32 = ucast f"
    unfolding f_def MASK_32_def mask_eq_exp_minus_1 [symmetric]
    by (rule bit_word_eqI) (auto simp: bit_simps)
  show ?thesis
    unfolding next_u32_def Let_def old_def [symmetric] f f_def [symmetric]
    using rotation_as_shifts [OF r, of f]
    by (simp add: MASK_32_def mask_eq_exp_minus_1 unat_up)
qed

lemma next_u32_bound: "fst (next_u32 g) < 2 ^ 32"
proof -
  have "unat (w :: 32 word) < 2 ^ 32" for w using unsigned_less [of w] by simp
  then show ?thesis by (simp add: next_u32_rotates Let_def)
qed

lemma draw_bits_bound: "fst (draw_bits n acc g) < (acc + 1) * 2 ^ n"
proof (induction n acc g rule: draw_bits.induct)
  case (1 n acc g)
  show ?case
  proof (cases "n = 0")
    case False
    let ?k = "min 32 n"
    obtain u g' where u: "next_u32 g = (u, g')" by fastforce
    let ?acc = "acc * 2 ^ ?k + u div 2 ^ (32 - ?k)"
    have "u < 2 ^ ?k * 2 ^ (32 - ?k)"
      using next_u32_bound [of g] u by (simp add: power_add [symmetric])
    then have "u div 2 ^ (32 - ?k) < 2 ^ ?k" by (rule less_mult_imp_div_less)
    then have "?acc + 1 \<le> (acc + 1) * 2 ^ ?k" by simp
    then have "(?acc + 1) * 2 ^ (n - ?k) \<le> (acc + 1) * 2 ^ ?k * 2 ^ (n - ?k)" by (rule mult_right_mono) simp
    also have "(acc + 1) * 2 ^ ?k * 2 ^ (n - ?k) = (acc + 1) * (2 ^ (?k + (n - ?k)))"
      by (simp only: mult.assoc power_add)
    also have "?k + (n - ?k) = n" by simp
    finally have "(?acc + 1) * 2 ^ (n - ?k) \<le> (acc + 1) * 2 ^ n" .
    moreover have "fst (draw_bits (n - ?k) ?acc g') < (?acc + 1) * 2 ^ (n - ?k)"
      using 1 [OF False refl u [symmetric] refl] by simp
    ultimately show ?thesis
      using False u by (simp add: draw_bits.simps [of n acc g] Let_def)
  qed (simp add: draw_bits.simps)
qed

lemma bits_bound: "fst (bits n g) < 2 ^ n"
  using draw_bits_bound [of n 0 g] by (simp add: bits_def)

lemma below_power_of_two: "\<exists>c g'. below (2 ^ k) g = Some (c, g') \<and> c < 2 ^ k"
proof -
  have len: "bit_length (2 ^ k - 1) = k"
  proof (rule antisym)
    show "bit_length (2 ^ k - 1) \<le> k"
    proof (cases k)
      case (Suc j)
      have "(2::nat) ^ bit_length (2 ^ k - 1) \<le> 2 * (2 ^ k - 1)"
      proof (rule bit_length_lower)
        have "(1::nat) \<le> 2 ^ j" by simp
        then show "0 < (2::nat) ^ k - 1" unfolding Suc power_Suc by linarith
      qed
      also have "\<dots> < 2 ^ Suc k" by simp
      finally have "bit_length (2 ^ k - 1) < Suc k" by (rule power_less_imp_less_exp [rotated]) simp
      then show ?thesis by simp
    qed simp
    have "(2::nat) ^ k \<le> 2 ^ bit_length (2 ^ k - 1)"
      using bit_length_upper [of "2 ^ k - 1"] by linarith
    then show "k \<le> bit_length (2 ^ k - 1)" by simp
  qed
  show ?thesis
    using bits_bound [of k g]
    by (cases "bits k g") (simp add: below_def len below_from.simps del: One_nat_def)
qed

text \<open>
  C36. A shuffle is a permutation of its list, a sample takes the asked number of elements without
  repetition, and an integer drawn lies between its bounds, both included, whenever the drawing
  ends.
\<close>

theorem draws_correct:
  "(shuffled xs g = Some (ys, g1) \<longrightarrow> mset ys = mset xs) \<and>
   (sample xs n g = Some (zs, g2) \<and> n \<le> length xs \<longrightarrow> length zs = n \<and> mset zs \<subseteq># mset xs) \<and>
   (random_integer a b g = Some (i, g3) \<and> a \<le> b \<longrightarrow> a \<le> i \<and> i \<le> b)"
proof (intro conjI impI; (elim conjE)?)
  show "shuffled xs g = Some (ys, g1) \<Longrightarrow> mset ys = mset xs"
    unfolding shuffled_def by (rule pcg.shuffle_permutes) auto
next
  assume a: "sample xs n g = Some (zs, g2)" "n \<le> length xs"
  then obtain us where us: "sample_from below n 0 xs g = Some (us, g2)" "zs = take n us"
    by (auto simp: sample_def)
  have m: "mset us = mset xs" using a(2) by (intro pcg.sample_permutes [OF _ us(1)]) simp
  then have "length us = length xs" by (rule mset_eq_length)
  then show "length zs = n" using a(2) us(2) by simp
  have "mset us = mset (take n us) + mset (drop n us)"
    by (metis append_take_drop_id mset_append)
  then show "mset zs \<subseteq># mset xs"
    using m us(2) by (metis mset_subset_eq_add_left)
next
  assume "random_integer a b g = Some (i, g3)" "a \<le> b"
  then obtain k where "below (nat (b - a + 1)) g = Some (k, g3)" "i = a + int k"
    by (auto simp: random_integer_def)
  with pcg.draw_less [of "nat (b - a + 1)" g k g3] \<open>a \<le> b\<close> show "a \<le> i" "i \<le> b" by auto
qed

lemma draws_correct_witness:
  "\<exists>ys g1. shuffled [7, 8 :: nat] (seed 42) = Some (ys, g1) \<and> mset ys = mset [7, 8]"
proof -
  obtain c g' where "below 2 (seed 42) = Some (c, g')"
    using below_power_of_two [of 1 "seed 42"] by auto
  then have "shuffled [7, 8 :: nat] (seed 42) = Some (swap 1 c [7, 8], g')"
    by (simp add: shuffled_def numeral_2_eq_2)
  with draws_correct [of "[7, 8]" "seed 42" "swap 1 c [7, 8]" g'] show ?thesis by blast
qed

text \<open>
  A draw below a power of two never repeats: it succeeds at the first candidate. So a coin,
  or any range whose size is a power of two, always gets its number.
\<close>

theorem power_of_two_draws_end:
  assumes "maximum - minimum + 1 = 2 ^ k"
  shows "\<exists>i g'. random_integer minimum maximum g = Some (i, g') \<and> minimum \<le> i \<and> i \<le> maximum"
proof -
  have "nat (maximum - minimum + 1) = 2 ^ k" using assms by (simp add: nat_power_eq)
  then obtain c g' where c: "below (nat (maximum - minimum + 1)) g = Some (c, g')" "c < 2 ^ k"
    using below_power_of_two [of k g] by auto
  then have "int c < 2 ^ k" by (metis of_nat_less_iff of_nat_numeral of_nat_power)
  then have "minimum + int c \<le> maximum" using assms by linarith
  with c show ?thesis by (auto simp: random_integer_def)
qed

lemma power_of_two_draws_end_witness:
  "\<exists>i g'. random_integer 1 8 (seed 42) = Some (i, g') \<and> 1 \<le> i \<and> i \<le> 8"
  by (rule power_of_two_draws_end [of _ _ 3]) simp

end
