(* ===== verification/BytesOps.thy ===== *)
theory BytesOps
  imports TextOps
begin

section \<open>Byte strings\<close>

text \<open>
  \<open>bytes_ops.py\<close>: the codecs (UTF-8 of \<open>TextOps\<close>, UTF-16 in both byte orders, ASCII), access,
  hexadecimal and Base64. A codec that meets something it cannot represent gives \<open>None\<close>, where
  Python raises \<open>UnicodeError\<close>. Base64 is decoded strictly, as \<open>validate=True\<close> asks.
\<close>

definition MAX_BYTES_LENGTH :: nat where "MAX_BYTES_LENGTH = 67108864"

datatype encoding = UTF_8 | UTF_16LE | UTF_16BE | ASCII

fun require_bytes :: "source_position \<Rightarrow> sep_value \<Rightarrow> nat list result" where
  "require_bytes p (VBytes b) = Inr b"
| "require_bytes p _ = Inl (type_error p)"

definition encoding_of :: "source_position \<Rightarrow> sep_value option \<Rightarrow> encoding result" where
  "encoding_of p named =
     (case (case named of None \<Rightarrow> VStr (U ''utf-8'') | Some v \<Rightarrow> v) of
        VStr s \<Rightarrow>
          if s = U ''utf-8'' then Inr UTF_8 else if s = U ''utf-16le'' then Inr UTF_16LE
          else if s = U ''utf-16be'' then Inr UTF_16BE else if s = U ''ascii'' then Inr ASCII
          else Inl (mk_error 620 ''Unsupported encoding'' p)
      | _ \<Rightarrow> Inl (type_error p))"

subsection \<open>Codecs\<close>

text \<open>The UTF-16 code units of a character, and characters of code units.\<close>

definition utf16_units :: "uchar \<Rightarrow> nat list" where
  "utf16_units c =
     (if c < 65536 then [c] else [55296 + (c - 65536) div 1024, 56320 + (c - 65536) mod 1024])"

definition high_surrogate :: "nat \<Rightarrow> bool" where "high_surrogate u \<longleftrightarrow> 55296 \<le> u \<and> u < 56320"
definition low_surrogate :: "nat \<Rightarrow> bool" where "low_surrogate u \<longleftrightarrow> 56320 \<le> u \<and> u < 57344"

fun utf16_chars :: "nat list \<Rightarrow> ustr option" where
  "utf16_chars [] = Some []"
| "utf16_chars (u # us) =
     (if low_surrogate u then None
      else if high_surrogate u then
        (case us of [] \<Rightarrow> None
         | w # ws \<Rightarrow> if low_surrogate w
             then map_option ((#) (65536 + (u - 55296) * 1024 + (w - 56320))) (utf16_chars ws) else None)
      else map_option ((#) u) (utf16_chars us))"

definition unit_bytes :: "bool \<Rightarrow> nat \<Rightarrow> nat list" where
  "unit_bytes big u = (if big then [u div 256, u mod 256] else [u mod 256, u div 256])"

fun bytes_units :: "bool \<Rightarrow> nat list \<Rightarrow> nat list option" where
  "bytes_units big [] = Some []"
| "bytes_units big [a] = None"
| "bytes_units big (a # b # r) =
     map_option ((#) (if big then a * 256 + b else b * 256 + a)) (bytes_units big r)"

definition encode_text :: "encoding \<Rightarrow> ustr \<Rightarrow> nat list option" where
  "encode_text e s =
     (case e of
        UTF_8 \<Rightarrow> if list_all scalar_value s then Some (utf8_encode s) else None
      | UTF_16LE \<Rightarrow> if list_all scalar_value s
          then Some (concat (map (unit_bytes False) (concat (map utf16_units s)))) else None
      | UTF_16BE \<Rightarrow> if list_all scalar_value s
          then Some (concat (map (unit_bytes True) (concat (map utf16_units s)))) else None
      | ASCII \<Rightarrow> if list_all is_ascii s then Some s else None)"

definition decode_bytes :: "encoding \<Rightarrow> nat list \<Rightarrow> ustr option" where
  "decode_bytes e b =
     (case e of
        UTF_8 \<Rightarrow> utf8_decode b
      | UTF_16LE \<Rightarrow> Option.bind (bytes_units False b) utf16_chars
      | UTF_16BE \<Rightarrow> Option.bind (bytes_units True b) utf16_chars
      | ASCII \<Rightarrow> if list_all is_ascii b then Some b else None)"

subsection \<open>Hexadecimal and Base64\<close>

definition ascii_upper :: "uchar \<Rightarrow> uchar" where
  "ascii_upper c = (if 97 \<le> c \<and> c \<le> 122 then c - 32 else c)"

definition hex_encode_bytes :: "nat list \<Rightarrow> ustr" where
  "hex_encode_bytes b = map ascii_upper (concat (map hex_byte b))"

definition hex_value :: "uchar \<Rightarrow> nat option" where
  "hex_value c = (if is_digit c then Some (c - 48) else if 65 \<le> c \<and> c \<le> 70 then Some (c - 55)
     else if 97 \<le> c \<and> c \<le> 102 then Some (c - 87) else None)"

definition ascii_space :: "uchar \<Rightarrow> bool" where
  "ascii_space c \<longleftrightarrow> 9 \<le> c \<and> c \<le> 13 \<or> c = 32"

text \<open>\<open>bytes.fromhex\<close>: pairs of digits, with white space allowed between the pairs.\<close>

fun from_hex :: "ustr \<Rightarrow> nat list option" where
  "from_hex [] = Some []"
| "from_hex (c # s) =
     (if ascii_space c then from_hex s
      else case (hex_value c, s) of
        (Some a, d # s') \<Rightarrow> (case hex_value d of None \<Rightarrow> None | Some b \<Rightarrow> map_option ((#) (a * 16 + b)) (from_hex s'))
      | _ \<Rightarrow> None)"

definition b64_char :: "nat \<Rightarrow> uchar" where
  "b64_char n = (if n < 26 then 65 + n else if n < 52 then 71 + n else if n < 62 then n - 4
     else if n = 62 then 43 else 47)"

definition b64_value :: "uchar \<Rightarrow> nat option" where
  "b64_value c = (if 65 \<le> c \<and> c \<le> 90 then Some (c - 65) else if 97 \<le> c \<and> c \<le> 122 then Some (c - 71)
     else if is_digit c then Some (c + 4) else if c = 43 then Some 62 else if c = 47 then Some 63 else None)"

fun b64_encode :: "nat list \<Rightarrow> ustr" where
  "b64_encode [] = []"
| "b64_encode [a] = [b64_char (a div 4), b64_char (a mod 4 * 16), 61, 61]"
| "b64_encode [a, b] = [b64_char (a div 4), b64_char (a mod 4 * 16 + b div 16), b64_char (b mod 16 * 4), 61]"
| "b64_encode (a # b # c # r) =
     b64_char (a div 4) # b64_char (a mod 4 * 16 + b div 16) # b64_char (b mod 16 * 4 + c div 64) #
     b64_char (c mod 64) # b64_encode r"

definition b64_pad2 :: "uchar \<Rightarrow> uchar \<Rightarrow> nat list option" where
  "b64_pad2 w x =
     (case (b64_value w, b64_value x) of (Some a, Some b) \<Rightarrow> Some [a * 4 + b div 16] | _ \<Rightarrow> None)"

definition b64_pad1 :: "uchar \<Rightarrow> uchar \<Rightarrow> uchar \<Rightarrow> nat list option" where
  "b64_pad1 w x y =
     (case (b64_value w, b64_value x, b64_value y) of
        (Some a, Some b, Some c) \<Rightarrow> Some [a * 4 + b div 16, b mod 16 * 16 + c div 4] | _ \<Rightarrow> None)"

definition b64_full :: "uchar \<Rightarrow> uchar \<Rightarrow> uchar \<Rightarrow> uchar \<Rightarrow> nat list option" where
  "b64_full w x y z =
     (case (b64_value w, b64_value x, b64_value y, b64_value z) of
        (Some a, Some b, Some c, Some d) \<Rightarrow> Some [a * 4 + b div 16, b mod 16 * 16 + c div 4, c mod 4 * 64 + d]
      | _ \<Rightarrow> None)"

fun b64_decode :: "ustr \<Rightarrow> nat list option" where
  "b64_decode [] = Some []"
| "b64_decode (w # x # y # z # r) =
     (if r = [] \<and> y = 61 \<and> z = 61 then b64_pad2 w x
      else if r = [] \<and> z = 61 then b64_pad1 w x y
      else case b64_full w x y z of None \<Rightarrow> None | Some bs \<Rightarrow> map_option ((@) bs) (b64_decode r))"
| "b64_decode _ = None"

subsection \<open>Operations\<close>

definition bytes_from_string :: "source_position \<Rightarrow> sep_value \<Rightarrow> sep_value option \<Rightarrow> sep_value result" where
  "bytes_from_string p v named =
     bind_sum (require_text p v) (\<lambda>s. bind_sum (encoding_of p named) (\<lambda>e.
     case encode_text e s of None \<Rightarrow> Inl (mk_error 621 ''Encoding error'' p) | Some b \<Rightarrow> Inr (VBytes b)))"

definition string_from_bytes :: "source_position \<Rightarrow> sep_value \<Rightarrow> sep_value option \<Rightarrow> sep_value result" where
  "string_from_bytes p v named =
     bind_sum (require_bytes p v) (\<lambda>b. bind_sum (encoding_of p named) (\<lambda>e.
     case decode_bytes e b of None \<Rightarrow> Inl (mk_error 621 ''Decoding error'' p) | Some s \<Rightarrow> Inr (VStr s)))"

definition bytes_get :: "source_position \<Rightarrow> sep_value \<Rightarrow> sep_value \<Rightarrow> sep_value result" where
  "bytes_get p v index =
     bind_sum (require_bytes p v) (\<lambda>b. bind_sum (require_index p index) (\<lambda>i.
     if length b \<le> i then Inl (mk_error 622 ''Bytes index out of range'' p) else Inr (VInt (int (b ! i)))))"

definition slice_bytes :: "source_position \<Rightarrow> sep_value \<Rightarrow> sep_value \<Rightarrow> sep_value \<Rightarrow> sep_value result" where
  "slice_bytes p v start stop =
     bind_sum (require_bytes p v) (\<lambda>b. bind_sum (require_index p start) (\<lambda>i. bind_sum (require_index p stop) (\<lambda>j.
     if j < i \<or> length b < j then Inl (mk_error 623 ''Invalid bytes range'' p)
     else Inr (VBytes (drop i (take j b))))))"

definition bytes_concat :: "source_position \<Rightarrow> sep_value \<Rightarrow> sep_value \<Rightarrow> sep_value result" where
  "bytes_concat p v w =
     bind_sum (require_bytes p v) (\<lambda>a. bind_sum (require_bytes p w) (\<lambda>b.
     if MAX_BYTES_LENGTH < length a + length b then Inl (mk_error 624 ''Bytes size limit'' p)
     else Inr (VBytes (a @ b))))"

definition hex_encode :: "source_position \<Rightarrow> sep_value \<Rightarrow> sep_value result" where
  "hex_encode p v = bind_sum (require_bytes p v) (\<lambda>b. Inr (VStr (hex_encode_bytes b)))"

definition hex_decode :: "source_position \<Rightarrow> sep_value \<Rightarrow> sep_value result" where
  "hex_decode p v =
     bind_sum (require_text p v) (\<lambda>s.
     if odd (length s) then Inl (mk_error 625 ''Invalid hex'' p)
     else case from_hex s of None \<Rightarrow> Inl (mk_error 625 ''Invalid hex'' p) | Some b \<Rightarrow> Inr (VBytes b))"

definition base64_encode :: "source_position \<Rightarrow> sep_value \<Rightarrow> sep_value result" where
  "base64_encode p v = bind_sum (require_bytes p v) (\<lambda>b. Inr (VStr (b64_encode b)))"

definition base64_decode :: "source_position \<Rightarrow> sep_value \<Rightarrow> sep_value result" where
  "base64_decode p v =
     bind_sum (require_text p v) (\<lambda>s.
     case b64_decode s of None \<Rightarrow> Inl (mk_error 626 ''Invalid Base64'' p) | Some b \<Rightarrow> Inr (VBytes b))"

subsection \<open>Round trips\<close>

definition bytes_ok :: "nat list \<Rightarrow> bool" where
  "bytes_ok b \<longleftrightarrow> (\<forall>x \<in> set b. x < 256)"

lemma utf16_chars_units:
  "list_all scalar_value s \<Longrightarrow> utf16_chars (concat (map utf16_units s)) = Some s"
proof (induction s)
  case (Cons c s)
  show ?case
  proof (cases "c < 65536")
    case True
    then show ?thesis
      using Cons by (auto simp: utf16_units_def low_surrogate_def high_surrogate_def scalar_value_def)
  next
    case False
    let ?d = "c - 65536"
    have "?d < 1024 * 1024" using Cons.prems False by (auto simp: scalar_value_def)
    then have "?d div 1024 < 1024" by (simp add: less_mult_imp_div_less)
    moreover have "?d mod 1024 < 1024" by simp
    moreover have "?d div 1024 * 1024 + ?d mod 1024 = ?d" by simp
    ultimately show ?thesis
      using Cons False by (simp add: utf16_units_def low_surrogate_def high_surrogate_def)
  qed
qed simp

text \<open>
  C37. Text survives the trip through bytes: whatever the encoding, if \<open>bytes_from_string\<close> succeeds
  then \<open>string_from_bytes\<close> with the same encoding gives the text back; and it does succeed on
  every text of Unicode scalar values under the three Unicode encodings.
\<close>

theorem encoding_roundtrip:
  "(bytes_from_string p (VStr s) e = Inr v \<longrightarrow> string_from_bytes p v e = Inr (VStr s)) \<and>
   (list_all scalar_value s \<and> (\<exists>u. e = Some (VStr (U u)) \<and> u \<in> {''utf-8'', ''utf-16le'', ''utf-16be''}) \<longrightarrow>
      (\<exists>b. bytes_from_string p (VStr s) e = Inr (VBytes b)))"
proof (intro conjI impI)
  assume "bytes_from_string p (VStr s) e = Inr v"
  then obtain k b where k: "encoding_of p e = Inr k" "encode_text k s = Some b" "v = VBytes b"
    by (auto simp: bytes_from_string_def split: option.splits)
  have units: "bytes_units big (concat (map (unit_bytes big) us)) = Some us" for big us
    by (cases big; induction us) (simp_all add: unit_bytes_def)
  from k(2) have "decode_bytes k b = Some s"
    by (auto simp: encode_text_def decode_bytes_def units utf16_chars_units utf8_decode_encode
        split: encoding.splits if_splits)
  with k show "string_from_bytes p v e = Inr (VStr s)"
    by (simp add: string_from_bytes_def)
next
  assume "list_all scalar_value s \<and> (\<exists>u. e = Some (VStr (U u)) \<and> u \<in> {''utf-8'', ''utf-16le'', ''utf-16be''})"
  then show "\<exists>b. bytes_from_string p (VStr s) e = Inr (VBytes b)"
    by (auto simp: bytes_from_string_def encoding_of_def encode_text_def)
qed

lemma encoding_roundtrip_witness:
  "string_from_bytes (mk_pos [] 1 1 []) (VBytes [61, 216, 0, 222]) (Some (VStr (U ''utf-16le''))) =
     Inr (VStr [128512])"
proof -
  have "bytes_from_string (mk_pos [] 1 1 []) (VStr [128512]) (Some (VStr (U ''utf-16le''))) =
      Inr (VBytes [61, 216, 0, 222])"
    by (simp add: bytes_from_string_def encoding_of_def encode_text_def scalar_value_def utf16_units_def
        unit_bytes_def)
  with encoding_roundtrip [of "mk_pos [] 1 1 []" "[128512]" "Some (VStr (U ''utf-16le''))"
      "VBytes [61, 216, 0, 222]"] show ?thesis by blast
qed

lemma hex_value_digit:
  "n < 16 \<Longrightarrow> hex_value (ascii_upper (hex_digit n)) = Some n \<and> \<not> ascii_space (ascii_upper (hex_digit n))"
  by (auto simp: ascii_upper_def hex_digit_def hex_value_def is_digit_def ascii_space_def)

lemma from_hex_encode: "bytes_ok b \<Longrightarrow> from_hex (hex_encode_bytes b) = Some b"
proof (induction b)
  case (Cons x b)
  then have x: "x div 16 < 16" "x mod 16 < 16" "x div 16 * 16 + x mod 16 = x"
    by (auto simp: bytes_ok_def less_mult_imp_div_less)
  from Cons have "from_hex (hex_encode_bytes b) = Some b" by (auto simp: bytes_ok_def)
  moreover have "hex_encode_bytes (x # b) =
      ascii_upper (hex_digit (x div 16)) # ascii_upper (hex_digit (x mod 16)) # hex_encode_bytes b"
    by (simp add: hex_encode_bytes_def hex_byte_def)
  ultimately show ?case
    using hex_value_digit [OF x(1)] hex_value_digit [OF x(2)] x(3) by simp
qed (simp add: hex_encode_bytes_def)

lemma b64_value_char: "n < 64 \<Longrightarrow> b64_value (b64_char n) = Some n \<and> b64_char n \<noteq> 61"
  by (auto simp: b64_char_def b64_value_def is_digit_def)

lemma b64_decode_encode: "bytes_ok b \<Longrightarrow> b64_decode (b64_encode b) = Some b"
proof (induction b rule: b64_encode.induct)
  case (2 a)
  then have "a div 4 < 64" "a mod 4 * 16 < 64" "a div 4 * 4 + a mod 4 * 16 div 16 = a"
    by (auto simp: bytes_ok_def less_mult_imp_div_less)
  then show ?case by (simp add: b64_pad2_def b64_value_char)
next
  case (3 a b)
  then have s: "a < 256" "b < 256" by (auto simp: bytes_ok_def)
  have q: "b div 16 < 16" using s by (simp add: less_mult_imp_div_less)
  have "a div 4 < 64" "a mod 4 * 16 + b div 16 < 64" "b mod 16 * 4 < 64"
    using s q by (auto simp: less_mult_imp_div_less)
  moreover have "a div 4 * 4 + (a mod 4 * 16 + b div 16) div 16 = a"
    "(a mod 4 * 16 + b div 16) mod 16 * 16 + b mod 16 * 4 div 4 = b"
    using q by simp_all
  ultimately show ?case by (simp add: b64_pad1_def b64_value_char)
next
  case (4 a b c r)
  then have s: "a < 256" "b < 256" "c < 256" and IH: "b64_decode (b64_encode r) = Some r"
    by (auto simp: bytes_ok_def)
  have q: "b div 16 < 16" "c div 64 < 4" using s by (simp_all add: less_mult_imp_div_less)
  have m: "a mod 4 < 4" "b mod 16 < 16" by simp_all
  have lt: "a div 4 < 64" "a mod 4 * 16 + b div 16 < 64" "b mod 16 * 4 + c div 64 < 64" "c mod 64 < 64"
    using s q m by (auto simp: less_mult_imp_div_less)
  have "a div 4 * 4 + (a mod 4 * 16 + b div 16) div 16 = a"
    "(a mod 4 * 16 + b div 16) mod 16 * 16 + (b mod 16 * 4 + c div 64) div 4 = b"
    "(b mod 16 * 4 + c div 64) mod 4 * 64 + c mod 64 = c"
    using q by simp_all
  then show ?case
    using lt IH by (simp add: b64_full_def b64_value_char)
qed simp

text \<open>
  Bytes survive the trip through hexadecimal text and through Base64.
\<close>

theorem bytes_text_roundtrip:
  assumes "bytes_ok b"
  shows "bind_sum (hex_encode p (VBytes b)) (hex_decode p) = Inr (VBytes b) \<and>
    bind_sum (base64_encode p (VBytes b)) (base64_decode p) = Inr (VBytes b)"
proof -
  have "even (length (hex_encode_bytes b))"
    by (induction b) (simp_all add: hex_encode_bytes_def hex_byte_def)
  with assms show ?thesis
    by (simp add: hex_encode_def hex_decode_def base64_encode_def base64_decode_def
        from_hex_encode b64_decode_encode)
qed

lemma bytes_text_roundtrip_witness:
  "bind_sum (base64_encode (mk_pos [] 1 1 []) (VBytes [255, 0, 17])) (base64_decode (mk_pos [] 1 1 [])) =
     Inr (VBytes [255, 0, 17])"
  using bytes_text_roundtrip [of "[255, 0, 17]" "mk_pos [] 1 1 []"] by (simp add: bytes_ok_def)

text \<open>
  \<open>hex_decode\<close> also accepts text that is not hexadecimal: the white space that Python's
  \<open>fromhex\<close> skips between the pairs.
\<close>

theorem hex_decode_accepts_space:
  "hex_decode p (VStr (U ''41 42 '')) = Inr (VBytes [65, 66])"
  by (simp add: hex_decode_def U.simps ascii_space_def hex_value_def is_digit_def)

end
