(* ===== verification/Runtime.thy ===== *)
theory Runtime
  imports MathOps Randomness BytesOps Environment
begin

section \<open>The state of the runtime\<close>

text \<open>
  What an \<open>Interpreter\<close> of \<open>interpreter.py\<close> holds (a \<open>runtime\<close>: one for the main program and one
  for every imported module, addressed by its number) and what all of them share (the \<open>world\<close>).
  An environment is the globals of a runtime, or one scope above them: function calls and routes
  always build on the globals. Exceptions are the language's errors, the two control signals, and
  \<open>Crash\<close>, a Python exception that no part of the source catches.

  Code outside the model is the \<open>platform\<close>: the clock, the builtins of the modules that talk to
  files, processes and networks, the functions of an embedding host, transactions, the members of
  host handles, the module files. It works on a state of its own (\<open>w_rest\<close>).
\<close>

datatype exn = Sep sep_error | Returned sep_value | Http_returned nat | Crash

record logic =
  lg_position :: source_position
  lg_parameters :: "ustr list"
  lg_types :: "(ustr \<times> ustr \<times> type_spec option) list"
  lg_body :: "stmt list"

type_synonym signature = "(ustr \<times> type_spec option) list"

record runtime =
  rt_globals :: scope
  rt_local :: "scope option"
  rt_logics :: "(ustr \<times> logic) list"
  rt_errors :: "ustr list"
  rt_routes :: "((ustr \<times> ustr) \<times> stmt list) list"
  rt_signatures :: "(ustr \<times> signature) list"
  rt_random :: rng
  rt_script :: "ustr option"

record 'w world =
  w_runtimes :: "runtime list"
  w_cache :: "(ustr \<times> nat \<times> ustr list) list"
  w_stack :: "ustr list"
  w_out :: ustr
  w_err :: ustr
  w_in :: ustr
  w_ticks :: nat
  w_rest :: 'w

type_synonym ('w, 'a) comp = "('w world, exn, 'a) sem"
type_synonym named_arguments = "(ustr \<times> sep_value) list"

record 'w platform =
  p_host :: host
  p_unicode :: unicode_db
  p_clock :: "nat \<Rightarrow> int"
  p_entropy :: "nat \<Rightarrow> int"
  p_builtins :: "(ustr \<times> nat \<times> nat \<times> ustr list option) list"
  p_external :: "ustr \<Rightarrow> sep_value list \<Rightarrow> named_arguments \<Rightarrow> source_position \<Rightarrow> 'w \<Rightarrow> (exn + sep_value) \<times> 'w"
  p_functions :: "ustr list"
  p_function :: "ustr \<Rightarrow> sep_value list \<Rightarrow> named_arguments \<Rightarrow> source_position \<Rightarrow> 'w \<Rightarrow> (exn + sep_value) \<times> 'w"
  p_transaction :: "ustr \<Rightarrow> sep_value \<Rightarrow> source_position \<Rightarrow> 'w \<Rightarrow> (exn + sep_value) \<times> 'w"
  p_member :: "host_kind \<Rightarrow> nat \<Rightarrow> ustr \<Rightarrow> source_position \<Rightarrow> 'w \<Rightarrow> (exn + sep_value) \<times> 'w"
  p_match :: "nat \<Rightarrow> ustr \<times> sep_value list"
  p_route_ok :: "ustr \<Rightarrow> bool"
  p_may_import :: "source_position \<Rightarrow> unit result"
  p_import_path :: "ustr option \<Rightarrow> source_position \<Rightarrow> ustr \<Rightarrow> ustr result"
  p_source :: "ustr \<Rightarrow> ustr option"
  p_load :: "ustr \<Rightarrow> ustr \<Rightarrow> program result"

abbreviation p_tz :: "'w platform \<Rightarrow> tz_db" where "p_tz pf \<equiv> h_tz (p_host pf)"

subsection \<open>Steps on the state\<close>

definition fail :: "sep_error \<Rightarrow> ('w, 'a) comp" where
  "fail e = raise (Sep e)"

definition lift :: "'a result \<Rightarrow> ('w, 'a) comp" where
  "lift = lift_result Sep"

text \<open>A result that may also be a crash.\<close>

definition lift_partial :: "'a option result \<Rightarrow> ('w, 'a) comp" where
  "lift_partial r = (case r of Inl e \<Rightarrow> fail e | Inr None \<Rightarrow> raise Crash | Inr (Some a) \<Rightarrow> ret a)"

text \<open>A step of the platform.\<close>

definition outside :: "('w \<Rightarrow> (exn + 'a) \<times> 'w) \<Rightarrow> ('w, 'a) comp" where
  "outside f w =
     (case f (w_rest w) of (r, t) \<Rightarrow>
        ((case r of Inl x \<Rightarrow> Raised x | Inr a \<Rightarrow> Done a), w\<lparr>w_rest := t\<rparr>))"

text \<open>A reference to an interpreter is the number of one; there is no other (\<open>Crash\<close>).\<close>

definition runtime_of :: "nat \<Rightarrow> ('w, runtime) comp" where
  "runtime_of r w = (if r < length (w_runtimes w) then (Done (w_runtimes w ! r), w) else (Raised Crash, w))"

definition set_runtime :: "nat \<Rightarrow> (runtime \<Rightarrow> runtime) \<Rightarrow> ('w, unit) comp" where
  "set_runtime r f = modifies (\<lambda>w. w\<lparr>w_runtimes := (w_runtimes w)[r := f (w_runtimes w ! r)]\<rparr>)"

text \<open>The chain of scopes of \<open>self.environment\<close>, and a step on its innermost scope.\<close>

definition chain :: "runtime \<Rightarrow> environment" where
  "chain rt = (case rt_local rt of None \<Rightarrow> [rt_globals rt] | Some s \<Rightarrow> [s, rt_globals rt])"

definition set_chain :: "environment \<Rightarrow> runtime \<Rightarrow> runtime" where
  "set_chain ss rt =
     (case ss of [g] \<Rightarrow> rt\<lparr>rt_globals := g\<rparr> | [s, g] \<Rightarrow> rt\<lparr>rt_local := Some s, rt_globals := g\<rparr> | _ \<Rightarrow> rt)"

definition on_scope :: "nat \<Rightarrow> (scope \<Rightarrow> scope result) \<Rightarrow> ('w, unit) comp" where
  "on_scope r f =
     andthen (runtime_of r) (\<lambda>rt.
     case chain rt of
       s # ss \<Rightarrow> andthen (lift (f s)) (\<lambda>s'. set_runtime r (set_chain (s' # ss)))
     | [] \<Rightarrow> ret ())"

definition write_out :: "ustr \<Rightarrow> ('w, unit) comp" where
  "write_out t = modifies (\<lambda>w. w\<lparr>w_out := w_out w @ t\<rparr>)"

definition write_err :: "ustr \<Rightarrow> ('w, unit) comp" where
  "write_err t = modifies (\<lambda>w. w\<lparr>w_err := w_err w @ t\<rparr>)"

text \<open>\<open>current_time\<close>: the clock is read once, in milliseconds.\<close>

definition current_time :: "'w platform \<Rightarrow> ('w, int) comp" where
  "current_time pf w = (Done (p_clock pf (w_ticks w)), w\<lparr>w_ticks := Suc (w_ticks w)\<rparr>)"

text \<open>A draw from the random numbers of a runtime; a draw that never ends has no result.\<close>

definition draw :: "nat \<Rightarrow> (rng \<Rightarrow> ('a \<times> rng) option) \<Rightarrow> ('w, 'a) comp" where
  "draw r f =
     andthen (runtime_of r) (\<lambda>rt.
     case f (rt_random rt) of
       None \<Rightarrow> no_fuel
     | Some (a, g) \<Rightarrow> andthen (set_runtime r (\<lambda>rt. rt\<lparr>rt_random := g\<rparr>)) (\<lambda>_. ret a))"

lemma chain_set_chain:
  "length ss = length (chain rt) \<Longrightarrow> chain (set_chain ss rt) = ss"
  by (auto simp: chain_def set_chain_def length_Suc_conv split: option.splits list.splits)

end
