(* ===== verification/Builtins.thy ===== *)
theory Builtins
  imports Runtime
begin

section \<open>The builtin functions\<close>

text \<open>
  The rest of \<open>builtins.py\<close>: functions on dates, random numbers and input, error constructors, and
  the table \<open>BUILTINS\<close> with the arities. A \<open>BuiltinFunction\<close> accepts no named argument, a
  \<open>UtilityFunction\<close> the ones it lists. The table is searched from its end, since later entries
  of the dictionary replace earlier ones; the builtins of the modules that are not modelled come
  from the platform, with their names and arities, and run outside.
\<close>

subsection \<open>Dates\<close>

definition require_string :: "source_position \<Rightarrow> sep_value \<Rightarrow> ustr result" where
  "require_string = require_text"

text \<open>A zone given as a value or as its text.\<close>

definition zone_argument :: "tz_db \<Rightarrow> source_position \<Rightarrow> sep_value \<Rightarrow> timezone result" where
  "zone_argument db p v =
     (case v of VStr s \<Rightarrow> parse_timezone db p s | VZone z \<Rightarrow> Inr z | _ \<Rightarrow> Inl (type_error p))"

text \<open>
  Whether a \<open>datetime\<close> can be made of integers: \<open>None\<close> is the \<open>OverflowError\<close> of an integer that
  is no C int, which the source does not catch.
\<close>

definition c_int :: "int \<Rightarrow> bool" where
  "c_int i \<longleftrightarrow> - (2 ^ 31) \<le> i \<and> i < 2 ^ 31"

definition calendar_fields :: "int list \<Rightarrow> int option option" where
  "calendar_fields is =
     (if \<not> list_all c_int is then None
      else if \<not> list_all (\<lambda>i. 0 \<le> i) is then Some None
      else case map nat is @ replicate (6 - length is) 0 of
        [y, mo, d, h, mi, s] \<Rightarrow>
          Some (if date_ok y mo d \<and> h \<le> 23 \<and> mi \<le> 59 \<and> s \<le> 59 then Some (millis_of y mo d h mi s 0) else None)
      | _ \<Rightarrow> Some None)"

definition datetime_construct ::
  "tz_db \<Rightarrow> source_position \<Rightarrow> sep_value list \<Rightarrow> named_arguments \<Rightarrow> sep_value option result" where
  "datetime_construct db p arguments named =
     (case arguments of
        [v] \<Rightarrow>
          if named \<noteq> [] then Inl (mk_error 207 ''Invalid datetime arguments'' p)
          else bind_sum (require_string p v) (\<lambda>s. bind_sum (parse_datetime db p s) (\<lambda>d. Inr (Some d)))
      | _ \<Rightarrow>
          if length arguments \<noteq> 6 then Inl (mk_error 207 ''Argument count mismatch'' p)
          else if \<not> list_all is_int arguments then Inl (type_error p)
          else bind_sum (case map_of named (U ''timezone'') of None \<Rightarrow> Inl (type_error p) | Some z \<Rightarrow> zone_argument db p z)
            (\<lambda>z. case calendar_fields (map int_of arguments) of
               None \<Rightarrow> Inr None
             | Some None \<Rightarrow> Inl (mk_error 401 ''Invalid datetime fields'' p)
             | Some (Some t) \<Rightarrow> bind_sum (datetime_from_local db p (VLocal t) (VZone z)) (\<lambda>d. Inr (Some d))))"

definition datetime_valid :: "source_position \<Rightarrow> sep_value list \<Rightarrow> sep_value option result" where
  "datetime_valid p arguments =
     (if \<not> list_all is_int arguments then Inl (type_error p)
      else Inr (case calendar_fields (map int_of arguments) of None \<Rightarrow> None | Some r \<Rightarrow> Some (VBool (r \<noteq> None))))"

definition datetime_in_timezone :: "source_position \<Rightarrow> sep_value \<Rightarrow> sep_value \<Rightarrow> sep_value result" where
  "datetime_in_timezone p v zone =
     (case (v, zone) of (VDatetime t _, VZone z) \<Rightarrow> Inr (VDatetime t z) | _ \<Rightarrow> Inl (type_error p))"

definition datetime_now :: "'w platform \<Rightarrow> source_position \<Rightarrow> sep_value list \<Rightarrow> ('w, sep_value) comp" where
  "datetime_now pf p arguments =
     andthen (lift (case arguments of [] \<Rightarrow> Inr Zone_UTC | v # _ \<Rightarrow> zone_argument (p_tz pf) p v)) (\<lambda>z.
     andthen (current_time pf) (\<lambda>t. ret (VDatetime t z)))"

text \<open>The calendar fields of an instant in its zone; \<open>None\<close> is a local time beyond the calendar.\<close>

definition local_parts :: "tz_db \<Rightarrow> int \<Rightarrow> timezone \<Rightarrow> ((nat \<times> nat \<times> nat) \<times> (nat \<times> nat \<times> nat \<times> nat)) option" where
  "local_parts db t z =
     (let u = t + instant_offset db z t in if time_ok u then Some (parts_of u) else None)"

definition offset_text :: "int \<Rightarrow> ustr" where
  "offset_text ms =
     (let minutes = ms div 60000; m = nat \<bar>minutes\<bar> in
      if minutes = 0 then U ''Z''
      else (if 0 \<le> minutes then U ''+'' else U ''-'') @ pad 2 (m div 60) @ U '':'' @ pad 2 (m mod 60))"

definition format_tokens :: "(nat \<times> nat \<times> nat) \<times> (nat \<times> nat \<times> nat \<times> nat) \<Rightarrow> int \<Rightarrow> (ustr \<times> ustr) list" where
  "format_tokens parts ms =
     (case parts of ((y, mo, d), (h, mi, s, milli)) \<Rightarrow>
        [(U ''yyyy'', pad 4 y), (U ''SSS'', pad 3 milli), (U ''XXX'', offset_text ms), (U ''MM'', pad 2 mo),
         (U ''dd'', pad 2 d), (U ''HH'', pad 2 h), (U ''mm'', pad 2 mi), (U ''ss'', pad 2 s)])"

text \<open>The text of a pattern; \<open>None\<close> is a letter that starts no token.\<close>

function fill_pattern :: "(uchar \<Rightarrow> bool) \<Rightarrow> (ustr \<times> ustr) list \<Rightarrow> ustr \<Rightarrow> ustr option" where
  "fill_pattern alpha tokens pattern =
     (case pattern of
        [] \<Rightarrow> Some []
      | c # rest \<Rightarrow>
          (case find (\<lambda>(k, v). k \<noteq> [] \<and> starts_with pattern k) tokens of
             Some (k, v) \<Rightarrow> map_option ((@) v) (fill_pattern alpha tokens (drop (length k) pattern))
           | None \<Rightarrow> if alpha c then None else map_option ((#) c) (fill_pattern alpha tokens rest)))"
  by pat_completeness auto
termination
  by (relation "measure (\<lambda>(_, _, s). length s)") (auto simp: find_Some_iff)

declare fill_pattern.simps [simp del]

definition datetime_format :: "host \<Rightarrow> source_position \<Rightarrow> sep_value \<Rightarrow> sep_value \<Rightarrow> sep_value option result" where
  "datetime_format h p v pattern =
     (case (v, pattern) of
        (VDatetime t z, VStr s) \<Rightarrow>
          (case local_parts (h_tz h) t z of
             None \<Rightarrow> Inr None
           | Some parts \<Rightarrow>
               (case fill_pattern (h_is_alpha h) (format_tokens parts (instant_offset (h_tz h) z t)) s of
                  None \<Rightarrow> Inl (mk_error 410 ''Invalid datetime format'' p)
                | Some r \<Rightarrow> Inr (Some (VStr r))))
      | _ \<Rightarrow> Inl (type_error p))"

definition unix_milliseconds_from_datetime :: "source_position \<Rightarrow> sep_value \<Rightarrow> sep_value result" where
  "unix_milliseconds_from_datetime p v = (case v of VDatetime t _ \<Rightarrow> Inr (VInt t) | _ \<Rightarrow> Inl (type_error p))"

definition seconds_of :: "int \<Rightarrow> sep_value option" where
  "seconds_of ms = (if ms mod 1000 = 0 then Some (VInt (ms div 1000)) else num_div (VInt ms) (VInt 1000))"

definition unix_seconds_from_datetime :: "source_position \<Rightarrow> sep_value \<Rightarrow> sep_value option result" where
  "unix_seconds_from_datetime p v =
     (case v of VDatetime t _ \<Rightarrow> Inr (seconds_of t) | _ \<Rightarrow> Inl (type_error p))"

definition unix_time :: "'w platform \<Rightarrow> source_position \<Rightarrow> sep_value list \<Rightarrow> ('w, sep_value) comp" where
  "unix_time pf p arguments =
     (case arguments of
        v # _ \<Rightarrow> lift_partial (unix_seconds_from_datetime p v)
      | [] \<Rightarrow> andthen (current_time pf) (\<lambda>t. lift_partial (unix_seconds_from_datetime p (VDatetime t Zone_UTC))))"

definition datetime_from_unix_seconds :: "source_position \<Rightarrow> sep_value \<Rightarrow> sep_value \<Rightarrow> sep_value option result" where
  "datetime_from_unix_seconds p seconds zone =
     (case zone of
        VZone _ \<Rightarrow>
          if \<not> is_number seconds then Inl (type_error p)
          else (case decimal_of seconds of
             DNaN \<Rightarrow> Inl (mk_error 409 ''Temporal precision loss'' p)
           | DInf _ \<Rightarrow> Inr None
           | DFin s q k \<Rightarrow>
               (case integral_part (round28 (q * 1000 * 10 ^ nat (- k)) (10 ^ nat k)) of
                  None \<Rightarrow> Inl (mk_error 409 ''Temporal precision loss'' p)
                | Some m \<Rightarrow>
                    bind_sum (from_unix_milliseconds p (VInt (if s then - int m else int m)) zone)
                      (\<lambda>d. Inr (Some d))))
      | _ \<Rightarrow> Inl (type_error p))"

definition datetime_from_unix :: "tz_db \<Rightarrow> source_position \<Rightarrow> sep_value list \<Rightarrow> sep_value option result" where
  "datetime_from_unix db p arguments =
     bind_sum (case drop 1 arguments of
        [] \<Rightarrow> Inr (VZone Zone_UTC)
      | VStr s # _ \<Rightarrow> bind_sum (parse_timezone db p s) (\<lambda>z. Inr (VZone z))
      | zone # _ \<Rightarrow> Inr zone)
     (datetime_from_unix_seconds p (hd arguments))"

definition datetime_offset :: "tz_db \<Rightarrow> source_position \<Rightarrow> sep_value \<Rightarrow> sep_value result" where
  "datetime_offset db p v =
     (case v of VDatetime t z \<Rightarrow> Inr (VDuration (instant_offset db z t)) | _ \<Rightarrow> Inl (type_error p))"

definition datetime_timezone :: "source_position \<Rightarrow> sep_value \<Rightarrow> sep_value result" where
  "datetime_timezone p v = (case v of VDatetime _ z \<Rightarrow> Inr (VZone z) | _ \<Rightarrow> Inl (type_error p))"

definition weekday :: "nat \<Rightarrow> nat" where
  \<comment> \<open>\<open>isoweekday\<close> of a day number: the first day of year 1 was a Monday\<close>
  "weekday n = (n + 6) mod 7 + 1"

definition date_field :: "string \<Rightarrow> (nat \<times> nat \<times> nat) \<times> (nat \<times> nat \<times> nat \<times> nat) \<Rightarrow> nat" where
  "date_field name parts =
     (case parts of ((y, mo, d), (h, mi, s, milli)) \<Rightarrow>
        if name = ''year'' then y else if name = ''month'' then mo else if name = ''day'' then d
        else if name = ''hour'' then h else if name = ''minute'' then mi else if name = ''second'' then s
        else if name = ''millisecond'' then milli else weekday (ordinal y mo d))"

definition datetime_field :: "tz_db \<Rightarrow> string \<Rightarrow> source_position \<Rightarrow> sep_value \<Rightarrow> sep_value option result" where
  "datetime_field db name p v =
     (case v of
        VDatetime t z \<Rightarrow> Inr (map_option (\<lambda>parts. VInt (int (date_field name parts))) (local_parts db t z))
      | _ \<Rightarrow> Inl (type_error p))"

definition duration_milliseconds :: "source_position \<Rightarrow> sep_value \<Rightarrow> sep_value result" where
  "duration_milliseconds p v = (case v of VDuration ms \<Rightarrow> Inr (VInt ms) | _ \<Rightarrow> Inl (type_error p))"

subsection \<open>Random numbers\<close>

definition random_seed :: "nat \<Rightarrow> source_position \<Rightarrow> sep_value \<Rightarrow> ('w, sep_value) comp" where
  "random_seed r p v =
     (case v of
        VInt i \<Rightarrow> andthen (set_runtime r (\<lambda>rt. rt\<lparr>rt_random := seed i\<rparr>)) (\<lambda>_. ret VVoid)
      | _ \<Rightarrow> fail (type_error p))"

definition random_number :: "nat \<Rightarrow> ('w, sep_value) comp" where
  "random_number r = andthen (draw r (\<lambda>g. Some (draw_number g))) (\<lambda>x. ret (VFlt x))"

definition random_int :: "nat \<Rightarrow> source_position \<Rightarrow> sep_value \<Rightarrow> sep_value \<Rightarrow> ('w, sep_value) comp" where
  "random_int r p minimum maximum =
     (case (minimum, maximum) of
        (VInt i, VInt j) \<Rightarrow>
          if j < i then fail (mk_error 501 ''Invalid random range'' p)
          else andthen (draw r (random_integer i j)) (\<lambda>k. ret (VInt k))
      | _ \<Rightarrow> fail (type_error p))"

text \<open>\<open>floating\<close>: \<open>minimum + (maximum - minimum) * number()\<close>, one step below the end if it got there.\<close>

definition floating :: "host \<Rightarrow> sep_value \<Rightarrow> sep_value \<Rightarrow> b64 \<Rightarrow> sep_value option" where
  "floating h minimum maximum x =
     Option.bind (Option.bind (num_sub maximum minimum) (\<lambda>d. Option.bind (num_mul d (VFlt x)) (num_add minimum)))
       (\<lambda>v. if num_less_eq maximum v then h_libm2 h (U ''nextafter'') maximum minimum else Some v)"

definition random_float ::
  "host \<Rightarrow> nat \<Rightarrow> source_position \<Rightarrow> sep_value \<Rightarrow> sep_value \<Rightarrow> ('w, sep_value) comp" where
  "random_float h r p minimum maximum =
     (if \<not> is_number minimum \<or> \<not> is_number maximum then fail (type_error p)
      else if \<not> num_less minimum maximum then fail (mk_error 501 ''Invalid random range'' p)
      else andthen (draw r (\<lambda>g. Some (draw_number g))) (\<lambda>x.
           lift_partial (Inr (floating h minimum maximum x))))"

definition random_bool :: "nat \<Rightarrow> ('w, sep_value) comp" where
  "random_bool r = andthen (draw r (\<lambda>g. Some (next_u32 g))) (\<lambda>u. ret (VBool (odd u)))"

definition random_pick :: "nat \<Rightarrow> source_position \<Rightarrow> sep_value \<Rightarrow> ('w, sep_value) comp" where
  "random_pick r p v =
     andthen (lift (require_list p v)) (\<lambda>vs.
     if vs = [] then fail (mk_error 502 ''Empty random population'' p)
     else andthen (draw r (below (length vs))) (\<lambda>i. ret (vs ! i)))"

definition random_shuffle :: "nat \<Rightarrow> source_position \<Rightarrow> sep_value \<Rightarrow> ('w, sep_value) comp" where
  "random_shuffle r p v =
     andthen (lift (require_list p v)) (\<lambda>vs. andthen (draw r (shuffled vs)) (\<lambda>ws. ret (VList ws)))"

definition random_sample :: "nat \<Rightarrow> source_position \<Rightarrow> sep_value \<Rightarrow> sep_value \<Rightarrow> ('w, sep_value) comp" where
  "random_sample r p v amount =
     andthen (lift (require_list p v)) (\<lambda>vs. andthen (lift (require_int p amount)) (\<lambda>i.
     if i < 0 \<or> int (length vs) < i then fail (mk_error 503 ''Invalid sample size'' p)
     else andthen (draw r (sample vs (nat i))) (\<lambda>ws. ret (VList ws))))"

text \<open>The secure functions check their arguments; the secret numbers come from the platform.\<close>

definition MAX_SECURE_LENGTH :: int where "MAX_SECURE_LENGTH = 1048576"

definition secure_length :: "source_position \<Rightarrow> sep_value \<Rightarrow> int result" where
  "secure_length p v =
     bind_sum (require_int p v) (\<lambda>i.
     if i < 0 \<or> MAX_SECURE_LENGTH < i then Inl (mk_error 504 ''Invalid secure random length'' p) else Inr i)"

definition secure_text ::
  "'w platform \<Rightarrow> string \<Rightarrow> source_position \<Rightarrow> sep_value list \<Rightarrow> ('w, sep_value) comp" where
  "secure_text pf name p arguments =
     andthen (lift (secure_length p (arguments ! 0))) (\<lambda>_. outside (p_external pf (U name) arguments [] p))"

definition secure_random_integer ::
  "'w platform \<Rightarrow> string \<Rightarrow> source_position \<Rightarrow> sep_value list \<Rightarrow> ('w, sep_value) comp" where
  "secure_random_integer pf name p arguments =
     andthen (lift (require_int p (arguments ! 0))) (\<lambda>i. andthen (lift (require_int p (arguments ! 1))) (\<lambda>j.
     if j < i then fail (mk_error 501 ''Invalid secure random range'' p)
     else outside (p_external pf (U name) arguments [] p)))"

subsection \<open>Input and errors\<close>

text \<open>\<open>readline\<close>, and \<open>rstrip\<close> of the line's end.\<close>

definition read_line :: "ustr \<Rightarrow> ustr \<times> ustr" where
  "read_line s =
     (let l = takeWhile (\<lambda>c. c \<noteq> 10) s; n = (if length l < length s then Suc (length l) else length l)
      in (take n s, drop n s))"

definition strip_line_end :: "ustr \<Rightarrow> ustr" where
  "strip_line_end s = rev (dropWhile (\<lambda>c. c = 10 \<or> c = 13) (rev s))"

definition builtin_input :: "source_position \<Rightarrow> sep_value list \<Rightarrow> ('w, sep_value) comp" where
  "builtin_input p arguments =
     andthen (lift (case arguments of [] \<Rightarrow> Inr [] | v # _ \<Rightarrow> require_string p v)) (\<lambda>prompt.
     andthen (write_out prompt) (\<lambda>_.
     andthen (reads w_in) (\<lambda>s.
     let (l, rest) = read_line s in
     andthen (modifies (\<lambda>w. w\<lparr>w_in := rest\<rparr>)) (\<lambda>_.
     if l = [] then fail (mk_error 724 ''I/O error'' p) else ret (VStr (strip_line_end l))))))"

definition error_constructor :: "ustr \<Rightarrow> source_position \<Rightarrow> sep_value \<Rightarrow> sep_value result" where
  "error_constructor category p v = bind_sum (require_string p v) (\<lambda>s. Inr (VErr category s))"

definition ERROR_NAMES :: "string list" where
  "ERROR_NAMES =
     [''runtime_error'', ''type_error'', ''value_error'', ''index_error'', ''io_error'',
      ''parse_error'', ''import_error'', ''regex_error'', ''glob_error'', ''argument_error'', ''permission_error'',
      ''auth_error'', ''secret_error'', ''oauth_error'', ''crypto_error'', ''crypto_authentication_error'',
      ''mail_error'', ''mail_address_error'', ''mail_attachment_error'', ''mail_provider_error'',
      ''mail_connection_error'', ''mail_authentication_error'', ''mail_send_error'',
      ''yaml_error'', ''yaml_parse_error'', ''yaml_encode_error'', ''yaml_type_error'', ''yaml_limit_error'',
      ''xml_error'', ''xml_parse_error'', ''xml_model_error'', ''xml_security_error'', ''xml_limit_error'',
      ''xml_path_error'', ''xml_escape_error'', ''cookie_error'',
      ''db_connection_error'', ''db_auth_error'', ''db_query_error'', ''db_constraint_error'',
      ''db_timeout_error'', ''db_transaction_error'', ''db_driver_error'',
      ''board_error'', ''pin_error'', ''peripheral_mapping_error'', ''embedded_backend_error'',
      ''network_error'', ''network_dns_error'', ''network_interface_error'', ''network_connection_error'',
      ''network_timeout_error'', ''network_limit_error'', ''network_closed_error'', ''network_protocol_error'',
      ''network_operation_unavailable'', ''network_address_error'', ''network_service_error'',
      ''dhcp_server_error'', ''dns_server_error'', ''wifi_access_point_error'']"

subsection \<open>The table\<close>

type_synonym 'w implementation =
  "nat \<Rightarrow> source_position \<Rightarrow> sep_value list \<Rightarrow> named_arguments \<Rightarrow> ('w, sep_value) comp"

text \<open>An entry: the name, the least and the greatest number of arguments, the named arguments
  (\<open>None\<close> for a \<open>BuiltinFunction\<close>), and what it does.\<close>

type_synonym 'w entry = "ustr \<times> nat \<times> nat \<times> ustr list option \<times> 'w implementation"

definition fn1 :: "string \<Rightarrow> (source_position \<Rightarrow> sep_value \<Rightarrow> sep_value result) \<Rightarrow> 'w entry" where
  "fn1 name f = (U name, 1, 1, None, \<lambda>r p args named. lift (f p (args ! 0)))"

definition fn2 :: "string \<Rightarrow> (source_position \<Rightarrow> sep_value \<Rightarrow> sep_value \<Rightarrow> sep_value result) \<Rightarrow> 'w entry" where
  "fn2 name f = (U name, 2, 2, None, \<lambda>r p args named. lift (f p (args ! 0) (args ! 1)))"

definition fn3 ::
  "string \<Rightarrow> (source_position \<Rightarrow> sep_value \<Rightarrow> sep_value \<Rightarrow> sep_value \<Rightarrow> sep_value result) \<Rightarrow> 'w entry" where
  "fn3 name f = (U name, 3, 3, None, \<lambda>r p args named. lift (f p (args ! 0) (args ! 1) (args ! 2)))"

definition fns ::
  "string \<Rightarrow> nat \<Rightarrow> nat \<Rightarrow> (source_position \<Rightarrow> sep_value list \<Rightarrow> sep_value result) \<Rightarrow> 'w entry" where
  "fns name lo hi f = (U name, lo, hi, None, \<lambda>r p args named. lift (f p args))"

text \<open>Functions that may crash, and functions with effects.\<close>

definition part1 :: "string \<Rightarrow> (source_position \<Rightarrow> sep_value \<Rightarrow> sep_value option result) \<Rightarrow> 'w entry" where
  "part1 name f = (U name, 1, 1, None, \<lambda>r p args named. lift_partial (f p (args ! 0)))"

definition part2 ::
  "string \<Rightarrow> (source_position \<Rightarrow> sep_value \<Rightarrow> sep_value \<Rightarrow> sep_value option result) \<Rightarrow> 'w entry" where
  "part2 name f = (U name, 2, 2, None, \<lambda>r p args named. lift_partial (f p (args ! 0) (args ! 1)))"

definition fnx ::
  "string \<Rightarrow> nat \<Rightarrow> nat \<Rightarrow> (nat \<Rightarrow> source_position \<Rightarrow> sep_value list \<Rightarrow> ('w, sep_value) comp) \<Rightarrow> 'w entry" where
  "fnx name lo hi f = (U name, lo, hi, None, \<lambda>r p args named. f r p args)"

text \<open>A \<open>UtilityFunction\<close> with the given named arguments.\<close>

definition utility :: "ustr list \<Rightarrow> 'w entry \<Rightarrow> 'w entry" where
  "utility names e = (case e of (name, lo, hi, _, f) \<Rightarrow> (name, lo, hi, Some names, f))"

definition TYPE_BUILTINS :: "'w platform \<Rightarrow> 'w entry list" where
  "TYPE_BUILTINS pf =
     [fn1 ''len'' text_len, fn1 ''length'' text_len, fn1 ''is_empty'' text_is_empty,
      fn1 ''type'' (\<lambda>p v. Inr (VStr (value_type_name v))), fn1 ''type_of'' (\<lambda>p v. Inr (VStr (value_type_name v))),
      fn1 ''is_number'' (\<lambda>p. value_is_type ''number''), fn1 ''is_string'' (\<lambda>p. value_is_type ''string''),
      fn1 ''is_boolean'' (\<lambda>p. value_is_type ''boolean''), fn1 ''is_list'' (\<lambda>p. value_is_type ''list''),
      fn1 ''is_object'' (\<lambda>p. value_is_type ''object''), fn1 ''is_bytes'' (\<lambda>p. value_is_type ''bytes''),
      fn1 ''is_datetime'' (\<lambda>p. value_is_type ''datetime''), fn1 ''is_duration'' (\<lambda>p. value_is_type ''duration''),
      fn1 ''is_secret'' (\<lambda>p. value_is_type ''secret'')]"

definition NUMBER_BUILTINS :: "'w platform \<Rightarrow> 'w entry list" where
  "NUMBER_BUILTINS pf =
     (let h = p_host pf; libm = (\<lambda>name. numeric_unary (libm_unary h name)) in
     [fn1 ''abs'' builtin_abs, fn1 ''ceil'' (numeric_unary num_ceil), fn1 ''floor'' (numeric_unary num_floor),
      fns ''min'' 1 64 (builtin_choose min_number), fns ''max'' 1 64 (builtin_choose max_number),
      fn1 ''sqrt'' (libm ''sqrt''), fn1 ''sin'' (libm ''sin''), fn1 ''cos'' (libm ''cos''), fn1 ''tan'' (libm ''tan''),
      fn1 ''log'' (libm ''log''), fn1 ''log10'' (libm ''log10''), fn1 ''log2'' (libm ''log2''), fn1 ''exp'' (libm ''exp''),
      fn2 ''pow'' (builtin_pow h), fns ''range'' 1 3 number_range, fns ''number_range'' 1 3 number_range,
      fn1 ''number'' to_number, fn1 ''string'' (to_string h), fn1 ''boolean'' to_boolean,
      fnx ''input'' 0 1 (\<lambda>r. builtin_input)])"

definition TEXT_BUILTINS :: "'w platform \<Rightarrow> 'w entry list" where
  "TEXT_BUILTINS pf =
     (let h = p_host pf in
     [fn1 ''trim'' text_trim, fn1 ''upper'' (text_upper h), fn1 ''lower'' (text_lower h), fn2 ''contains'' text_contains,
      fn2 ''starts_with'' text_starts_with, fn2 ''ends_with'' text_ends_with, fn2 ''split'' text_split,
      fn2 ''join'' text_join, fn3 ''replace'' text_replace,
      fns ''substring'' 2 3 (\<lambda>p args. text_substring p (args ! 0) (tl args)),
      fn2 ''char_at'' char_at, fn2 ''clip_utf8'' clip_utf8, fn2 ''find_all'' text_find_all,
      fn2 ''compare'' (text_compare (\<lambda>s. s)), fn2 ''compare_ignore_case'' (text_compare (h_casefold h)),
      fn2 ''substring_after'' (search_part True), fn2 ''substring_before'' (search_part False),
      fn2 ''count_occurrences'' count_occurrences,
      fns ''format'' 1 64 (\<lambda>p args. text_format h p (hd args) (tl args)),
      fn2 ''repeat'' text_repeat,
      fns ''pad_left'' 2 3 (\<lambda>p args. text_pad True p (args ! 0) (args ! 1) (if length args = 3 then Some (args ! 2) else None)),
      fns ''pad_right'' 2 3 (\<lambda>p args. text_pad False p (args ! 0) (args ! 1) (if length args = 3 then Some (args ! 2) else None))])"

text \<open>Datetime, timezone and duration functions of one text: the parsers reject other values.\<close>

definition from_text :: "(ustr \<Rightarrow> sep_value result) \<Rightarrow> source_position \<Rightarrow> sep_value \<Rightarrow> sep_value result" where
  "from_text f p v = bind_sum (require_string p v) f"

definition TIME_BUILTINS :: "'w platform \<Rightarrow> 'w entry list" where
  "TIME_BUILTINS pf =
     (let db = p_tz pf; field = (\<lambda>name f. part1 name (datetime_field db f)) in
     [fn1 ''local_datetime'' (\<lambda>p. from_text (parse_local_datetime db p) p),
      fn1 ''timezone'' (\<lambda>p. from_text (\<lambda>s. bind_sum (parse_timezone db p s) (\<lambda>z. Inr (VZone z))) p),
      fn1 ''duration'' (\<lambda>p. from_text (parse_duration db p) p),
      fn2 ''datetime_from_local'' (datetime_from_local db), fn2 ''datetime_in_timezone'' datetime_in_timezone,
      fnx ''datetime_now'' 0 1 (\<lambda>r. datetime_now pf),
      fn1 ''datetime_parse'' (\<lambda>p. from_text (parse_datetime db p) p),
      (U ''datetime_valid'', 3, 3, None, \<lambda>r p args named. lift_partial (datetime_valid p args)),
      part2 ''datetime_format'' (datetime_format (p_host pf)), fnx ''unix_time'' 0 1 (\<lambda>r. unix_time pf),
      (U ''datetime_from_unix'', 1, 2, None, \<lambda>r p args named. lift_partial (datetime_from_unix db p args)),
      fn1 ''unix_milliseconds_from_datetime'' unix_milliseconds_from_datetime,
      part1 ''unix_seconds_from_datetime'' unix_seconds_from_datetime,
      fn2 ''datetime_from_unix_milliseconds'' from_unix_milliseconds,
      part2 ''datetime_from_unix_seconds'' datetime_from_unix_seconds,
      fn1 ''datetime_offset'' (datetime_offset db), fn1 ''datetime_timezone'' datetime_timezone,
      field ''datetime_year'' ''year'', field ''datetime_month'' ''month'', field ''datetime_day'' ''day'',
      field ''datetime_hour'' ''hour'', field ''datetime_minute'' ''minute'', field ''datetime_second'' ''second'',
      field ''datetime_millisecond'' ''millisecond'', field ''datetime_weekday'' ''isoweekday'',
      fn1 ''duration_milliseconds'' duration_milliseconds])"

definition RANDOM_BUILTINS :: "'w platform \<Rightarrow> 'w entry list" where
  "RANDOM_BUILTINS pf =
     [fnx ''random_seed'' 1 1 (\<lambda>r p args. random_seed r p (args ! 0)), fnx ''random_number'' 0 0 (\<lambda>r p args. random_number r),
      fnx ''random_int'' 2 2 (\<lambda>r p args. random_int r p (args ! 0) (args ! 1)),
      fnx ''random_float'' 2 2 (\<lambda>r p args. random_float (p_host pf) r p (args ! 0) (args ! 1)),
      fnx ''random_bool'' 0 0 (\<lambda>r p args. random_bool r), fnx ''random_pick'' 1 1 (\<lambda>r p args. random_pick r p (args ! 0)),
      fnx ''random_shuffle'' 1 1 (\<lambda>r p args. random_shuffle r p (args ! 0)),
      fnx ''random_sample'' 2 2 (\<lambda>r p args. random_sample r p (args ! 0) (args ! 1)),
      fnx ''secure_random_bytes'' 1 1 (\<lambda>r. secure_text pf ''secure_random_bytes''),
      fnx ''secure_random_int'' 2 2 (\<lambda>r. secure_random_integer pf ''secure_random_int''),
      fnx ''secure_random_number'' 2 2 (\<lambda>r. secure_random_integer pf ''secure_random_number''),
      fnx ''secure_random_string'' 1 1 (\<lambda>r. secure_text pf ''secure_random_string'')]"

definition LIST_BUILTINS :: "'w platform \<Rightarrow> (source_position \<Rightarrow> ('w world, exn) caller) \<Rightarrow> 'w entry list" where
  "LIST_BUILTINS pf call =
     (let cf = h_casefold (p_host pf) in
     [fn2 ''list_append'' list_append, fn2 ''append'' list_append, fn2 ''prepend'' list_prepend,
      fns ''list_remove'' 2 3 list_remove, fns ''list_insert'' 3 3 (\<lambda>p args. direct_shape_operation p),
      fns ''list_remove_horizontal'' 4 4 (\<lambda>p args. direct_shape_operation p),
      fns ''list_remove_vertical'' 4 4 (\<lambda>p args. direct_shape_operation p),
      fns ''remove'' 2 2 list_remove, fn2 ''remove_at'' remove_at, fn1 ''size'' list_size, fn1 ''first'' list_first,
      fn1 ''last'' list_last, fn2 ''index_of'' text_index_of, fn2 ''last_index_of'' text_last_index_of,
      fn3 ''slice'' slice_list, fn1 ''reverse'' text_reverse, fn1 ''sort'' (sort_list cf),
      fn1 ''sort_descending'' (sort_descending cf), fn1 ''sort_ignore_case'' (sort_ignore_case cf),
      fn1 ''sort_ignore_case_descending'' (sort_ignore_case_descending cf), fn1 ''sort_natural'' (sort_natural cf),
      fn1 ''sort_natural_descending'' (sort_natural_descending cf),
      fn1 ''sort_natural_ignore_case'' (sort_natural_ignore_case cf),
      fn1 ''sort_natural_ignore_case_descending'' (sort_natural_ignore_case_descending cf),
      fn2 ''sort_by'' sort_by, fn2 ''sort_by_descending'' sort_by_descending, fn1 ''unique'' list_unique,
      fnx ''map'' 2 2 (\<lambda>r p args. map_list Sep (call p) p (args ! 0) (args ! 1)),
      fnx ''filter'' 2 2 (\<lambda>r p args. filter_list Sep (call p) p (args ! 0) (args ! 1)),
      fnx ''reduce'' 3 3 (\<lambda>r p args. reduce_list Sep (call p) p (args ! 0) (args ! 1) (args ! 2)),
      fn1 ''flatten'' flatten, part1 ''sum'' (sum_values (p_host pf)), part1 ''average'' (average (p_host pf)),
      fn2 ''count'' count_values])"

definition OBJECT_BUILTINS :: "'w entry list" where
  "OBJECT_BUILTINS =
     [fn2 ''object_get'' object_get, fn2 ''object_has'' object_has, fn3 ''object_set'' object_set,
      fn2 ''object_remove'' object_remove, fn1 ''object_keys'' object_keys, fn1 ''object_values'' object_values]"

definition ERROR_BUILTINS :: "'w entry list" where
  "ERROR_BUILTINS = map (\<lambda>name. fn1 name (error_constructor (U name))) ERROR_NAMES"

definition MATH_BUILTINS :: "'w platform \<Rightarrow> 'w entry list" where
  "MATH_BUILTINS pf =
     (let h = p_host pf; unary = (\<lambda>name f. fn1 name (math_unary (libm_unary h f)));
          fixed_to = (\<lambda>name b. fn1 name (\<lambda>p v. number_to_base p v (VInt b)));
          fixed_from = (\<lambda>name b. fn1 name (\<lambda>p v. base_to_number h p v (VInt b)));
          statistic = (\<lambda>name f n. part1 name (math_statistic f n));
          of_host = (\<lambda>f. h_statistics h (U f)) in
      map (utility [])
     [fn1 ''absolute'' math_absolute, fns ''minimum'' 1 64 (choose_number min_number),
      fns ''maximum'' 1 64 (choose_number max_number), fns ''round'' 1 2 math_round,
      fn1 ''truncate'' math_truncate, fn3 ''clamp'' math_clamp, fn1 ''sign'' math_sign,
      unary ''square_root'' ''sqrt'', part1 ''cube_root'' (math_cube_root h), fn2 ''power'' (math_power h),
      fn2 ''hypotenuse'' (math_binary (libm_binary h ''hypot'')), unary ''exponential'' ''exp'',
      unary ''exponential_base2'' ''exp2'', unary ''natural_log'' ''log'', unary ''log_base2'' ''log2'',
      unary ''log_base10'' ''log10'', unary ''log_one_plus'' ''log1p'', unary ''arc_sin'' ''asin'',
      unary ''arc_cos'' ''acos'', unary ''arc_tan'' ''atan'',
      fn2 ''arc_tan2'' (math_binary (libm_binary h ''atan2'')), unary ''sinh'' ''sinh'', unary ''cosh'' ''cosh'',
      unary ''tanh'' ''tanh'', unary ''arc_sinh'' ''asinh'', unary ''arc_cosh'' ''acosh'', unary ''arc_tanh'' ''atanh'',
      unary ''to_radians'' ''radians'', unary ''to_degrees'' ''degrees'',
      fn2 ''greatest_common_divisor'' math_gcd, fn2 ''least_common_multiple'' math_lcm,
      fn1 ''factorial'' math_factorial, fn1 ''is_finite'' math_is_finite, fn1 ''is_infinite'' math_is_infinite,
      fn1 ''is_nan'' math_is_nan, part2 ''is_close'' math_is_close, fn1 ''is_integer_value'' math_is_integer_value,
      statistic ''median'' median 1, statistic ''variance'' (of_host ''pvariance'') 1,
      statistic ''sample_variance'' (of_host ''variance'') 2, statistic ''standard_deviation'' (of_host ''pstdev'') 1,
      statistic ''sample_standard_deviation'' (of_host ''stdev'') 2, part2 ''percentile'' math_percentile,
      part2 ''moving_average'' (math_moving_average h), fixed_to ''number_to_binary'' 2,
      fixed_to ''number_to_octal'' 8, fixed_to ''number_to_hexadecimal'' 16, fixed_from ''binary_to_number'' 2,
      fixed_from ''octal_to_number'' 8, fixed_from ''hexadecimal_to_number'' 16,
      fn2 ''number_to_base'' number_to_base, fn2 ''base_to_number'' (base_to_number h)])"

definition BYTES_BUILTINS :: "'w entry list" where
  "BYTES_BUILTINS =
     (let coded = (\<lambda>name f. (U name, 1, 1, Some [U ''encoding''],
            \<lambda>r p args named. lift (f p (args ! 0) (map_of named (U ''encoding''))))) in
     [coded ''bytes_from_string'' bytes_from_string, coded ''string_from_bytes'' string_from_bytes] @
     map (utility [])
     [fn2 ''bytes_get'' bytes_get, fn3 ''slice_bytes'' slice_bytes, fn2 ''bytes_concat'' bytes_concat,
      fn1 ''hex_encode'' hex_encode, fn1 ''hex_decode'' hex_decode, fn1 ''bytes_from_hex'' hex_decode,
      fn1 ''base64_encode'' base64_encode, fn1 ''base64_decode'' base64_decode,
      fn1 ''bytes_to_hexadecimal'' hex_encode, fn1 ''hexadecimal_to_bytes'' hex_decode,
      fn1 ''bytes_to_base64'' base64_encode, fn1 ''base64_to_bytes'' base64_decode])"

definition DATETIME_BUILTIN :: "'w platform \<Rightarrow> 'w entry" where
  "DATETIME_BUILTIN pf = (U ''datetime'', 1, 6, Some [U ''timezone''],
     \<lambda>r p args named. lift_partial (datetime_construct (p_tz pf) p args named))"

definition OUTSIDE_BUILTINS :: "'w platform \<Rightarrow> 'w entry list" where
  "OUTSIDE_BUILTINS pf =
     map (\<lambda>(name, lo, hi, names). (name, lo, hi, names, \<lambda>r p args named. outside (p_external pf name args named p)))
       (p_builtins pf)"

definition BUILTINS :: "'w platform \<Rightarrow> (source_position \<Rightarrow> ('w world, exn) caller) \<Rightarrow> 'w entry list" where
  "BUILTINS pf call =
     TYPE_BUILTINS pf @ NUMBER_BUILTINS pf @ TEXT_BUILTINS pf @ TIME_BUILTINS pf @ RANDOM_BUILTINS pf @
     LIST_BUILTINS pf call @ OBJECT_BUILTINS @ ERROR_BUILTINS @ MATH_BUILTINS pf @ [DATETIME_BUILTIN pf] @
     BYTES_BUILTINS @ OUTSIDE_BUILTINS pf"

text \<open>The names do not depend on how a function value is called.\<close>

definition builtin_names :: "'w platform \<Rightarrow> ustr list" where
  "builtin_names pf = map fst (BUILTINS pf (\<lambda>p f args. ret VVoid))"

definition builtin_find ::
  "'w platform \<Rightarrow> (source_position \<Rightarrow> ('w world, exn) caller) \<Rightarrow> ustr \<Rightarrow>
   (nat \<times> nat \<times> ustr list option \<times> 'w implementation) option" where
  "builtin_find pf call name = map_of (rev (BUILTINS pf call)) name"

text \<open>\<open>BuiltinFunction.call\<close> and \<open>UtilityFunction.call\<close>.\<close>

definition builtin_call ::
  "nat \<times> nat \<times> ustr list option \<times> 'w implementation \<Rightarrow> nat \<Rightarrow> source_position \<Rightarrow> sep_value list \<Rightarrow>
   named_arguments \<Rightarrow> ('w, sep_value) comp" where
  "builtin_call entry r p args named =
     (case entry of (lo, hi, names, f) \<Rightarrow>
        if (case names of None \<Rightarrow> named \<noteq> [] | Some ns \<Rightarrow> \<not> set (map fst named) \<subseteq> set ns)
        then fail (mk_error 207 (if names = None then ''Unsupported named argument'' else ''Unknown named argument'') p)
        else if length args < lo \<or> hi < length args then fail (mk_error 207 ''Argument count mismatch'' p)
        else f r p args named)"

lemma builtin_names: "map fst (BUILTINS pf call) = builtin_names pf"
  by (simp add: builtin_names_def BUILTINS_def LIST_BUILTINS_def fn1_def fn2_def fn3_def fns_def fnx_def
      part1_def Let_def)

lemma builtin_find_iff: "builtin_find pf call name \<noteq> None \<longleftrightarrow> name \<in> set (builtin_names pf)"
proof -
  have "builtin_find pf call name = None \<longleftrightarrow> name \<notin> fst ` set (rev (BUILTINS pf call))"
    unfolding builtin_find_def by (rule map_of_eq_None_iff)
  also have "fst ` set (rev (BUILTINS pf call)) = set (builtin_names pf)"
    by (simp add: builtin_names [of pf call, symmetric])
  finally show ?thesis by simp
qed

end
