(* ===== verification/Operators.thy ===== *)
theory Operators
  imports CollectionOps BytesOps
begin

section \<open>Operators\<close>

text \<open>
  The operators of \<open>Interpreter._eval\<close> on values: the checks for EMPTY, EMPTYS and VOID, equality,
  \<open>in\<close>, arithmetic on numbers and on temporal values, concatenation; conditions; and the
  categories by which \<open>try\<close> catches errors. A result \<open>Inr None\<close> is a Python exception the
  interpreter does not catch: a number beyond the floats, or an operator it does not know.
\<close>

subsection \<open>Operands\<close>

definition empty_use :: "source_position \<Rightarrow> sep_error" where
  "empty_use p = mk_error 131 ''EMPTY value use'' p"

definition check_emptys :: "source_position \<Rightarrow> sep_value \<Rightarrow> unit result" where
  "check_emptys p v = (if v = VEmptys then Inl (mk_error 133 ''EMPTYS value use'' p) else Inr ())"

definition check_present :: "source_position \<Rightarrow> sep_value \<Rightarrow> unit result" where
  "check_present p v =
     (if is_empty_state v then Inl (empty_use p)
      else if v = VVoid then Inl (mk_error 127 ''VOID value use'' p) else Inr ())"

definition check_operand :: "source_position \<Rightarrow> sep_value \<Rightarrow> unit result" where
  "check_operand p v = bind_sum (check_emptys p v) (\<lambda>_. check_present p v)"

text \<open>\<open>_boolean\<close>: there is no truthiness.\<close>

definition boolean_of :: "source_position \<Rightarrow> sep_value \<Rightarrow> bool result" where
  "boolean_of p v =
     (if is_empty_state v then Inl (empty_use p)
      else case v of VBool b \<Rightarrow> Inr b | _ \<Rightarrow> Inl (type_error p))"

subsection \<open>Unary operators\<close>

definition unary_operator :: "source_position \<Rightarrow> ustr \<Rightarrow> sep_value \<Rightarrow> sep_value result" where
  "unary_operator p op v =
     bind_sum (check_operand p v) (\<lambda>_.
     if op = U ''!'' \<or> op = U ''not'' then bind_sum (boolean_of p v) (\<lambda>b. Inr (VBool (\<not> b)))
     else if \<not> is_number v then Inl (type_error p) else Inr (num_neg v))"

subsection \<open>Containment\<close>

definition contains_operator :: "source_position \<Rightarrow> sep_value \<Rightarrow> sep_value \<Rightarrow> bool result" where
  "contains_operator p needle container =
     (case container of
        VStr s \<Rightarrow> (case needle of VStr t \<Rightarrow> Inr (find_sub t s \<noteq> None) | _ \<Rightarrow> Inl (type_error p))
      | VList vs \<Rightarrow>
          bind_sum (list_element_type p vs) (\<lambda>element.
          case element of
            None \<Rightarrow> Inr (member_of needle vs)
          | Some (TName t) \<Rightarrow> if value_type_name needle \<noteq> t then Inl (type_error p) else Inr (member_of needle vs)
          | Some (TList _) \<Rightarrow> Inl (type_error p))
      | VObj fs ts \<Rightarrow> (case needle of VStr k \<Rightarrow> Inr (k \<in> set (map fst fs)) | _ \<Rightarrow> Inl (type_error p))
      | VBytes bs \<Rightarrow>
          (case needle of
             VBytes cs \<Rightarrow> Inr (find_sub cs bs \<noteq> None)
           | VInt i \<Rightarrow> if 0 \<le> i \<and> i \<le> 255 then Inr (nat i \<in> set bs) else Inl (type_error p)
           | _ \<Rightarrow> Inl (type_error p))
      | _ \<Rightarrow> Inl (type_error p))"

subsection \<open>Temporal values\<close>

definition invalid_temporal :: "source_position \<Rightarrow> sep_error" where
  "invalid_temporal p = mk_error 408 ''Invalid temporal operation'' p"

definition shift_datetime :: "source_position \<Rightarrow> int \<Rightarrow> timezone \<Rightarrow> int \<Rightarrow> sep_value result" where
  "shift_datetime p t z ms =
     (if time_ok (t + ms) then Inr (VDatetime (t + ms) z) else Inl (mk_error 401 ''Datetime overflow'' p))"

definition orders :: "ustr list" where
  "orders = [U ''>'', U ''<'', U ''>='', U ''<='']"

definition compare_ints :: "ustr \<Rightarrow> int \<Rightarrow> int \<Rightarrow> bool" where
  "compare_ints op a b =
     (if op = U ''>'' then b < a else if op = U ''<'' then a < b else if op = U ''>='' then b \<le> a else a \<le> b)"

definition total_result :: "sep_value result \<Rightarrow> sep_value option result" where
  "total_result r = bind_sum r (\<lambda>v. Inr (Some v))"

definition temporal_binary :: "source_position \<Rightarrow> sep_value \<Rightarrow> ustr \<Rightarrow> sep_value \<Rightarrow> sep_value option result" where
  "temporal_binary p left op right =
     (if op \<in> set orders then
        (case (left, right) of
           (VDatetime a _, VDatetime b _) \<Rightarrow> Inr (Some (VBool (compare_ints op a b)))
         | (VLocal a, VLocal b) \<Rightarrow> Inr (Some (VBool (compare_ints op a b)))
         | (VDuration a, VDuration b) \<Rightarrow> Inr (Some (VBool (compare_ints op a b)))
         | _ \<Rightarrow> Inl (invalid_temporal p))
      else if op = U ''+'' then
        (case (left, right) of
           (VDatetime t z, VDuration d) \<Rightarrow> total_result (shift_datetime p t z d)
         | (VDuration d, VDatetime t z) \<Rightarrow> total_result (shift_datetime p t z d)
         | (VDuration a, VDuration b) \<Rightarrow> total_result (duration_result p (a + b))
         | _ \<Rightarrow> Inl (invalid_temporal p))
      else if op = U ''-'' then
        (case (left, right) of
           (VDatetime t z, VDuration d) \<Rightarrow> total_result (shift_datetime p t z (- d))
         | (VDatetime t _, VDatetime u _) \<Rightarrow> Inr (Some (VDuration (t - u)))
         | (VDuration a, VDuration b) \<Rightarrow> total_result (duration_result p (a - b))
         | _ \<Rightarrow> Inl (invalid_temporal p))
      else if op = U ''*'' then
        (case (left, right) of
           (VDuration a, _) \<Rightarrow> duration_scaled p a right False
         | (_, VDuration b) \<Rightarrow> duration_scaled p b left False
         | _ \<Rightarrow> Inl (invalid_temporal p))
      else if op = U ''/'' then
        (case (left, right) of
           (VDuration a, VDuration b) \<Rightarrow>
             if b = 0 then Inl (mk_error 301 ''Division by zero'' p) else Inr (num_div (VInt a) (VInt b))
         | (VDuration a, _) \<Rightarrow> duration_scaled p a right True
         | _ \<Rightarrow> Inl (invalid_temporal p))
      else Inl (invalid_temporal p))"

subsection \<open>Arithmetic\<close>

definition arithmetic :: "ustr list" where
  "arithmetic = [U ''+'', U ''-'', U ''*'', U ''/'', U ''//'', U ''%'', U ''**''] @ orders"

definition number_binary ::
  "host \<Rightarrow> source_position \<Rightarrow> sep_value \<Rightarrow> ustr \<Rightarrow> sep_value \<Rightarrow> sep_value option result" where
  "number_binary h p left op right =
     (if \<not> is_number left \<or> \<not> is_number right then Inl (type_error p)
      else if op \<in> {U ''/'', U ''//'', U ''%''} \<and> num_eq right (VInt 0) then Inl (mk_error 301 ''Division by zero'' p)
      else if op = U ''//'' then
        (case (left, right) of (VInt i, VInt j) \<Rightarrow> Inr (Some (VInt (i div j))) | _ \<Rightarrow> Inl (type_error p))
      else if op = U ''**'' then total_result (power_value (h_pow h) p left right)
      else Inr (if op = U ''+'' then num_add left right else if op = U ''-'' then num_sub left right
        else if op = U ''*'' then num_mul left right else if op = U ''/'' then num_div left right
        else if op = U ''%'' then num_mod left right
        else if op = U ''>'' then Some (VBool (num_less right left))
        else if op = U ''<'' then Some (VBool (num_less left right))
        else if op = U ''>='' then Some (VBool (num_less_eq right left))
        else Some (VBool (num_less_eq left right))))"

text \<open>What \<open>_eval\<close> does with the values of both sides of an operator other than \<open>??\<close>, \<open>&&\<close>, \<open>||\<close>.\<close>

definition equality :: "source_position \<Rightarrow> sep_value \<Rightarrow> sep_value \<Rightarrow> bool result" where
  "equality p left right =
     (if value_type_name left \<noteq> value_type_name right then
        Inl (if is_temporal left \<or> is_temporal right then invalid_temporal p else type_error p)
      else Inr (py_eq left right))"

definition binary_operator ::
  "host \<Rightarrow> source_position \<Rightarrow> sep_value \<Rightarrow> ustr \<Rightarrow> sep_value \<Rightarrow> sep_value option result" where
  "binary_operator h p left op right =
     (if op = U ''in'' \<or> op = U ''not in'' then
        bind_sum (contains_operator p left right) (\<lambda>b. Inr (Some (VBool (if op = U ''in'' then b else \<not> b))))
      else if op = U ''=='' \<or> op = U ''!='' then
        bind_sum (equality p left right) (\<lambda>b. Inr (Some (VBool (if op = U ''=='' then b else \<not> b))))
      else if is_temporal left \<or> is_temporal right then temporal_binary p left op right
      else case (if op = U ''+'' then (left, right) else (VVoid, VVoid)) of
        (VStr s, VStr t) \<Rightarrow> Inr (Some (VStr (s @ t)))
      | (VBytes a, VBytes b) \<Rightarrow> total_result (bytes_concat p left right)
      | (VList xs, VList ys) \<Rightarrow>
          bind_sum (list_element_type p xs) (\<lambda>a. bind_sum (list_element_type p ys) (\<lambda>b.
          if type_specs_compatible a b then Inr (Some (VList (xs @ ys))) else Inl (type_error p)))
      | _ \<Rightarrow> if op \<in> set arithmetic then number_binary h p left op right else Inr None)"

subsection \<open>Error categories\<close>

definition own_category :: "sep_error \<Rightarrow> string \<Rightarrow> ustr" where
  \<comment> \<open>the error's own category if it is the name of an error\<close>
  "own_category e other = (if ends_with (err_category e) (U ''_error'') then err_category e else U other)"

definition error_category :: "sep_error \<Rightarrow> ustr" where
  "error_category e =
     (let n = err_code e in
      if n = 760 then err_category e
      else if n \<in> {201, 203, 208} then U ''type_error''
      else if n = 301 then U ''value_error''
      else if n = 302 then U ''index_error''
      else if 830 \<le> n \<and> n \<le> 839 then U ''regex_error''
      else if 840 \<le> n \<and> n \<le> 849 then U ''glob_error''
      else if 860 \<le> n \<and> n \<le> 869 then U ''argument_error''
      else if 701 \<le> n \<and> n \<le> 709 then U ''import_error''
      else if n = 720 \<or> n = 721 then U ''permission_error''
      else if 722 \<le> n \<and> n \<le> 729 then U ''io_error''
      else if 740 \<le> n \<and> n \<le> 749 then U ''parse_error''
      else if 800 \<le> n \<and> n \<le> 819 then (if n \<in> {808, 809} then err_category e else U ''process_error'')
      else if 780 \<le> n \<and> n \<le> 799 then own_category e ''http_error''
      else if n = 870 then U ''permission_error''
      else if n = 871 then U ''secret_error''
      else if 872 \<le> n \<and> n \<le> 879 then own_category e ''auth_error''
      else if 880 \<le> n \<and> n \<le> 889 then U ''cookie_error''
      else if 900 \<le> n \<and> n \<le> 919 then err_category e
      else if 920 \<le> n \<and> n \<le> 929 then own_category e ''crypto_error''
      else if 930 \<le> n \<and> n \<le> 939 then own_category e ''mail_error''
      else if 940 \<le> n \<and> n \<le> 949 then own_category e ''yaml_error''
      else if 950 \<le> n \<and> n \<le> 959 then own_category e ''xml_error''
      else if 970 \<le> n \<and> n \<le> 978 \<or> 980 \<le> n \<and> n \<le> 984 then own_category e ''network_error''
      else if n = 979 then U ''permission_error''
      else U ''runtime_error'')"

definition error_parents :: "(string \<times> string) list" where
  "error_parents =
     [(''command_timeout_error'', ''command_error''), (''command_error'', ''process_error''),
      (''http_timeout_error'', ''http_error''), (''http_dns_error'', ''http_error''), (''http_tls_error'', ''http_error''),
      (''http_redirect_error'', ''http_error''), (''http_status_error'', ''http_error''), (''http_decode_error'', ''http_error''),
      (''http_limit_error'', ''http_error''), (''oauth_error'', ''auth_error''), (''secret_error'', ''auth_error''),
      (''crypto_authentication_error'', ''crypto_error''), (''mail_address_error'', ''mail_error''),
      (''mail_attachment_error'', ''mail_error''), (''mail_provider_error'', ''mail_error''),
      (''mail_connection_error'', ''mail_error''), (''mail_authentication_error'', ''mail_error''),
      (''mail_send_error'', ''mail_error''), (''yaml_parse_error'', ''yaml_error''), (''yaml_encode_error'', ''yaml_error''),
      (''yaml_type_error'', ''yaml_error''), (''yaml_limit_error'', ''yaml_error''), (''xml_parse_error'', ''xml_error''),
      (''xml_model_error'', ''xml_error''), (''xml_security_error'', ''xml_error''), (''xml_limit_error'', ''xml_error''),
      (''xml_path_error'', ''xml_error''), (''xml_escape_error'', ''xml_error''),
      (''network_dns_error'', ''network_error''), (''network_interface_error'', ''network_error''),
      (''network_connection_error'', ''network_error''), (''network_timeout_error'', ''network_error''),
      (''network_limit_error'', ''network_error''), (''network_closed_error'', ''network_error''),
      (''network_protocol_error'', ''network_error''), (''network_operation_unavailable'', ''network_error''),
      (''network_address_error'', ''network_error''), (''network_service_error'', ''network_error''),
      (''dhcp_server_error'', ''network_service_error''), (''dns_server_error'', ''network_service_error''),
      (''wifi_access_point_error'', ''network_service_error'')]"

definition parent_of :: "ustr \<Rightarrow> ustr option" where
  "parent_of c = map_of (map (\<lambda>(a, b). (U a, U b)) error_parents) c"

text \<open>The walk up the parents: no chain is longer than two, and three steps see its end.\<close>

primrec ancestors :: "nat \<Rightarrow> ustr \<Rightarrow> ustr list" where
  "ancestors 0 c = []"
| "ancestors (Suc n) c = (case parent_of c of None \<Rightarrow> [] | Some d \<Rightarrow> d # ancestors n d)"

definition error_matches :: "ustr \<Rightarrow> ustr \<Rightarrow> bool" where
  "error_matches requested actual \<longleftrightarrow>
     requested \<in> {actual, U ''any'', U ''runtime_error''} \<or> requested \<in> set (ancestors 3 actual)"

text \<open>The bound is enough: after two steps there is no parent left.\<close>

lemma map_of_U: "map_of (map (\<lambda>(a, b). (U a, U b)) ps) (U s) = map_option U (map_of ps s)"
  by (induction ps) auto

lemma parents_used:
  "map snd error_parents = [''command_error'', ''process_error''] @ replicate 7 ''http_error'' @
     [''auth_error'', ''auth_error'', ''crypto_error''] @ replicate 6 ''mail_error'' @ replicate 4 ''yaml_error'' @
     replicate 6 ''xml_error'' @ replicate 10 ''network_error'' @ replicate 3 ''network_service_error''"
  by (simp add: error_parents_def numeral_eq_Suc)

lemma roots:
  "map_of error_parents ''process_error'' = None"
  "map_of error_parents ''http_error'' = None"
  "map_of error_parents ''auth_error'' = None"
  "map_of error_parents ''crypto_error'' = None"
  "map_of error_parents ''mail_error'' = None"
  "map_of error_parents ''yaml_error'' = None"
  "map_of error_parents ''xml_error'' = None"
  "map_of error_parents ''network_error'' = None"
  by code_simp+

lemma inner_parents:
  "map_of error_parents ''command_error'' = Some ''process_error''"
  "map_of error_parents ''network_service_error'' = Some ''network_error''"
  by (simp_all add: error_parents_def)

definition last_parent :: "string \<Rightarrow> bool" where
  "last_parent b \<longleftrightarrow> (\<forall>d. map_of error_parents b = Some d \<longrightarrow> map_of error_parents d = None)"

lemma last_parent_None: "map_of error_parents b = None \<Longrightarrow> last_parent b"
  by (simp only: last_parent_def option.distinct simp_thms)

lemma last_parent_Some: "map_of error_parents b = Some d \<Longrightarrow> map_of error_parents d = None \<Longrightarrow> last_parent b"
  by (simp only: last_parent_def option.inject simp_thms)

lemma list_all_replicate: "list_all P (replicate n x) \<longleftrightarrow> n = 0 \<or> P x"
  by (induction n) auto

lemma grandparents: "list_all last_parent (map snd error_parents)"
  unfolding parents_used
  by (simp only: list_all_append list.pred_inject list_all_replicate append.simps simp_thms roots [THEN last_parent_None]
      inner_parents(1) [THEN last_parent_Some, OF roots(1)] inner_parents(2) [THEN last_parent_Some, OF roots(8)])

lemma parent_of_parents:
  assumes "parent_of c = Some d" and "parent_of d = Some e"
  shows "parent_of e = None"
proof -
  from assms(1) obtain a b where ab: "(a, b) \<in> set error_parents" "d = U b"
    unfolding parent_of_def by (auto dest!: map_of_SomeD)
  with assms(2) obtain x where x: "map_of error_parents b = Some x" "e = U x"
    by (auto simp: parent_of_def map_of_U)
  from ab(1) grandparents have "last_parent b" by (auto simp: list_all_iff)
  with x(1) have "map_of error_parents x = None" by (simp add: last_parent_def)
  with x(2) show ?thesis by (simp add: parent_of_def map_of_U)
qed

lemma ancestors_complete: "ancestors (Suc (Suc (Suc n))) c = ancestors 3 c"
proof (cases "parent_of c")
  case None
  then show ?thesis by (simp add: numeral_3_eq_3)
next
  case (Some d)
  show ?thesis
  proof (cases "parent_of d")
    case None
    with Some show ?thesis by (simp add: numeral_3_eq_3)
  next
    case (Some e)
    with \<open>parent_of c = Some d\<close> have "parent_of e = None" by (rule parent_of_parents)
    with Some \<open>parent_of c = Some d\<close> show ?thesis by (simp add: numeral_3_eq_3)
  qed
qed

end
