(* ===== verification/Shapes.thy ===== *)
theory Shapes
  imports Builtins Operators
begin

section \<open>Changing the shape of a list in place\<close>

text \<open>
  \<open>_list_shape_call\<close> and its helpers: \<open>list_insert\<close>, \<open>list_remove\<close> with three arguments,
  \<open>list_remove_horizontal\<close> and \<open>list_remove_vertical\<close> change the list of a variable, or a nested
  list addressed by indexes. The arguments are not evaluated beforehand; the definitions take them
  together with their evaluation, a computation (\<open>thunk\<close>). The target is a variable and a path
  of indexes into its value; the list is read again after the other arguments were evaluated, as
  they may have changed it.
\<close>

type_synonym 'w thunk = "expr \<times> ('w, sep_value) comp"

subsection \<open>The target\<close>

record target =
  tg_name :: ustr
  tg_path :: "nat list"
  tg_values :: "sep_value list"
  tg_element :: "type_spec option"

fun list_at :: "nat list \<Rightarrow> sep_value \<Rightarrow> sep_value list option" where
  "list_at [] (VList vs) = Some vs"
| "list_at (i # is) (VList vs) = (if i < length vs then list_at is (vs ! i) else None)"
| "list_at _ _ = None"

fun update_at :: "nat list \<Rightarrow> (sep_value list \<Rightarrow> sep_value list) \<Rightarrow> sep_value \<Rightarrow> sep_value" where
  "update_at [] f (VList vs) = VList (f vs)"
| "update_at (i # is) f (VList vs) =
     (if i < length vs then VList (vs[i := update_at is f (vs ! i)]) else VList vs)"
| "update_at _ f v = v"

definition current_values :: "nat \<Rightarrow> target \<Rightarrow> ('w, sep_value list) comp" where
  "current_values r t =
     reads (\<lambda>w. case env_binding (mk_pos [] 0 0 []) (tg_name t) (chain (w_runtimes w ! r)) of
        Inr b \<Rightarrow> (case list_at (tg_path t) (b_value b) of Some vs \<Rightarrow> vs | None \<Rightarrow> tg_values t)
      | Inl _ \<Rightarrow> tg_values t)"

definition change_values :: "nat \<Rightarrow> target \<Rightarrow> (sep_value list \<Rightarrow> sep_value list) \<Rightarrow> ('w, unit) comp" where
  "change_values r t f =
     set_runtime r (\<lambda>rt. set_chain
       (env_update (tg_name t)
         (\<lambda>b. if b_const b then b else b\<lparr>b_value := update_at (tg_path t) f (b_value b)\<rparr>) (chain rt)) rt)"

definition shape_integer :: "source_position \<Rightarrow> int \<Rightarrow> sep_value \<Rightarrow> nat result" where
  "shape_integer p minimum v =
     (case v of VInt i \<Rightarrow> if minimum \<le> i then Inr (nat i) else Inl (type_error p) | _ \<Rightarrow> Inl (type_error p))"

definition eval_shape_integer :: "int \<Rightarrow> 'w thunk \<Rightarrow> ('w, nat) comp" where
  "eval_shape_integer minimum t = andthen (snd t) (\<lambda>v. lift (shape_integer (expr_position (fst t)) minimum v))"

definition shape_range_error :: "source_position \<Rightarrow> sep_error" where
  "shape_range_error p = mk_error 603 ''Invalid list shape range'' p"

definition variable_target :: "nat \<Rightarrow> source_position \<Rightarrow> ustr \<Rightarrow> ('w, target) comp" where
  "variable_target r p name =
     andthen (runtime_of r) (\<lambda>rt.
     lift (bind_sum (env_binding p name (chain rt)) (\<lambda>b.
       if b_const b then Inl (related_error 211 ''Constant reassignment'' p (b_pos b))
       else case b_value b of
         VEmpty _ _ _ \<Rightarrow> Inl (empty_use p)
       | VList vs \<Rightarrow> Inr \<lparr>tg_name = name, tg_path = [], tg_values = vs, tg_element = b_elem b\<rparr>
       | _ \<Rightarrow> Inl (type_error p))))"

definition index_target ::
  "nat \<Rightarrow> source_position \<Rightarrow> ('w, target) comp \<Rightarrow> 'w thunk \<Rightarrow> ('w, target) comp" where
  "index_target r p parent index =
     andthen parent (\<lambda>t.
     andthen (eval_shape_integer 0 index) (\<lambda>i.
     andthen (current_values r t) (\<lambda>vs.
     if length vs \<le> i then fail (shape_range_error (expr_position (fst index)))
     else case vs ! i of
       VEmpty _ _ _ \<Rightarrow> fail (empty_use p)
     | VList ws \<Rightarrow>
         andthen (lift (if is_list_type_spec (tg_element t) then Inr (element_spec (tg_element t))
                        else list_element_type p ws)) (\<lambda>element.
         ret \<lparr>tg_name = tg_name t, tg_path = tg_path t @ [i], tg_values = ws, tg_element = element\<rparr>)
     | _ \<Rightarrow> fail (type_error p))))"

definition no_target :: "source_position \<Rightarrow> sep_error" where
  "no_target p = mk_error 605 ''List shape target required'' p"

subsection \<open>Positions\<close>

definition selector_of :: "expr \<Rightarrow> ustr option" where
  "selector_of e =
     (case (case e of GroupExpr _ inner \<Rightarrow> inner | _ \<Rightarrow> e) of PositionSelectorExpr _ name \<Rightarrow> Some name | _ \<Rightarrow> None)"

definition shape_position :: "'w thunk \<Rightarrow> ('w, sep_value list) comp \<Rightarrow> nat \<Rightarrow> bool \<Rightarrow> ('w, nat) comp" where
  "shape_position t values amount inserting =
     (case selector_of (fst t) of
        Some name \<Rightarrow>
          andthen values (\<lambda>vs.
          ret (if name = U ''front'' then 0 else if inserting then length vs else length vs - amount))
      | None \<Rightarrow>
          andthen (eval_shape_integer 0 t) (\<lambda>i.
          andthen values (\<lambda>vs.
          if (if inserting then length vs else length vs - amount) < i
          then fail (shape_range_error (expr_position (fst t))) else ret i)))"

subsection \<open>The four operations\<close>

definition insert_slots :: "nat \<Rightarrow> nat \<Rightarrow> type_spec option \<Rightarrow> sep_value list \<Rightarrow> sep_value list" where
  "insert_slots i amount element vs = take i vs @ replicate amount (empty_for_type_spec element False) @ drop i vs"

definition remove_slots :: "nat \<Rightarrow> nat \<Rightarrow> sep_value list \<Rightarrow> sep_value list" where
  "remove_slots i amount vs = take i vs @ drop (i + amount) vs"

definition shape_insert ::
  "nat \<Rightarrow> source_position \<Rightarrow> target \<Rightarrow> 'w thunk \<Rightarrow> 'w thunk \<Rightarrow> ('w, sep_value) comp" where
  "shape_insert r p t position amount_expr =
     andthen (eval_shape_integer 1 amount_expr) (\<lambda>amount.
     andthen (current_values r t) (\<lambda>vs.
     andthen (lift (if tg_element t = None then list_element_type p vs else Inr (tg_element t))) (\<lambda>element.
     if element = None then fail (mk_error 134 ''List element type required'' p)
     else andthen (shape_position position (current_values r t) amount True) (\<lambda>i.
          andthen (change_values r t (insert_slots i amount element)) (\<lambda>_. ret VVoid)))))"

definition shape_remove ::
  "nat \<Rightarrow> target \<Rightarrow> 'w thunk \<Rightarrow> 'w thunk \<Rightarrow> ('w, sep_value) comp" where
  "shape_remove r t position amount_expr =
     andthen (eval_shape_integer 1 amount_expr) (\<lambda>amount.
     andthen (current_values r t) (\<lambda>vs.
     if length vs < amount then fail (shape_range_error (expr_position (fst amount_expr)))
     else andthen (shape_position position (current_values r t) amount False) (\<lambda>i.
          andthen (change_values r t (remove_slots i amount)) (\<lambda>_. ret VVoid))))"

definition shape_remove_horizontal ::
  "nat \<Rightarrow> source_position \<Rightarrow> target \<Rightarrow> 'w thunk \<Rightarrow> 'w thunk \<Rightarrow> 'w thunk \<Rightarrow> ('w, sep_value) comp" where
  "shape_remove_horizontal r p t row_expr position amount_expr =
     andthen (eval_shape_integer 1 amount_expr) (\<lambda>amount.
     andthen (eval_shape_integer 0 row_expr) (\<lambda>row.
     andthen (current_values r t) (\<lambda>vs.
     if length vs \<le> row then fail (shape_range_error (expr_position (fst row_expr)))
     else case vs ! row of
       VList ws \<Rightarrow>
         if length ws < amount then fail (shape_range_error (expr_position (fst amount_expr)))
         else let t' = t\<lparr>tg_path := tg_path t @ [row], tg_values := ws\<rparr> in
           andthen (shape_position position (current_values r t') amount False) (\<lambda>i.
           andthen (change_values r t' (remove_slots i amount)) (\<lambda>_. ret VVoid))
     | _ \<Rightarrow> fail (type_error p))))"

text \<open>\<open>list_remove_vertical\<close>: the values of a column move up, and EMPTY fills the end. Every row
  from the first one on must have the column, or nothing changes.\<close>

definition has_column :: "nat \<Rightarrow> sep_value \<Rightarrow> bool" where
  "has_column column row = (case row of VList ws \<Rightarrow> column < length ws | _ \<Rightarrow> False)"

definition cell :: "nat \<Rightarrow> sep_value \<Rightarrow> sep_value" where
  "cell column row = (case row of VList ws \<Rightarrow> ws ! column | _ \<Rightarrow> VVoid)"

definition set_cell :: "nat \<Rightarrow> sep_value \<Rightarrow> sep_value \<Rightarrow> sep_value" where
  "set_cell column row v = (case row of VList ws \<Rightarrow> VList (ws[column := v]) | _ \<Rightarrow> row)"

fun column_type ::
  "source_position \<Rightarrow> type_spec option \<Rightarrow> sep_value list \<Rightarrow> type_spec option result" where
  "column_type p acc [] = Inr acc"
| "column_type p acc (v # vs) =
     bind_sum (value_type_spec p v) (\<lambda>actual.
     if type_specs_compatible acc actual then column_type p (merge_type_specs acc actual) vs
     else Inl (mk_error 203 ''Heterogeneous list'' p))"

definition vertical_cells ::
  "source_position \<Rightarrow> type_spec option \<Rightarrow> nat \<Rightarrow> nat \<Rightarrow> nat \<Rightarrow> sep_value list \<Rightarrow> sep_value list result" where
  "vertical_cells p element column first amount vs =
     (let affected = drop first vs in
      if \<not> list_all (has_column column) affected then Inl (mk_error 605 ''Jagged list shape mismatch'' p)
      else let cells = map (cell column) affected; known = element_spec element in
        bind_sum (if known = None then column_type p None cells else Inr known) (\<lambda>cell_type.
        if cell_type = None then Inl (mk_error 134 ''List element type required'' p)
        else Inr (drop amount cells @ replicate amount (empty_for_type_spec cell_type False))))"

definition shift_column :: "nat \<Rightarrow> nat \<Rightarrow> sep_value list \<Rightarrow> sep_value list \<Rightarrow> sep_value list" where
  "shift_column column first cells vs = take first vs @ map2 (set_cell column) (drop first vs) cells"

definition shape_remove_vertical ::
  "nat \<Rightarrow> source_position \<Rightarrow> target \<Rightarrow> 'w thunk \<Rightarrow> 'w thunk \<Rightarrow> 'w thunk \<Rightarrow> ('w, sep_value) comp" where
  "shape_remove_vertical r p t column_expr position amount_expr =
     andthen (eval_shape_integer 1 amount_expr) (\<lambda>amount.
     andthen (eval_shape_integer 0 column_expr) (\<lambda>column.
     andthen (current_values r t) (\<lambda>vs.
     if length vs < amount then fail (shape_range_error (expr_position (fst amount_expr)))
     else andthen (shape_position position (current_values r t) amount False) (\<lambda>first.
          andthen (current_values r t) (\<lambda>vs.
          andthen (lift (vertical_cells p (tg_element t) column first amount vs)) (\<lambda>cells.
          andthen (change_values r t (shift_column column first cells)) (\<lambda>_. ret VVoid)))))))"

definition shape_operations :: "ustr list" where
  "shape_operations = [U ''list_insert'', U ''list_remove_horizontal'', U ''list_remove_vertical'']"

definition is_shape_call :: "ustr \<Rightarrow> nat \<Rightarrow> bool" where
  "is_shape_call callee n \<longleftrightarrow> callee \<in> set shape_operations \<or> callee = U ''list_remove'' \<and> n = 3"

definition list_shape_call ::
  "nat \<Rightarrow> source_position \<Rightarrow> ustr \<Rightarrow> ('w, target) comp \<Rightarrow> 'w thunk list \<Rightarrow> bool \<Rightarrow> ('w, sep_value) comp" where
  \<comment> \<open>the target is the first argument; the last argument says whether there are named arguments\<close>
  "list_shape_call r p name tgt args has_named =
     (if has_named then fail (mk_error 207 ''Unsupported named argument'' p)
      else if length args \<noteq> (if name = U ''list_insert'' \<or> name = U ''list_remove'' then 3 else 4)
      then fail (mk_error 207 ''Argument count mismatch'' p)
      else andthen tgt (\<lambda>t.
        if name = U ''list_insert'' then shape_insert r p t (args ! 1) (args ! 2)
        else if name = U ''list_remove'' then shape_remove r t (args ! 1) (args ! 2)
        else if name = U ''list_remove_horizontal''
        then shape_remove_horizontal r p t (args ! 1) (args ! 2) (args ! 3)
        else shape_remove_vertical r p t (args ! 1) (args ! 2) (args ! 3)))"

end
