(* ===== verification/Interpreter.thy ===== *)
theory Interpreter
  imports Shapes
begin

section \<open>The interpreter\<close>

text \<open>
  \<open>Interpreter\<close> of \<open>interpreter.py\<close>: expressions, statements, function calls, imports and whole
  programs. Expressions and statements are walked by structural recursion; a call of a function
  and an import are requests to a handler, an argument of the definitions, and \<open>perform\<close> closes
  the knot with a bound on the depth of calls and the rounds of a loop (\<open>NoFuel\<close> beyond it).

  A list is a value here. The source shares list objects: a constant, an object's field and a
  running \<open>for\<close> loop keep the list of the variable they were given, and would see the later changes
  of its shape; the model does not show that.
\<close>

datatype request =
    Call nat ustr "sep_value list" named_arguments source_position
  | Import nat source_position ustr

type_synonym 'w handler = "request \<Rightarrow> ('w, sep_value) comp"

subsection \<open>Values\<close>

definition literal_value :: "literal \<Rightarrow> sep_value" where
  "literal_value l =
     (case l of
        L_EMPTY \<Rightarrow> VEmpty None None False
      | L_EMPTYS \<Rightarrow> VEmptys
      | L_Token (IntLit i) \<Rightarrow> VInt i | L_Token (FloatLit x) \<Rightarrow> VFlt x
      | L_Token (StrLit s) \<Rightarrow> VStr s | L_Token (BoolLit b) \<Rightarrow> VBool b
      | L_Token NoLit \<Rightarrow> VVoid)"

definition is_function :: "'w platform \<Rightarrow> ustr \<Rightarrow> bool" where
  "is_function pf name \<longleftrightarrow> name \<in> set (builtin_names pf) \<or> name \<in> set (p_functions pf)"

definition variable_value :: "'w platform \<Rightarrow> nat \<Rightarrow> source_position \<Rightarrow> ustr \<Rightarrow> ('w, sep_value) comp" where
  "variable_value pf r p name =
     andthen (runtime_of r) (\<lambda>rt.
     if env_contains name (chain rt) then lift (env_get p name (chain rt))
     else if name \<in> set (map fst (rt_logics rt)) \<or> is_function pf name then ret (VLogic r name)
     else lift (env_get p name (chain rt)))"

text \<open>Indexing and members.\<close>

definition index_value ::
  "source_position \<Rightarrow> source_position \<Rightarrow> sep_value \<Rightarrow> sep_value \<Rightarrow> sep_value result" where
  "index_value p q target index =
     (if is_empty_state target \<or> is_empty_state index then Inl (empty_use p)
      else case target of
        VList vs \<Rightarrow>
          (case index of
             VInt i \<Rightarrow>
               if i < 0 then Inl (type_error q)
               else if int (length vs) \<le> i then Inl (mk_error 302 ''Index out of range'' q)
               else Inr (vs ! nat i)
           | _ \<Rightarrow> Inl (type_error q))
      | _ \<Rightarrow> Inl (type_error p))"

definition member_names :: "host_kind \<Rightarrow> string list" where
  "member_names kind =
     (case kind of
        H_regex_match_result \<Rightarrow> [''text'', ''start'', ''end'']
      | H_exec_result \<Rightarrow> [''exit_code'', ''stdout'', ''stderr'', ''stdout_bytes'', ''stderr_bytes'', ''timed_out'', ''duration'', ''command'']
      | H_http_response \<Rightarrow> [''status'', ''url'', ''headers'', ''bytes'', ''text'', ''encoding'', ''redirects'', ''cookies'']
      | H_oauth_token \<Rightarrow> [''access_token'', ''token_type'', ''expires_in'', ''scope'']
      | H_mail_address \<Rightarrow> [''address'', ''display_name'']
      | H_mail_send_result \<Rightarrow> [''provider'', ''message_id'', ''accepted_recipients'']
      | _ \<Rightarrow> [])"

text \<open>The kinds that look their members up themselves, and raise for a missing one.\<close>

definition own_members :: "host_kind set" where
  "own_members = {H_pin_namespace, H_board, H_pin, H_embedded_bus, H_system}"

definition private_export :: "source_position \<Rightarrow> sep_error" where
  "private_export p = mk_error 706 ''Private or missing export'' p"

definition member_value ::
  "'w platform \<Rightarrow> source_position \<Rightarrow> sep_value \<Rightarrow> ustr \<Rightarrow> ('w, sep_value) comp" where
  "member_value pf p target name =
     (case target of
        VEmpty _ _ _ \<Rightarrow> fail (empty_use p)
      | VObj fs ts \<Rightarrow> lift (case map_of fs name of Some v \<Rightarrow> Inr v | None \<Rightarrow> Inl (missing_field p))
      | VHost kind h \<Rightarrow>
          if kind \<in> own_members \<or> name \<in> U ` set (member_names kind) then outside (p_member pf kind h name p)
          else fail (type_error p)
      | VNamespace m exports \<Rightarrow>
          if name \<notin> set exports then fail (private_export p)
          else andthen (runtime_of m) (\<lambda>rt.
            if name \<in> set (map fst (rt_logics rt)) then ret (VLogic m name)
            else lift (env_get p name [rt_globals rt]))
      | _ \<Rightarrow> fail (type_error p))"

definition match_group ::
  "'w platform \<Rightarrow> source_position \<Rightarrow> nat \<Rightarrow> ustr \<Rightarrow> sep_value list \<Rightarrow> named_arguments \<Rightarrow> sep_value result" where
  "match_group pf p h name args named =
     (if name \<noteq> U ''group'' then Inl (mk_error 213 ''Unknown member method'' p)
      else case (args, named) of
        ([VInt i], []) \<Rightarrow>
          (case p_match pf h of (text, groups) \<Rightarrow>
             if i < 0 then Inl (type_error p)
             else if i = 0 then Inr (VStr text)
             else if int (length groups) < i then Inl (mk_error 834 ''Regex group out of range'' p)
             else Inr (groups ! (nat i - 1)))
      | ([_], []) \<Rightarrow> Inl (type_error p)
      | _ \<Rightarrow> Inl (mk_error 207 ''Argument count mismatch'' p))"

definition member_call ::
  "'w platform \<Rightarrow> 'w handler \<Rightarrow> source_position \<Rightarrow> sep_value \<Rightarrow> ustr \<Rightarrow> sep_value list \<Rightarrow> named_arguments \<Rightarrow>
   ('w, sep_value) comp" where
  "member_call pf k p target name args named =
     (case target of
        VHost kind h \<Rightarrow>
          if kind = H_regex_match_result then lift (match_group pf p h name args named) else fail (type_error p)
      | VNamespace m exports \<Rightarrow>
          andthen (runtime_of m) (\<lambda>rt.
          if name \<notin> set exports \<or> name \<notin> set (map fst (rt_logics rt)) \<union> set (rt_errors rt)
          then fail (private_export p) else k (Call m name args named p))
      | _ \<Rightarrow> fail (type_error p))"

subsection \<open>Expressions\<close>

fun eval :: "'w platform \<Rightarrow> 'w handler \<Rightarrow> nat \<Rightarrow> expr \<Rightarrow> ('w, sep_value) comp"
  and eval_list :: "'w platform \<Rightarrow> 'w handler \<Rightarrow> nat \<Rightarrow> expr list \<Rightarrow> ('w, sep_value list) comp"
  and eval_named :: "'w platform \<Rightarrow> 'w handler \<Rightarrow> nat \<Rightarrow> (ustr \<times> expr) list \<Rightarrow> ('w, named_arguments) comp"
  and shape_target :: "'w platform \<Rightarrow> 'w handler \<Rightarrow> nat \<Rightarrow> source_position \<Rightarrow> expr \<Rightarrow> ('w, target) comp"
  and thunks :: "'w platform \<Rightarrow> 'w handler \<Rightarrow> nat \<Rightarrow> expr list \<Rightarrow> 'w thunk list"
  and first_target :: "'w platform \<Rightarrow> 'w handler \<Rightarrow> nat \<Rightarrow> source_position \<Rightarrow> expr list \<Rightarrow> ('w, target) comp" where
  "eval pf k r (LiteralExpr p l) = ret (literal_value l)"
| "eval pf k r (GroupExpr p e) = eval pf k r e"
| "eval pf k r (EmptyTestExpr p e negated) =
     andthen (eval pf k r e) (\<lambda>v. ret (VBool (is_empty_state v \<noteq> negated)))"
| "eval pf k r (EmptysTestExpr p e negated) =
     andthen (eval pf k r e) (\<lambda>v. ret (VBool (container_is_emptys v \<noteq> negated)))"
| "eval pf k r (PositionSelectorExpr p name) = fail (mk_error 136 ''Position selector context'' p)"
| "eval pf k r (VariableExpr p name) = variable_value pf r p name"
| "eval pf k r (ListExpr p es) =
     andthen (eval_list pf k r es) (\<lambda>vs. andthen (lift (list_element_type p vs)) (\<lambda>_. ret (VList vs)))"
| "eval pf k r (CallExpr p callee args named) =
     (if is_shape_call callee (length args)
      then list_shape_call r p callee (first_target pf k r p args) (thunks pf k r args) (named \<noteq> [])
      else andthen (eval_list pf k r args) (\<lambda>vs.
           andthen (eval_named pf k r named) (\<lambda>ns. k (Call r callee vs ns p))))"
| "eval pf k r (IndexExpr p target index) =
     andthen (eval pf k r target) (\<lambda>t. andthen (eval pf k r index) (\<lambda>i.
     lift (index_value p (expr_position index) t i)))"
| "eval pf k r (MemberExpr p target name) =
     andthen (eval pf k r target) (\<lambda>t. member_value pf p t name)"
| "eval pf k r (MemberCallExpr p target name args named) =
     andthen (eval pf k r target) (\<lambda>t.
     andthen (eval_list pf k r args) (\<lambda>vs.
     andthen (eval_named pf k r named) (\<lambda>ns. member_call pf k p t name vs ns)))"
| "eval pf k r (UnaryExpr p op e) =
     andthen (eval pf k r e) (\<lambda>v. lift (unary_operator p op v))"
| "eval pf k r (BinaryExpr p left op right) =
     andthen (eval pf k r left) (\<lambda>a.
     andthen (lift (check_emptys (expr_position left) a)) (\<lambda>_.
     if op = U ''??'' then (if is_empty_state a then eval pf k r right else ret a)
     else andthen (lift (check_present (expr_position left) a)) (\<lambda>_.
       if op = U ''&&'' \<or> op = U ''||'' then
         andthen (lift (boolean_of (expr_position left) a)) (\<lambda>b.
         if b = (op = U ''||'') then ret (VBool b)
         else andthen (eval pf k r right) (\<lambda>c.
              andthen (lift (boolean_of (expr_position right) c)) (\<lambda>d. ret (VBool d))))
       else andthen (eval pf k r right) (\<lambda>b.
            andthen (lift (check_operand (expr_position right) b)) (\<lambda>_.
            lift_partial (binary_operator (p_host pf) p a op b))))))"
| "eval_list pf k r [] = ret []"
| "eval_list pf k r (e # es) =
     andthen (eval pf k r e) (\<lambda>v. andthen (eval_list pf k r es) (\<lambda>vs. ret (v # vs)))"
| "eval_named pf k r [] = ret []"
| "eval_named pf k r ((name, e) # es) =
     andthen (eval pf k r e) (\<lambda>v. andthen (eval_named pf k r es) (\<lambda>vs. ret ((name, v) # vs)))"
| "shape_target pf k r q (GroupExpr p e) = shape_target pf k r q e"
| "shape_target pf k r q (VariableExpr p name) = variable_target r q name"
| "shape_target pf k r q (IndexExpr p e index) =
     index_target r q (shape_target pf k r q e) (index, eval pf k r index)"
| "shape_target pf k r q e = fail (no_target q)"
| "thunks pf k r [] = []"
| "thunks pf k r (e # es) = (e, eval pf k r e) # thunks pf k r es"
| "first_target pf k r q [] = fail (no_target q)"
| "first_target pf k r q (e # es) = shape_target pf k r q e"

subsection \<open>Statements\<close>

text \<open>\<open>try: m finally: k\<close>: the second part runs on every exit of the first, and its own exception
  replaces the first one's.\<close>

definition with_finally :: "('w, 'a) comp \<Rightarrow> ('w, unit) comp \<Rightarrow> ('w, 'a) comp" where
  "with_finally m k s =
     (case m s of
        (NoFuel, t) \<Rightarrow> (NoFuel, t)
      | (r, t) \<Rightarrow> (case k t of (Done _, u) \<Rightarrow> (r, u) | (Raised x, u) \<Rightarrow> (Raised x, u) | (NoFuel, u) \<Rightarrow> (NoFuel, u)))"

fun each :: "('a \<Rightarrow> ('w, unit) comp) \<Rightarrow> 'a list \<Rightarrow> ('w, unit) comp" where
  "each f [] = ret ()"
| "each f (x # xs) = andthen (f x) (\<lambda>_. each f xs)"

text \<open>An indexed assignment keeps what it did before an error.\<close>

definition index_assignment ::
  "nat \<Rightarrow> source_position \<Rightarrow> ustr \<Rightarrow> sep_value list \<Rightarrow> sep_value \<Rightarrow> ('w, unit) comp" where
  "index_assignment r p name indexes v =
     andthen (runtime_of r) (\<lambda>rt.
     case assign_indexes p name indexes v (chain rt) of
       (failure, env) \<Rightarrow>
         andthen (set_runtime r (set_chain env)) (\<lambda>_.
         case failure of None \<Rightarrow> ret () | Some e \<Rightarrow> fail e))"

definition throw_value :: "source_position \<Rightarrow> sep_value \<Rightarrow> ('w, 'a) comp" where
  "throw_value p v =
     (case v of VErr category message \<Rightarrow>
        fail ((mk_error 760 [] p)\<lparr>err_category := category, err_message := message\<rparr>)
      | _ \<Rightarrow> fail (type_error p))"

text \<open>The branch that catches an error.\<close>

definition select_catch :: "(ustr \<times> 'c) list \<Rightarrow> sep_error \<Rightarrow> 'c option" where
  "select_catch catches e = map_option snd (find (\<lambda>(requested, _). error_matches requested (error_category e)) catches)"

definition execute_try ::
  "('w, unit) comp \<Rightarrow> (ustr \<times> ('w, unit) comp) list \<Rightarrow> ('w, unit) comp option \<Rightarrow> ('w, unit) comp" where
  "execute_try body catches final =
     with_finally
       (catching body (\<lambda>x. case x of
          Sep e \<Rightarrow> (case select_catch catches e of Some m \<Rightarrow> m | None \<Rightarrow> raise x)
        | _ \<Rightarrow> raise x))
       (case final of None \<Rightarrow> ret () | Some m \<Rightarrow> m)"

text \<open>A transaction is rolled back on an error or a crash, and committed on a return.\<close>

definition transact :: "'w platform \<Rightarrow> string \<Rightarrow> sep_value \<Rightarrow> source_position \<Rightarrow> ('w, unit) comp" where
  "transact pf step connection p =
     andthen (outside (p_transaction pf (U step) connection p)) (\<lambda>_. ret ())"

definition execute_transaction ::
  "'w platform \<Rightarrow> source_position \<Rightarrow> sep_value \<Rightarrow> ('w, unit) comp \<Rightarrow> ('w, unit) comp" where
  "execute_transaction pf p connection body =
     andthen (transact pf ''begin'' connection p) (\<lambda>_.
     andthen
       (catching body (\<lambda>x.
          andthen (transact pf (case x of Returned _ \<Rightarrow> ''commit'' | Http_returned _ \<Rightarrow> ''commit'' | _ \<Rightarrow> ''rollback'')
                     connection p)
            (\<lambda>_. raise x)))
       (\<lambda>_. transact pf ''commit'' connection p))"

definition object_field ::
  "source_position \<Rightarrow> (ustr \<times> sep_value) list \<times> (ustr \<times> field_spec) list \<Rightarrow> ustr \<Rightarrow> ustr option \<Rightarrow> type_spec option \<Rightarrow>
   sep_value \<Rightarrow> ((ustr \<times> sep_value) list \<times> (ustr \<times> field_spec) list) result" where
  "object_field p acc name declared element v =
     (case acc of (fs, ts) \<Rightarrow>
        case declared of
          Some d \<Rightarrow>
            bind_sum (prepare_typed_value p d element v) (\<lambda>w. Inr (dict_set fs name w, dict_set ts name (d, element)))
        | None \<Rightarrow>
            if is_empty_state v then Inl (mk_error 129 ''EMPTY type required'' p) else Inr (dict_set fs name v, ts))"

definition block_name :: "stmt \<Rightarrow> ustr" where
  "block_name s = (case s of ObjectBlock _ name _ _ \<Rightarrow> name | ListBlock _ name _ _ \<Rightarrow> name | _ \<Rightarrow> [])"

fun build_data_block :: "'w platform \<Rightarrow> 'w handler \<Rightarrow> nat \<Rightarrow> stmt \<Rightarrow> ('w, sep_value) comp"
  and build_entries ::
    "'w platform \<Rightarrow> 'w handler \<Rightarrow> nat \<Rightarrow> object_entry list \<Rightarrow>
     (ustr \<times> sep_value) list \<times> (ustr \<times> field_spec) list \<Rightarrow>
     ('w, (ustr \<times> sep_value) list \<times> (ustr \<times> field_spec) list) comp" where
  "build_data_block pf k r (ListBlock p name es q) =
     andthen (eval_list pf k r es) (\<lambda>vs. andthen (lift (list_element_type p vs)) (\<lambda>_. ret (VList vs)))"
| "build_data_block pf k r (ObjectBlock p name entries q) =
     andthen (build_entries pf k r entries ([], [])) (\<lambda>(fs, ts). ret (VObj fs ts))"
| "build_data_block pf k r s = raise Crash"
| "build_entries pf k r [] acc = ret acc"
| "build_entries pf k r (ObjectField p name e declared element # es) acc =
     andthen (eval pf k r e) (\<lambda>v.
     andthen (lift (object_field p acc name declared element v)) (\<lambda>acc'. build_entries pf k r es acc'))"
| "build_entries pf k r (BlockEntry s # es) acc =
     andthen (build_data_block pf k r s) (\<lambda>v.
     build_entries pf k r es
       (case acc of (fs, ts) \<Rightarrow>
          (dict_set fs (block_name s) v, dict_set ts (block_name s) (value_type_name v, None))))"

fun exec :: "'w platform \<Rightarrow> 'w handler \<Rightarrow> nat \<Rightarrow> nat \<Rightarrow> stmt \<Rightarrow> ('w, unit) comp"
  and exec_all :: "'w platform \<Rightarrow> 'w handler \<Rightarrow> nat \<Rightarrow> nat \<Rightarrow> stmt list \<Rightarrow> ('w, unit) comp"
  and exec_branches ::
    "'w platform \<Rightarrow> 'w handler \<Rightarrow> nat \<Rightarrow> nat \<Rightarrow> if_branch list \<Rightarrow> ('w, unit) comp \<Rightarrow> ('w, unit) comp"
  and catch_bodies ::
    "'w platform \<Rightarrow> 'w handler \<Rightarrow> nat \<Rightarrow> nat \<Rightarrow> catch_branch list \<Rightarrow> (ustr \<times> ('w, unit) comp) list" where
  "exec pf k n r (ImportStmt p path alias) =
     andthen (k (Import r p path)) (\<lambda>v. on_scope r (define_const p alias v))"
| "exec pf k n r (Assignment p name e) =
     andthen (eval pf k r e) (\<lambda>v. on_scope r (assign p name v))"
| "exec pf k n r (IndexAssignment p name indexes e) =
     andthen (eval_list pf k r indexes) (\<lambda>is. andthen (eval pf k r e) (\<lambda>v. index_assignment r p name is v))"
| "exec pf k n r (ConstDeclaration p name e) =
     andthen (eval pf k r e) (\<lambda>v. on_scope r (define_const p name v))"
| "exec pf k n r (TypedDeclaration p name d element e constant) =
     andthen (eval pf k r e) (\<lambda>v. on_scope r (define_typed p name d element v constant))"
| "exec pf k n r (PrintStmt p e) =
     andthen (eval pf k r e) (\<lambda>v. andthen (lift (display_value (p_host pf) p v)) (\<lambda>t. write_out (t @ [10])))"
| "exec pf k n r (PrintErrorStmt p e) =
     andthen (eval pf k r e) (\<lambda>v. andthen (lift (display_value (p_host pf) p v)) (\<lambda>t. write_err (t @ [10])))"
| "exec pf k n r (ExpressionStmt p e) = andthen (eval pf k r e) (\<lambda>_. ret ())"
| "exec pf k n r (ReturnStmt p e) =
     (case e of None \<Rightarrow> raise (Returned VVoid) | Some e \<Rightarrow> andthen (eval pf k r e) (\<lambda>v. raise (Returned v)))"
| "exec pf k n r (IfStmt p label branches final q) =
     exec_branches pf k n r branches (case final of None \<Rightarrow> ret () | Some body \<Rightarrow> exec_all pf k n r body)"
| "exec pf k n r (WhileStmt p label condition body q) =
     loop_n n (\<lambda>_.
       andthen (eval pf k r condition) (\<lambda>v.
       andthen (lift (boolean_of (expr_position condition) v)) (\<lambda>b.
       if b then andthen (exec_all pf k n r body) (\<lambda>_. ret (Inl ())) else ret (Inr ())))) ()"
| "exec pf k n r (ForStmt p label variable iterable body q) =
     andthen (eval pf k r iterable) (\<lambda>v.
     case v of
       VList vs \<Rightarrow> each (\<lambda>item. andthen (on_scope r (assign p variable item)) (\<lambda>_. exec_all pf k n r body)) vs
     | _ \<Rightarrow> fail (type_error (expr_position iterable)))"
| "exec pf k n r (ObjectBlock p name entries q) =
     andthen (build_data_block pf k r (ObjectBlock p name entries q)) (\<lambda>v. on_scope r (assign p name v))"
| "exec pf k n r (ListBlock p name es q) =
     andthen (build_data_block pf k r (ListBlock p name es q)) (\<lambda>v. on_scope r (assign p name v))"
| "exec pf k n r (ThrowStmt p e) = andthen (eval pf k r e) (throw_value p)"
| "exec pf k n r (TransactionStmt p connection label body q) =
     andthen (eval pf k r connection) (\<lambda>v. execute_transaction pf p v (exec_all pf k n r body))"
| "exec pf k n r (TryStmt p label body catches final q) =
     execute_try (exec_all pf k n r body) (catch_bodies pf k n r catches)
       (case final of None \<Rightarrow> None | Some b \<Rightarrow> Some (exec_all pf k n r b))"
| "exec pf k n r (ErrorDecl p name q) = ret ()"
| "exec pf k n r (HttpRouteDecl p m path label body q) = ret ()"
| "exec pf k n r (LogicDecl p name ps ts body q types) = ret ()"
| "exec_all pf k n r [] = ret ()"
| "exec_all pf k n r (s # ss) = andthen (exec pf k n r s) (\<lambda>_. exec_all pf k n r ss)"
| "exec_branches pf k n r [] final = final"
| "exec_branches pf k n r (IfBranch condition body q # bs) final =
     andthen (eval pf k r condition) (\<lambda>v.
     andthen (lift (boolean_of (expr_position condition) v)) (\<lambda>b.
     if b then exec_all pf k n r body else exec_branches pf k n r bs final))"
| "catch_bodies pf k n r [] = []"
| "catch_bodies pf k n r (CatchBranch p category body # cs) =
     (category, exec_all pf k n r body) # catch_bodies pf k n r cs"

subsection \<open>Calls\<close>

definition EMPTY_SAFE :: "ustr list" where
  "EMPTY_SAFE =
     map U [''type'', ''type_of'', ''is_number'', ''is_string'', ''is_boolean'', ''is_list'', ''is_object'', ''is_bytes'',
       ''is_datetime'', ''is_duration'', ''is_secret'', ''object_set'', ''json_encode'', ''object_to_yaml'',
       ''network_set_static_address'']"

definition check_arguments :: "source_position \<Rightarrow> ustr \<Rightarrow> sep_value list \<Rightarrow> unit result" where
  "check_arguments p name vs =
     (if VVoid \<in> set vs then Inl (mk_error 127 ''VOID value use'' p)
      else if name \<noteq> U ''object_set'' \<and> VEmptys \<in> set vs then Inl (mk_error 133 ''EMPTYS value use'' p)
      else Inr ())"

definition call_value :: "'w handler \<Rightarrow> source_position \<Rightarrow> ('w world, exn) caller" where
  "call_value k p f args = (case f of VLogic r name \<Rightarrow> k (Call r name args [] p) | _ \<Rightarrow> fail (type_error p))"

definition custom_error ::
  "source_position \<Rightarrow> ustr \<Rightarrow> sep_value list \<Rightarrow> named_arguments \<Rightarrow> sep_value result" where
  "custom_error p name args named =
     (case (args, named) of
        ([VStr s], []) \<Rightarrow> Inr (VErr name s)
      | ([_], []) \<Rightarrow> Inl (type_error p)
      | _ \<Rightarrow> Inl (mk_error 207 ''Argument count mismatch'' p))"

text \<open>Arguments are checked against declared parameter types, then against the types that the first
  call of the function had.\<close>

definition prepare_argument ::
  "source_position \<Rightarrow> (ustr \<times> ustr \<times> type_spec option) list \<Rightarrow> ustr \<times> sep_value \<Rightarrow> sep_value result" where
  "prepare_argument p types arg =
     (case map_of types (fst arg) of
        Some (d, e) \<Rightarrow> prepare_typed_value p d e (snd arg)
      | None \<Rightarrow>
          (case snd arg of
             VEmpty None _ _ \<Rightarrow> Inl (mk_error 129 ''EMPTY type required'' p)
           | v \<Rightarrow> Inr v))"

definition signature_of :: "source_position \<Rightarrow> sep_value list \<Rightarrow> signature result" where
  "signature_of p = map_result (\<lambda>v. bind_sum (value_element_type p v) (\<lambda>e. Inr (value_type_name v, e)))"

definition signature_step ::
  "source_position \<Rightarrow> (ustr \<times> type_spec option) \<times> (ustr \<times> type_spec option) \<Rightarrow> (ustr \<times> type_spec option) result" where
  "signature_step p pair =
     (case pair of ((t, e), (u, f)) \<Rightarrow>
        if t \<noteq> u \<or> \<not> type_specs_compatible e f then Inl (mk_error 208 ''SEP parameter type mismatch'' p)
        else Inr (if t = U ''list'' \<and> e = None \<and> f \<noteq> None then (u, f) else (t, e)))"

definition infer_signature :: "source_position \<Rightarrow> signature option \<Rightarrow> signature \<Rightarrow> signature result" where
  "infer_signature p inferred actual =
     (case inferred of None \<Rightarrow> Inr actual | Some s \<Rightarrow> map_result (signature_step p) (zip s actual))"

definition bind_parameter ::
  "nat \<Rightarrow> source_position \<Rightarrow> (ustr \<times> ustr \<times> type_spec option) list \<Rightarrow> ustr \<times> sep_value \<Rightarrow> ('w, unit) comp" where
  "bind_parameter r p types arg =
     on_scope r (case map_of types (fst arg) of
        None \<Rightarrow> assign p (fst arg) (snd arg)
      | Some (d, e) \<Rightarrow> define_typed p (fst arg) d e (snd arg) False)"

definition enter_scope :: "nat \<Rightarrow> ('w, unit) comp" where
  "enter_scope r = set_runtime r (\<lambda>rt. rt\<lparr>rt_local := Some Map.empty\<rparr>)"

definition leave_scope :: "nat \<Rightarrow> scope option \<Rightarrow> ('w, unit) comp" where
  "leave_scope r previous = set_runtime r (\<lambda>rt. rt\<lparr>rt_local := previous\<rparr>)"

definition run_body ::
  "'w platform \<Rightarrow> 'w handler \<Rightarrow> nat \<Rightarrow> nat \<Rightarrow> logic \<Rightarrow> sep_value list \<Rightarrow> source_position \<Rightarrow> ('w, sep_value) comp" where
  "run_body pf k n r lg args p =
     andthen (runtime_of r) (\<lambda>rt.
     andthen (enter_scope r) (\<lambda>_.
     with_finally
       (andthen (each (bind_parameter r p (lg_types lg)) (zip (lg_parameters lg) args)) (\<lambda>_.
        catching (andthen (exec_all pf k n r (lg_body lg)) (\<lambda>_. ret VVoid))
          (\<lambda>x. case x of Returned v \<Rightarrow> ret v | _ \<Rightarrow> raise x)))
       (leave_scope r (rt_local rt))))"

definition call_logic ::
  "'w platform \<Rightarrow> 'w handler \<Rightarrow> nat \<Rightarrow> nat \<Rightarrow> ustr \<Rightarrow> logic \<Rightarrow> sep_value list \<Rightarrow> named_arguments \<Rightarrow> source_position \<Rightarrow>
   ('w, sep_value) comp" where
  "call_logic pf k n r name lg args named p =
     (if named \<noteq> [] then fail (mk_error 207 ''Unsupported named argument'' p)
      else if length args \<noteq> length (lg_parameters lg) then fail (mk_error 207 ''Argument count mismatch'' p)
      else
        andthen (lift (map_result (prepare_argument p (lg_types lg)) (zip (lg_parameters lg) args))) (\<lambda>vs.
        andthen (lift (signature_of p vs)) (\<lambda>actual.
        andthen (runtime_of r) (\<lambda>rt.
        andthen (lift (infer_signature p (map_of (rt_signatures rt) name) actual)) (\<lambda>s.
        andthen (set_runtime r (\<lambda>rt. rt\<lparr>rt_signatures := dict_set (rt_signatures rt) name s\<rparr>)) (\<lambda>_.
        run_body pf k n r lg vs p))))))"

definition call :: "'w platform \<Rightarrow> 'w handler \<Rightarrow> nat \<Rightarrow> nat \<Rightarrow> ustr \<Rightarrow> sep_value list \<Rightarrow> named_arguments \<Rightarrow>
   source_position \<Rightarrow> ('w, sep_value) comp" where
  "call pf k n r name args named p =
     (let vs = args @ map snd named; has_empty = list_ex is_empty_state vs in
     andthen (lift (check_arguments p name vs)) (\<lambda>_.
     andthen (runtime_of r) (\<lambda>rt.
     if name \<in> set (rt_errors rt) then lift (custom_error p name args named)
     else case builtin_find pf (call_value k) name of
       Some entry \<Rightarrow>
         if has_empty \<and> name \<notin> set EMPTY_SAFE then fail (empty_use p) else builtin_call entry r p args named
     | None \<Rightarrow>
         if name \<in> set (p_functions pf) then
           (if has_empty then fail (empty_use p) else outside (p_function pf name args named p))
         else case map_of (rt_logics rt) name of
           None \<Rightarrow> fail (mk_error 206 ''Undefined SEP'' p)
         | Some lg \<Rightarrow> call_logic pf k n r name lg args named p)))"

subsection \<open>Programs\<close>

text \<open>The first pass registers functions, error names and routes.\<close>

definition logic_names :: "stmt list \<Rightarrow> ustr list" where
  "logic_names ss = concat (map (\<lambda>s. case s of LogicDecl _ name _ _ _ _ _ \<Rightarrow> [name] | _ \<Rightarrow> []) ss)"

definition declare_logic ::
  "'w platform \<Rightarrow> source_position \<Rightarrow> ustr \<Rightarrow> logic \<Rightarrow> runtime \<Rightarrow> runtime result" where
  "declare_logic pf p name lg rt =
     (if is_function pf name then Inl (mk_error 209 ''Reserved function name'' p)
      else if name \<in> set (map fst (rt_logics rt)) then Inl (mk_error 204 ''Duplicate function'' p)
      else Inr (rt\<lparr>rt_logics := rt_logics rt @ [(name, lg)]\<rparr>))"

definition declare_error ::
  "'w platform \<Rightarrow> ustr list \<Rightarrow> source_position \<Rightarrow> ustr \<Rightarrow> runtime \<Rightarrow> runtime result" where
  "declare_error pf functions p name rt =
     (if is_function pf name \<or> name \<in> set (rt_errors rt) \<or> name \<in> set functions
      then Inl (mk_error 122 ''Duplicate error name'' p)
      else Inr (rt\<lparr>rt_errors := rt_errors rt @ [name]\<rparr>))"

definition declare_route ::
  "'w platform \<Rightarrow> source_position \<Rightarrow> ustr \<Rightarrow> ustr \<Rightarrow> stmt list \<Rightarrow> runtime \<Rightarrow> runtime result" where
  "declare_route pf p m path body rt =
     (if \<not> p_route_ok pf path then Inl (mk_error 892 ''Invalid route path'' p)
      else if (m, path) \<in> set (map fst (rt_routes rt)) then Inl (mk_error 896 ''Duplicate HTTP route'' p)
      else Inr (rt\<lparr>rt_routes := rt_routes rt @ [((m, path), body)]\<rparr>))"

definition declare_statement ::
  "'w platform \<Rightarrow> ustr list \<Rightarrow> stmt \<Rightarrow> runtime \<Rightarrow> runtime result" where
  "declare_statement pf functions s rt =
     (case s of
        LogicDecl p name ps _ body _ types \<Rightarrow>
          declare_logic pf p name \<lparr>lg_position = p, lg_parameters = ps, lg_types = types, lg_body = body\<rparr> rt
      | ErrorDecl p name _ \<Rightarrow> declare_error pf functions p name rt
      | HttpRouteDecl p m path _ body _ \<Rightarrow> declare_route pf p m path body rt
      | _ \<Rightarrow> Inr rt)"

definition is_declaration :: "stmt \<Rightarrow> bool" where
  "is_declaration s =
     (case s of LogicDecl _ _ _ _ _ _ _ \<Rightarrow> True | ErrorDecl _ _ _ \<Rightarrow> True | HttpRouteDecl _ _ _ _ _ _ \<Rightarrow> True | _ \<Rightarrow> False)"

definition declare_in ::
  "'w platform \<Rightarrow> nat \<Rightarrow> ustr list \<Rightarrow> stmt \<Rightarrow> ('w, unit) comp" where
  "declare_in pf r functions s =
     andthen (runtime_of r) (\<lambda>rt. andthen (lift (declare_statement pf functions s rt)) (\<lambda>rt'. set_runtime r (\<lambda>_. rt')))"

definition run_program ::
  "'w platform \<Rightarrow> 'w handler \<Rightarrow> nat \<Rightarrow> nat \<Rightarrow> program \<Rightarrow> bool \<Rightarrow> ('w, unit) comp" where
  "run_program pf k n r prog invoke_main =
     (let ss = program_statements prog in
     andthen (each (declare_in pf r (logic_names ss)) ss) (\<lambda>_.
     andthen (runtime_of r) (\<lambda>rt.
     let main = map_of (rt_logics rt) (U ''main'') in
     andthen (case main of
         Some lg \<Rightarrow>
           if lg_parameters lg \<noteq> [] then fail (mk_error 205 ''Invalid main function'' (lg_position lg)) else ret ()
       | None \<Rightarrow> ret ()) (\<lambda>_.
     andthen (each (exec pf k n r) (filter (\<lambda>s. \<not> is_declaration s) ss)) (\<lambda>_.
     case main of
       Some lg \<Rightarrow>
         if invoke_main then andthen (k (Call r (U ''main'') [] [] (lg_position lg))) (\<lambda>_. ret ()) else ret ()
     | None \<Rightarrow> ret ())))))"

text \<open>A new interpreter: \<open>system\<close> and \<open>pin\<close> are constants of its globals.\<close>

definition runtime_position :: source_position where
  "runtime_position = mk_pos (U ''<runtime>'') 1 1 (U ''system'')"

definition initial_scope :: scope where
  "initial_scope =
     [U ''system'' \<mapsto> mk_binding (VHost H_system 0) (U ''system'') None True runtime_position,
      U ''pin'' \<mapsto> mk_binding (VHost H_pin_namespace 0) (U ''pin_namespace'') None True runtime_position]"

definition new_runtime :: "'w platform \<Rightarrow> nat \<Rightarrow> ustr option \<Rightarrow> runtime" where
  "new_runtime pf number script =
     \<lparr>rt_globals = initial_scope, rt_local = None, rt_logics = [], rt_errors = [], rt_routes = [],
      rt_signatures = [], rt_random = seed (p_entropy pf number), rt_script = script\<rparr>"

definition add_runtime :: "'w platform \<Rightarrow> ustr option \<Rightarrow> ('w, nat) comp" where
  "add_runtime pf script w =
     (Done (length (w_runtimes w)),
      w\<lparr>w_runtimes := w_runtimes w @ [new_runtime pf (length (w_runtimes w)) script]\<rparr>)"

text \<open>What a module exports.\<close>

definition exports_of :: "stmt list \<Rightarrow> ustr list" where
  "exports_of ss = concat (map (\<lambda>s. case s of
       LogicDecl _ name _ _ _ _ _ \<Rightarrow> [name] | ConstDeclaration _ name _ \<Rightarrow> [name]
     | TypedDeclaration _ name _ _ _ _ \<Rightarrow> [name] | ErrorDecl _ name _ \<Rightarrow> [name] | _ \<Rightarrow> []) ss)"

definition load_module ::
  "'w platform \<Rightarrow> 'w handler \<Rightarrow> nat \<Rightarrow> source_position \<Rightarrow> ustr \<Rightarrow> ('w, sep_value) comp" where
  "load_module pf k n p key =
     andthen (lift (case p_source pf key of Some t \<Rightarrow> Inr t | None \<Rightarrow> Inl (mk_error 705 ''Import error'' p))) (\<lambda>source.
     andthen (lift (p_load pf source key)) (\<lambda>prog.
     andthen (modifies (\<lambda>w. w\<lparr>w_stack := w_stack w @ [key]\<rparr>)) (\<lambda>_.
     andthen (add_runtime pf (Some key)) (\<lambda>m.
     andthen (with_finally (run_program pf k n m prog False) (modifies (\<lambda>w. w\<lparr>w_stack := butlast (w_stack w)\<rparr>))) (\<lambda>_.
     let exports = exports_of (program_statements prog) in
     andthen (modifies (\<lambda>w. w\<lparr>w_cache := dict_set (w_cache w) key (m, exports)\<rparr>)) (\<lambda>_.
     ret (VNamespace m exports)))))))"

definition import_module ::
  "'w platform \<Rightarrow> 'w handler \<Rightarrow> nat \<Rightarrow> nat \<Rightarrow> source_position \<Rightarrow> ustr \<Rightarrow> ('w, sep_value) comp" where
  "import_module pf k n r p path =
     andthen (lift (p_may_import pf p)) (\<lambda>_.
     andthen (lift (check (ends_with path (U ''.sep'')) (mk_error 704 ''Invalid import path'' p))) (\<lambda>_.
     andthen (runtime_of r) (\<lambda>rt.
     andthen (lift (p_import_path pf (rt_script rt) p path)) (\<lambda>key.
     andthen (reads (\<lambda>w. (w_stack w, w_cache w))) (\<lambda>(stack, cache).
     if key \<in> set stack then fail (mk_error 701 ''Circular import'' p)
     else case map_of cache key of
       Some (m, exports) \<Rightarrow> ret (VNamespace m exports)
     | None \<Rightarrow> load_module pf k n p key)))))"

definition request_step :: "'w platform \<Rightarrow> 'w handler \<Rightarrow> nat \<Rightarrow> request \<Rightarrow> ('w, sep_value) comp" where
  "request_step pf k n q =
     (case q of
        Call r name args named p \<Rightarrow> call pf k n r name args named p
      | Import r p path \<Rightarrow> import_module pf k n r p path)"

primrec perform :: "'w platform \<Rightarrow> nat \<Rightarrow> 'w handler" where
  "perform pf 0 = (\<lambda>q. no_fuel)"
| "perform pf (Suc n) = request_step pf (perform pf n) n"

definition run :: "'w platform \<Rightarrow> nat \<Rightarrow> program \<Rightarrow> bool \<Rightarrow> ('w, ustr) comp" where
  "run pf n prog invoke_main = andthen (run_program pf (perform pf n) n 0 prog invoke_main) (\<lambda>_. reads w_out)"

definition invoke :: "'w platform \<Rightarrow> nat \<Rightarrow> ustr \<Rightarrow> sep_value list \<Rightarrow> named_arguments \<Rightarrow> ('w, sep_value) comp" where
  "invoke pf n name args named =
     andthen (runtime_of 0) (\<lambda>rt.
     perform pf n (Call 0 name args named
       (mk_pos (case rt_script rt of Some s \<Rightarrow> s | None \<Rightarrow> U ''<host>'') 1 1 (U ''host invoke '' @ name))))"

definition initial_world :: "'w platform \<Rightarrow> ustr option \<Rightarrow> ustr \<Rightarrow> 'w \<Rightarrow> 'w world" where
  "initial_world pf script input rest =
     \<lparr>w_runtimes = [new_runtime pf 0 script], w_cache = [], w_stack = [], w_out = [], w_err = [], w_in = input,
      w_ticks = 0, w_rest = rest\<rparr>"

end
