(* ===== verification/Steps.thy ===== *)
theory Steps
  imports Interpreter
begin

section \<open>What every execution keeps\<close>

text \<open>
  Claims about whole executions are proved once for a pair of relations on worlds
  (\<open>world_steps\<close>): \<open>R r\<close> relates the world before and after code that runs in the scopes of
  runtime \<open>r\<close>, \<open>S\<close> the world before and after a call or an import. The laws say that both are
  kept by the primitive steps, and that entering a function's scope, running its body and leaving
  it is a step of \<open>S\<close>. Then every expression, statement, call, import and program is a step,
  whether it ends in a value or in an exception. The instances on the model follow in \<open>Executions\<close>.
\<close>

definition update_runtime :: "nat \<Rightarrow> (runtime \<Rightarrow> runtime) \<Rightarrow> 'w world \<Rightarrow> 'w world" where
  "update_runtime r f w = w\<lparr>w_runtimes := (w_runtimes w)[r := f (w_runtimes w ! r)]\<rparr>"

lemma set_runtime_update: "set_runtime r f w = (Done (), update_runtime r f w)"
  by (simp add: set_runtime_def modifies_def update_runtime_def)

text \<open>A successful operation on the innermost scope.\<close>

inductive scope_op :: "scope \<Rightarrow> scope \<Rightarrow> bool" where
  scope_assign: "assign p name v s = Inr s' \<Longrightarrow> scope_op s s'"
| scope_const: "define_const p name v s = Inr s' \<Longrightarrow> scope_op s s'"
| scope_typed: "define_typed p name d e v c s = Inr s' \<Longrightarrow> scope_op s s'"

inductive_cases scope_opE: "scope_op s s'"

lemma scope_op_step: "scope_op s s' \<Longrightarrow> scope_step s s'"
  by (erule scope_opE) (auto dest: scope_operations_step)

text \<open>The step that changes the shape of a variable's list.\<close>

definition shape_step :: "ustr \<Rightarrow> nat list \<Rightarrow> (sep_value list \<Rightarrow> sep_value list) \<Rightarrow> runtime \<Rightarrow> runtime" where
  "shape_step name path f rt =
     set_chain (env_update name
       (\<lambda>b. if b_const b then b else b\<lparr>b_value := update_at path f (b_value b)\<rparr>) (chain rt)) rt"

subsection \<open>Steps of a relation\<close>

definition holds :: "('s \<Rightarrow> 's \<Rightarrow> bool) \<Rightarrow> ('s, 'x, 'a) sem \<Rightarrow> bool" where
  "holds T m \<longleftrightarrow> (\<forall>s. fst (m s) \<noteq> NoFuel \<longrightarrow> T s (snd (m s)))"

lemma holdsD: "holds T m \<Longrightarrow> m s = (r, t) \<Longrightarrow> r \<noteq> NoFuel \<Longrightarrow> T s t"
  unfolding holds_def by (metis fst_conv snd_conv)

lemma holds_mono: "holds T m \<Longrightarrow> (\<And>s t. T s t \<Longrightarrow> T' s t) \<Longrightarrow> holds T' m"
  by (auto simp: holds_def)

lemma holds_no_fuel [simp]: "holds T no_fuel"
  by (simp add: holds_def no_fuel_def)

lemma holds_modifies: "(\<And>s. T s (f s)) \<Longrightarrow> holds T (modifies f)"
  by (simp add: holds_def modifies_def)

locale step_relation =
  fixes T :: "'w world \<Rightarrow> 'w world \<Rightarrow> bool"
  assumes step_refl: "T s s"
    and step_trans: "T s t \<Longrightarrow> T t u \<Longrightarrow> T s u"
begin

lemma holds_ret [simp]: "holds T (ret a)"
  by (simp add: holds_def ret_def step_refl)

lemma holds_raise [simp]: "holds T (raise x)"
  by (simp add: holds_def raise_def step_refl)

lemma holds_reads [simp]: "holds T (reads f)"
  by (simp add: holds_def reads_def step_refl)

lemma holds_andthen:
  assumes "holds T m" and "\<And>a. holds T (f a)"
  shows "holds T (andthen m f)"
  unfolding holds_def
proof (intro allI impI)
  fix s
  assume fuel: "fst (andthen m f s) \<noteq> NoFuel"
  obtain r t where m: "m s = (r, t)" by fastforce
  show "T s (snd (andthen m f s))"
  proof (cases r)
    case (Done a)
    with m fuel assms(2) [of a] holdsD [OF assms(1) m] step_trans show ?thesis
      by (auto simp: andthen_def holds_def)
  qed (use m fuel holdsD [OF assms(1) m] in \<open>auto simp: andthen_def\<close>)
qed

lemma holds_catching:
  assumes "holds T m" and "\<And>x. holds T (h x)"
  shows "holds T (catching m h)"
  unfolding holds_def
proof (intro allI impI)
  fix s
  assume fuel: "fst (catching m h s) \<noteq> NoFuel"
  obtain r t where m: "m s = (r, t)" by fastforce
  show "T s (snd (catching m h s))"
  proof (cases r)
    case (Raised x)
    with m fuel assms(2) [of x] holdsD [OF assms(1) m] step_trans show ?thesis
      by (auto simp: catching_def holds_def)
  qed (use m fuel holdsD [OF assms(1) m] in \<open>auto simp: catching_def\<close>)
qed

lemma holds_with_finally:
  assumes "holds T m" and "holds T k"
  shows "holds T (with_finally m k)"
  unfolding holds_def
proof (intro allI impI)
  fix s
  assume fuel: "fst (with_finally m k s) \<noteq> NoFuel"
  obtain r t where m: "m s = (r, t)" by fastforce
  obtain q u where k: "k t = (q, u)" by fastforce
  from fuel m k have "r \<noteq> NoFuel" "q \<noteq> NoFuel" and last: "snd (with_finally m k s) = u"
    by (cases r; cases q; simp add: with_finally_def)+
  with holdsD [OF assms(1) m] holdsD [OF assms(2) k] have "T s u" by (blast intro: step_trans)
  with last show "T s (snd (with_finally m k s))" by simp
qed

lemma holds_cases:
  "holds T m \<Longrightarrow> holds T m' \<Longrightarrow> holds T (if b then m else m')"
  "holds T n \<Longrightarrow> (\<And>a. holds T (f a)) \<Longrightarrow> holds T (case x of None \<Rightarrow> n | Some a \<Rightarrow> f a)"
  "(\<And>a b. holds T (g a b)) \<Longrightarrow> holds T (case z of (a, b) \<Rightarrow> g a b)"
  "holds T n \<Longrightarrow> (\<And>a as. holds T (h a as)) \<Longrightarrow> holds T (case y of [] \<Rightarrow> n | a # as \<Rightarrow> h a as)"
  "(\<And>a. holds T (i a)) \<Longrightarrow> (\<And>b. holds T (j b)) \<Longrightarrow> holds T (case v of Inl a \<Rightarrow> i a | Inr b \<Rightarrow> j b)"
  "(\<And>a. holds T (l a)) \<Longrightarrow> holds T (Let q l)"
  by (simp_all split: option.split prod.split list.split sum.split)

lemma holds_loop_n: "(\<And>a. holds T (f a)) \<Longrightarrow> holds T (loop_n n f a)"
  by (induction n arbitrary: a) (auto intro!: holds_andthen split: sum.split)

lemma holds_each: "(\<And>x. x \<in> set xs \<Longrightarrow> holds T (f x)) \<Longrightarrow> holds T (each f xs)"
  by (induction xs) (auto intro!: holds_andthen)

lemma holds_map_sem: "(\<And>x. holds T (f x)) \<Longrightarrow> holds T (map_sem f xs)"
  by (induction xs) (auto intro!: holds_andthen)

lemma holds_lift_result [simp]: "holds T (lift_result x r)"
  by (simp add: lift_result_def split: sum.split)

lemmas holds_intros = holds_andthen holds_catching holds_with_finally holds_cases holds_loop_n holds_each holds_map_sem

end

subsection \<open>The laws\<close>

locale world_steps =
  fixes R :: "nat \<Rightarrow> 'w world \<Rightarrow> 'w world \<Rightarrow> bool" and S :: "'w world \<Rightarrow> 'w world \<Rightarrow> bool"
  assumes S_refl: "S w w"
    and S_trans: "S u v \<Longrightarrow> S v w \<Longrightarrow> S u w"
    and R_trans: "R r u v \<Longrightarrow> R r v w \<Longrightarrow> R r u w"
    and S_R: "S u v \<Longrightarrow> R r u v"
    and S_rest: "S w (w\<lparr>w_rest := rest\<rparr>)"
    and S_out: "S w (w\<lparr>w_out := w_out w @ out\<rparr>)"
    and S_err: "S w (w\<lparr>w_err := w_err w @ out\<rparr>)"
    and S_in: "S w (w\<lparr>w_in := out\<rparr>)"
    and S_ticks: "S w (w\<lparr>w_ticks := n\<rparr>)"
    and S_stack: "S w (w\<lparr>w_stack := stack\<rparr>)"
    and S_cache: "S w (w\<lparr>w_cache := cache\<rparr>)"
    and S_random: "S w (update_runtime r (\<lambda>rt. rt\<lparr>rt_random := g\<rparr>) w)"
    and S_signatures: "S w (update_runtime r (\<lambda>rt. rt\<lparr>rt_signatures := sigs rt\<rparr>) w)"
    and R_declared: "R r w (update_runtime r (\<lambda>_. (w_runtimes w ! r)\<lparr>rt_logics := ls, rt_errors := es, rt_routes := hs\<rparr>) w)"
    and R_scope: "chain (w_runtimes w ! r) = s # ss \<Longrightarrow> scope_op s s' \<Longrightarrow> R r w (update_runtime r (set_chain (s' # ss)) w)"
    and R_indexes: "assign_indexes p name is x (chain (w_runtimes w ! r)) = (failure, env) \<Longrightarrow>
      R r w (update_runtime r (set_chain env) w)"
    and R_shape: "R r w (update_runtime r (shape_step name path f) w)"
    and S_body: "r < length (w_runtimes w) \<Longrightarrow> R r (update_runtime r (\<lambda>rt. rt\<lparr>rt_local := Some Map.empty\<rparr>) w) v \<Longrightarrow>
      S w (update_runtime r (\<lambda>rt. rt\<lparr>rt_local := rt_local (w_runtimes w ! r)\<rparr>) v)"
    and S_module: "rt_globals rt = initial_scope \<Longrightarrow> rt_local rt = None \<Longrightarrow>
      R (length (w_runtimes w)) (w\<lparr>w_runtimes := w_runtimes w @ [rt]\<rparr>) v \<Longrightarrow> S w v"
begin

lemma R_refl: "R r w w"
  by (rule S_R [OF S_refl])

end

sublocale world_steps \<subseteq> calls: step_relation S
  by (unfold_locales) (rule S_refl, erule (1) S_trans)

sublocale world_steps \<subseteq> code: step_relation "R r" for r
  by (unfold_locales) (rule R_refl, erule (1) R_trans)

context world_steps
begin

lemma call_is_code: "holds S m \<Longrightarrow> holds (R r) m"
  by (erule holds_mono) (rule S_R)

subsection \<open>Steps on the state\<close>

lemma calls_fail [simp]: "holds S (fail e)"
  by (simp add: fail_def)

lemma calls_lift [simp]: "holds S (lift r)"
  by (simp add: lift_def)

lemma calls_lift_partial [simp]: "holds S (lift_partial r)"
  by (simp add: lift_partial_def split: sum.split option.split)

lemma calls_runtime_of [simp]: "holds S (runtime_of r)"
  by (simp add: holds_def runtime_of_def S_refl)

lemma calls_outside [simp]: "holds S (outside f)"
  by (simp add: holds_def outside_def S_rest split: prod.split)

lemma calls_write_out [simp]: "holds S (write_out t)"
  by (simp add: write_out_def holds_modifies S_out)

lemma calls_write_err [simp]: "holds S (write_err t)"
  by (simp add: write_err_def holds_modifies S_err)

lemma calls_current_time [simp]: "holds S (current_time pf)"
  by (simp add: holds_def current_time_def S_ticks)

lemma calls_set_random: "holds S (set_runtime r (\<lambda>rt. rt\<lparr>rt_random := g\<rparr>))"
  by (simp add: holds_def set_runtime_update S_random)

lemma calls_draw [simp]: "holds S (draw r f)"
  unfolding draw_def by (auto intro!: calls.holds_intros calls_set_random)

lemmas primitive_calls = calls_fail calls_lift calls_lift_partial calls_runtime_of calls_outside calls_write_out
  calls_write_err calls_current_time calls_draw

lemma primitive_code [simp]:
  "holds (R r) (fail e)" "holds (R r) (lift q)" "holds (R r) (lift_partial z)" "holds (R r) (runtime_of m)"
  "holds (R r) (outside f)" "holds (R r) (write_out t)" "holds (R r) (write_err t)"
  by (rule call_is_code, rule primitive_calls)+

lemma code_on_scope:
  assumes "\<And>s s'. f s = Inr s' \<Longrightarrow> scope_op s s'"
  shows "holds (R r) (on_scope r f)"
  unfolding holds_def
proof (intro allI impI)
  fix w
  show "R r w (snd (on_scope r f w))"
  proof (cases "chain (w_runtimes w ! r)")
    case Nil
    then show ?thesis by (simp add: on_scope_def runtime_of_def andthen_def ret_def R_refl)
  next
    case (Cons s ss)
    then show ?thesis
      using R_scope [OF Cons assms]
      by (auto simp: on_scope_def runtime_of_def andthen_def lift_def lift_result_def raise_def ret_def
          set_runtime_update R_refl split: sum.split)
  qed
qed

lemma code_scope_operations [simp]:
  "holds (R r) (on_scope r (assign p name v))" "holds (R r) (on_scope r (define_const p name v))"
  "holds (R r) (on_scope r (define_typed p name d e v c))"
  by (rule code_on_scope, erule scope_op.intros)+

lemma code_index_assignment [simp]: "holds (R r) (index_assignment r p name is v)"
  unfolding holds_def
proof (intro allI impI)
  fix w :: "'w world"
  obtain failure env where a: "assign_indexes p name is v (chain (w_runtimes w ! r)) = (failure, env)"
    by fastforce
  from R_indexes [OF this] show "R r w (snd (index_assignment r p name is v w))"
    by (simp add: index_assignment_def runtime_of_def andthen_def a R_refl set_runtime_update fail_def raise_def ret_def
        split: option.split)
qed

lemma code_change_values [simp]: "holds (R r) (change_values r t f)"
  using R_shape by (simp add: change_values_def holds_def set_runtime_update shape_step_def [abs_def])

subsection \<open>Expressions and statements\<close>

lemma code_current_values [simp]: "holds (R r) (current_values r t)"
  by (simp add: current_values_def)

lemmas shape_definitions = eval_shape_integer_def variable_target_def index_target_def shape_position_def
  shape_insert_def shape_remove_def shape_remove_horizontal_def shape_remove_vertical_def

lemma code_shape_integer: "holds (R r) (snd t) \<Longrightarrow> holds (R r) (eval_shape_integer n t)"
  by (simp add: eval_shape_integer_def code.holds_andthen)

lemma code_shape_position:
  "holds (R r) (snd t) \<Longrightarrow> holds (R r) vs \<Longrightarrow> holds (R r) (shape_position t vs n b)"
  by (auto simp: shape_position_def intro!: code.holds_intros code_shape_integer)

lemma code_targets:
  "holds (R r) (variable_target r p name)"
  "holds (R r) parent \<Longrightarrow> holds (R r) (snd t) \<Longrightarrow> holds (R r) (index_target r p parent t)"
  by (auto simp: variable_target_def index_target_def intro!: code.holds_intros code_shape_integer split: sep_value.split)

lemma code_shape_operations:
  "holds (R r) (snd x) \<Longrightarrow> holds (R r) (snd y) \<Longrightarrow> holds (R r) (shape_insert r p t x y)"
  "holds (R r) (snd x) \<Longrightarrow> holds (R r) (snd y) \<Longrightarrow> holds (R r) (shape_remove r t x y)"
  "holds (R r) (snd x) \<Longrightarrow> holds (R r) (snd y) \<Longrightarrow> holds (R r) (snd z) \<Longrightarrow>
    holds (R r) (shape_remove_horizontal r p t x y z)"
  "holds (R r) (snd x) \<Longrightarrow> holds (R r) (snd y) \<Longrightarrow> holds (R r) (snd z) \<Longrightarrow>
    holds (R r) (shape_remove_vertical r p t x y z)"
  unfolding shape_insert_def shape_remove_def shape_remove_horizontal_def shape_remove_vertical_def
  by (auto intro!: code.holds_intros code_shape_integer code_shape_position split: sep_value.split)

lemma code_shape_call:
  assumes "holds (R r) target" and "\<forall>t \<in> set args. holds (R r) (snd t)"
  shows "holds (R r) (list_shape_call r p name target args has_named)"
proof -
  have "holds (R r) (snd (args ! i))" if "i < length args" for i
    using assms(2) that by simp
  then show ?thesis
    unfolding list_shape_call_def
    by (auto intro!: code.holds_intros assms(1) code_shape_operations)
qed

lemma code_variable_value: "holds (R r) (variable_value pf m p name)"
  by (auto simp: variable_value_def intro!: code.holds_intros)

lemma code_member_value: "holds (R r) (member_value pf p v name)"
  by (auto simp: member_value_def intro!: code.holds_intros split: sep_value.split)

lemma code_throw_value: "holds (R r) (throw_value p v)"
  by (simp add: throw_value_def split: sep_value.split)

definition keeping :: "'w handler \<Rightarrow> bool" where
  "keeping k \<longleftrightarrow> (\<forall>q. holds S (k q))"

lemma code_requests [simp]:
  "keeping k \<Longrightarrow> holds (R r) (k (Call m name args named p))"
  "keeping k \<Longrightarrow> holds (R r) (k (Import m p path))"
  by (auto simp: keeping_def intro: call_is_code)

lemma code_member_call: "keeping k \<Longrightarrow> holds (R r) (member_call pf k p v name args named)"
  by (auto simp: member_call_def intro!: code.holds_intros split: sep_value.split)

lemma code_binary:
  assumes "holds (R r) (eval pf k r left)"
    and "\<And>x. op = U ''??'' \<Longrightarrow> is_empty_state x \<Longrightarrow> holds (R r) (eval pf k r right)"
    and "\<And>b. op \<noteq> U ''??'' \<Longrightarrow> op = U ''&&'' \<or> op = U ''||'' \<Longrightarrow> b \<noteq> (op = U ''||'') \<Longrightarrow> holds (R r) (eval pf k r right)"
    and "op \<noteq> U ''??'' \<Longrightarrow> \<not> (op = U ''&&'' \<or> op = U ''||'') \<Longrightarrow> holds (R r) (eval pf k r right)"
  shows "holds (R r) (eval pf k r (BinaryExpr p left op right))"
proof -
  have "holds (R r) (eval pf k r right)"
  proof (cases "op = U ''??''")
    case True
    then show ?thesis by (rule assms(2) [of "VEmpty None None False"]) simp
  next
    case False
    with assms(3) [of "op \<noteq> U ''||''"] assms(4) show ?thesis by blast
  qed
  with assms(1) show ?thesis by (auto intro!: code.holds_intros)
qed

lemma code_expressions:
  "keeping k \<Longrightarrow> holds (R r) (eval pf k r e)"
  "keeping k \<Longrightarrow> holds (R r) (eval_list pf k r es)"
  "keeping k \<Longrightarrow> holds (R r) (eval_named pf k r ns)"
  "keeping k \<Longrightarrow> holds (R r) (shape_target pf k r q e)"
  "keeping k \<Longrightarrow> \<forall>t \<in> set (thunks pf k r es). holds (R r) (snd t)"
  "keeping k \<Longrightarrow> holds (R r) (first_target pf k r q es)"
proof (induction pf k r e and pf k r es and pf k r ns and pf k r q e and pf k r es and pf k r q es
    rule: eval_eval_list_eval_named_shape_target_thunks_first_target.induct)
  case (13 pf k r p left op right)
  show ?case by (rule code_binary) (use 13 in simp_all)
qed (auto intro!: code.holds_intros code_shape_call code_variable_value code_member_value code_member_call
    code_targets)

lemma code_execute_try:
  assumes "holds (R r) m" and "\<forall>c \<in> set catches. holds (R r) (snd c)" and "\<And>f. final = Some f \<Longrightarrow> holds (R r) f"
  shows "holds (R r) (execute_try m catches final)"
proof -
  have "holds (R r) c" if "select_catch catches e = Some c" for e c
    using that assms(2) by (auto simp: select_catch_def find_Some_iff) (metis nth_mem snd_conv)
  with assms(1,3) show ?thesis
    unfolding execute_try_def
    by (auto intro!: code.holds_with_finally code.holds_catching split: exn.split option.split)
qed

lemma code_transact [simp]: "holds (R r) (transact pf n v p)"
  by (auto simp: transact_def intro!: code.holds_andthen)

lemma code_transaction: "holds (R r) m \<Longrightarrow> holds (R r) (execute_transaction pf p v m)"
  by (auto simp: execute_transaction_def intro!: code.holds_intros)

lemma code_data_blocks:
  "keeping k \<Longrightarrow> holds (R r) (build_data_block pf k r st)"
  "keeping k \<Longrightarrow> holds (R r) (build_entries pf k r es acc)"
  by (induction pf k r st and pf k r es acc rule: build_data_block_build_entries.induct)
    (auto intro!: code.holds_intros code_expressions)

lemma code_statements:
  "keeping k \<Longrightarrow> holds (R r) (exec pf k n r st)"
  "keeping k \<Longrightarrow> holds (R r) (exec_all pf k n r sts)"
  "keeping k \<Longrightarrow> holds (R r) final \<Longrightarrow> holds (R r) (exec_branches pf k n r bs final)"
  "keeping k \<Longrightarrow> \<forall>c \<in> set (catch_bodies pf k n r cs). holds (R r) (snd c)"
proof (induction pf k n r st and pf k n r sts and pf k n r bs final and pf k n r cs
    rule: exec_exec_all_exec_branches_catch_bodies.induct)
  case (11 pf k n r p label condition body q)
  have "holds (R r) (exec_all pf k n r body)" by (rule 11(1)) (simp_all add: 11(2))
  then have "holds (R r) (andthen (eval pf k r condition) (\<lambda>v.
       andthen (lift (boolean_of (expr_position condition) v)) (\<lambda>b.
       if b then andthen (exec_all pf k n r body) (\<lambda>_. ret (Inl ())) else ret (Inr ()))))"
    using 11(2) by (auto intro!: code.holds_andthen code.holds_cases code_expressions)
  then show ?case by (simp add: code.holds_loop_n)
qed (auto intro!: code.holds_intros code_expressions code_data_blocks code_execute_try code_transaction code_throw_value
    split: option.split sep_value.split)

subsection \<open>Builtin functions\<close>

definition entry_keeps :: "'w entry \<Rightarrow> bool" where
  "entry_keeps e \<longleftrightarrow> (case e of (name, lo, hi, names, f) \<Rightarrow> \<forall>r p args named. holds S (f r p args named))"

lemma pure_entries [simp]:
  "entry_keeps (fn1 name f1)" "entry_keeps (fn2 name f2)" "entry_keeps (fn3 name f3)" "entry_keeps (fns name lo hi fs)"
  "entry_keeps (part1 name g1)" "entry_keeps (part2 name g2)"
  "entry_keeps (fnx name lo hi h) \<longleftrightarrow> (\<forall>r p args. holds S (h r p args))"
  "entry_keeps (utility ns e) \<longleftrightarrow> entry_keeps e"
  "entry_keeps (name', lo, hi, names, i) \<longleftrightarrow> (\<forall>r p args named. holds S (i r p args named))"
  by (simp_all add: entry_keeps_def fn1_def fn2_def fn3_def fns_def part1_def part2_def fnx_def utility_def
      split: prod.split)

lemma random_calls [simp]:
  "holds S (random_seed r p v)" "holds S (random_number r)" "holds S (random_int r p v u)"
  "holds S (random_float h r p v u)" "holds S (random_bool r)" "holds S (random_pick r p v)"
  "holds S (random_shuffle r p v)" "holds S (random_sample r p v u)"
  "holds S (secure_text pf name p vs)" "holds S (secure_random_integer pf name p vs)"
  by (auto simp: random_seed_def random_number_def random_int_def random_float_def random_bool_def random_pick_def
      random_shuffle_def random_sample_def secure_text_def secure_random_integer_def
      intro!: calls.holds_intros calls_set_random split: sep_value.split)

lemma state_calls [simp]:
  "holds S (datetime_now pf p vs)" "holds S (unix_time pf p vs)" "holds S (builtin_input p vs)"
  by (auto simp: datetime_now_def unix_time_def builtin_input_def
      intro!: calls.holds_intros holds_modifies S_in)

definition caller_keeps :: "('w world, exn) caller \<Rightarrow> bool" where
  "caller_keeps c \<longleftrightarrow> (\<forall>f args. holds S (c f args))"

lemma filter_values_calls: "caller_keeps c \<Longrightarrow> holds S (filter_values Sep c p f vs)"
  by (induction vs) (auto simp: caller_keeps_def intro!: calls.holds_intros split: sep_value.split)

lemma reduce_values_calls: "caller_keeps c \<Longrightarrow> holds S (reduce_values Sep c p f t vs a)"
  by (induction vs arbitrary: a) (auto simp: caller_keeps_def intro!: calls.holds_intros)

lemma map_sem_calls: "caller_keeps c \<Longrightarrow> holds S (map_sem (\<lambda>v. c f [v]) vs)"
  by (auto simp: caller_keeps_def intro!: calls.holds_intros)

lemma higher_order_calls [simp]:
  assumes "caller_keeps c"
  shows "holds S (map_list Sep c p vs f)" "holds S (filter_list Sep c p vs f)" "holds S (reduce_list Sep c p vs f a)"
  unfolding map_list_def filter_list_def reduce_list_def
  by (auto intro!: calls.holds_intros map_sem_calls filter_values_calls reduce_values_calls assms)

lemma builtin_entries:
  assumes "\<And>p. caller_keeps (c p)"
  shows "list_all entry_keeps (BUILTINS pf c)"
proof -
  have "list_all entry_keeps (TYPE_BUILTINS pf)" by (simp add: TYPE_BUILTINS_def)
  moreover have "list_all entry_keeps (NUMBER_BUILTINS pf)" by (simp add: NUMBER_BUILTINS_def Let_def)
  moreover have "list_all entry_keeps (TEXT_BUILTINS pf)" by (simp add: TEXT_BUILTINS_def Let_def)
  moreover have "list_all entry_keeps (TIME_BUILTINS pf)" by (simp add: TIME_BUILTINS_def Let_def)
  moreover have "list_all entry_keeps (RANDOM_BUILTINS pf)" by (simp add: RANDOM_BUILTINS_def)
  moreover have "list_all entry_keeps (LIST_BUILTINS pf c)" by (simp add: LIST_BUILTINS_def Let_def assms)
  moreover have "list_all entry_keeps OBJECT_BUILTINS" by (simp add: OBJECT_BUILTINS_def)
  moreover have "list_all entry_keeps ERROR_BUILTINS" by (simp add: ERROR_BUILTINS_def list_all_iff)
  moreover have "list_all entry_keeps (MATH_BUILTINS pf)" by (simp add: MATH_BUILTINS_def Let_def)
  moreover have "entry_keeps (DATETIME_BUILTIN pf)" by (simp add: DATETIME_BUILTIN_def)
  moreover have "list_all entry_keeps BYTES_BUILTINS" by (simp add: BYTES_BUILTINS_def Let_def)
  moreover have "list_all entry_keeps (OUTSIDE_BUILTINS pf)" by (auto simp: OUTSIDE_BUILTINS_def list_all_iff)
  ultimately show ?thesis by (simp add: BUILTINS_def)
qed

lemma builtin_find_keeps:
  assumes "\<And>p. caller_keeps (c p)" and "builtin_find pf c name = Some entry"
  shows "holds S (builtin_call entry r p args named)"
proof -
  obtain lo hi names f where e: "entry = (lo, hi, names, f)" by (cases entry)
  with assms(2) have "(name, lo, hi, names, f) \<in> set (BUILTINS pf c)"
    by (auto simp: builtin_find_def dest: map_of_SomeD)
  moreover have "list_all entry_keeps (BUILTINS pf c)" by (rule builtin_entries [OF assms(1)])
  ultimately have "holds S (f r p args named)" by (auto simp: list_all_iff)
  with e show ?thesis by (auto simp: builtin_call_def intro!: calls.holds_cases)
qed

subsection \<open>Calls, imports and programs\<close>

lemma body_call:
  assumes "\<And>args. holds (R r) (m args)"
  shows "holds S (andthen (runtime_of r) (\<lambda>rt. andthen (enter_scope r) (\<lambda>_. with_finally (m rt) (leave_scope r (rt_local rt)))))"
  unfolding holds_def
proof (intro allI impI)
  fix w :: "'w world"
  let ?rt = "w_runtimes w ! r" and ?inner = "update_runtime r (\<lambda>rt. rt\<lparr>rt_local := Some Map.empty\<rparr>) w"
  let ?whole = "andthen (runtime_of r) (\<lambda>rt. andthen (enter_scope r) (\<lambda>_. with_finally (m rt) (leave_scope r (rt_local rt))))"
  assume fuel: "fst (?whole w) \<noteq> NoFuel"
  show "S w (snd (?whole w))"
  proof (cases "r < length (w_runtimes w)")
    case True
    obtain q v where m: "m ?rt ?inner = (q, v)" by fastforce
    have "?whole w = with_finally (m ?rt) (leave_scope r (rt_local ?rt)) ?inner"
      by (simp add: andthen_def runtime_of_def enter_scope_def set_runtime_update True)
    with m fuel holdsD [OF assms m] S_body [OF True, of v] show ?thesis
      by (cases q) (simp_all add: with_finally_def leave_scope_def set_runtime_update)
  qed (simp add: andthen_def runtime_of_def S_refl)
qed

lemma code_bind_parameter [simp]: "holds (R r) (bind_parameter r p types arg)"
  by (simp add: bind_parameter_def split: option.split prod.split)

lemma run_body_keeps: "keeping k \<Longrightarrow> holds S (run_body pf k n r lg args p)"
  unfolding run_body_def
  by (rule body_call) (auto intro!: code.holds_intros code_statements split: exn.split)

lemma calls_set_signatures [simp]:
  "holds S (set_runtime r (\<lambda>rt. rt\<lparr>rt_signatures := f rt\<rparr>))"
  by (simp add: holds_def set_runtime_update S_signatures)

lemma call_logic_keeps: "keeping k \<Longrightarrow> holds S (call_logic pf k n r name lg args named p)"
  unfolding call_logic_def by (auto intro!: calls.holds_intros run_body_keeps)

lemma call_value_keeps: "keeping k \<Longrightarrow> caller_keeps (call_value k p)"
  by (auto simp: caller_keeps_def call_value_def keeping_def split: sep_value.split)

lemma call_keeps: "keeping k \<Longrightarrow> holds S (call pf k n r name args named p)"
  unfolding call_def
  by (auto intro!: calls.holds_andthen calls.holds_cases(1,6) call_logic_keeps builtin_find_keeps call_value_keeps
      split: option.split)

lemma declare_statement_changes:
  "declare_statement pf functions st rt = Inr rt' \<Longrightarrow>
   \<exists>ls es hs. rt' = rt\<lparr>rt_logics := ls, rt_errors := es, rt_routes := hs\<rparr>"
  by (cases rt; cases st)
    (auto simp: declare_statement_def declare_logic_def declare_error_def declare_route_def split: if_splits)

lemma code_declare_in: "holds (R r) (declare_in pf r functions st)"
  unfolding holds_def
proof (intro allI impI)
  fix w :: "'w world"
  show "R r w (snd (declare_in pf r functions st w))"
  proof (cases "declare_statement pf functions st (w_runtimes w ! r)")
    case (Inr rt')
    then obtain ls es hs where "rt' = (w_runtimes w ! r)\<lparr>rt_logics := ls, rt_errors := es, rt_routes := hs\<rparr>"
      by (auto dest: declare_statement_changes)
    with Inr R_declared show ?thesis
      by (simp add: R_refl declare_in_def andthen_def runtime_of_def lift_def lift_result_def ret_def set_runtime_update)
  qed (simp add: declare_in_def andthen_def runtime_of_def lift_def lift_result_def raise_def R_refl)
qed

lemma code_run_program: "keeping k \<Longrightarrow> holds (R r) (run_program pf k n r prog b)"
  unfolding run_program_def Let_def
  by (auto intro!: code.holds_intros code_declare_in code_statements split: option.split)

lemma module_keeps:
  assumes "\<And>m. holds (R m) (f m)" and "\<And>m. holds S (g m)"
  shows "holds S (andthen (add_runtime pf script) (\<lambda>m. andthen (with_finally (f m) (modifies (\<lambda>w. w\<lparr>w_stack := h w\<rparr>))) (\<lambda>_. g m)))"
  unfolding holds_def
proof (intro allI impI)
  fix w :: "'w world"
  let ?m = "length (w_runtimes w)" and ?k = "modifies (\<lambda>w. w\<lparr>w_stack := h w\<rparr>)"
  let ?w = "w\<lparr>w_runtimes := w_runtimes w @ [new_runtime pf ?m script]\<rparr>"
  let ?rest = "\<lambda>m. andthen (with_finally (f m) ?k) (\<lambda>_. g m)"
  have start: "andthen (add_runtime pf script) ?rest w = ?rest ?m ?w"
    by (simp add: andthen_def add_runtime_def)
  have k: "holds S ?k" by (rule holds_modifies) (rule S_stack)
  assume "fst (andthen (add_runtime pf script) ?rest w) \<noteq> NoFuel"
  moreover have "holds (R ?m) (?rest ?m)"
    by (rule code.holds_andthen [OF code.holds_with_finally [OF assms(1) call_is_code [OF k]] call_is_code [OF assms(2)]])
  ultimately have "R ?m ?w (snd (?rest ?m ?w))"
    unfolding start by (auto simp: holds_def)
  then show "S w (snd (andthen (add_runtime pf script) ?rest w))"
    unfolding start by (rule S_module [rotated 2]) (simp_all add: new_runtime_def)
qed

lemma load_module_keeps: "keeping k \<Longrightarrow> holds S (load_module pf k n p key)"
  unfolding load_module_def Let_def
  by (intro calls.holds_andthen module_keeps code_run_program) (auto intro!: calls.holds_andthen holds_modifies S_stack S_cache)

lemma import_module_keeps: "keeping k \<Longrightarrow> holds S (import_module pf k n r p path)"
  unfolding import_module_def
  by (auto intro!: calls.holds_intros load_module_keeps)

lemma perform_keeps: "keeping (perform pf n)"
proof (induction n)
  case 0
  then show ?case by (simp add: keeping_def)
next
  case (Suc n)
  then have "holds S (request_step pf (perform pf n) n q)" for q
    by (auto simp: request_step_def intro: call_keeps import_module_keeps split: request.split)
  then show ?case by (simp add: keeping_def)
qed

theorem perform_step: "perform pf n q w = (x, w') \<Longrightarrow> x \<noteq> NoFuel \<Longrightarrow> S w w'"
  using perform_keeps [of pf n] by (auto simp: keeping_def dest: holdsD)

theorem program_step: "run_program pf (perform pf n) n r prog b w = (x, w') \<Longrightarrow> x \<noteq> NoFuel \<Longrightarrow> R r w w'"
  by (rule holdsD [OF code_run_program [OF perform_keeps]])

lemma code_run: "holds (R 0) (run pf n prog b)"
  unfolding run_def by (intro code.holds_andthen code_run_program perform_keeps) simp

theorem run_step: "run pf n prog b w = (x, w') \<Longrightarrow> x \<noteq> NoFuel \<Longrightarrow> R 0 w w'"
  by (rule holdsD [OF code_run])

end

end
