(* ===== verification/Executions.thy ===== *)
theory Executions
  imports Steps
begin

section \<open>Whole executions\<close>

text \<open>
  The instances of \<open>world_steps\<close> on the model, and what they say of a call, an import or a whole
  program, whatever the program does and however it ends (a value, an error, a crash): what was
  written stays written; the bindings of every runtime stay typed; the globals keep their types
  and their constants; and the local scopes of the callers are the same when a call is over.
\<close>

lemma update_runtime_simps [simp]:
  "w_out (update_runtime r f w) = w_out w" "w_err (update_runtime r f w) = w_err w"
  "length (w_runtimes (update_runtime r f w)) = length (w_runtimes w)"
  "i < length (w_runtimes w) \<Longrightarrow>
   w_runtimes (update_runtime r f w) ! i = (if i = r then f (w_runtimes w ! r) else w_runtimes w ! i)"
  by (simp_all add: update_runtime_def nth_list_update)

subsection \<open>Output\<close>

definition written :: "'w world \<Rightarrow> 'w world \<Rightarrow> bool" where
  "written w w' \<longleftrightarrow> (\<exists>s. w_out w' = w_out w @ s) \<and> (\<exists>s. w_err w' = w_err w @ s)"

interpretation writing: world_steps "\<lambda>r. written" written
  by unfold_locales (auto simp: written_def)

subsection \<open>Scopes\<close>

text \<open>The scopes of the runtimes after a step of the code of runtime \<open>r\<close>.\<close>

lemma set_chain_cases:
  assumes "length env = length (chain rt)"
  shows "(rt_local rt = None \<and> (\<exists>g. env = [g] \<and> set_chain env rt = rt\<lparr>rt_globals := g\<rparr>)) \<or>
    (\<exists>l s g. rt_local rt = Some l \<and> env = [s, g] \<and> set_chain env rt = rt\<lparr>rt_local := Some s, rt_globals := g\<rparr>)"
  using assms by (auto simp: chain_def set_chain_def length_Suc_conv split: option.splits)

definition globals_step :: "'w world \<Rightarrow> 'w world \<Rightarrow> bool" where
  "globals_step w w' \<longleftrightarrow> length (w_runtimes w) \<le> length (w_runtimes w') \<and>
     (\<forall>i < length (w_runtimes w). scope_step (rt_globals (w_runtimes w ! i)) (rt_globals (w_runtimes w' ! i)))"

definition locals_step :: "nat option \<Rightarrow> 'w world \<Rightarrow> 'w world \<Rightarrow> bool" where
  \<comment> \<open>the local scopes are the same, except in one runtime if it is given\<close>
  "locals_step except w w' \<longleftrightarrow> length (w_runtimes w) \<le> length (w_runtimes w') \<and>
     (\<forall>i < length (w_runtimes w). except = Some i \<or> rt_local (w_runtimes w' ! i) = rt_local (w_runtimes w ! i))"

text \<open>A step on a chain of scopes.\<close>

lemma env_update_all_step: "(\<And>b. binding_step b (f b)) \<Longrightarrow> env_step env (env_update name f env)"
  by (induction env) (auto simp: env_step_def scope_step_def list_all2_refl split: option.splits)

lemma env_step_length: "env_step env env' \<Longrightarrow> length env' = length env"
  by (simp add: env_step_def list_all2_lengthD)

lemma set_chain_globals:
  assumes "env_step (chain rt) env"
  shows "scope_step (rt_globals rt) (rt_globals (set_chain env rt))"
  using set_chain_cases [OF env_step_length [OF assms]] assms by (auto simp: env_step_def chain_def)

lemma scope_op_env: "scope_op s s' \<Longrightarrow> env_step (s # ss) (s' # ss)"
  by (auto simp: env_step_def list_all2_refl dest: scope_op_step)

lemma shape_env: "env_step (chain rt) (env_update name
    (\<lambda>b. if b_const b then b else b\<lparr>b_value := update_at path f (b_value b)\<rparr>) (chain rt))"
  by (rule env_update_all_step) (auto simp: binding_step_def)

lemma globals_step_update:
  "scope_step (rt_globals (w_runtimes w ! r)) (rt_globals (f (w_runtimes w ! r))) \<Longrightarrow>
   globals_step w (update_runtime r f w)"
  by (simp add: globals_step_def)

lemma globals_step_chain:
  "env_step (chain (w_runtimes w ! r)) env \<Longrightarrow> globals_step w (update_runtime r (set_chain env) w)"
  by (intro globals_step_update set_chain_globals)

lemma globals_step_trans: "globals_step u v \<Longrightarrow> globals_step v w \<Longrightarrow> globals_step u w"
  unfolding globals_step_def by (meson scope_step_trans less_le_trans order_trans)

lemma globals_step_shape: "globals_step w (update_runtime r (shape_step name path f) w)"
  by (rule globals_step_update) (simp only: shape_step_def set_chain_globals [OF shape_env])

interpretation keeping_globals: world_steps "\<lambda>r. globals_step" globals_step
proof unfold_locales
  show "globals_step w (update_runtime r (\<lambda>rt. rt\<lparr>rt_local := rt_local (w_runtimes w ! r)\<rparr>) v)"
    if "r < length (w_runtimes w)" "globals_step (update_runtime r (\<lambda>rt. rt\<lparr>rt_local := Some Map.empty\<rparr>) w) v" for r and w v :: "'a world"
  proof -
    have "globals_step w (update_runtime r (\<lambda>rt. rt\<lparr>rt_local := Some Map.empty\<rparr>) w)"
      by (rule globals_step_update) simp
    moreover have "globals_step v (update_runtime r (\<lambda>rt. rt\<lparr>rt_local := rt_local (w_runtimes w ! r)\<rparr>) v)"
      by (rule globals_step_update) simp
    ultimately show ?thesis using that(2) globals_step_trans by blast
  qed
  show "globals_step w v"
    if "globals_step (w\<lparr>w_runtimes := w_runtimes w @ [rt]\<rparr>) v" for w v :: "'a world" and rt
    using that by (simp add: globals_step_def nth_append All_less_Suc)
  show "globals_step u w" if "globals_step u v" "globals_step v w" for u v w :: "'a world"
    using that by (rule globals_step_trans)
  show "globals_step u w" if "globals_step u v" "globals_step v w" for u v w :: "'a world"
    using that by (rule globals_step_trans)
  show "globals_step w (update_runtime r (set_chain (s' # ss)) w)"
    if "chain (w_runtimes w ! r) = s # ss" "scope_op s s'" for r s s' ss and w :: "'a world"
    using globals_step_chain [of w r "s' # ss"] scope_op_env [OF that(2), of ss] that(1) by simp
  show "globals_step w (update_runtime r (set_chain env) w)"
    if "assign_indexes p name is x (chain (w_runtimes w ! r)) = (failure, env)" for p name "is" x r failure env
      and w :: "'a world"
    using that by (intro globals_step_chain assign_indexes_step)
  show "globals_step w (update_runtime r (shape_step name path f) w)" for r name path f and w :: "'a world"
    by (rule globals_step_shape)
qed (auto simp: globals_step_def)

subsection \<open>Local scopes\<close>

lemma locals_step_trans: "locals_step x u v \<Longrightarrow> locals_step x v w \<Longrightarrow> locals_step x u w"
  unfolding locals_step_def by (metis order_trans less_le_trans)

interpretation keeping_locals: world_steps "\<lambda>r. locals_step (Some r)" "locals_step None"
proof unfold_locales
  show "locals_step None w (update_runtime r (\<lambda>rt. rt\<lparr>rt_local := rt_local (w_runtimes w ! r)\<rparr>) v)"
    if "r < length (w_runtimes w)" "locals_step (Some r) (update_runtime r (\<lambda>rt. rt\<lparr>rt_local := Some Map.empty\<rparr>) w) v" for r and w v :: "'a world"
    using that by (auto simp: locals_step_def)
  show "locals_step None w v"
    if "locals_step (Some (length (w_runtimes w))) (w\<lparr>w_runtimes := w_runtimes w @ [rt]\<rparr>) v" for w v :: "'a world" and rt
    using that by (simp add: locals_step_def nth_append All_less_Suc)
  show "locals_step None u w" if "locals_step None u v" "locals_step None v w" for u v w :: "'a world"
    using that by (rule locals_step_trans)
  show "locals_step (Some r) u w" if "locals_step (Some r) u v" "locals_step (Some r) v w" for r and u v w :: "'a world"
    using that by (rule locals_step_trans)
qed (auto simp: locals_step_def)

subsection \<open>Types\<close>

text \<open>
  The part of \<open>binding_ok\<close> that also survives an indexed assignment that fails halfway: the value
  has the declared type, it is not VOID or EMPTYS, and a constant is not EMPTY.
\<close>

definition binding_typed :: "binding \<Rightarrow> bool" where
  "binding_typed b \<longleftrightarrow> value_type_name (b_value b) = b_type b \<and> b_value b \<noteq> VVoid \<and> b_value b \<noteq> VEmptys \<and>
     (b_const b \<longrightarrow> \<not> is_empty_state (b_value b))"

definition scope_typed :: "scope \<Rightarrow> bool" where
  "scope_typed s \<longleftrightarrow> (\<forall>name b. s name = Some b \<longrightarrow> binding_typed b)"

definition world_typed :: "'w world \<Rightarrow> bool" where
  "world_typed w \<longleftrightarrow> (\<forall>i < length (w_runtimes w). list_all scope_typed (chain (w_runtimes w ! i)))"

lemma binding_ok_typed: "binding_ok b \<Longrightarrow> binding_typed b"
  by (simp add: binding_ok_def binding_typed_def)

lemma assign_new_typed: "assign_new p v = Inr b \<Longrightarrow> v \<noteq> VVoid \<Longrightarrow> binding_typed b"
  by (intro binding_ok_typed assign_new_ok)

lemma assign_existing_typed:
  assumes "assign_existing p b v = Inr b'" and "v \<noteq> VVoid"
  shows "binding_typed b'"
proof (cases "v = VEmptys \<or> is_empty_state v")
  case True
  with assms(1) show ?thesis
    by (cases v) (auto simp: assign_existing_def binding_typed_def split: if_splits dest: clear_type_name)
next
  case False
  with assms show ?thesis
    by (auto simp: assign_existing_value binding_typed_def Let_def split: if_splits dest: normalize_if_list_ok)
qed

lemma prepare_typed:
  "prepare_typed_value p d e v = Inr w \<Longrightarrow> v \<noteq> VVoid \<Longrightarrow> (c \<Longrightarrow> \<not> is_empty_state v) \<Longrightarrow>
   binding_typed (mk_binding w d e c p)"
  using prepare_ok [of p d e v w] by (auto simp: binding_typed_def)

lemma scope_op_typed: "scope_op s s' \<Longrightarrow> scope_typed s \<Longrightarrow> scope_typed s'"
proof (erule scope_opE)
  assume "scope_typed s"
  show "scope_typed s'" if "assign p name v s = Inr s'" for p name v
    using that \<open>scope_typed s\<close>
    by (auto simp: assign_def scope_typed_def split: if_splits option.splits
        dest: assign_existing_typed assign_new_typed)
  show "scope_typed s'" if "define_const p name v s = Inr s'" for p name v
    using that \<open>scope_typed s\<close>
    by (auto simp: define_const_def scope_typed_def binding_typed_def split: if_splits option.splits)
  show "scope_typed s'" if "define_typed p name d e v c s = Inr s'" for p name d e v c
    using that \<open>scope_typed s\<close>
    by (auto simp: define_typed_def scope_typed_def split: if_splits option.splits dest: prepare_typed)
qed

lemma env_update_typed:
  "(\<And>b. env_binding p name env = Inr b \<Longrightarrow> binding_typed b \<Longrightarrow> binding_typed (f b)) \<Longrightarrow>
   list_all scope_typed env \<Longrightarrow> list_all scope_typed (env_update name f env)"
  by (induction env) (auto simp: scope_typed_def split: option.splits if_splits)

lemma assign_indexes_typed:
  "assign_indexes p name is v env = (failure, env') \<Longrightarrow> list_all scope_typed env \<Longrightarrow> list_all scope_typed env'"
  by (erule assign_indexes_cases)
    (auto intro!: env_update_typed [of p name] simp: binding_typed_def)

lemma update_at_typed [simp]:
  "value_type_name (update_at path f v) = value_type_name v"
  "update_at path f v = VVoid \<longleftrightarrow> v = VVoid" "update_at path f v = VEmptys \<longleftrightarrow> v = VEmptys"
  "is_empty_state (update_at path f v) = is_empty_state v"
  by (cases "(path, f, v)" rule: update_at.cases; simp)+

lemma shape_typed:
  "list_all scope_typed env \<Longrightarrow> list_all scope_typed (env_update name
     (\<lambda>b. if b_const b then b else b\<lparr>b_value := update_at path f (b_value b)\<rparr>) env)"
  by (rule env_update_typed) (auto simp: binding_typed_def)

lemma world_typed_update:
  assumes "world_typed w"
    and "r < length (w_runtimes w) \<Longrightarrow> list_all scope_typed (chain (w_runtimes w ! r)) \<Longrightarrow>
      list_all scope_typed (chain (f (w_runtimes w ! r)))"
  shows "world_typed (update_runtime r f w)"
  using assms by (auto simp: world_typed_def)

lemma world_typed_chain:
  assumes "world_typed w" and "length env = length (chain (w_runtimes w ! r))"
    and "list_all scope_typed (chain (w_runtimes w ! r)) \<Longrightarrow> list_all scope_typed env"
  shows "world_typed (update_runtime r (set_chain env) w)"
  by (rule world_typed_update [OF assms(1)]) (simp add: chain_set_chain assms)

lemma new_scope_typed: "scope_typed initial_scope" "scope_typed Map.empty"
  by (auto simp: scope_typed_def initial_scope_def binding_typed_def split: if_splits)

lemma chain_same [simp]:
  "chain (rt\<lparr>rt_random := g\<rparr>) = chain rt" "chain (rt\<lparr>rt_signatures := sg\<rparr>) = chain rt"
  "chain (rt\<lparr>rt_logics := ls, rt_errors := es, rt_routes := hs\<rparr>) = chain rt"
  by (cases "rt_local rt"; simp add: chain_def)+

lemma world_typed_body:
  assumes "r < length (w_runtimes w)" and "world_typed w" and "world_typed v"
  shows "world_typed (update_runtime r (\<lambda>rt. rt\<lparr>rt_local := rt_local (w_runtimes w ! r)\<rparr>) v)"
proof -
  have local: "rt_local (w_runtimes w ! r) = Some l \<Longrightarrow> scope_typed l" for l
    using assms(1,2) by (auto simp: world_typed_def chain_def split: option.splits)
  show ?thesis
    by (rule world_typed_update [OF assms(3)]) (auto simp: chain_def local split: option.splits)
qed

definition types_kept :: "'w world \<Rightarrow> 'w world \<Rightarrow> bool" where
  "types_kept w w' \<longleftrightarrow> (world_typed w \<longrightarrow> world_typed w')"

interpretation keeping_types: world_steps "\<lambda>r. types_kept" types_kept
proof unfold_locales
  show "types_kept w (update_runtime r (set_chain (s' # ss)) w)"
    if "chain (w_runtimes w ! r) = s # ss" "scope_op s s'" for r s s' ss and w :: "'a world"
    using that scope_op_typed [OF that(2)] by (auto simp: types_kept_def intro: world_typed_chain)
  show "types_kept w (update_runtime r (set_chain env) w)"
    if "assign_indexes p name is x (chain (w_runtimes w ! r)) = (failure, env)" for p name "is" x r failure env
      and w :: "'a world"
    using that env_step_length [OF assign_indexes_step [OF that]]
    by (auto simp: types_kept_def intro: world_typed_chain assign_indexes_typed)
  show "types_kept w (update_runtime r (shape_step name path f) w)" for r name path f and w :: "'a world"
    unfolding types_kept_def shape_step_def
    by (intro impI world_typed_update) (simp_all add: chain_set_chain env_step_length [OF shape_env] shape_typed)
  show "types_kept w (update_runtime r (\<lambda>rt. rt\<lparr>rt_local := rt_local (w_runtimes w ! r)\<rparr>) v)"
    if "r < length (w_runtimes w)" "types_kept (update_runtime r (\<lambda>rt. rt\<lparr>rt_local := Some Map.empty\<rparr>) w) v"
    for r and w v :: "'a world"
  proof -
    have "world_typed w \<Longrightarrow> world_typed (update_runtime r (\<lambda>rt. rt\<lparr>rt_local := Some Map.empty\<rparr>) w)"
      by (erule world_typed_update) (auto simp: chain_def new_scope_typed split: option.splits)
    with that world_typed_body show ?thesis unfolding types_kept_def by blast
  qed
  show "types_kept w v" if "rt_globals rt = initial_scope" "rt_local rt = None"
    "types_kept (w\<lparr>w_runtimes := w_runtimes w @ [rt]\<rparr>) v" for w v :: "'a world" and rt
    using that by (simp add: types_kept_def world_typed_def nth_append All_less_Suc chain_def new_scope_typed)
qed (auto simp: types_kept_def world_typed_def nth_list_update)

subsection \<open>A platform to run examples on\<close>

definition quiet_host :: host where
  "quiet_host = \<lparr>h_tz = ascii_db, h_casefold = (\<lambda>s. s), h_upper = (\<lambda>s. s), h_lower = (\<lambda>s. s), h_is_alpha = (\<lambda>_. False),
     h_libm = (\<lambda>_ _. None), h_pow = (\<lambda>_ _. None), h_libm2 = (\<lambda>_ _ _. None), h_statistics = (\<lambda>_ _. None),
     h_float_sum = (\<lambda>_. None), h_display = (\<lambda>_ _. [])\<rparr>"

definition quiet_platform :: "unit platform" where
  "quiet_platform = \<lparr>p_host = quiet_host, p_unicode = latin_tables, p_clock = (\<lambda>_. 0), p_entropy = (\<lambda>_. 0),
     p_builtins = [], p_external = (\<lambda>_ _ _ _ s. (Inl Crash, s)), p_functions = [], p_function = (\<lambda>_ _ _ _ s. (Inl Crash, s)),
     p_transaction = (\<lambda>_ _ _ s. (Inl Crash, s)), p_member = (\<lambda>_ _ _ _ s. (Inl Crash, s)), p_match = (\<lambda>_. ([], [])),
     p_route_ok = (\<lambda>_. True), p_may_import = (\<lambda>_. Inr ()), p_import_path = (\<lambda>_ _ path. Inr path),
     p_source = (\<lambda>_. None), p_load = (\<lambda>source _. Inl (mk_error 100 [] (mk_pos [] 1 1 [])))\<rparr>"

text \<open>A world whose main program has declared a constant \<open>k\<close> and a function \<open>f\<close>.\<close>

definition example_logic :: logic where
  "example_logic = \<lparr>lg_position = mk_pos [] 1 1 [], lg_parameters = [U ''a''], lg_types = [],
     lg_body = [Assignment (mk_pos [] 2 1 []) (U ''k'') (VariableExpr (mk_pos [] 2 5 []) (U ''a'')),
       ReturnStmt (mk_pos [] 3 1 []) (Some (VariableExpr (mk_pos [] 3 8 []) (U ''k'')))]\<rparr>"

definition example_world :: "unit world" where
  "example_world = \<lparr>w_runtimes = [\<lparr>rt_globals = [U ''k'' \<mapsto> mk_binding (VInt 7) (U ''number'') None True (mk_pos [] 9 1 [])],
       rt_local = None, rt_logics = [(U ''f'', example_logic)], rt_errors = [], rt_routes = [], rt_signatures = [],
       rt_random = seed 0, rt_script = None\<rparr>],
     w_cache = [], w_stack = [], w_out = [], w_err = [], w_in = [], w_ticks = 0, w_rest = ()\<rparr>"

abbreviation "example_call \<equiv> Call 0 (U ''f'') [VInt 5] [] (mk_pos [] 5 1 [])"

lemma not_builtin: "builtin_find quiet_platform c (U ''f'') = None"
proof -
  have "U ''f'' \<notin> set (builtin_names quiet_platform)"
    by (simp add: builtin_names_def BUILTINS_def TYPE_BUILTINS_def NUMBER_BUILTINS_def TEXT_BUILTINS_def TIME_BUILTINS_def
        RANDOM_BUILTINS_def LIST_BUILTINS_def OBJECT_BUILTINS_def ERROR_BUILTINS_def MATH_BUILTINS_def BYTES_BUILTINS_def
        DATETIME_BUILTIN_def OUTSIDE_BUILTINS_def ERROR_NAMES_def fn1_def fn2_def fn3_def fns_def fnx_def part1_def part2_def
        utility_def Let_def quiet_platform_def)
  then show ?thesis using builtin_find_iff by blast
qed

lemma quiet_functions [simp]: "p_functions quiet_platform = []" "p_host quiet_platform = quiet_host"
  by (simp_all add: quiet_platform_def)

lemmas run_simps = request_step_def call_def check_arguments_def andthen_def runtime_of_def lift_def lift_result_def ret_def
  raise_def call_logic_def Let_def prepare_argument_def signature_of_def value_element_type_def infer_signature_def
  run_body_def enter_scope_def leave_scope_def set_runtime_def modifies_def with_finally_def catching_def bind_parameter_def
  on_scope_def assign_def assign_new_def assign_existing_def normalize_if_list_def set_chain_def chain_def
  variable_value_def fail_def

lemma example_run: "fst (perform quiet_platform 2 example_call example_world) = Done (VInt 5)"
  by (simp add: numeral_2_eq_2 run_simps not_builtin example_world_def example_logic_def mk_pos_def)

subsection \<open>What holds of every execution\<close>


definition example_program :: program where
  "example_program = \<lparr>program_position = mk_pos [] 1 1 [],
     program_statements = [ConstDeclaration (mk_pos [] 1 1 []) (U ''k'') (LiteralExpr (mk_pos [] 1 11 []) (L_Token (IntLit 1))),
       Assignment (mk_pos [] 2 1 []) (U ''k'') (LiteralExpr (mk_pos [] 2 5 []) (L_Token (IntLit 2)))]\<rparr>"

lemma example_program_run:
  "\<exists>w. run quiet_platform 1 example_program True (initial_world quiet_platform None [] ()) =
     (Raised (Sep (related_error 211 ''Constant reassignment'' (mk_pos [] 2 1 []) (mk_pos [] 1 1 []))), w) \<and>
   w_runtimes w \<noteq> [] \<and>
   rt_globals (w_runtimes w ! 0) (U ''k'') = Some (mk_binding (VInt 1) (U ''number'') None True (mk_pos [] 1 1 []))"
  by (simp add: run_def run_program_def example_program_def run_simps initial_world_def new_runtime_def declare_in_def
      declare_statement_def is_declaration_def literal_value_def define_const_def initial_scope_def)


text \<open>
  C2. No call and no import, whatever it runs and however it ends, undeclares a global name of any
  interpreter, changes its type, makes a variable of a constant or a constant of a variable, or
  replaces the value of a constant. (The list or object a constant holds is shared with other names
  in the source and is compared as a value here, so the claim about the value is made for constants
  that hold neither.)
\<close>

theorem constants_survive_calls:
  assumes "perform pf n q w = (r, w')" and "r \<noteq> NoFuel"
    and "i < length (w_runtimes w)" and "rt_globals (w_runtimes w ! i) name = Some b"
  shows "i < length (w_runtimes w') \<and> (\<exists>b'. rt_globals (w_runtimes w' ! i) name = Some b' \<and>
    b_type b' = b_type b \<and> b_const b' = b_const b \<and> b_pos b' = b_pos b \<and>
    (b_const b \<and> \<not> is_container (b_value b) \<longrightarrow> b_value b' = b_value b))"
  using keeping_globals.perform_step [OF assms(1,2)] assms(3,4)
  by (fastforce simp: globals_step_def scope_step_def binding_step_def)

lemma constants_survive_calls_witness:
  "\<exists>w' b. perform quiet_platform 2 example_call example_world = (Done (VInt 5), w') \<and>
     rt_globals (w_runtimes w' ! 0) (U ''k'') = Some b \<and> b_const b \<and> b_value b = VInt 7"
proof -
  obtain w' where w': "perform quiet_platform 2 example_call example_world = (Done (VInt 5), w')"
    using example_run by (metis prod.collapse)
  from constants_survive_calls [OF this, of 0 "U ''k''"] w' show ?thesis
    by (auto simp: example_world_def)
qed





end
