(* ===== verification/Fuel.thy ===== *)
theory Fuel
  imports Executions
begin

section \<open>The bound on the depth of calls\<close>

text \<open>
  \<open>perform\<close> and the loops take a bound. Here: once it is large enough, the outcome does not depend
  on it. A computation \<open>refines\<close> another if it is the same wherever it does not run out of fuel; every
  definition of the interpreter preserves this in the handler it calls.
\<close>

lemma refines_with_finally [refine_intros]:
  assumes "refines m m'" and "refines k k'"
  shows "refines (with_finally m k) (with_finally m' k')"
  unfolding refines_def
proof
  fix s
  obtain r t where m: "m s = (r, t)" by fastforce
  obtain q u where k: "k t = (q, u)" by fastforce
  from m assms(1) have "r = NoFuel \<or> m' s = (r, t)" by (auto simp: refines_def dest: spec [of _ s])
  moreover from k assms(2) have "q = NoFuel \<or> k' t = (q, u)" by (auto simp: refines_def dest: spec [of _ t])
  ultimately show "fst (with_finally m k s) = NoFuel \<or> with_finally m k s = with_finally m' k' s"
    using m k by (cases r; cases q) (auto simp: with_finally_def)
qed

lemma refines_loop_more:
  assumes "\<And>a. refines (f a) (f' a)" and "n \<le> m"
  shows "refines (loop_n n f a) (loop_n m f' a)"
  using assms(2)
proof (induction n arbitrary: m a)
  case (Suc n)
  then obtain l where m: "m = Suc l" "n \<le> l" by (cases m) auto
  then show ?case using Suc.IH [OF m(2)] assms(1)
    by (auto intro!: refines_andthen split: sum.split)
qed simp

lemma refines_each [refine_intros]:
  "(\<And>x. x \<in> set xs \<Longrightarrow> refines (f x) (f' x)) \<Longrightarrow> refines (each f xs) (each f' xs)"
  by (induction xs) (auto intro!: refine_intros)

text \<open>Handlers.\<close>

definition handler_refines :: "'w handler \<Rightarrow> 'w handler \<Rightarrow> bool" where
  "handler_refines k k' \<longleftrightarrow> (\<forall>q. refines (k q) (k' q))"

lemma refines_requests [simp]:
  "handler_refines k k' \<Longrightarrow> refines (k (Call m name args named p)) (k' (Call m name args named p))"
  "handler_refines k k' \<Longrightarrow> refines (k (Import m p path)) (k' (Import m p path))"
  by (auto simp: handler_refines_def)

subsection \<open>Expressions and statements\<close>

lemma refines_shape_integer:
  "refines m m' \<Longrightarrow> refines (eval_shape_integer n (e, m)) (eval_shape_integer n (e, m'))"
  by (simp add: eval_shape_integer_def refines_andthen)

lemma refines_shape_position:
  "refines m m' \<Longrightarrow> refines vs vs' \<Longrightarrow> refines (shape_position (e, m) vs n b) (shape_position (e, m') vs' n b)"
  by (auto simp: shape_position_def intro!: refine_intros refines_shape_integer)

lemma refines_index_target:
  "refines parent parent' \<Longrightarrow> refines m m' \<Longrightarrow> refines (index_target r p parent (e, m)) (index_target r p parent' (e, m'))"
  by (auto simp: index_target_def intro!: refine_intros refines_shape_integer)

text \<open>The same arguments with evaluations that refine.\<close>

definition thunk_refines :: "'w thunk \<Rightarrow> 'w thunk \<Rightarrow> bool" where
  "thunk_refines t t' \<longleftrightarrow> fst t = fst t' \<and> refines (snd t) (snd t')"

lemma refines_shape_operations:
  assumes "thunk_refines x x'" and "thunk_refines y y'"
  shows "refines (shape_insert r p t x y) (shape_insert r p t x' y')"
    "refines (shape_remove r t x y) (shape_remove r t x' y')"
    "thunk_refines z z' \<Longrightarrow> refines (shape_remove_horizontal r p t x y z) (shape_remove_horizontal r p t x' y' z')"
    "thunk_refines z z' \<Longrightarrow> refines (shape_remove_vertical r p t x y z) (shape_remove_vertical r p t x' y' z')"
  using assms
  by (cases x; cases y; cases z; cases x'; cases y'; cases z';
      auto simp: thunk_refines_def shape_insert_def shape_remove_def shape_remove_horizontal_def shape_remove_vertical_def
        intro!: refine_intros refines_shape_integer refines_shape_position split: sep_value.split)+

lemma refines_shape_call:
  assumes "refines target target'" and "list_all2 thunk_refines args args'"
  shows "refines (list_shape_call r p name target args b) (list_shape_call r p name target' args' b)"
proof -
  have l: "length args' = length args" using assms(2) by (simp add: list_all2_lengthD)
  have "thunk_refines (args ! i) (args' ! i)" if "i < length args" for i
    using assms(2) that by (simp add: list_all2_nthD)
  then show ?thesis
    unfolding list_shape_call_def l
    by (auto intro!: refine_intros assms(1) refines_shape_operations)
qed

lemma refines_member_call:
  "handler_refines k k' \<Longrightarrow> refines (member_call pf k p v name args named) (member_call pf k' p v name args named)"
  by (auto simp: member_call_def intro!: refine_intros split: sep_value.split)

lemma refines_binary_eval:
  assumes "refines (eval pf k r left) (eval pf k' r left)" and "refines (eval pf k r right) (eval pf k' r right)"
  shows "refines (eval pf k r (BinaryExpr p left op right)) (eval pf k' r (BinaryExpr p left op right))"
  using assms by (auto intro!: refine_intros)

lemma refines_expressions:
  "handler_refines k k' \<Longrightarrow> refines (eval pf k r e) (eval pf k' r e)"
  "handler_refines k k' \<Longrightarrow> refines (eval_list pf k r es) (eval_list pf k' r es)"
  "handler_refines k k' \<Longrightarrow> refines (eval_named pf k r ns) (eval_named pf k' r ns)"
  "handler_refines k k' \<Longrightarrow> refines (shape_target pf k r q e) (shape_target pf k' r q e)"
  "handler_refines k k' \<Longrightarrow> list_all2 thunk_refines (thunks pf k r es) (thunks pf k' r es)"
  "handler_refines k k' \<Longrightarrow> refines (first_target pf k r q es) (first_target pf k' r q es)"
proof (induction pf k r e and pf k r es and pf k r ns and pf k r q e and pf k r es and pf k r q es
    rule: eval_eval_list_eval_named_shape_target_thunks_first_target.induct)
  case (13 pf k r p left op right)
  have "refines (eval pf k r right) (eval pf k' r right)"
  proof (cases "op = U ''??''")
    case True
    then show ?thesis by (rule 13(2) [of "VEmpty None None False"]) (simp_all add: 13)
  next
    case False
    then show ?thesis using 13(3) [of "op \<noteq> U ''||''"] 13(4) 13(5) by blast
  qed
  with 13(1) 13(5) show ?case by (intro refines_binary_eval) auto
qed (auto intro!: refine_intros refines_shape_call refines_index_target refines_member_call simp: thunk_refines_def)

lemma refines_execute_try:
  assumes "refines m m'" and "list_all2 (\<lambda>c c'. fst c = fst c' \<and> refines (snd c) (snd c')) cs cs'"
    and "rel_option refines f f'"
  shows "refines (execute_try m cs f) (execute_try m' cs' f')"
proof -
  have "rel_option refines (select_catch cs e) (select_catch cs' e)" for e
    using assms(2) unfolding select_catch_def
    by (induction rule: list_all2_induct) (auto split: prod.splits)
  then have "refines (case select_catch cs e of Some m \<Rightarrow> m | None \<Rightarrow> raise x)
      (case select_catch cs' e of Some m \<Rightarrow> m | None \<Rightarrow> raise x)" for e x
    by (rule option.rel_cases [of refines "select_catch cs e" "select_catch cs' e"]) auto
  moreover have "refines (case f of None \<Rightarrow> ret () | Some m \<Rightarrow> m) (case f' of None \<Rightarrow> ret () | Some m \<Rightarrow> m)"
    using assms(3) by (cases rule: option.rel_cases) auto
  ultimately show ?thesis
    unfolding execute_try_def
    by (intro refines_with_finally refines_catching assms(1)) (auto split: exn.split)
qed

lemma refines_transaction:
  "refines m m' \<Longrightarrow> refines (execute_transaction pf p v m) (execute_transaction pf p v m')"
  by (auto simp: execute_transaction_def intro!: refine_intros)

lemma refines_data_blocks:
  "handler_refines k k' \<Longrightarrow> refines (build_data_block pf k r st) (build_data_block pf k' r st)"
  "handler_refines k k' \<Longrightarrow> refines (build_entries pf k r es acc) (build_entries pf k' r es acc)"
  by (induction pf k r st and pf k r es acc rule: build_data_block_build_entries.induct)
    (auto intro!: refine_intros refines_expressions)

lemma refines_statements:
  assumes "handler_refines k k'" and "n \<le> n'"
  shows "refines (exec pf k n r st) (exec pf k' n' r st)"
    "refines (exec_all pf k n r sts) (exec_all pf k' n' r sts)"
    "refines final final' \<Longrightarrow> refines (exec_branches pf k n r bs final) (exec_branches pf k' n' r bs final')"
    "list_all2 (\<lambda>c c'. fst c = fst c' \<and> refines (snd c) (snd c')) (catch_bodies pf k n r cs) (catch_bodies pf k' n' r cs)"
  using assms
proof (induction pf k n r st and pf k n r sts and pf k n r bs final and pf k n r cs arbitrary: and and final'
    rule: exec_exec_all_exec_branches_catch_bodies.induct)
  case (11 pf k n r p label condition body q)
  have "refines (exec_all pf k n r body) (exec_all pf k' n' r body)" by (rule 11(1)) (simp_all add: 11)
  with 11 show ?case
    by (auto intro!: refines_loop_more refine_intros refines_expressions)
qed (auto intro!: refine_intros refines_expressions refines_data_blocks refines_execute_try refines_transaction
    split: option.split sep_value.split)

subsection \<open>Builtin functions\<close>

definition caller_refines :: "('w world, exn) caller \<Rightarrow> ('w world, exn) caller \<Rightarrow> bool" where
  "caller_refines c c' \<longleftrightarrow> (\<forall>f args. refines (c f args) (c' f args))"

lemma refines_higher_order:
  assumes "caller_refines c c'"
  shows "refines (map_list Sep c p vs f) (map_list Sep c' p vs f)"
    "refines (filter_list Sep c p vs f) (filter_list Sep c' p vs f)"
    "refines (reduce_list Sep c p vs f a) (reduce_list Sep c' p vs f a)"
proof -
  have c: "refines (c f args) (c' f args)" for f args
    using assms by (simp add: caller_refines_def)
  have "refines (filter_values Sep c p f vs) (filter_values Sep c' p f vs)" for vs
    by (induction vs) (auto intro!: refine_intros c split: sep_value.split)
  moreover have "refines (reduce_values Sep c p f t vs a) (reduce_values Sep c' p f t vs a)" for t vs a
    by (induction vs arbitrary: a) (auto intro!: refine_intros c)
  ultimately show "refines (map_list Sep c p vs f) (map_list Sep c' p vs f)"
    "refines (filter_list Sep c p vs f) (filter_list Sep c' p vs f)"
    "refines (reduce_list Sep c p vs f a) (reduce_list Sep c' p vs f a)"
    unfolding map_list_def filter_list_def reduce_list_def by (auto intro!: refine_intros c)
qed

definition entry_refines :: "'w entry \<Rightarrow> 'w entry \<Rightarrow> bool" where
  "entry_refines e e' \<longleftrightarrow> (case (e, e') of ((name, lo, hi, names, f), (name', lo', hi', names', f')) \<Rightarrow>
     name = name' \<and> lo = lo' \<and> hi = hi' \<and> names = names' \<and> (\<forall>r p args named. refines (f r p args named) (f' r p args named)))"

lemma entry_refines_refl [simp]: "entry_refines e e"
  by (auto simp: entry_refines_def)

lemma entry_refines_fnx:
  "(\<And>r p args. refines (f r p args) (f' r p args)) \<Longrightarrow> entry_refines (fnx name lo hi f) (fnx name lo hi f')"
  by (simp add: entry_refines_def fnx_def)

lemma builtins_refine:
  assumes "\<And>p. caller_refines (c p) (c' p)"
  shows "list_all2 entry_refines (BUILTINS pf c) (BUILTINS pf c')"
proof -
  have "list_all2 entry_refines (LIST_BUILTINS pf c) (LIST_BUILTINS pf c')"
    unfolding LIST_BUILTINS_def Let_def
    by (intro list.rel_intros entry_refines_refl entry_refines_fnx refines_higher_order assms)
  then show ?thesis
    unfolding BUILTINS_def by (intro list_all2_appendI list.rel_refl) auto
qed

lemma map_of_refines:
  assumes "list_all2 entry_refines es es'"
  shows "rel_option (\<lambda>e e'. entry_refines (name, e) (name, e')) (map_of es name) (map_of es' name)"
  using assms by (induction rule: list_all2_induct) (auto simp: entry_refines_def)

lemma builtin_find_refines:
  assumes "\<And>p. caller_refines (c p) (c' p)"
  shows "rel_option (\<lambda>e e'. entry_refines (name, e) (name, e')) (builtin_find pf c name) (builtin_find pf c' name)"
  unfolding builtin_find_def
  using builtins_refine [OF assms] by (intro map_of_refines) simp

lemma builtin_call_refines:
  "entry_refines (name, e) (name, e') \<Longrightarrow> refines (builtin_call e r p args named) (builtin_call e' r p args named)"
  by (auto simp: entry_refines_def builtin_call_def intro!: refine_intros split: prod.splits)

subsection \<open>Calls, imports and programs\<close>

lemma refines_run_body:
  "handler_refines k k' \<Longrightarrow> n \<le> n' \<Longrightarrow> refines (run_body pf k n r lg args p) (run_body pf k' n' r lg args p)"
  unfolding run_body_def by (auto intro!: refine_intros refines_statements split: exn.split)

lemma refines_call_logic:
  "handler_refines k k' \<Longrightarrow> n \<le> n' \<Longrightarrow>
   refines (call_logic pf k n r name lg args named p) (call_logic pf k' n' r name lg args named p)"
  unfolding call_logic_def by (auto intro!: refine_intros refines_run_body)

lemma refines_call_value: "handler_refines k k' \<Longrightarrow> caller_refines (call_value k p) (call_value k' p)"
  by (auto simp: caller_refines_def call_value_def split: sep_value.split)

lemma refines_builtin:
  assumes "handler_refines k k'" and "refines m m'"
  shows "refines
     (case builtin_find pf (call_value k) name of
        Some entry \<Rightarrow> if b then fail x else builtin_call entry r p args named | None \<Rightarrow> m)
     (case builtin_find pf (call_value k') name of
        Some entry \<Rightarrow> if b then fail x else builtin_call entry r p args named | None \<Rightarrow> m')"
proof -
  have "rel_option (\<lambda>e e'. entry_refines (name, e) (name, e'))
      (builtin_find pf (call_value k) name) (builtin_find pf (call_value k') name)"
    by (rule builtin_find_refines) (rule refines_call_value [OF assms(1)])
  then show ?thesis by (rule option.rel_cases) (auto simp: assms(2) intro: builtin_call_refines)
qed

lemma refines_call:
  "handler_refines k k' \<Longrightarrow> n \<le> n' \<Longrightarrow>
   refines (call pf k n r name args named p) (call pf k' n' r name args named p)"
  unfolding call_def Let_def
  by (intro refine_intros refines_builtin refines_call_logic refines_refl)

lemma refines_run_program:
  "handler_refines k k' \<Longrightarrow> n \<le> n' \<Longrightarrow>
   refines (run_program pf k n r prog b) (run_program pf k' n' r prog b)"
  unfolding run_program_def Let_def
  by (auto intro!: refine_intros refines_statements split: option.split)

lemma refines_load_module:
  "handler_refines k k' \<Longrightarrow> n \<le> n' \<Longrightarrow> refines (load_module pf k n p key) (load_module pf k' n' p key)"
  unfolding load_module_def Let_def by (auto intro!: refine_intros refines_run_program)

lemma refines_import_module:
  "handler_refines k k' \<Longrightarrow> n \<le> n' \<Longrightarrow> refines (import_module pf k n r p path) (import_module pf k' n' r p path)"
  unfolding import_module_def by (auto intro!: refine_intros refines_load_module)

lemma perform_mono: "n \<le> m \<Longrightarrow> handler_refines (perform pf n) (perform pf m)"
proof (induction n arbitrary: m)
  case (Suc n)
  then obtain l where m: "m = Suc l" "n \<le> l" by (cases m) auto
  with Suc.IH [OF m(2)] show ?case
    unfolding handler_refines_def [of "perform pf (Suc n)"]
    by (auto simp: request_step_def intro!: refines_call refines_import_module split: request.split)
qed (simp add: handler_refines_def)

lemma run_mono: "n \<le> m \<Longrightarrow> refines (run pf n prog b) (run pf m prog b)"
  unfolding run_def by (intro refines_andthen refines_run_program perform_mono) auto



end
