(* ===== verification/Control.thy ===== *)
theory Control
  imports Executions
begin

section \<open>Errors, declarations and imports\<close>

subsection \<open>Which errors a handler catches\<close>

text \<open>The parents of an error category as a relation.\<close>

inductive parent_step :: "ustr \<Rightarrow> ustr \<Rightarrow> bool" where
  "parent_of c = Some d \<Longrightarrow> parent_step c d"

inductive_simps parent_step_iff: "parent_step c d"

lemma ancestors_reachable: "d \<in> set (ancestors n c) \<Longrightarrow> parent_step\<^sup>+\<^sup>+ c d"
proof (induction n arbitrary: c)
  case (Suc n)
  then obtain b where b: "parent_of c = Some b" "d = b \<or> d \<in> set (ancestors n b)"
    by (cases "parent_of c") auto
  from parent_step.intros [OF b(1)] b(2) Suc.IH [of b] show ?case
    by (auto intro: tranclp.r_into_trancl tranclp_into_tranclp2)
qed simp

lemma reachable_ancestors: "parent_step\<^sup>+\<^sup>+ c d \<Longrightarrow> d \<in> set (ancestors 3 c)"
proof (induction rule: converse_tranclp_induct)
  case (base c)
  then show ?case by (simp add: parent_step_iff numeral_3_eq_3)
next
  case (step c b)
  have "Suc 3 = Suc (Suc (Suc (Suc 0)))" by simp
  with ancestors_complete [of "Suc 0" c] have "ancestors (Suc 3) c = ancestors 3 c" by metis
  moreover have "ancestors (Suc 3) c = b # ancestors 3 b"
    using step(1) by (subst ancestors.simps) (simp add: parent_step_iff)
  ultimately show ?case using step.IH by simp
qed

text \<open>
  C24. \<open>catch requested\<close> catches an error of category \<open>actual\<close> exactly if it names \<open>any\<close> or
  \<open>runtime_error\<close>, or the category itself or one of its ancestors at any distance: the bounded walk
  up the table of parents computes the reflexive and transitive closure of the parent relation, which
  has no cycles.
\<close>

theorem error_matches_closure:
  "(error_matches requested actual \<longleftrightarrow>
     requested = U ''any'' \<or> requested = U ''runtime_error'' \<or> parent_step\<^sup>*\<^sup>* actual requested) \<and>
   \<not> parent_step\<^sup>+\<^sup>+ actual actual"
proof -
  have "requested \<in> set (ancestors 3 actual) \<longleftrightarrow> parent_step\<^sup>+\<^sup>+ actual requested"
    using ancestors_reachable reachable_ancestors by blast
  moreover have False if "parent_step\<^sup>+\<^sup>+ actual actual"
  proof -
    from that obtain b where b: "parent_step actual b" "parent_step\<^sup>*\<^sup>* b actual"
      by (auto dest: tranclpD)
    from b(2) that b(1) have "parent_step\<^sup>+\<^sup>+ b b" by (meson rtranclp_tranclp_tranclp rtranclp_into_tranclp1)
    then obtain d where d: "parent_step b d" "parent_step\<^sup>*\<^sup>* d b" by (auto dest: tranclpD)
    with b(1) have "parent_of d = None" by (auto simp: parent_step_iff intro: parent_of_parents)
    with d show False
      using b(1) by (auto elim: converse_rtranclpE simp: parent_step_iff)
  qed
  ultimately show ?thesis
    unfolding error_matches_def by (blast dest: rtranclpD intro: tranclp_into_rtranclp)
qed

lemma error_matches_closure_example:
  "error_matches (U ''process_error'') (U ''command_timeout_error'')"
  by (simp add: error_matches_def numeral_3_eq_3 parent_of_def map_of_U error_parents_def)

subsection \<open>Handlers and clean-up\<close>

text \<open>Whether a branch of \<open>try\<close> catches an error.\<close>

fun catches :: "catch_branch \<Rightarrow> sep_error \<Rightarrow> bool" where
  "catches (CatchBranch p category body) e = error_matches category (error_category e)"

lemma select_catch_bodies:
  "select_catch (catch_bodies pf k n r branches) e =
   map_option (\<lambda>b. case b of CatchBranch p category body \<Rightarrow> exec_all pf k n r body) (find (\<lambda>b. catches b e) branches)"
  by (induction branches rule: list.induct)
    (auto simp: select_catch_def split: catch_branch.split)

lemma find_append_Cons: "\<forall>x \<in> set xs. \<not> P x \<Longrightarrow> P y \<Longrightarrow> find P (xs @ y # ys) = Some y"
  by (induction xs) auto

lemma try_without_finally:
  "exec pf k n r (TryStmt p label body branches None q) w =
   catching (exec_all pf k n r body) (\<lambda>x. case x of
      Sep e \<Rightarrow> (case select_catch (catch_bodies pf k n r branches) e of Some m \<Rightarrow> m | None \<Rightarrow> raise x) | _ \<Rightarrow> raise x) w"
  by (auto simp: execute_try_def with_finally_def ret_def split: prod.split outcome.split)

lemma try_finally:
  "exec pf k n r (TryStmt p label body branches (Some final) q) =
   with_finally (exec pf k n r (TryStmt p label body branches None q)) (exec_all pf k n r final)"
proof
  fix w
  have "exec pf k n r (TryStmt p label body branches None q) = catching (exec_all pf k n r body) (\<lambda>x. case x of
      Sep e \<Rightarrow> (case select_catch (catch_bodies pf k n r branches) e of Some m \<Rightarrow> m | None \<Rightarrow> raise x) | _ \<Rightarrow> raise x)"
    using try_without_finally by blast
  then show "exec pf k n r (TryStmt p label body branches (Some final) q) w =
      with_finally (exec pf k n r (TryStmt p label body branches None q)) (exec_all pf k n r final) w"
    by (simp add: execute_try_def del: exec.simps(17)) (simp add: execute_try_def)
qed

text \<open>
  C23. When the body of a \<open>try\<close> raises, the first branch in the order of the source that catches the
  error runs on the state the body left, and no other; an error that no branch catches, a \<open>return\<close> and
  a crash go on unchanged. Then, whatever the outcome was, \<open>finally\<close> runs on the state left behind, and
  the outcome stays unless \<open>finally\<close> raises itself.
\<close>

theorem try_catches_first_match:
  assumes "exec_all pf k n r body w = (Raised x, t)"
  shows "(\<forall>e before p' category handler after. x = Sep e \<and> branches = before @ CatchBranch p' category handler # after \<and>
        (\<forall>b \<in> set before. \<not> catches b e) \<and> error_matches category (error_category e) \<longrightarrow>
        exec pf k n r (TryStmt p label body branches None q) w = exec_all pf k n r handler t) \<and>
    ((\<forall>e. x = Sep e \<longrightarrow> (\<forall>b \<in> set branches. \<not> catches b e)) \<longrightarrow>
        exec pf k n r (TryStmt p label body branches None q) w = (Raised x, t)) \<and>
    (\<forall>outcome u result v. exec pf k n r (TryStmt p label body branches None q) w = (outcome, u) \<and> outcome \<noteq> NoFuel \<and>
        exec_all pf k n r final u = (result, v) \<longrightarrow>
        exec pf k n r (TryStmt p label body branches (Some final) q) w =
          (case result of Done _ \<Rightarrow> outcome | Raised y \<Rightarrow> Raised y | NoFuel \<Rightarrow> NoFuel, v))"
proof (intro conjI allI impI; (elim conjE)?)
  show "exec pf k n r (TryStmt p label body branches None q) w = exec_all pf k n r handler t"
    if "x = Sep e" "branches = before @ CatchBranch p' category handler # after"
      "\<forall>b \<in> set before. \<not> catches b e" "error_matches category (error_category e)"
    for e before p' category handler after
    unfolding try_without_finally using assms that
    by (simp add: catching_def select_catch_bodies find_append_Cons)
  show "exec pf k n r (TryStmt p label body branches None q) w = (Raised x, t)"
    if none: "\<forall>e. x = Sep e \<longrightarrow> (\<forall>b \<in> set branches. \<not> catches b e)"
  proof -
    have "find (\<lambda>b. catches b e) branches = None" if "x = Sep e" for e
      using that none by (simp add: find_None_iff)
    then show ?thesis
      unfolding try_without_finally using assms
      by (auto simp: catching_def select_catch_bodies raise_def split: exn.split)
  qed
  show "exec pf k n r (TryStmt p label body branches (Some final) q) w =
        (case result of Done _ \<Rightarrow> outcome | Raised y \<Rightarrow> Raised y | NoFuel \<Rightarrow> NoFuel, v)"
    if "exec pf k n r (TryStmt p label body branches None q) w = (outcome, u)" "outcome \<noteq> NoFuel"
      "exec_all pf k n r final u = (result, v)" for outcome u result v
    unfolding try_finally using that by (cases outcome; cases result) (auto simp: with_finally_def)
qed

abbreviation "failing_body \<equiv> [Assignment (mk_pos [] 2 1 []) (U ''k'') (LiteralExpr (mk_pos [] 2 5 []) (L_Token (IntLit 1)))]"
abbreviation "saving_handler \<equiv> [Assignment (mk_pos [] 4 1 []) (U ''v'') (LiteralExpr (mk_pos [] 4 5 []) (L_Token (IntLit 2)))]"

lemma runtime_error_root: "ancestors 3 (U ''runtime_error'') = []"
proof -
  have "map_of error_parents ''runtime_error'' = None" by (simp add: error_parents_def)
  then have "parent_of (U ''runtime_error'') = None" by (simp only: parent_of_def map_of_U option.map)
  then show ?thesis by (simp only: numeral_3_eq_3 ancestors.simps option.case)
qed

lemma constant_category: "error_category (related_error 211 cat p q) = U ''runtime_error''"
  by (simp add: error_category_def related_error_def mk_error_def)

lemma try_catches_first_match_witness:
  "exec quiet_platform (perform quiet_platform 0) 0 0
     (TryStmt (mk_pos [] 1 1 []) [] failing_body
       [CatchBranch (mk_pos [] 3 1 []) (U ''type_error'') [], CatchBranch (mk_pos [] 3 1 []) (U ''any'') saving_handler] None
       (mk_pos [] 5 1 [])) example_world =
   exec_all quiet_platform (perform quiet_platform 0) 0 0 saving_handler example_world"
proof -
  let ?e = "related_error 211 ''Constant reassignment'' (mk_pos [] 2 1 []) (mk_pos [] 9 1 [])"
  have "exec_all quiet_platform (perform quiet_platform 0) 0 0 failing_body example_world = (Raised (Sep ?e), example_world)"
    by (simp add: run_simps literal_value_def example_world_def)
  from try_catches_first_match [OF this, of "[CatchBranch (mk_pos [] 3 1 []) (U ''type_error'') [],
      CatchBranch (mk_pos [] 3 1 []) (U ''any'') saving_handler]"]
  have "\<forall>e before p' category handler after. Sep ?e = Sep e \<and>
      [CatchBranch (mk_pos [] 3 1 []) (U ''type_error'') [], CatchBranch (mk_pos [] 3 1 []) (U ''any'') saving_handler] =
        before @ CatchBranch p' category handler # after \<and>
      (\<forall>b \<in> set before. \<not> catches b e) \<and> error_matches category (error_category e) \<longrightarrow>
      exec quiet_platform (perform quiet_platform 0) 0 0 (TryStmt (mk_pos [] 1 1 []) [] failing_body
       [CatchBranch (mk_pos [] 3 1 []) (U ''type_error'') [], CatchBranch (mk_pos [] 3 1 []) (U ''any'') saving_handler] None
       (mk_pos [] 5 1 [])) example_world = exec_all quiet_platform (perform quiet_platform 0) 0 0 handler example_world"
    by blast
  from this [rule_format, of ?e "[CatchBranch (mk_pos [] 3 1 []) (U ''type_error'') []]"] show ?thesis
    by (simp add: error_matches_def constant_category runtime_error_root)
qed

subsection \<open>Declarations\<close>

text \<open>What the first pass over a program guarantees of the tables of names.\<close>

definition names_ok :: "'w platform \<Rightarrow> ustr list \<Rightarrow> runtime \<Rightarrow> bool" where
  "names_ok pf functions rt \<longleftrightarrow>
     distinct (map fst (rt_logics rt)) \<and> distinct (rt_errors rt) \<and> distinct (map fst (rt_routes rt)) \<and>
     set (map fst (rt_logics rt)) \<subseteq> set functions \<and> set (rt_errors rt) \<inter> set functions = {} \<and>
     (\<forall>name \<in> set (map fst (rt_logics rt)) \<union> set (rt_errors rt). \<not> is_function pf name) \<and>
     (\<forall>((m, path), body) \<in> set (rt_routes rt). p_route_ok pf path)"

lemma declare_names_ok:
  assumes "declare_statement pf functions st rt = Inr rt'" and "names_ok pf functions rt"
    and "set (logic_names [st]) \<subseteq> set functions"
  shows "names_ok pf functions rt'"
  using assms by (cases st)
    (auto simp: declare_statement_def declare_logic_def declare_error_def declare_route_def names_ok_def logic_names_def
      simp del: set_map split: if_splits)

lemma declare_in_result:
  "r < length (w_runtimes w) \<Longrightarrow> declare_in pf r functions st w =
   (case declare_statement pf functions st (w_runtimes w ! r) of
      Inl e \<Rightarrow> (Raised (Sep e), w) | Inr rt \<Rightarrow> (Done (), update_runtime r (\<lambda>_. rt) w))"
  by (simp add: declare_in_def andthen_def runtime_of_def lift_def lift_result_def ret_def raise_def set_runtime_update
      split: sum.split)

lemma declared_names_ok:
  assumes "set (logic_names sts) \<subseteq> set functions" and "r < length (w_runtimes w)"
    and "names_ok pf functions (w_runtimes w ! r)" and "each (declare_in pf r functions) sts w = (x, w')"
  shows "r < length (w_runtimes w') \<and> names_ok pf functions (w_runtimes w' ! r)"
  using assms
proof (induction sts arbitrary: w)
  case Nil
  then show ?case by (simp add: ret_def)
next
  case (Cons st sts)
  show ?case
  proof (cases "declare_statement pf functions st (w_runtimes w ! r)")
    case (Inl e)
    with Cons.prems show ?thesis by (auto simp: andthen_def declare_in_result)
  next
    case (Inr rt)
    have "names_ok pf functions rt"
      by (rule declare_names_ok [OF Inr Cons.prems(3)]) (use Cons.prems(1) in \<open>auto simp: logic_names_def\<close>)
    moreover have "set (logic_names sts) \<subseteq> set functions"
      using Cons.prems(1) by (auto simp: logic_names_def)
    ultimately show ?thesis
      using Cons.IH [of "update_runtime r (\<lambda>_. rt) w"] Cons.prems(2,4) Inr
      by (simp add: andthen_def declare_in_result)
  qed
qed

lemma declare_logic_names:
  "declare_statement pf functions st rt = Inr rt' \<Longrightarrow> map fst (rt_logics rt') = map fst (rt_logics rt) @ logic_names [st]"
  by (cases st) (auto simp: declare_statement_def declare_logic_def declare_error_def declare_route_def logic_names_def
      split: if_splits)

lemma declared_all:
  assumes "r < length (w_runtimes w)" and "each (declare_in pf r functions) sts w = (Done (), w')"
  shows "map fst (rt_logics (w_runtimes w' ! r)) = map fst (rt_logics (w_runtimes w ! r)) @ logic_names sts"
  using assms
proof (induction sts arbitrary: w)
  case (Cons st sts)
  then obtain rt where rt: "declare_statement pf functions st (w_runtimes w ! r) = Inr rt"
    by (cases "declare_statement pf functions st (w_runtimes w ! r)") (auto simp: andthen_def declare_in_result)
  have "logic_names (st # sts) = logic_names [st] @ logic_names sts" by (simp add: logic_names_def)
  with Cons.IH [of "update_runtime r (\<lambda>_. rt) w"] Cons.prems rt declare_logic_names [OF rt] show ?case
    by (simp add: andthen_def declare_in_result)
qed (simp add: ret_def logic_names_def)


abbreviation "example_declarations \<equiv> [LogicDecl (mk_pos [] 1 1 []) (U ''f'') [] [] [] (mk_pos [] 2 1 []) []]"


subsection \<open>Imports\<close>

lemma import_checks:
  assumes "p_may_import pf p = Inr ()" and "ends_with path (U ''.sep'')" and "r < length (w_runtimes w)"
    and "p_import_path pf (rt_script (w_runtimes w ! r)) p path = Inr key"
  shows "import_module pf k n r p path w =
    (if key \<in> set (w_stack w) then (Raised (Sep (mk_error 701 ''Circular import'' p)), w)
     else case map_of (w_cache w) key of
       Some (m, exports) \<Rightarrow> (Done (VNamespace m exports), w) | None \<Rightarrow> load_module pf k n p key w)"
  using assms
  by (simp add: import_module_def andthen_def lift_def lift_result_def check_def runtime_of_def reads_def fail_def raise_def
      ret_def split: option.split)

lemma load_module_cached:
  assumes "load_module pf k n p key w = (Done v, w')"
  obtains m exports where "v = VNamespace m exports" "map_of (w_cache w') key = Some (m, exports)"
  using assms that
  by (auto simp: load_module_def andthen_def ret_def modifies_def Let_def split: prod.splits outcome.splits)

text \<open>
  C25. A module runs once: after an import succeeded, every import that finds the same file, from any
  interpreter and by any path, gives the same namespace and changes nothing, as long as the
  cache still has its entry; and an import of a file that is still being imported is the
  error E701, not a second run.
\<close>

theorem modules_run_once:
  fixes pf :: "'w platform"
  assumes "p_may_import pf p = Inr ()" and "ends_with path (U ''.sep'')" and "r < length (w_runtimes w)"
    and "p_import_path pf (rt_script (w_runtimes w ! r)) p path = Inr key"
  shows "(key \<in> set (w_stack w) \<longrightarrow> import_module pf k n r p path w = (Raised (Sep (mk_error 701 ''Circular import'' p)), w)) \<and>
    (\<forall>v w1 w2 r2 p2 path2 k2 n2. import_module pf k n r p path w = (Done v, w1) \<and> map_of (w_cache w2) key = map_of (w_cache w1) key \<and>
       key \<notin> set (w_stack w2) \<and> p_may_import pf p2 = Inr () \<and> ends_with path2 (U ''.sep'') \<and> r2 < length (w_runtimes w2) \<and>
       p_import_path pf (rt_script (w_runtimes w2 ! r2)) p2 path2 = Inr key \<longrightarrow>
       import_module pf k2 n2 r2 p2 path2 w2 = (Done v, w2))"
proof (intro conjI allI impI; (elim conjE)?)
  show "import_module pf k n r p path w = (Raised (Sep (mk_error 701 ''Circular import'' p)), w)" if "key \<in> set (w_stack w)"
    using that by (simp add: import_checks [OF assms])
  fix v and w1 w2 :: "'w world" and r2 p2 path2 k2 n2
  assume first: "import_module pf k n r p path w = (Done v, w1)" and cache: "map_of (w_cache w2) key = map_of (w_cache w1) key"
    and again: "key \<notin> set (w_stack w2)" "p_may_import pf p2 = Inr ()" "ends_with path2 (U ''.sep'')"
      "r2 < length (w_runtimes w2)" "p_import_path pf (rt_script (w_runtimes w2 ! r2)) p2 path2 = Inr key"
  obtain m exports where "v = VNamespace m exports" "map_of (w_cache w1) key = Some (m, exports)"
    using first unfolding import_checks [OF assms]
    by (auto split: if_splits option.splits elim: load_module_cached)
  with cache again(1) show "import_module pf k2 n2 r2 p2 path2 w2 = (Done v, w2)"
    by (simp add: import_checks [OF again(2-5)])
qed

definition module_platform :: "unit platform" where
  "module_platform = quiet_platform\<lparr>p_source := \<lambda>_. Some [],
     p_load := \<lambda>_ _. Inr \<lparr>program_position = mk_pos [] 1 1 [], program_statements = []\<rparr>\<rparr>"

lemma module_platform_simps [simp]:
  "p_may_import module_platform p = Inr ()" "p_import_path module_platform s p path = Inr path"
  "p_source module_platform key = Some []"
  "p_load module_platform t key = Inr \<lparr>program_position = mk_pos [] 1 1 [], program_statements = []\<rparr>"
  by (simp_all add: module_platform_def quiet_platform_def)

lemma module_import:
  "\<exists>w. import_module module_platform (\<lambda>q. no_fuel) 0 0 (mk_pos [] 1 1 []) (U ''m.sep'') example_world = (Done (VNamespace 1 []), w) \<and>
     w_stack w = [] \<and> 0 < length (w_runtimes w)"
proof -
  have e: "ends_with (U ''m.sep'') (U ''.sep'')" by code_simp
  have "import_module module_platform (\<lambda>q. no_fuel) 0 0 (mk_pos [] 1 1 []) (U ''m.sep'') example_world =
      load_module module_platform (\<lambda>q. no_fuel) 0 (mk_pos [] 1 1 []) (U ''m.sep'') example_world"
    by (subst import_checks [OF _ e]) (auto simp: example_world_def)
  then show ?thesis
    by (simp add: example_world_def load_module_def andthen_def lift_def lift_result_def ret_def
        modifies_def add_runtime_def with_finally_def run_program_def runtime_of_def Let_def exports_of_def new_runtime_def)
qed

lemma modules_run_once_witness:
  "\<exists>w. import_module module_platform (\<lambda>q. no_fuel) 0 0 (mk_pos [] 1 1 []) (U ''m.sep'') example_world = (Done (VNamespace 1 []), w) \<and>
     import_module module_platform (\<lambda>q. no_fuel) 0 0 (mk_pos [] 1 1 []) (U ''m.sep'') w = (Done (VNamespace 1 []), w)"
proof -
  obtain w where w: "import_module module_platform (\<lambda>q. no_fuel) 0 0 (mk_pos [] 1 1 []) (U ''m.sep'') example_world = (Done (VNamespace 1 []), w)"
    "w_stack w = []" "0 < length (w_runtimes w)"
    using module_import by blast
  have e: "ends_with (U ''m.sep'') (U ''.sep'')" by code_simp
  have "0 < length (w_runtimes example_world)" by (simp add: example_world_def)
  with modules_run_once [of module_platform "mk_pos [] 1 1 []" "U ''m.sep''" 0 example_world "U ''m.sep''" "\<lambda>q. no_fuel" 0] e w show ?thesis
    by auto
qed

end
