(* ===== verification/Shape_Laws.thy ===== *)
theory Shape_Laws
  imports Interpreter
begin

section \<open>Laws of the list shape operations\<close>

text \<open>
  What \<open>list_insert\<close>, \<open>list_remove\<close> and \<open>list_remove_vertical\<close> do to the value of the variable:
  laws of the nested update, and what happens to rows, columns and cells.
\<close>

lemma list_at_update: "list_at path (update_at path f v) = map_option f (list_at path v)"
  by (induction path v rule: list_at.induct) auto

lemma update_at_update: "update_at path g (update_at path f v) = update_at path (g \<circ> f) v"
  by (induction path f v rule: update_at.induct) auto

lemma update_at_same: "list_at path v = Some vs \<Longrightarrow> f vs = vs \<Longrightarrow> update_at path f v = v"
  by (induction path v rule: list_at.induct) (auto split: if_splits simp: list_update_same_conv)

text \<open>A path that is neither inside the changed list nor on the way to it sees no change.\<close>

fun diverge :: "nat list \<Rightarrow> nat list \<Rightarrow> bool" where
  "diverge (i # is) (j # js) = (i \<noteq> j \<or> diverge is js)"
| "diverge _ _ = False"

lemma list_at_diverge: "diverge path other \<Longrightarrow> list_at other (update_at path f v) = list_at other v"
proof (induction path other arbitrary: v rule: diverge.induct)
  case (1 i "is" j js)
  then show ?case by (cases v) (auto simp: nth_list_update)
qed auto



subsection \<open>Columns\<close>

lemma vertical_cells_result:
  assumes "vertical_cells p element column first amount vs = Inr cells" and "first + amount \<le> length vs"
  obtains cell_type where "list_all (has_column column) (drop first vs)"
    "cells = drop amount (map (cell column) (drop first vs)) @ replicate amount (empty_for_type_spec cell_type False)"
    "length cells = length (drop first vs)"
  using assms that by (auto simp: vertical_cells_def Let_def split: if_splits)

lemma set_cell_row:
  assumes "has_column c row"
  shows "cell c (set_cell c row v) = v" "j \<noteq> c \<Longrightarrow> cell j (set_cell c row v) = cell j row"
    "has_column j (set_cell c row v) = has_column j row"
  using assms by (cases row; auto simp: cell_def set_cell_def has_column_def)+

lemma map2_set_cell:
  assumes "list_all (has_column c) rows" and "length cells = length rows"
  shows "map (cell c) (map2 (set_cell c) rows cells) = cells"
  using assms(2) [symmetric] assms(1) by (induction rows cells rule: list_induct2) (auto simp: set_cell_row)

text \<open>
  C40. Removing cells from a column moves the cells below them up and fills the end with EMPTY, when the
  removed cells are cells of the table: the table keeps its number of rows and the length of every row, the
  rows above the place and every other column stay as they are, and the column holds its old cells in
  order without the removed ones, followed by as many EMPTY values.
\<close>

theorem vertical_removal_correct:
  assumes "vertical_cells p element column first amount vs = Inr cells" and "first + amount \<le> length vs"
  defines "ws \<equiv> shift_column column first cells vs"
  shows "length ws = length vs \<and> take first ws = take first vs \<and>
    (\<forall>i < length vs. (\<forall>j. has_column j (ws ! i) = has_column j (vs ! i)) \<and>
       (\<forall>j. j \<noteq> column \<longrightarrow> cell j (ws ! i) = cell j (vs ! i))) \<and>
    (\<exists>empty. is_empty_state empty \<and> map (cell column) (drop first ws) =
       drop (first + amount) (map (cell column) vs) @ replicate amount empty)"
proof -
  from vertical_cells_result [OF assms(1,2)] obtain t where
    rows: "list_all (has_column column) (drop first vs)" and
    cells: "cells = drop amount (map (cell column) (drop first vs)) @ replicate amount (empty_for_type_spec t False)" and
    len: "length cells = length (drop first vs)"
    by blast
  have below: "ws ! i = set_cell column (vs ! i) (cells ! (i - first)) \<and> has_column column (vs ! i)"
    if "first \<le> i" "i < length vs" for i
    using that len rows by (auto simp: ws_def shift_column_def nth_append list_all_length min_def dest: spec [of _ "i - first"])
  have above: "ws ! i = vs ! i" if "i < first" "i < length vs" for i
    using that by (simp add: ws_def shift_column_def nth_append)
  have "(\<forall>j. has_column j (ws ! i) = has_column j (vs ! i)) \<and> (\<forall>j. j \<noteq> column \<longrightarrow> cell j (ws ! i) = cell j (vs ! i))"
    if "i < length vs" for i
    using above [of i] below [of i] that by (cases "i < first") (auto simp: set_cell_row)
  moreover have "drop first ws = map2 (set_cell column) (drop first vs) cells"
    using assms(2) by (simp add: ws_def shift_column_def)
  then have "map (cell column) (drop first ws) = cells"
    by (simp only: map2_set_cell [OF rows len])
  moreover have "length ws = length vs" "take first ws = take first vs"
    using len assms(2) by (simp_all add: ws_def shift_column_def)
  ultimately show ?thesis
    using cells by (auto simp: drop_map add.commute intro!: exI [of _ "empty_for_type_spec t False"])
qed

lemma vertical_removal_correct_witness:
  "map (cell 1) (shift_column 1 0 [VInt 4, VEmpty (Some (U ''number'')) None False]
     [VList [VInt 1, VInt 2], VList [VInt 3, VInt 4]]) ! 0 = VInt 4"
proof -
  let ?vs = "[VList [VInt 1, VInt 2], VList [VInt 3, VInt 4]]"
  have "vertical_cells (mk_pos [] 1 1 []) (Some (TList (Some (TName (U ''number''))))) 1 0 1 ?vs =
      Inr [VInt 4, VEmpty (Some (U ''number'')) None False]"
    by (simp add: vertical_cells_def Let_def has_column_def cell_def element_spec_def empty_for_type_spec_def)
  from vertical_removal_correct [OF this] show ?thesis by (auto simp: cell_def nth_Cons')
qed

end
