(* ===== verification/Structure.thy ===== *)
theory Structure
  imports Objects
begin

section \<open>Structure: block identities, diffs and edit scopes\<close>

text \<open>
  \<open>structural.py\<close>, \<open>structure_insights.py\<close> and the comparison of trees at the end of
  \<open>ast_nodes.py\<close>. A program is turned into canonical trees without positions; every named block
  gets an identity (its path of kinds, labels and ordinals), a fingerprint of its own content, where
  the named blocks inside are replaced by markers, and one of its whole content. Two programs are
  compared block by block, and an edit is accepted only if every change lies in the allowed scopes.

  The fingerprint is the SHA-256 of the tree's JSON text: a parameter \<open>digest\<close> on trees here.
\<close>

subsection \<open>Canonical trees\<close>

datatype tree =
    T_null | T_bool bool | T_int int | T_flt b64 | T_str ustr
  | T_list "tree list" | T_dict "(ustr \<times> tree) list"

definition node_tree :: "string \<Rightarrow> (string \<times> tree) list \<Rightarrow> tree" where
  "node_tree name members = T_dict [(U ''node'', T_str (U name)), (U ''fields'', T_dict (map (\<lambda>(k, t). (U k, t)) members))]"

fun spec_tree :: "type_spec option \<Rightarrow> tree" where
  "spec_tree None = T_null"
| "spec_tree (Some (TName t)) = T_str t"
| "spec_tree (Some (TList e)) = T_list [T_str (U ''list''), spec_tree e]"

definition literal_tree :: "literal \<Rightarrow> tree" where
  "literal_tree l =
     (case l of
        L_EMPTY \<Rightarrow> node_tree ''EmptyValue'' [(''declared_type'', T_null), (''element_type'', T_null), (''external'', T_bool False)]
      | L_EMPTYS \<Rightarrow> node_tree ''EmptysValue'' []
      | L_Token (IntLit i) \<Rightarrow> T_int i | L_Token (FloatLit x) \<Rightarrow> T_flt x | L_Token (StrLit s) \<Rightarrow> T_str s
      | L_Token (BoolLit b) \<Rightarrow> T_bool b | L_Token NoLit \<Rightarrow> T_null)"

text \<open>The items of a dictionary are taken in the order of the keys.\<close>

definition dict_tree :: "(ustr \<times> tree) list \<Rightarrow> tree" where
  "dict_tree items = T_dict (sort_key fst items)"

text \<open>
  An expression; the flags say whether its own position is recorded, and whether the positions of the
  expressions in dictionaries are: never in a canonical tree, but \<open>_structural_value\<close> below leaves
  dictionaries as they are.
\<close>

definition position_tree :: "source_position \<Rightarrow> tree" where
  "position_tree p = T_list [T_str (pos_file p), T_int (int (pos_line p)), T_int (int (pos_column p)), T_str (pos_source_line p)]"

definition expr_node :: "bool \<Rightarrow> source_position \<Rightarrow> string \<Rightarrow> (string \<times> tree) list \<Rightarrow> tree" where
  "expr_node here p name members = node_tree name ((if here then [(''position'', position_tree p)] else []) @ members)"

fun expr_shape :: "bool \<Rightarrow> bool \<Rightarrow> expr \<Rightarrow> tree"
  and named_shapes :: "bool \<Rightarrow> (ustr \<times> expr) list \<Rightarrow> (ustr \<times> tree) list" where
  "expr_shape h d (LiteralExpr p l) = expr_node h p ''LiteralExpr'' [(''value'', literal_tree l)]"
| "expr_shape h d (VariableExpr p name) = expr_node h p ''VariableExpr'' [(''name'', T_str name)]"
| "expr_shape h d (BinaryExpr p l op r) =
     expr_node h p ''BinaryExpr'' [(''left'', expr_shape h d l), (''operator'', T_str op), (''right'', expr_shape h d r)]"
| "expr_shape h d (UnaryExpr p op e) = expr_node h p ''UnaryExpr'' [(''operator'', T_str op), (''operand'', expr_shape h d e)]"
| "expr_shape h d (EmptyTestExpr p e n) = expr_node h p ''EmptyTestExpr'' [(''operand'', expr_shape h d e), (''negated'', T_bool n)]"
| "expr_shape h d (EmptysTestExpr p e n) = expr_node h p ''EmptysTestExpr'' [(''operand'', expr_shape h d e), (''negated'', T_bool n)]"
| "expr_shape h d (PositionSelectorExpr p name) = expr_node h p ''PositionSelectorExpr'' [(''name'', T_str name)]"
| "expr_shape h d (GroupExpr p e) = expr_node h p ''GroupExpr'' [(''expression'', expr_shape h d e)]"
| "expr_shape h d (CallExpr p callee args named) =
     expr_node h p ''CallExpr'' [(''callee'', T_str callee), (''arguments'', T_list (map (expr_shape h d) args)),
       (''named_arguments'', dict_tree (named_shapes d named))]"
| "expr_shape h d (ListExpr p es) = expr_node h p ''ListExpr'' [(''elements'', T_list (map (expr_shape h d) es))]"
| "expr_shape h d (IndexExpr p t i) = expr_node h p ''IndexExpr'' [(''target'', expr_shape h d t), (''index'', expr_shape h d i)]"
| "expr_shape h d (MemberExpr p t name) = expr_node h p ''MemberExpr'' [(''target'', expr_shape h d t), (''name'', T_str name)]"
| "expr_shape h d (MemberCallExpr p t name args named) =
     expr_node h p ''MemberCallExpr'' [(''target'', expr_shape h d t), (''name'', T_str name),
       (''arguments'', T_list (map (expr_shape h d) args)), (''named_arguments'', dict_tree (named_shapes d named))]"
| "named_shapes d [] = []"
| "named_shapes d ((name, e) # es) = (name, expr_shape d d e) # named_shapes d es"

text \<open>The kinds of block that have a name.\<close>

definition kind_and_label :: "stmt \<Rightarrow> (ustr \<times> ustr) option" where
  "kind_and_label s =
     (case s of
        LogicDecl _ name _ _ _ _ _ \<Rightarrow> Some (U ''SEP'', name)
      | IfStmt _ label _ _ _ \<Rightarrow> Some (U ''if'', label)
      | WhileStmt _ label _ _ _ \<Rightarrow> Some (U ''while'', label)
      | ForStmt _ label _ _ _ _ \<Rightarrow> Some (U ''for'', label)
      | ObjectBlock _ name _ _ \<Rightarrow> Some (U ''object'', name)
      | ListBlock _ name _ _ \<Rightarrow> Some (U ''list'', name)
      | TryStmt _ label _ _ _ _ \<Rightarrow> Some (U ''try'', label)
      | ErrorDecl _ name _ \<Rightarrow> Some (U ''error'', name)
      | HttpRouteDecl _ _ _ label _ _ \<Rightarrow> Some (U ''http_route'', label)
      | TransactionStmt _ _ label _ _ \<Rightarrow> Some (U ''transaction'', label)
      | _ \<Rightarrow> None)"

definition is_named :: "stmt \<Rightarrow> bool" where
  "is_named s \<longleftrightarrow> kind_and_label s \<noteq> None"

definition block_key :: "stmt \<Rightarrow> ustr \<times> ustr" where
  "block_key s = (case kind_and_label s of Some k \<Rightarrow> k | None \<Rightarrow> ([], []))"

definition marker :: "stmt \<Rightarrow> tree" where
  "marker s = T_dict [(U ''$block'', T_str (fst (block_key s))), (U ''label'', T_str (snd (block_key s)))]"

definition opt_tree :: "ustr option \<Rightarrow> tree" where
  "opt_tree s = (case s of None \<Rightarrow> T_null | Some t \<Rightarrow> T_str t)"

definition parameter_tree :: "(ustr \<times> ustr \<times> type_spec option) list \<Rightarrow> tree" where
  "parameter_tree types = dict_tree (map (\<lambda>(name, t, e). (name, T_list [T_str t, spec_tree e])) types)"

text \<open>\<open>_canonical\<close> of a block; with the second flag, the named blocks inside are replaced by markers.\<close>

fun stmt_shape :: "bool \<Rightarrow> bool \<Rightarrow> stmt \<Rightarrow> tree"
  and stmt_shapes :: "bool \<Rightarrow> bool \<Rightarrow> stmt list \<Rightarrow> tree list"
  and entry_shapes :: "bool \<Rightarrow> bool \<Rightarrow> object_entry list \<Rightarrow> tree list"
  and catch_shapes :: "bool \<Rightarrow> bool \<Rightarrow> catch_branch list \<Rightarrow> tree list"
  and branch_shapes :: "bool \<Rightarrow> bool \<Rightarrow> if_branch list \<Rightarrow> tree list" where
  "stmt_shape d f (Assignment p name e) = node_tree ''Assignment'' [(''name'', T_str name), (''value'', expr_shape False d e)]"
| "stmt_shape d f (IndexAssignment p name is e) =
     node_tree ''IndexAssignment'' [(''name'', T_str name), (''indexes'', T_list (map (expr_shape False d) is)), (''value'', expr_shape False d e)]"
| "stmt_shape d f (ConstDeclaration p name e) =
     node_tree ''ConstDeclaration'' [(''name'', T_str name), (''value'', expr_shape False d e)]"
| "stmt_shape d f (TypedDeclaration p name t el e c) =
     node_tree ''TypedDeclaration'' [(''name'', T_str name), (''declared_type'', T_str t), (''element_type'', spec_tree el),
       (''value'', expr_shape False d e), (''constant'', T_bool c)]"
| "stmt_shape d f (PrintStmt p e) = node_tree ''PrintStmt'' [(''value'', expr_shape False d e)]"
| "stmt_shape d f (PrintErrorStmt p e) = node_tree ''PrintErrorStmt'' [(''value'', expr_shape False d e)]"
| "stmt_shape d f (ReturnStmt p e) = node_tree ''ReturnStmt'' [(''value'', case e of None \<Rightarrow> T_null | Some e \<Rightarrow> expr_shape False d e)]"
| "stmt_shape d f (ExpressionStmt p e) = node_tree ''ExpressionStmt'' [(''expression'', expr_shape False d e)]"
| "stmt_shape d f (ObjectBlock p name entries q) =
     node_tree ''ObjectBlock'' [(''name'', T_str name), (''entries'', T_list (entry_shapes d f entries))]"
| "stmt_shape d f (ListBlock p name es q) =
     node_tree ''ListBlock'' [(''name'', T_str name), (''elements'', T_list (map (expr_shape False d) es))]"
| "stmt_shape d f (ImportStmt p path alias) = node_tree ''ImportStmt'' [(''path'', T_str path), (''alias'', T_str alias)]"
| "stmt_shape d f (TryStmt p label body catches final q) =
     node_tree ''TryStmt'' [(''label'', T_str label), (''body'', T_list (stmt_shapes d f body)),
       (''catches'', T_list (catch_shapes d f catches)),
       (''finally_body'', case final of None \<Rightarrow> T_null | Some b \<Rightarrow> T_list (stmt_shapes d f b))]"
| "stmt_shape d f (ThrowStmt p e) = node_tree ''ThrowStmt'' [(''value'', expr_shape False d e)]"
| "stmt_shape d f (ErrorDecl p name q) = node_tree ''ErrorDecl'' [(''name'', T_str name)]"
| "stmt_shape d f (HttpRouteDecl p m path label body q) =
     node_tree ''HttpRouteDecl'' [(''method'', T_str m), (''path'', T_str path), (''label'', T_str label),
       (''body'', T_list (stmt_shapes d f body))]"
| "stmt_shape d f (TransactionStmt p c label body q) =
     node_tree ''TransactionStmt'' [(''connection'', expr_shape False d c), (''label'', T_str label), (''body'', T_list (stmt_shapes d f body))]"
| "stmt_shape d f (IfStmt p label branches final q) =
     node_tree ''IfStmt'' [(''label'', T_str label), (''branches'', T_list (branch_shapes d f branches)),
       (''else_body'', case final of None \<Rightarrow> T_null | Some b \<Rightarrow> T_list (stmt_shapes d f b))]"
| "stmt_shape d f (WhileStmt p label c body q) =
     node_tree ''WhileStmt'' [(''label'', T_str label), (''condition'', expr_shape False d c), (''body'', T_list (stmt_shapes d f body))]"
| "stmt_shape d f (ForStmt p label variable e body q) =
     node_tree ''ForStmt'' [(''label'', T_str label), (''variable'', T_str variable), (''iterable'', expr_shape False d e),
       (''body'', T_list (stmt_shapes d f body))]"
| "stmt_shape d f (LogicDecl p name ps tags body q types) =
     node_tree ''LogicDecl'' [(''name'', T_str name), (''parameters'', T_list (map T_str ps)), (''tags'', T_list (map T_str tags)),
       (''body'', T_list (stmt_shapes d f body)), (''parameter_types'', parameter_tree types)]"
| "stmt_shapes d f [] = []"
| "stmt_shapes d f (s # ss) = (if f \<and> is_named s then marker s else stmt_shape d f s) # stmt_shapes d f ss"
| "entry_shapes d f [] = []"
| "entry_shapes d f (ObjectField p name e t el # es) =
     node_tree ''ObjectField'' [(''name'', T_str name), (''value'', expr_shape False d e), (''declared_type'', opt_tree t),
       (''element_type'', spec_tree el)] # entry_shapes d f es"
| "entry_shapes d f (BlockEntry s # es) = (if f \<and> is_named s then marker s else stmt_shape d f s) # entry_shapes d f es"
| "catch_shapes d f [] = []"
| "catch_shapes d f (CatchBranch p category body # cs) =
     node_tree ''CatchBranch'' [(''category'', T_str category), (''body'', T_list (stmt_shapes d f body))] # catch_shapes d f cs"
| "branch_shapes d f [] = []"
| "branch_shapes d f (IfBranch c body p # bs) =
     node_tree ''IfBranch'' [(''condition'', expr_shape False d c), (''body'', T_list (stmt_shapes d f body))] # branch_shapes d f bs"

abbreviation stmt_tree :: "bool \<Rightarrow> stmt \<Rightarrow> tree" where "stmt_tree \<equiv> stmt_shape False"
abbreviation stmt_trees :: "bool \<Rightarrow> stmt list \<Rightarrow> tree list" where "stmt_trees \<equiv> stmt_shapes False"

definition program_shape :: "bool \<Rightarrow> bool \<Rightarrow> stmt list \<Rightarrow> tree" where
  "program_shape d f ss = node_tree ''Program'' [(''statements'', T_list (stmt_shapes d f ss))]"

subsection \<open>Named children\<close>

text \<open>
  \<open>_direct_named_children\<close>. A statement that is no named block holds no block, so the walk through the
  fields finds the named blocks of the bodies, and those inside an entry that is no block itself.
\<close>

fun children :: "stmt \<Rightarrow> stmt list"
  and children_of :: "stmt list \<Rightarrow> stmt list"
  and entry_children :: "object_entry list \<Rightarrow> stmt list"
  and catch_children :: "catch_branch list \<Rightarrow> stmt list"
  and branch_children :: "if_branch list \<Rightarrow> stmt list" where
  "children (ObjectBlock p name entries q) = entry_children entries"
| "children (TryStmt p label body catches final q) =
     children_of body @ catch_children catches @ (case final of None \<Rightarrow> [] | Some b \<Rightarrow> children_of b)"
| "children (HttpRouteDecl p m path label body q) = children_of body"
| "children (TransactionStmt p c label body q) = children_of body"
| "children (IfStmt p label branches final q) =
     branch_children branches @ (case final of None \<Rightarrow> [] | Some b \<Rightarrow> children_of b)"
| "children (WhileStmt p label c body q) = children_of body"
| "children (ForStmt p label variable e body q) = children_of body"
| "children (LogicDecl p name ps tags body q types) = children_of body"
| "children s = []"
| "children_of [] = []"
| "children_of (s # ss) = (if is_named s then [s] else children s) @ children_of ss"
| "entry_children [] = []"
| "entry_children (ObjectField p name e t el # es) = entry_children es"
| "entry_children (BlockEntry s # es) = (if is_named s then [s] else children s) @ entry_children es"
| "catch_children [] = []"
| "catch_children (CatchBranch p category body # cs) = children_of body @ catch_children cs"
| "branch_children [] = []"
| "branch_children (IfBranch c body p # bs) = children_of body @ branch_children bs"

subsection \<open>Comparison of trees\<close>

text \<open>
  \<open>ast_structural_equal\<close>: Python's \<open>==\<close> on the structural values, which compares numbers and
  booleans by their numeric value, and dictionaries of expressions as they are, with positions.
\<close>

definition leaf_value :: "tree \<Rightarrow> sep_value" where
  "leaf_value t = (case t of T_bool b \<Rightarrow> VBool b | T_int i \<Rightarrow> VInt i | T_flt x \<Rightarrow> VFlt x | T_str s \<Rightarrow> VStr s | _ \<Rightarrow> VVoid)"

fun tree_equal :: "tree \<Rightarrow> tree \<Rightarrow> bool"
  and trees_equal :: "tree list \<Rightarrow> tree list \<Rightarrow> bool"
  and members_equal :: "(ustr \<times> tree) list \<Rightarrow> (ustr \<times> tree) list \<Rightarrow> bool" where
  "tree_equal (T_list ts) u = (case u of T_list us \<Rightarrow> trees_equal ts us | _ \<Rightarrow> False)"
| "tree_equal (T_dict ms) u = (case u of T_dict ns \<Rightarrow> members_equal ms ns | _ \<Rightarrow> False)"
| "tree_equal T_null u = (u = T_null)"
| "tree_equal t u = (case u of T_null \<Rightarrow> False | T_list us \<Rightarrow> False | T_dict ns \<Rightarrow> False | _ \<Rightarrow> py_eq (leaf_value t) (leaf_value u))"
| "trees_equal [] us = (us = [])"
| "trees_equal (t # ts) us = (case us of [] \<Rightarrow> False | u # us' \<Rightarrow> tree_equal t u \<and> trees_equal ts us')"
| "members_equal [] ns = (ns = [])"
| "members_equal ((k, t) # ms) ns =
     (case ns of [] \<Rightarrow> False | (k', u) # ns' \<Rightarrow> k = k' \<and> tree_equal t u \<and> members_equal ms ns')"

definition ast_structural_equal :: "stmt list \<Rightarrow> stmt list \<Rightarrow> bool" where
  "ast_structural_equal left right = tree_equal (program_shape True False left) (program_shape True False right)"

subsection \<open>Inspection\<close>

record block_record =
  bl_id :: ustr
  bl_path :: ustr
  bl_kind :: ustr
  bl_label :: ustr
  bl_parent :: "ustr option"
  bl_line :: nat
  bl_column :: nat
  bl_tags :: "ustr list"
  bl_own :: ustr
  bl_tree :: ustr

record snapshot =
  sn_source :: ustr
  sn_fingerprint :: ustr
  sn_blocks :: "block_record list"

definition block_tags :: "stmt \<Rightarrow> ustr list" where
  "block_tags s = (case s of LogicDecl _ _ _ tags _ _ _ \<Rightarrow> tags | _ \<Rightarrow> [])"

text \<open>The ordinal of a block among those of the same kind and label in its parent.\<close>

fun number_blocks :: "(ustr \<times> ustr) list \<Rightarrow> stmt list \<Rightarrow> (stmt \<times> nat) list" where
  "number_blocks seen [] = []"
| "number_blocks seen (s # ss) = (s, Suc (count_list seen (block_key s))) # number_blocks (block_key s # seen) ss"

definition segment :: "stmt \<Rightarrow> nat \<Rightarrow> ustr" where
  "segment s n = fst (block_key s) @ U '':'' @ snd (block_key s) @ U ''#'' @ show_nat n"

definition block_record_of :: "(tree \<Rightarrow> ustr) \<Rightarrow> ustr \<Rightarrow> ustr \<Rightarrow> stmt \<Rightarrow> nat \<Rightarrow> block_record" where
  "block_record_of digest parent path s n =
     \<lparr>bl_id = parent @ U ''/'' @ segment s n,
      bl_path = (if path = U ''root'' then segment s n else path @ U ''/'' @ segment s n),
      bl_kind = fst (block_key s), bl_label = snd (block_key s), bl_parent = Some parent,
      bl_line = pos_line (stmt_position s), bl_column = pos_column (stmt_position s), bl_tags = block_tags s,
      bl_own = digest (stmt_tree True s), bl_tree = digest (stmt_tree False s)\<rparr>"

lemma number_blocks_fst: "map fst (number_blocks seen ss) = ss"
  by (induction ss arbitrary: seen) auto

lemma number_blocks_mem: "(s, n) \<in> set (number_blocks seen ss) \<Longrightarrow> s \<in> set ss"
  by (metis fst_conv image_eqI list.set_map number_blocks_fst)

lemma children_smaller:
  "c \<in> set (children s) \<Longrightarrow> size c < size s"
  "c \<in> set (children_of ss) \<Longrightarrow> size c \<le> size_list size ss"
  "c \<in> set (entry_children es) \<Longrightarrow> size c \<le> size_list size es"
  "c \<in> set (catch_children cs) \<Longrightarrow> size c \<le> size_list size cs"
  "c \<in> set (branch_children bs) \<Longrightarrow> size c \<le> size_list size bs"
  by (induction s and ss and es and cs and bs rule: children_children_of_entry_children_catch_children_branch_children.induct)
    (auto split: option.splits if_splits)

text \<open>\<open>add_children\<close>: the record of a block, then those of the blocks inside.\<close>

function block_records :: "(tree \<Rightarrow> ustr) \<Rightarrow> ustr \<Rightarrow> ustr \<Rightarrow> stmt \<times> nat \<Rightarrow> block_record list" where
  "block_records digest parent path (s, n) =
     (let r = block_record_of digest parent path s n in
      r # concat (map (block_records digest (bl_id r) (bl_path r)) (number_blocks [] (children s))))"
  by pat_completeness auto
termination
  by (relation "measure (\<lambda>(_, _, _, s, _). size s)") (auto dest: number_blocks_mem children_smaller)

declare block_records.simps [simp del]

definition inspect :: "(tree \<Rightarrow> ustr) \<Rightarrow> ustr \<Rightarrow> program \<Rightarrow> snapshot" where
  "inspect digest source_name prog =
     (let ss = program_statements prog; whole = digest (program_shape False False ss);
          root = \<lparr>bl_id = U ''root'', bl_path = U ''root'', bl_kind = U ''program'', bl_label = U ''root'', bl_parent = None,
            bl_line = 1, bl_column = 1, bl_tags = [], bl_own = digest (program_shape False True ss), bl_tree = whole\<rparr>
      in \<lparr>sn_source = source_name, sn_fingerprint = whole,
          sn_blocks = root # concat (map (block_records digest (U ''root'') (U ''root'')) (number_blocks [] (children_of ss)))\<rparr>)"

subsection \<open>Differences\<close>

datatype status = Added | Removed | Modified | Unchanged

record change =
  ch_status :: status
  ch_id :: ustr
  ch_before :: "block_record option"
  ch_after :: "block_record option"

text \<open>The blocks of a snapshot by identity; a later one replaces an earlier one.\<close>

definition block_at :: "snapshot \<Rightarrow> ustr \<Rightarrow> block_record option" where
  "block_at sn i = map_of (rev (map (\<lambda>b. (bl_id b, b)) (sn_blocks sn))) i"

definition block_ids :: "snapshot \<Rightarrow> ustr list" where
  "block_ids sn = map bl_id (sn_blocks sn)"

definition status_of :: "block_record option \<Rightarrow> block_record option \<Rightarrow> status" where
  "status_of l r =
     (case (l, r) of
        (None, _) \<Rightarrow> Added
      | (Some _, None) \<Rightarrow> Removed
      | (Some b, Some c) \<Rightarrow> if bl_own b \<noteq> bl_own c then Modified else Unchanged)"

definition all_changes :: "snapshot \<Rightarrow> snapshot \<Rightarrow> change list" where
  "all_changes before after =
     map (\<lambda>i. \<lparr>ch_status = status_of (block_at before i) (block_at after i), ch_id = i,
            ch_before = block_at before i, ch_after = block_at after i\<rparr>)
       (sort (remdups (block_ids before @ block_ids after)))"

definition structural_diff :: "bool \<Rightarrow> snapshot \<Rightarrow> snapshot \<Rightarrow> (status \<Rightarrow> nat) \<times> change list" where
  "structural_diff include_unchanged before after =
     (let cs = all_changes before after in
      (\<lambda>st. length (filter (\<lambda>c. ch_status c = st) cs),
       filter (\<lambda>c. ch_status c \<noteq> Unchanged \<or> include_unchanged) cs))"

subsection \<open>Scopes\<close>

text \<open>The path without the ordinals of its segments.\<close>

definition cut_last :: "uchar \<Rightarrow> ustr \<Rightarrow> ustr" where
  "cut_last c s = (if c \<in> set s then rev (tl (dropWhile (\<lambda>d. d \<noteq> c) (rev s))) else s)"

definition without_ordinals :: "ustr \<Rightarrow> ustr" where
  "without_ordinals path = join_with (U ''/'') (map (cut_last 35) (split_on 47 path))"

definition scope_matches :: "snapshot \<Rightarrow> ustr \<Rightarrow> block_record list" where
  "scope_matches sn requested =
     (let stripped = rstrip (lstrip requested);
          query = (if starts_with stripped (U '':'') then tl stripped else stripped);
          blocks = filter (\<lambda>b. bl_id b \<noteq> U ''root'') (sn_blocks sn);
          exact = filter (\<lambda>b. bl_id b = query \<or> bl_path b = query) blocks;
          by_path = filter (\<lambda>b. without_ordinals (bl_path b) = query) blocks
      in if exact \<noteq> [] then exact else if by_path \<noteq> [] then by_path else filter (\<lambda>b. bl_label b = query) blocks)"

text \<open>The number of a \<open>ScopeResolutionError\<close> is its code.\<close>

definition resolve_scope :: "snapshot \<Rightarrow> ustr \<Rightarrow> nat + block_record" where
  "resolve_scope sn query =
     (case scope_matches sn query of [] \<Rightarrow> Inl 401 | [b] \<Rightarrow> Inr b | _ \<Rightarrow> Inl 402)"

definition resolve_scopes :: "snapshot \<Rightarrow> ustr list \<Rightarrow> nat + block_record list" where
  "resolve_scopes sn requested =
     bind_sum (map_result (resolve_scope sn) requested) (\<lambda>bs. if bs = [] then Inl 403 else Inr bs)"

definition inside_scopes :: "block_record list \<Rightarrow> ustr \<Rightarrow> bool" where
  "inside_scopes scopes i = list_ex (\<lambda>b. i = bl_id b \<or> starts_with i (bl_id b @ U ''/'')) scopes"

record verification =
  vf_scopes :: "block_record list"
  vf_allowed :: "change list"
  vf_outside :: "change list"
  vf_missing :: "block_record list"

definition passed :: "verification \<Rightarrow> bool" where
  "passed v \<longleftrightarrow> vf_outside v = [] \<and> vf_missing v = []"

definition verify :: "(block_record \<Rightarrow> bool) \<Rightarrow> block_record list \<Rightarrow> snapshot \<Rightarrow> snapshot \<Rightarrow> verification" where
  \<comment> \<open>the first argument says whether a scope is still there\<close>
  "verify kept scopes before after =
     (let cs = snd (structural_diff False before after) in
      \<lparr>vf_scopes = scopes, vf_allowed = filter (\<lambda>c. inside_scopes scopes (ch_id c)) cs,
       vf_outside = filter (\<lambda>c. \<not> inside_scopes scopes (ch_id c)) cs,
       vf_missing = filter (\<lambda>b. \<not> kept b) scopes\<rparr>)"

definition verify_scopes :: "snapshot \<Rightarrow> snapshot \<Rightarrow> ustr list \<Rightarrow> nat + verification" where
  "verify_scopes before after requested =
     bind_sum (resolve_scopes before requested) (\<lambda>scopes.
     Inr (verify (\<lambda>b. bl_id b \<in> set (block_ids after)) scopes before after))"

subsection \<open>Semantic tags\<close>

definition tag_path_matches :: "ustr list \<Rightarrow> ustr \<Rightarrow> bool" where
  "tag_path_matches tags query = list_ex (\<lambda>t. t = query \<or> starts_with t (query @ U '':'')) tags"

definition tag_query :: "ustr \<Rightarrow> ustr" where
  "tag_query tag = (if starts_with tag (U ''@'') then tl tag else tag)"

definition resolve_tag :: "snapshot \<Rightarrow> ustr \<Rightarrow> nat + block_record list" where
  "resolve_tag sn tag =
     (let bs = filter (\<lambda>b. bl_kind b = U ''SEP'' \<and> tag_path_matches (bl_tags b) (tag_query tag)) (sn_blocks sn)
      in if bs = [] then Inl 404 else Inr bs)"

definition verify_tag_scope :: "snapshot \<Rightarrow> snapshot \<Rightarrow> ustr \<Rightarrow> nat + verification" where
  "verify_tag_scope before after tag =
     bind_sum (resolve_tag before (tag_query tag)) (\<lambda>scopes.
     Inr (verify (\<lambda>b. case block_at after (bl_id b) of
              None \<Rightarrow> False | Some c \<Rightarrow> tag_path_matches (bl_tags c) (tag_query tag)) scopes before after))"

subsection \<open>Workspaces\<close>

text \<open>
  \<open>verify_tag_paths\<close> on two directories: the snapshots of the files by their relative paths. A file that is
  missing on one side counts as an empty program.
\<close>

definition empty_snapshot :: "(tree \<Rightarrow> ustr) \<Rightarrow> snapshot" where
  "empty_snapshot digest = inspect digest [] \<lparr>program_position = mk_pos [] 1 1 [], program_statements = []\<rparr>"

record workspace_verification =
  wf_scopes :: "(ustr \<times> block_record) list"
  wf_allowed :: "(ustr \<times> change) list"
  wf_outside :: "(ustr \<times> change) list"
  wf_missing :: "(ustr \<times> block_record) list"

definition snapshot_at :: "(tree \<Rightarrow> ustr) \<Rightarrow> (ustr \<times> snapshot) list \<Rightarrow> ustr \<Rightarrow> snapshot" where
  "snapshot_at digest files path = (case map_of files path of Some sn \<Rightarrow> sn | None \<Rightarrow> empty_snapshot digest)"

definition verify_tag_workspace ::
  "(tree \<Rightarrow> ustr) \<Rightarrow> (ustr \<times> snapshot) list \<Rightarrow> (ustr \<times> snapshot) list \<Rightarrow> ustr \<Rightarrow> nat + workspace_verification" where
  "verify_tag_workspace digest before after tag =
     (let query = tag_query tag;
          scopes = concat (map (\<lambda>(path, sn). map (Pair path)
            (filter (\<lambda>b. bl_kind b = U ''SEP'' \<and> tag_path_matches (bl_tags b) query) (sn_blocks sn))) before);
          scopes_in = (\<lambda>path. map snd (filter (\<lambda>(file, b). file = path) scopes));
          changes = concat (map (\<lambda>path. map (Pair path)
            (snd (structural_diff False (snapshot_at digest before path) (snapshot_at digest after path))))
            (sort (remdups (map fst before @ map fst after))))
      in if scopes = [] then Inl 404
         else Inr \<lparr>wf_scopes = scopes,
           wf_allowed = filter (\<lambda>(path, c). inside_scopes (scopes_in path) (ch_id c)) changes,
           wf_outside = filter (\<lambda>(path, c). \<not> inside_scopes (scopes_in path) (ch_id c)) changes,
           wf_missing = filter (\<lambda>(path, b).
             case find (\<lambda>c. bl_id c = bl_id b) (sn_blocks (snapshot_at digest after path)) of
               None \<Rightarrow> True | Some c \<Rightarrow> \<not> tag_path_matches (bl_tags c) query) scopes\<rparr>)"

text \<open>\<open>inspect_tag_path\<close>: the functions of the files that carry a tag.\<close>

definition inspect_tag_path :: "(ustr \<times> snapshot) list \<Rightarrow> ustr \<Rightarrow> nat + (ustr \<times> block_record) list" where
  "inspect_tag_path files tag =
     (let found = concat (map (\<lambda>(path, sn). map (Pair path)
        (filter (\<lambda>b. bl_kind b = U ''SEP'' \<and> tag_path_matches (bl_tags b) (tag_query tag)) (sn_blocks sn))) files)
      in if found = [] then Inl 404 else Inr found)"

subsection \<open>Summaries of a block\<close>

text \<open>\<open>structure_insights.py\<close>: the names a block reads, writes and calls itself, in the order they are met.\<close>

record insights =
  is_reads :: "ustr list"
  is_writes :: "ustr list"
  is_calls :: "ustr list"

definition add_name :: "ustr \<Rightarrow> ustr list \<Rightarrow> ustr list" where
  "add_name name names = (if name \<in> set names then names else names @ [name])"

definition reads_name :: "ustr \<Rightarrow> insights \<Rightarrow> insights" where
  "reads_name n i = i\<lparr>is_reads := add_name n (is_reads i)\<rparr>"

definition writes_name :: "ustr \<Rightarrow> insights \<Rightarrow> insights" where
  "writes_name n i = i\<lparr>is_writes := add_name n (is_writes i)\<rparr>"

definition calls_name :: "ustr \<Rightarrow> insights \<Rightarrow> insights" where
  "calls_name n i = i\<lparr>is_calls := add_name n (is_calls i)\<rparr>"

text \<open>An empty name is no name, as in the source.\<close>

fun qualified_name :: "expr \<Rightarrow> ustr option" where
  "qualified_name (VariableExpr p name) = Some name"
| "qualified_name (MemberExpr p target name) =
     (case qualified_name target of None \<Rightarrow> None | Some t \<Rightarrow> if t = [] then None else Some (t @ U ''.'' @ name))"
| "qualified_name e = None"

fun visit_expr :: "expr \<Rightarrow> insights \<Rightarrow> insights"
  and visit_exprs :: "expr list \<Rightarrow> insights \<Rightarrow> insights"
  and visit_named :: "(ustr \<times> expr) list \<Rightarrow> insights \<Rightarrow> insights" where
  "visit_expr (LiteralExpr p l) i = i"
| "visit_expr (VariableExpr p name) i = reads_name name i"
| "visit_expr (BinaryExpr p l op r) i = visit_expr r (visit_expr l i)"
| "visit_expr (UnaryExpr p op e) i = visit_expr e i"
| "visit_expr (EmptyTestExpr p e n) i = visit_expr e i"
| "visit_expr (EmptysTestExpr p e n) i = visit_expr e i"
| "visit_expr (PositionSelectorExpr p name) i = i"
| "visit_expr (GroupExpr p e) i = visit_expr e i"
| "visit_expr (CallExpr p callee args named) i = visit_named named (visit_exprs args (calls_name callee i))"
| "visit_expr (ListExpr p es) i = visit_exprs es i"
| "visit_expr (IndexExpr p t e) i = visit_expr e (visit_expr t i)"
| "visit_expr (MemberExpr p t name) i =
     (case qualified_name (MemberExpr p t name) of Some q \<Rightarrow> reads_name q i | None \<Rightarrow> visit_expr t i)"
| "visit_expr (MemberCallExpr p t name args named) i =
     visit_named named (visit_exprs args (visit_expr t
       (calls_name (case qualified_name t of Some q \<Rightarrow> if q = [] then name else q @ U ''.'' @ name | None \<Rightarrow> name) i)))"
| "visit_exprs [] i = i"
| "visit_exprs (e # es) i = visit_exprs es (visit_expr e i)"
| "visit_named [] i = i"
| "visit_named ((k, e) # es) i = visit_named es (visit_expr e i)"

text \<open>A statement in a block; named blocks inside are left out. Only the first index of an indexed
  assignment is visited.\<close>

definition visit_stmt :: "stmt \<Rightarrow> insights \<Rightarrow> insights" where
  "visit_stmt s i =
     (case s of
        Assignment _ name e \<Rightarrow> visit_expr e (writes_name name i)
      | IndexAssignment _ name is e \<Rightarrow>
          visit_expr e ((case is of [] \<Rightarrow> id | x # _ \<Rightarrow> visit_expr x) (reads_name name (writes_name name i)))
      | ConstDeclaration _ name e \<Rightarrow> visit_expr e (writes_name name i)
      | TypedDeclaration _ name _ _ e _ \<Rightarrow> visit_expr e (writes_name name i)
      | PrintStmt _ e \<Rightarrow> visit_expr e i
      | PrintErrorStmt _ e \<Rightarrow> visit_expr e i
      | ReturnStmt _ e \<Rightarrow> (case e of None \<Rightarrow> i | Some e \<Rightarrow> visit_expr e i)
      | ExpressionStmt _ e \<Rightarrow> visit_expr e i
      | ThrowStmt _ e \<Rightarrow> visit_expr e i
      | _ \<Rightarrow> i)"

abbreviation visit_stmts :: "stmt list \<Rightarrow> insights \<Rightarrow> insights" where
  "visit_stmts ss i \<equiv> fold visit_stmt ss i"

definition visit_entry :: "object_entry \<Rightarrow> insights \<Rightarrow> insights" where
  "visit_entry e i = (case e of ObjectField _ _ x _ _ \<Rightarrow> visit_expr x i | BlockEntry s \<Rightarrow> visit_stmt s i)"

definition visit_block :: "stmt \<Rightarrow> insights \<Rightarrow> insights" where
  "visit_block s i =
     (case s of
        LogicDecl _ _ _ _ body _ _ \<Rightarrow> visit_stmts body i
      | IfStmt _ _ branches final _ \<Rightarrow>
          (case final of None \<Rightarrow> id | Some b \<Rightarrow> visit_stmts b)
            (fold (\<lambda>b j. case b of IfBranch c body _ \<Rightarrow> visit_stmts body (visit_expr c j)) branches i)
      | WhileStmt _ _ c body _ \<Rightarrow> visit_stmts body (visit_expr c i)
      | ForStmt _ _ _ e body _ \<Rightarrow> visit_stmts body (visit_expr e i)
      | ObjectBlock _ _ entries _ \<Rightarrow> fold visit_entry entries i
      | ListBlock _ _ es _ \<Rightarrow> visit_exprs es i
      | TryStmt _ _ body catches final _ \<Rightarrow>
          (case final of None \<Rightarrow> id | Some b \<Rightarrow> visit_stmts b)
            (fold (\<lambda>c j. case c of CatchBranch _ _ body \<Rightarrow> visit_stmts body j) catches (visit_stmts body i))
      | HttpRouteDecl _ _ _ _ body _ \<Rightarrow> visit_stmts body i
      | TransactionStmt _ c _ body _ \<Rightarrow> visit_stmts body (visit_expr c i)
      | _ \<Rightarrow> i)"

definition summarize_block :: "stmt \<Rightarrow> insights \<times> ustr list" where
  "summarize_block s =
     (visit_block s
       (let i = \<lparr>is_reads = [], is_writes = [], is_calls = []\<rparr> in
        case s of
          ForStmt _ _ variable _ _ _ \<Rightarrow> writes_name variable i
        | ObjectBlock _ name _ _ \<Rightarrow> writes_name name i
        | ListBlock _ name _ _ \<Rightarrow> writes_name name i
        | _ \<Rightarrow> i),
      case s of LogicDecl _ _ ps _ _ _ _ \<Rightarrow> ps | _ \<Rightarrow> [])"

text \<open>The other indexes are overlooked, with the names they read and the functions they call.\<close>

lemma second_index_overlooked:
  "is_reads (fst (summarize_block (LogicDecl p f [] [] [IndexAssignment p (U ''m'')
     [VariableExpr p (U ''i''), VariableExpr p (U ''j'')] (VariableExpr p (U ''v''))] p []))) = [U ''m'', U ''i'', U ''v'']"
  by (simp add: summarize_block_def visit_block_def visit_stmt_def reads_name_def writes_name_def add_name_def)

subsection \<open>Identities are unique\<close>

lemma number_blocks_above: "(s, n) \<in> set (number_blocks seen ss) \<Longrightarrow> count_list seen (block_key s) < n"
proof (induction ss arbitrary: seen)
  case (Cons t ss)
  then show ?case by (fastforce split: if_splits)
qed simp

lemma number_blocks_distinct: "distinct (map (\<lambda>(s, n). (block_key s, n)) (number_blocks seen ss))"
proof (induction ss arbitrary: seen)
  case (Cons t ss)
  have "n \<noteq> Suc (count_list seen (block_key t))"
    if "(s, n) \<in> set (number_blocks (block_key t # seen) ss)" "block_key s = block_key t" for s n
    using number_blocks_above [OF that(1)] that(2) by simp
  with Cons.IH show ?case by force
qed simp

lemma number_blocks_keys:
  "map block_key ss = map block_key ss' \<Longrightarrow> map snd (number_blocks seen ss) = map snd (number_blocks seen ss')"
proof (induction ss arbitrary: seen ss')
  case (Cons t ss)
  then obtain t' ts' where "ss' = t' # ts'" "block_key t' = block_key t" "map block_key ss = map block_key ts'"
    by (cases ss') auto
  with Cons.IH [of ts'] show ?case by simp
qed simp

lemma block_kind_plain: "58 \<notin> set (fst (block_key s)) \<and> 47 \<notin> set (fst (block_key s))"
  by (cases s) (simp_all add: block_key_def kind_and_label_def U.simps)

lemma show_nat_plain: "c \<in> set (show_nat n) \<Longrightarrow> 48 \<le> c \<and> c \<le> 57"
  using show_nat_digits [of n] by (auto simp: list_all_iff is_digit_def)

lemma takeWhile_stop: "x \<notin> set xs \<Longrightarrow> takeWhile (\<lambda>y. y \<noteq> x) (xs @ x # ys) = xs"
  by (induction xs) auto

lemma segment_eq: "segment s n = fst (block_key s) @ 58 # (snd (block_key s) @ 35 # show_nat n)"
  by (simp add: segment_def U.simps)

lemma segment_inject:
  assumes "segment s n = segment t m"
  shows "block_key s = block_key t \<and> n = m"
proof -
  have kind: "fst (block_key s) = fst (block_key t)"
    using arg_cong [OF assms, of "takeWhile (\<lambda>c. c \<noteq> 58)"] block_kind_plain [of s] block_kind_plain [of t]
    by (simp add: segment_eq takeWhile_stop)
  with assms have rest: "snd (block_key s) @ 35 # show_nat n = snd (block_key t) @ 35 # show_nat m"
    by (simp add: segment_eq)
  have digits: "35 \<notin> set (rev (show_nat k))" for k
    using show_nat_plain [of 35 k] by auto
  have "rev (show_nat n) = rev (show_nat m)"
    using arg_cong [OF rest, of "\<lambda>s. takeWhile (\<lambda>c. c \<noteq> 35) (rev s)"] takeWhile_stop [OF digits]
    by simp
  then have "n = m" by (metis digits_value_show_nat rev_rev_ident)
  with rest kind show ?thesis by (auto simp: prod_eq_iff)
qed

text \<open>Labels without a slash, as names are.\<close>

definition plain_labels :: "block_record list \<Rightarrow> bool" where
  "plain_labels bs \<longleftrightarrow> list_all (\<lambda>b. 47 \<notin> set (bl_label b)) bs"

lemma segment_plain: "47 \<notin> set (snd (block_key s)) \<Longrightarrow> 47 \<notin> set (segment s n)"
  using block_kind_plain [of s] show_nat_plain [of 47 n] by (auto simp: segment_eq)

text \<open>The identities of a block and of what is inside it begin with the block's.\<close>

lemma block_record_sel [simp]:
  "bl_id (block_record_of digest parent path s n) = parent @ 47 # segment s n"
  "bl_label (block_record_of digest parent path s n) = snd (block_key s)"
  "bl_own (block_record_of digest parent path s n) = digest (stmt_tree True s)"
  by (simp_all add: block_record_of_def U.simps)

abbreviation child_records :: "(tree \<Rightarrow> ustr) \<Rightarrow> ustr \<Rightarrow> ustr \<Rightarrow> stmt list \<Rightarrow> block_record list" where
  "child_records digest pid path ss \<equiv> concat (map (block_records digest pid path) (number_blocks [] ss))"

lemma block_records_unfold:
  "block_records digest parent path (s, n) =
   block_record_of digest parent path s n #
   child_records digest (parent @ 47 # segment s n) (bl_path (block_record_of digest parent path s n)) (children s)"
  by (subst block_records.simps) (simp add: Let_def)

lemma block_records_below:
  "b \<in> set (block_records digest parent path x) \<Longrightarrow>
   \<exists>r. bl_id b = parent @ 47 # segment (fst x) (snd x) @ r \<and> (r = [] \<or> (\<exists>t. r = 47 # t))"
proof (induction digest parent path x arbitrary: b rule: block_records.induct)
  case (1 digest parent path s n)
  let ?path = "bl_path (block_record_of digest parent path s n)" and ?id = "parent @ 47 # segment s n"
  from 1(2) have "b = block_record_of digest parent path s n \<or> b \<in> set (child_records digest ?id ?path (children s))"
    by (simp only: block_records_unfold [of digest parent path s n] list.set insert_iff)
  then show ?case
  proof
    assume "b \<in> set (child_records digest ?id ?path (children s))"
    then obtain x where x: "x \<in> set (number_blocks [] (children s))" "b \<in> set (block_records digest ?id ?path x)" by auto
    from 1(1) [OF refl x(1)] x(2) show ?thesis by (auto simp: block_record_of_def U.simps)
  qed simp
qed

lemma sibling_ids_differ:
  assumes "segment s n \<noteq> segment t m" and "47 \<notin> set (segment s n)" and "47 \<notin> set (segment t m)"
    and "b \<in> set (block_records digest parent path (s, n))" and "c \<in> set (block_records digest parent path (t, m))"
  shows "bl_id b \<noteq> bl_id c"
proof
  assume e: "bl_id b = bl_id c"
  have cut: "takeWhile (\<lambda>x. x \<noteq> 47) (g @ r) = g" if "47 \<notin> set g" "r = [] \<or> (\<exists>u. r = 47 # u)" for g r :: ustr
    using that takeWhile_stop [of 47 g] by (auto simp: takeWhile_eq_all_conv)
  obtain r where r: "bl_id b = parent @ 47 # segment s n @ r" "r = [] \<or> (\<exists>u. r = 47 # u)"
    using block_records_below [OF assms(4)] by auto
  obtain q where q: "bl_id c = parent @ 47 # segment t m @ q" "q = [] \<or> (\<exists>u. q = 47 # u)"
    using block_records_below [OF assms(5)] by auto
  from e r(1) q(1) have "segment s n @ r = segment t m @ q" by simp
  with cut [OF assms(2) r(2)] cut [OF assms(3) q(2)] assms(1) show False by simp
qed

lemma distinct_concat_map:
  assumes "\<And>x. x \<in> set xs \<Longrightarrow> distinct (map g (f x))" and "distinct xs"
    and "\<And>x y b c. x \<in> set xs \<Longrightarrow> y \<in> set xs \<Longrightarrow> x \<noteq> y \<Longrightarrow> b \<in> set (f x) \<Longrightarrow> c \<in> set (f y) \<Longrightarrow> g b \<noteq> g c"
  shows "distinct (map g (concat (map f xs)))"
  using assms
proof (induction xs)
  case (Cons x xs)
  have "g b \<noteq> g c" if "b \<in> set (f x)" "y \<in> set xs" "c \<in> set (f y)" for b c y
    using Cons.prems(3) [of x y b c] Cons.prems(2) that by auto
  moreover have "distinct (map g (concat (map f xs)))"
  proof (rule Cons.IH)
    show "g b \<noteq> g c" if "y \<in> set xs" "z \<in> set xs" "y \<noteq> z" "b \<in> set (f y)" "c \<in> set (f z)" for y z b c
      by (rule Cons.prems(3) [of y z]) (use that in auto)
  qed (use Cons.prems(1,2) in auto)
  ultimately show ?case using Cons.prems(1) [of x] by auto
qed simp

lemma child_records_distinct:
  assumes "\<And>x. x \<in> set (number_blocks [] ss) \<Longrightarrow> distinct (map bl_id (block_records digest parent path x))"
    and "plain_labels (child_records digest parent path ss)"
  shows "distinct (map bl_id (child_records digest parent path ss))"
proof (rule distinct_concat_map)
  have nb: "distinct (map (\<lambda>(s, n). (block_key s, n)) (number_blocks [] ss))" by (rule number_blocks_distinct)
  then show "distinct (number_blocks [] ss)" by (simp add: distinct_map)
  have plain: "47 \<notin> set (segment s n)" if "(s, n) \<in> set (number_blocks [] ss)" for s n
  proof (rule segment_plain)
    have "block_record_of digest parent path s n \<in> set (block_records digest parent path (s, n))"
      by (simp add: block_records_unfold [of digest parent path s n])
    with that have "block_record_of digest parent path s n \<in> set (child_records digest parent path ss)" by auto
    with assms(2) have "47 \<notin> set (bl_label (block_record_of digest parent path s n))"
      unfolding plain_labels_def list_all_iff by blast
    then show "47 \<notin> set (snd (block_key s))" by simp
  qed
  show "bl_id b \<noteq> bl_id c" if "x \<in> set (number_blocks [] ss)" "y \<in> set (number_blocks [] ss)" "x \<noteq> y"
    "b \<in> set (block_records digest parent path x)" "c \<in> set (block_records digest parent path y)" for x y b c
  proof -
    obtain s n t m where xy: "x = (s, n)" "y = (t, m)" by (cases x; cases y)
    have "inj_on (\<lambda>(s, n). (block_key s, n)) (set (number_blocks [] ss))"
      using nb by (simp add: distinct_map)
    with that(1-3) xy have "(block_key s, n) \<noteq> (block_key t, m)"
      by (metis (mono_tags, lifting) case_prod_conv inj_onD)
    then have "segment s n \<noteq> segment t m" using segment_inject by blast
    then show ?thesis
      by (rule sibling_ids_differ) (use that xy plain in simp_all)
  qed
qed (use assms in auto)

lemma block_records_distinct:
  "plain_labels (block_records digest parent path x) \<Longrightarrow> distinct (map bl_id (block_records digest parent path x))"
proof (induction digest parent path x rule: block_records.induct)
  case (1 digest parent path s n)
  let ?path = "bl_path (block_record_of digest parent path s n)" and ?id = "parent @ 47 # segment s n"
  have below: "plain_labels (child_records digest ?id ?path (children s))"
    using 1(2) by (simp add: block_records_unfold [of digest parent path s n] plain_labels_def)
  have "distinct (map bl_id (child_records digest ?id ?path (children s)))"
  proof (rule child_records_distinct [OF _ below])
    fix x
    assume x: "x \<in> set (number_blocks [] (children s))"
    with below have "plain_labels (block_records digest ?id ?path x)"
      by (auto simp: plain_labels_def list_all_iff)
    with 1(1) [OF refl x] show "distinct (map bl_id (block_records digest ?id ?path x))"
      by (simp add: block_record_of_def U.simps)
  qed
  moreover have "?id \<notin> set (map bl_id (child_records digest ?id ?path (children s)))"
    by (auto dest: block_records_below)
  ultimately show ?case
    by (simp only: block_records_unfold [of digest parent path s n] list.map distinct.simps block_record_sel simp_thms)
qed

lemma inspect_blocks:
  "sn_blocks (inspect digest name prog) =
   \<lparr>bl_id = U ''root'', bl_path = U ''root'', bl_kind = U ''program'', bl_label = U ''root'', bl_parent = None,
     bl_line = 1, bl_column = 1, bl_tags = [], bl_own = digest (program_shape False True (program_statements prog)),
     bl_tree = digest (program_shape False False (program_statements prog))\<rparr> #
   child_records digest (U ''root'') (U ''root'') (children_of (program_statements prog))"
  by (simp add: inspect_def Let_def)

lemma inspect_distinct:
  assumes "plain_labels (sn_blocks (inspect digest name prog))"
  shows "distinct (block_ids (inspect digest name prog))"
proof -
  let ?cs = "child_records digest (U ''root'') (U ''root'') (children_of (program_statements prog))"
  have plain: "plain_labels ?cs" using assms by (simp add: inspect_blocks plain_labels_def)
  have "distinct (map bl_id ?cs)"
  proof (rule child_records_distinct [OF _ plain])
    fix x
    assume "x \<in> set (number_blocks [] (children_of (program_statements prog)))"
    with plain show "distinct (map bl_id (block_records digest (U ''root'') (U ''root'') x))"
      by (intro block_records_distinct) (auto simp: plain_labels_def list_all_iff)
  qed
  moreover have "U ''root'' \<notin> set (map bl_id ?cs)"
    by (auto dest: block_records_below)
  ultimately show ?thesis
    by (simp only: block_ids_def inspect_blocks list.map distinct.simps block_record.select_convs simp_thms)
qed

subsection \<open>The own tree of a block shows the blocks inside\<close>

text \<open>The kinds and labels of the markers in a tree.\<close>

definition marker_key :: "(ustr \<times> tree) list \<Rightarrow> (ustr \<times> ustr) option" where
  "marker_key ms =
     (case ms of
        (a, t) # rest \<Rightarrow>
          if a \<noteq> U ''$block'' then None
          else (case (t, rest) of (T_str k, [(b, T_str l)]) \<Rightarrow> Some (k, l) | _ \<Rightarrow> None)
      | [] \<Rightarrow> None)"

fun markers :: "tree \<Rightarrow> (ustr \<times> ustr) list"
  and markers_of :: "tree list \<Rightarrow> (ustr \<times> ustr) list"
  and member_markers :: "(ustr \<times> tree) list \<Rightarrow> (ustr \<times> ustr) list" where
  "markers (T_dict ms) = (case marker_key ms of Some k \<Rightarrow> [k] | None \<Rightarrow> member_markers ms)"
| "markers (T_list ts) = markers_of ts"
| "markers t = []"
| "markers_of [] = []"
| "markers_of (t # ts) = markers t @ markers_of ts"
| "member_markers [] = []"
| "member_markers ((k, t) # ms) = markers t @ member_markers ms"

lemma marker_key_other [simp]: "a \<noteq> U ''$block'' \<Longrightarrow> marker_key ((a, t) # ms) = None"
  by (simp add: marker_key_def)

lemma marker_key_no_text: "\<forall>(k, t) \<in> set ms. \<forall>x. t \<noteq> T_str x \<Longrightarrow> marker_key ms = None"
  by (auto simp: marker_key_def split: list.split tree.split)

lemma markers_node [simp]:
  "ms = [] \<or> fst (hd ms) \<noteq> ''$block'' \<Longrightarrow>
   markers (node_tree name ms) = member_markers (map (\<lambda>(k, t). (U k, t)) ms)"
  by (cases ms) (auto simp: node_tree_def marker_key_def)

lemma markers_marker [simp]: "markers (marker s) = [block_key s]"
  by (simp add: marker_def marker_key_def)

lemma member_markers_empty: "(\<forall>(k, t) \<in> set ms. markers t = []) \<Longrightarrow> member_markers ms = []"
  by (induction ms) auto

lemma markers_of_empty: "(\<And>t. t \<in> set ts \<Longrightarrow> markers t = []) \<Longrightarrow> markers_of ts = []"
  by (induction ts) auto

lemma markers_literal [simp]: "markers (literal_tree l) = []"
  by (auto simp: literal_tree_def split: literal.splits token_literal.splits)

lemma markers_spec [simp]: "markers (spec_tree t) = []"
  by (induction t rule: spec_tree.induct) auto

text \<open>A dictionary whose values are no texts.\<close>

lemma markers_dict:
  assumes "\<forall>(k, t) \<in> set ms. markers t = [] \<and> (\<forall>x. t \<noteq> T_str x)"
  shows "markers (dict_tree ms) = []"
proof -
  have "member_markers (sort_key fst ms) = []"
    using assms by (intro member_markers_empty) auto
  moreover have "marker_key (sort_key fst ms) = None"
    using assms by (intro marker_key_no_text) auto
  ultimately show ?thesis by (simp add: dict_tree_def)
qed

lemma markers_parameters [simp]: "markers (parameter_tree types) = []"
  unfolding parameter_tree_def by (rule markers_dict) auto

lemma markers_position [simp]: "markers (position_tree p) = []"
  by (simp add: position_tree_def)

lemma expr_node_no_text [simp]: "expr_node h p name ms \<noteq> T_str x"
  by (simp add: expr_node_def node_tree_def)

lemma expr_shape_no_text [simp]: "expr_shape h d e \<noteq> T_str x"
  by (cases e) simp_all

lemma markers_expr:
  "markers (expr_shape h d e) = []"
  "\<forall>(k, t) \<in> set (named_shapes d ns). markers t = [] \<and> (\<forall>x. t \<noteq> T_str x)"
proof (induction h d e and d ns rule: expr_shape_named_shapes.induct)
qed (auto simp: expr_node_def intro!: markers_of_empty markers_dict)

lemma markers_stmt:
  "f = True \<Longrightarrow> d = False \<Longrightarrow> markers (stmt_shape d f s) = map block_key (children s)"
  "f = True \<Longrightarrow> d = False \<Longrightarrow> markers_of (stmt_shapes d f ss) = map block_key (children_of ss)"
  "f = True \<Longrightarrow> d = False \<Longrightarrow> markers_of (entry_shapes d f es) = map block_key (entry_children es)"
  "f = True \<Longrightarrow> d = False \<Longrightarrow> markers_of (catch_shapes d f cs) = map block_key (catch_children cs)"
  "f = True \<Longrightarrow> d = False \<Longrightarrow> markers_of (branch_shapes d f bs) = map block_key (branch_children bs)"
proof (induction d f s and d f ss and d f es and d f cs and d f bs
    rule: stmt_shape_stmt_shapes_entry_shapes_catch_shapes_branch_shapes.induct)
qed (auto simp: markers_expr opt_tree_def intro!: markers_of_empty split: option.split)

lemma own_tree_keys:
  "stmt_tree True s = stmt_tree True s' \<Longrightarrow> map block_key (children s) = map block_key (children s')"
  using markers_stmt(1) [of True False] by metis

lemma own_program_keys:
  assumes "program_shape False True ss = program_shape False True ss'"
  shows "map block_key (children_of ss) = map block_key (children_of ss')"
proof -
  have "stmt_shapes False True ss = stmt_shapes False True ss'"
    using assms by (simp add: program_shape_def node_tree_def)
  then show ?thesis using markers_stmt(2) [of True False] by metis
qed

subsection \<open>What the check of an edit guarantees\<close>

definition child_ids :: "ustr \<Rightarrow> stmt list \<Rightarrow> (ustr \<times> stmt) list" where
  "child_ids pid ss = map (\<lambda>(s, n). (pid @ U ''/'' @ segment s n, s)) (number_blocks [] ss)"

text \<open>
  Two blocks agree outside some identities: their own content is the same, and so are the identities of the
  blocks inside, pair by pair, and each pair agrees unless its identity is inside.
\<close>

inductive agree_outside :: "(ustr \<Rightarrow> bool) \<Rightarrow> ustr \<Rightarrow> stmt \<Rightarrow> stmt \<Rightarrow> bool" for inside where
  agree: "stmt_tree True s = stmt_tree True s' \<Longrightarrow>
    list_all2 (\<lambda>c c'. fst c = fst c' \<and> (inside (fst c) \<or> agree_outside inside (fst c) (snd c) (snd c')))
      (child_ids pid (children s)) (child_ids pid (children s')) \<Longrightarrow>
    agree_outside inside pid s s'"

definition programs_agree_outside :: "(ustr \<Rightarrow> bool) \<Rightarrow> program \<Rightarrow> program \<Rightarrow> bool" where
  "programs_agree_outside inside prog prog' \<longleftrightarrow>
     program_shape False True (program_statements prog) = program_shape False True (program_statements prog') \<and>
     list_all2 (\<lambda>c c'. fst c = fst c' \<and> (inside (fst c) \<or> agree_outside inside (fst c) (snd c) (snd c')))
       (child_ids (U ''root'') (children_of (program_statements prog)))
       (child_ids (U ''root'') (children_of (program_statements prog')))"

text \<open>The own trees of a program and of the blocks in it.\<close>

function own_trees :: "stmt \<Rightarrow> tree list" where
  "own_trees s = stmt_tree True s # concat (map own_trees (children s))"
  by pat_completeness auto
termination by (relation "measure size") (auto dest: children_smaller)

declare own_trees.simps [simp del]

definition program_own_trees :: "program \<Rightarrow> tree list" where
  "program_own_trees prog = program_shape False True (program_statements prog) #
     concat (map own_trees (children_of (program_statements prog)))"

lemma own_trees_head [simp]: "stmt_tree True s \<in> set (own_trees s)"
  by (subst own_trees.simps) simp

lemma own_trees_child: "c \<in> set (children s) \<Longrightarrow> set (own_trees c) \<subseteq> set (own_trees s)"
  by (subst (2) own_trees.simps) auto

text \<open>Children with the same keys have the same identities.\<close>

lemma child_pairs:
  assumes "map block_key ss = map block_key ss'"
  shows "length (number_blocks [] ss) = length (number_blocks [] ss')"
    and "i < length (number_blocks [] ss) \<Longrightarrow> number_blocks [] ss ! i = (s, n) \<Longrightarrow> number_blocks [] ss' ! i = (s', n') \<Longrightarrow>
      block_key s' = block_key s \<and> n' = n"
proof -
  have keys: "map (block_key \<circ> fst) (number_blocks seen xs) = map block_key xs" for seen xs
    by (metis map_map number_blocks_fst)
  have len: "length (number_blocks seen xs) = length xs" for seen xs
    by (metis length_map number_blocks_fst)
  from assms show l: "length (number_blocks [] ss) = length (number_blocks [] ss')"
    unfolding len by (rule map_eq_imp_length_eq)
  show "block_key s' = block_key s \<and> n' = n"
    if "i < length (number_blocks [] ss)" "number_blocks [] ss ! i = (s, n)" "number_blocks [] ss' ! i = (s', n')"
  proof -
    have "map (block_key \<circ> fst) (number_blocks [] ss) ! i = map (block_key \<circ> fst) (number_blocks [] ss') ! i"
      unfolding keys assms ..
    moreover have "map snd (number_blocks [] ss) ! i = map snd (number_blocks [] ss') ! i"
      unfolding number_blocks_keys [OF assms] ..
    ultimately show ?thesis using that l by simp
  qed
qed

lemma block_at_record:
  assumes "distinct (block_ids sn)" and "b \<in> set (sn_blocks sn)"
  shows "block_at sn (bl_id b) = Some b"
proof -
  have "distinct (map fst (rev (map (\<lambda>b. (bl_id b, b)) (sn_blocks sn))))"
    using assms(1) by (simp add: block_ids_def rev_map [symmetric] comp_def)
  moreover have "(bl_id b, b) \<in> set (rev (map (\<lambda>b. (bl_id b, b)) (sn_blocks sn)))" using assms(2) by auto
  ultimately show ?thesis unfolding block_at_def by (rule map_of_is_SomeI)
qed

text \<open>Nothing outside changed: both snapshots have the block, with the same fingerprint of its own content.\<close>

definition same_outside :: "(ustr \<Rightarrow> bool) \<Rightarrow> snapshot \<Rightarrow> snapshot \<Rightarrow> bool" where
  "same_outside inside before after \<longleftrightarrow> (\<forall>i. \<not> inside i \<longrightarrow> i \<in> set (block_ids before) \<union> set (block_ids after) \<longrightarrow>
     (\<exists>b c. block_at before i = Some b \<and> block_at after i = Some c \<and> bl_own b = bl_own c))"

lemma verified_same_outside:
  assumes "vf_outside (verify kept scopes before after) = []"
  shows "same_outside (inside_scopes scopes) before after"
  unfolding same_outside_def
proof (intro allI impI)
  fix i
  assume out: "\<not> inside_scopes scopes i" and i: "i \<in> set (block_ids before) \<union> set (block_ids after)"
  have "status_of (block_at before i) (block_at after i) = Unchanged"
    using assms out i by (auto simp: verify_def structural_diff_def all_changes_def Let_def filter_empty_conv)
  then show "\<exists>b c. block_at before i = Some b \<and> block_at after i = Some c \<and> bl_own b = bl_own c"
    by (auto simp: status_of_def split: option.splits if_splits)
qed

lemma own_content_same:
  assumes "same_outside inside before after" and "\<not> inside i"
    and "distinct (block_ids before)" and "distinct (block_ids after)"
    and "b \<in> set (sn_blocks before)" and "c \<in> set (sn_blocks after)" and "bl_id b = i" and "bl_id c = i"
  shows "bl_own b = bl_own c"
proof -
  have "i \<in> set (block_ids before)" using assms(5,7) by (auto simp: block_ids_def)
  with assms(1,2) obtain b' c' where "block_at before i = Some b'" "block_at after i = Some c'" "bl_own b' = bl_own c'"
    unfolding same_outside_def by blast
  with block_at_record [OF assms(3,5)] block_at_record [OF assms(4,6)] assms(7,8) show ?thesis by simp
qed

text \<open>Pairs of children agree if each pair does.\<close>

lemma children_agree:
  assumes keys: "map block_key ss = map block_key ss'"
    and pair: "\<And>s n s'. (s, n) \<in> set (number_blocks [] ss) \<Longrightarrow> (s', n) \<in> set (number_blocks [] ss') \<Longrightarrow>
      segment s' n = segment s n \<Longrightarrow> \<not> inside (pid @ 47 # segment s n) \<Longrightarrow>
      agree_outside inside (pid @ 47 # segment s n) s s'"
  shows "list_all2 (\<lambda>c c'. fst c = fst c' \<and> (inside (fst c) \<or> agree_outside inside (fst c) (snd c) (snd c')))
    (child_ids pid ss) (child_ids pid ss')"
  unfolding child_ids_def list_all2_map1 list_all2_map2
proof (rule list_all2_all_nthI)
  show "length (number_blocks [] ss) = length (number_blocks [] ss')" by (rule child_pairs(1) [OF keys])
  fix i
  assume i: "i < length (number_blocks [] ss)"
  obtain s n where s: "number_blocks [] ss ! i = (s, n)" by fastforce
  obtain s' n' where s': "number_blocks [] ss' ! i = (s', n')" by fastforce
  from child_pairs(2) [OF keys i s s'] have same: "block_key s' = block_key s" "n' = n" by auto
  then have seg: "segment s' n = segment s n" by (simp add: segment_def)
  have "(s, n) \<in> set (number_blocks [] ss)" "(s', n) \<in> set (number_blocks [] ss')"
    using i s s' same child_pairs(1) [OF keys] by (metis nth_mem)+
  with pair [of s n s'] seg same s s'
  show "fst (case number_blocks [] ss ! i of (s, n) \<Rightarrow> (pid @ U ''/'' @ segment s n, s)) =
      fst (case number_blocks [] ss' ! i of (s, n) \<Rightarrow> (pid @ U ''/'' @ segment s n, s)) \<and>
    (inside (fst (case number_blocks [] ss ! i of (s, n) \<Rightarrow> (pid @ U ''/'' @ segment s n, s))) \<or>
     agree_outside inside (fst (case number_blocks [] ss ! i of (s, n) \<Rightarrow> (pid @ U ''/'' @ segment s n, s)))
       (snd (case number_blocks [] ss ! i of (s, n) \<Rightarrow> (pid @ U ''/'' @ segment s n, s)))
       (snd (case number_blocks [] ss' ! i of (s, n) \<Rightarrow> (pid @ U ''/'' @ segment s n, s))))"
    by (cases "inside (pid @ 47 # segment s n)") (simp_all add: U.simps)
qed

lemma block_agrees:
  assumes same: "same_outside inside before after"
    and distinct: "distinct (block_ids before)" "distinct (block_ids after)"
  shows "inj_on digest T \<Longrightarrow> set (block_records digest parent path x) \<subseteq> set (sn_blocks before) \<Longrightarrow>
    set (block_records digest parent path' (s', snd x)) \<subseteq> set (sn_blocks after) \<Longrightarrow>
    segment s' (snd x) = segment (fst x) (snd x) \<Longrightarrow> \<not> inside (parent @ 47 # segment (fst x) (snd x)) \<Longrightarrow>
    set (own_trees (fst x)) \<subseteq> T \<Longrightarrow> set (own_trees s') \<subseteq> T \<Longrightarrow>
    agree_outside inside (parent @ 47 # segment (fst x) (snd x)) (fst x) s'"
proof (induction digest parent path x arbitrary: path' s' rule: block_records.induct)
  case (1 digest parent path s n)
  let ?id = "parent @ 47 # segment s n"
  let ?b = "block_record_of digest parent path s n" and ?c = "block_record_of digest parent path' s' n"
  from 1(5) have seg: "segment s' n = segment s n" by simp
  have before: "set (block_records digest ?id (bl_path ?b) y) \<subseteq> set (sn_blocks before)"
    if "y \<in> set (number_blocks [] (children s))" for y
    using 1(3) that unfolding block_records_unfold [of digest parent path s n] by fastforce
  have after: "set (block_records digest ?id (bl_path ?c) y) \<subseteq> set (sn_blocks after)"
    if "y \<in> set (number_blocks [] (children s'))" for y
    using 1(4) that seg unfolding snd_conv block_records_unfold [of digest parent path' s' n] by fastforce
  have b: "?b \<in> set (sn_blocks before)" and c: "?c \<in> set (sn_blocks after)"
    using 1(3,4) by (auto simp: block_records_unfold [of digest parent])
  have "bl_own ?b = bl_own ?c"
    by (rule own_content_same [OF same _ distinct b c, of ?id]) (use 1(6) seg in simp_all)
  then have "digest (stmt_tree True s) = digest (stmt_tree True s')" by simp
  moreover have "stmt_tree True s \<in> T" "stmt_tree True s' \<in> T" using 1(7,8) own_trees_head by auto
  ultimately have own: "stmt_tree True s = stmt_tree True s'"
    by (rule inj_onD [OF 1(2)])
  show ?case
    unfolding fst_conv snd_conv
  proof (rule agree_outside.agree [OF own], rule children_agree [OF own_tree_keys [OF own]])
    fix c m c'
    assume c: "(c, m) \<in> set (number_blocks [] (children s))" and c': "(c', m) \<in> set (number_blocks [] (children s'))"
      and out: "segment c' m = segment c m" "\<not> inside (?id @ 47 # segment c m)"
    have "set (own_trees c) \<subseteq> T" "set (own_trees c') \<subseteq> T"
      using own_trees_child [OF number_blocks_mem [OF c]] own_trees_child [OF number_blocks_mem [OF c']] 1(7,8) by auto
    with 1(1) [OF refl c 1(2), of "bl_path ?c" c'] before [OF c] after [OF c'] out
    show "agree_outside inside (?id @ 47 # segment c m) c c'" by simp
  qed
qed

lemma resolved_scopes:
  assumes "resolve_scopes sn requested = Inr bs" and "b \<in> set bs"
  shows "b \<in> set (sn_blocks sn) \<and> bl_id b \<noteq> U ''root''"
proof -
  have one: "b \<in> set (sn_blocks sn) \<and> bl_id b \<noteq> U ''root''" if "resolve_scope sn q = Inr b" for q b
  proof -
    have "b \<in> set (scope_matches sn q)" using that by (auto simp: resolve_scope_def split: list.splits)
    then show ?thesis by (auto simp: scope_matches_def Let_def split: if_splits)
  qed
  have "map_result (resolve_scope sn) qs = Inr cs \<Longrightarrow> c \<in> set cs \<Longrightarrow> c \<in> set (sn_blocks sn) \<and> bl_id c \<noteq> U ''root''" for qs cs c
    by (induction qs arbitrary: cs) (auto dest: one)
  then show ?thesis using assms by (auto simp: resolve_scopes_def split: if_splits)
qed

lemma root_outside:
  assumes "\<forall>b \<in> set scopes. b \<in> set (sn_blocks (inspect digest name prog)) \<and> bl_id b \<noteq> U ''root''"
  shows "\<not> inside_scopes scopes (U ''root'')"
proof -
  have len: "length (bl_id b) > 4" if b: "b \<in> set scopes" for b
  proof -
    from assms b obtain x where "b \<in> set (block_records digest (U ''root'') (U ''root'') x)"
      unfolding inspect_blocks by auto
    then show ?thesis by (auto dest!: block_records_below)
  qed
  have "length (U ''root'') < length (bl_id b)" if "b \<in> set scopes" for b
    using len [OF that] by simp
  moreover have "length (bl_id b) \<le> length (U ''root'')"
    if "U ''root'' = bl_id b \<or> starts_with (U ''root'') (bl_id b @ U ''/'')" for b
  proof -
    from that consider "U ''root'' = bl_id b" | r where "U ''root'' = bl_id b @ U ''/'' @ r"
      by (auto simp: starts_with_iff)
    then show ?thesis by cases (metis order_refl, metis le_add1 length_append)
  qed
  ultimately show ?thesis by (fastforce simp: inside_scopes_def list_ex_iff)
qed

text \<open>
  C4. The check of an edit is sound. If \<open>verify_scopes\<close> passes, the two programs have the same statements and
  the same named blocks in the same places everywhere but inside the allowed scopes, and the scopes themselves
  are still there: no statement outside can have been added, removed, changed or moved. This supposes that the
  digest does not take two different trees of these programs to one fingerprint, and that no label has a slash,
  which the lexer rules out.
\<close>

theorem verified_edits_stay_inside:
  assumes "verify_scopes (inspect digest name prog) (inspect digest name' prog') requested = Inr v" and "passed v"
    and "plain_labels (sn_blocks (inspect digest name prog))" and "plain_labels (sn_blocks (inspect digest name' prog'))"
    and "inj_on digest (set (program_own_trees prog @ program_own_trees prog'))"
  shows "programs_agree_outside (inside_scopes (vf_scopes v)) prog prog' \<and>
    (\<forall>b \<in> set (vf_scopes v). bl_id b \<in> set (block_ids (inspect digest name' prog')))"
proof -
  let ?before = "inspect digest name prog" and ?after = "inspect digest name' prog'"
  let ?ss = "program_statements prog" and ?ss' = "program_statements prog'"
  let ?T = "set (program_own_trees prog @ program_own_trees prog')"
  from assms(1) obtain scopes where scopes: "resolve_scopes ?before requested = Inr scopes"
    and v: "v = verify (\<lambda>b. bl_id b \<in> set (block_ids ?after)) scopes ?before ?after"
    by (auto simp: verify_scopes_def)
  have vs: "vf_scopes v = scopes" by (simp add: v verify_def Let_def)
  have "vf_outside (verify (\<lambda>b. bl_id b \<in> set (block_ids ?after)) scopes ?before ?after) = []"
    using assms(2) by (simp add: passed_def v)
  then have same: "same_outside (inside_scopes scopes) ?before ?after" by (rule verified_same_outside)
  note distinct = inspect_distinct [OF assms(3)] inspect_distinct [OF assms(4)]
  have root: "\<not> inside_scopes scopes (U ''root'')"
    by (rule root_outside) (use resolved_scopes [OF scopes] in blast)
  have "digest (program_shape False True ?ss) = digest (program_shape False True ?ss')"
    using own_content_same [OF same root distinct, of "hd (sn_blocks ?before)" "hd (sn_blocks ?after)"]
    by (simp add: inspect_blocks)
  then have own: "program_shape False True ?ss = program_shape False True ?ss'"
    using assms(5) by (auto simp: program_own_trees_def dest: inj_onD)
  have "list_all2 (\<lambda>c c'. fst c = fst c' \<and> (inside_scopes scopes (fst c) \<or>
        agree_outside (inside_scopes scopes) (fst c) (snd c) (snd c')))
      (child_ids (U ''root'') (children_of ?ss)) (child_ids (U ''root'') (children_of ?ss'))"
  proof (rule children_agree [OF own_program_keys [OF own]])
    fix s n s'
    assume s: "(s, n) \<in> set (number_blocks [] (children_of ?ss))" "(s', n) \<in> set (number_blocks [] (children_of ?ss'))"
      and out: "segment s' n = segment s n" "\<not> inside_scopes scopes (U ''root'' @ 47 # segment s n)"
    have "set (block_records digest (U ''root'') (U ''root'') (s, n)) \<subseteq> set (sn_blocks ?before)"
      "set (block_records digest (U ''root'') (U ''root'') (s', n)) \<subseteq> set (sn_blocks ?after)"
      using s unfolding inspect_blocks by fastforce+
    moreover have "set (own_trees s) \<subseteq> ?T" "set (own_trees s') \<subseteq> ?T"
      using s by (auto simp: program_own_trees_def dest: number_blocks_mem)
    ultimately show "agree_outside (inside_scopes scopes) (U ''root'' @ 47 # segment s n) s s'"
      using block_agrees [OF same distinct assms(5), where parent = "U ''root''" and path = "U ''root''" and x = "(s, n)" and path' = "U ''root''" and s' = s'] out by simp
  qed
  with own show ?thesis
    using assms(2) by (auto simp: programs_agree_outside_def vs passed_def v verify_def Let_def filter_empty_conv)
qed

abbreviation "at_line n \<equiv> mk_pos [] n 1 []"

definition example_before :: stmt where
  "example_before = LogicDecl (at_line 1) (U ''f'') [] [] [PrintStmt (at_line 2) (LiteralExpr (at_line 2) (L_Token (IntLit 1)))]
     (at_line 1) []"

definition example_after :: stmt where
  "example_after = LogicDecl (at_line 1) (U ''f'') [] [] [PrintStmt (at_line 2) (LiteralExpr (at_line 2) (L_Token (IntLit 2)))]
     (at_line 1) []"

definition single :: "stmt \<Rightarrow> program" where
  "single s = \<lparr>program_position = at_line 1, program_statements = [s]\<rparr>"

definition example_digest :: "tree \<Rightarrow> ustr" where
  "example_digest t = (if t = stmt_tree True example_before then [1] else if t = stmt_tree True example_after then [2] else [3])"

lemma example_trees:
  "stmt_tree True example_before \<noteq> stmt_tree True example_after"
  "program_shape False True [s] \<noteq> stmt_tree True example_before"
  "program_shape False True [s] \<noteq> stmt_tree True example_after"
  by (simp_all add: example_before_def example_after_def program_shape_def node_tree_def expr_node_def
      is_named_def kind_and_label_def literal_tree_def)

lemma example_parts [simp]:
  "children example_before = []" "children example_after = []" "is_named example_before" "is_named example_after"
  "block_key example_before = (U ''SEP'', U ''f'')" "block_key example_after = (U ''SEP'', U ''f'')"
  "stmt_position example_before = at_line 1" "stmt_position example_after = at_line 1"
  by (simp_all add: example_before_def example_after_def is_named_def block_key_def kind_and_label_def)

lemma example_root: "program_shape False True [example_before] = program_shape False True [example_after]"
  by (simp add: program_shape_def marker_def)

lemma example_blocks:
  assumes "s = example_before \<or> s = example_after"
  shows "\<exists>root b. sn_blocks (inspect example_digest [] (single s)) = [root, b] \<and> bl_id root = U ''root'' \<and>
    bl_own root = [3] \<and> bl_label root = U ''root'' \<and>
    bl_id b = U ''root/SEP:f#1'' \<and> bl_label b = U ''f'' \<and> bl_own b = (if s = example_before then [1] else [2]) \<and>
    bl_path b = U ''SEP:f#1''"
proof -
  have "segment s 1 = U ''SEP:f#1''"
    using assms by (auto simp: segment_def U.simps show_nat.simps)
  moreover have "children s = []" "is_named s" "block_key s = (U ''SEP'', U ''f'')" using assms by auto
  ultimately show ?thesis
    using assms example_trees
    by (auto simp: inspect_blocks single_def block_records_unfold block_record_of_def example_digest_def U.simps)
qed

lemma verified_edits_stay_inside_witness:
  "programs_agree_outside (\<lambda>i. i = U ''root/SEP:f#1'' \<or> starts_with i (U ''root/SEP:f#1/''))
     (single example_before) (single example_after)"
proof -
  let ?b = "inspect example_digest [] (single example_before)" and ?a = "inspect example_digest [] (single example_after)"
  obtain root b where b: "sn_blocks ?b = [root, b]" "bl_id root = U ''root''" "bl_own root = [3]" "bl_label root = U ''root''"
    "bl_id b = U ''root/SEP:f#1''" "bl_label b = U ''f''" "bl_own b = [1]" "bl_path b = U ''SEP:f#1''"
    using example_blocks [of example_before] by auto
  obtain root' c where c: "sn_blocks ?a = [root', c]" "bl_id root' = U ''root''" "bl_own root' = [3]" "bl_label root' = U ''root''"
    "bl_id c = U ''root/SEP:f#1''" "bl_label c = U ''f''" "bl_own c = [2]" "bl_path c = U ''SEP:f#1''"
    using example_blocks [of example_after] example_trees(1) by (cases "example_after = example_before") auto
  have plain: "47 \<notin> set (U ''f'')" "47 \<notin> set (U ''root'')" by (simp_all add: U.simps)
  have matches: "scope_matches ?b (U ''SEP:f#1'') = [b]"
  proof -
    have "rstrip (lstrip (U ''SEP:f#1'')) = U ''SEP:f#1''" "\<not> starts_with (U ''SEP:f#1'') (U '':'')" by code_simp+
    then show ?thesis by (simp add: scope_matches_def Let_def b)
  qed
  then have "verify_scopes ?b ?a [U ''SEP:f#1''] = Inr (verify (\<lambda>b. bl_id b \<in> set (block_ids ?a)) [b] ?b ?a)" (is "_ = Inr ?v")
    by (simp add: verify_scopes_def resolve_scopes_def resolve_scope_def)
  moreover have "passed ?v"
    by (auto simp: passed_def verify_def structural_diff_def all_changes_def Let_def filter_empty_conv block_ids_def b c
        inside_scopes_def block_at_def status_of_def)
  moreover have "plain_labels (sn_blocks ?b)" "plain_labels (sn_blocks ?a)"
    using plain by (simp_all add: plain_labels_def b c)
  moreover have "inj_on example_digest (set (program_own_trees (single example_before) @ program_own_trees (single example_after)))"
    using example_trees by (auto simp: program_own_trees_def single_def own_trees.simps example_root inj_on_def example_digest_def)
  ultimately have "programs_agree_outside (inside_scopes (vf_scopes ?v)) (single example_before) (single example_after)"
    using verified_edits_stay_inside by blast
  moreover have "inside_scopes (vf_scopes ?v) = (\<lambda>i. i = U ''root/SEP:f#1'' \<or> starts_with i (U ''root/SEP:f#1/''))"
    by (simp add: fun_eq_iff verify_def Let_def inside_scopes_def b U.simps)
  ultimately show ?thesis by simp
qed

text \<open>
  The structural comparison of \<open>ast_nodes.py\<close> says too much and too little. It takes \<open>true\<close>, \<open>1\<close> and
  \<open>1.0\<close> for the same literal, since Python compares them by value, so a program that prints \<open>true\<close> is
  structurally equal to one that prints \<open>1\<close>. And it compares the positions of named arguments, so a call is
  not structurally equal to itself on another line.
\<close>

theorem structural_comparison_flaws:
  "ast_structural_equal [PrintStmt p (LiteralExpr p (L_Token (BoolLit True)))]
     [PrintStmt p (LiteralExpr p (L_Token (IntLit 1)))] \<and>
   \<not> ast_structural_equal [ExpressionStmt (at_line 1) (CallExpr (at_line 1) f [] [(a, LiteralExpr (at_line 1) L_EMPTY)])]
     [ExpressionStmt (at_line 2) (CallExpr (at_line 2) f [] [(a, LiteralExpr (at_line 2) L_EMPTY)])]"
  by (simp add: ast_structural_equal_def program_shape_def node_tree_def expr_node_def literal_tree_def leaf_value_def
      dict_tree_def position_tree_def is_named_def kind_and_label_def mk_pos_def scalar_eq_def num_eq_def)

end
