(* ===== verification/Boards.thy ===== *)
theory Boards
  imports Numbers
begin

section \<open>Boards and pins\<close>

text \<open>
  \<open>embedded.py\<close>: the board profiles, the logical pins with their capabilities and routes, the
  context that holds the selected board, and the builtins for pins and buses, up to the adapter
  behind which the hardware is. The values of this module are handles for the rest of the model; here
  they carry what the source's dataclasses carry. The adapter and the capabilities of the host are
  parameters. Validation of programs for a board is in \<open>Board_Check\<close>.
\<close>

subsection \<open>Profiles\<close>

datatype physical_pin = Pin_number nat | Pin_text ustr

record pin_def =
  pd_name :: ustr
  pd_physical :: physical_pin
  pd_backend :: ustr
  pd_voltage :: b64
  pd_caps :: "ustr list"
  pd_routes :: "(ustr \<times> int) list"

record board_profile =
  bp_id :: ustr
  bp_name :: ustr
  bp_family :: ustr
  bp_mcu :: ustr
  bp_voltage :: b64
  bp_flash :: int
  bp_ram :: int
  bp_features :: "ustr list"
  bp_pins :: "(ustr \<times> pin_def) list"
  bp_aliases :: "(ustr \<times> ustr) list"
  bp_buses :: "((ustr \<times> int) \<times> (ustr \<times> ustr) list) list"

definition DIGITAL :: "ustr list" where "DIGITAL = [U ''digital_input'', U ''digital_output'']"

text \<open>\<open>dict.fromkeys\<close>: every element once, where it is met first.\<close>

definition from_keys :: "'a list \<Rightarrow> 'a list" where
  "from_keys xs = rev (remdups (rev xs))"

definition mk_pin :: "ustr \<Rightarrow> physical_pin \<Rightarrow> ustr \<Rightarrow> b64 \<Rightarrow> ustr list \<Rightarrow> (ustr \<times> int) list \<Rightarrow> pin_def" where
  "mk_pin name physical backend voltage caps routes =
     \<lparr>pd_name = name, pd_physical = physical, pd_backend = backend, pd_voltage = voltage,
      pd_caps = from_keys caps, pd_routes = routes\<rparr>"

definition PICO_PHYSICAL :: "(nat \<times> nat) list" where
  "PICO_PHYSICAL = [(0, 1), (1, 2), (2, 4), (3, 5), (4, 6), (5, 7), (6, 9), (7, 10), (8, 11), (9, 12),
     (10, 14), (11, 15), (12, 16), (13, 17), (14, 19), (15, 20), (16, 21), (17, 22),
     (18, 24), (19, 25), (20, 26), (21, 27), (22, 29), (26, 31), (27, 32), (28, 34)]"

definition PICO_ROLES :: "(ustr \<times> nat list \<times> int) list" where
  "PICO_ROLES =
     [(U ''i2c_sda'', [0, 4, 8, 12, 16, 20], 0), (U ''i2c_scl'', [1, 5, 9, 13, 17, 21], 0),
      (U ''i2c_sda'', [2, 6, 10, 14, 18, 26], 1), (U ''i2c_scl'', [3, 7, 11, 15, 19, 27], 1),
      (U ''spi_miso'', [0, 4, 16, 20], 0), (U ''spi_chip_select'', [1, 5, 17, 21], 0),
      (U ''spi_clock'', [2, 6, 18, 22], 0), (U ''spi_mosi'', [3, 7, 19], 0),
      (U ''spi_miso'', [8, 12, 28], 1), (U ''spi_chip_select'', [9, 13], 1),
      (U ''spi_clock'', [10, 14, 26], 1), (U ''spi_mosi'', [11, 15, 27], 1),
      (U ''uart_tx'', [0, 12, 16, 28], 0), (U ''uart_rx'', [1, 13, 17], 0),
      (U ''uart_tx'', [4, 8, 20], 1), (U ''uart_rx'', [5, 9, 21], 1)]"

definition numbered :: "string \<Rightarrow> nat \<Rightarrow> ustr" where "numbered letters n = U letters @ show_nat n"

definition pico_pin :: "nat \<times> nat \<Rightarrow> ustr \<times> pin_def" where
  "pico_pin = (\<lambda>(number, physical).
     let roles = filter (\<lambda>(capability, values, instance'). number \<in> set values) PICO_ROLES
     in (numbered ''GP'' number,
         mk_pin (numbered ''GP'' number) (Pin_number physical) (numbered ''GPIO'' number) (of_decimal64 33 1)
           (DIGITAL @ [U ''pwm''] @ map fst roles @ (if number \<in> {26, 27, 28} then [U ''analog_input''] else []))
           (map (\<lambda>(capability, values, instance'). (capability, instance')) roles)))"

definition with_aliases :: "(ustr \<times> ustr) list \<Rightarrow> (ustr \<times> ustr) list \<Rightarrow> (ustr \<times> ustr) list" where
  "with_aliases d extra = foldl (\<lambda>d (k, v). dict_set d k v) d extra"

definition pico_profile :: "string \<Rightarrow> string \<Rightarrow> string \<Rightarrow> int \<Rightarrow> int \<Rightarrow> bool \<Rightarrow> board_profile" where
  "pico_profile ident name mcu flash ram wireless =
     (let pins = map pico_pin PICO_PHYSICAL @
        [(U ''LED_BUILTIN'', mk_pin (U ''LED_BUILTIN'') (Pin_text (U ''on-board''))
           (U (if wireless then ''CYW43_WL_GPIO0'' else ''GPIO25'')) (of_decimal64 33 1) DIGITAL [])]
      in \<lparr>bp_id = U ident, bp_name = U name, bp_family = U ''raspberry_pi_pico'', bp_mcu = U mcu,
          bp_voltage = of_decimal64 33 1, bp_flash = flash, bp_ram = ram,
          bp_features = map U ([''usb'', ''adc'', ''pwm'', ''i2c'', ''spi'', ''uart''] @
            (if wireless then [''wifi'', ''bluetooth''] else [])),
          bp_pins = pins,
          bp_aliases = with_aliases (with_aliases (map (\<lambda>(n, d). (n, n)) pins)
              (map (\<lambda>n. (numbered ''D'' n, numbered ''GP'' n)) [0..<23]))
            (map (\<lambda>(a, n). (U a, U n)) [(''A0'', ''GP26''), (''A1'', ''GP27''), (''A2'', ''GP28''), (''SDA'', ''GP4''),
              (''SCL'', ''GP5''), (''TX'', ''GP0''), (''RX'', ''GP1''), (''MISO'', ''GP16''), (''CS'', ''GP17''),
              (''SCK'', ''GP18''), (''MOSI'', ''GP19'')]),
          bp_buses =
            [((U ''i2c'', 0), [(U ''sda'', U ''GP4''), (U ''scl'', U ''GP5'')]),
             ((U ''spi'', 0), [(U ''miso'', U ''GP16''), (U ''chip_select'', U ''GP17''), (U ''clock'', U ''GP18''), (U ''mosi'', U ''GP19'')]),
             ((U ''uart'', 0), [(U ''tx'', U ''GP0''), (U ''rx'', U ''GP1'')])]\<rparr>)"

definition NANO_PHYSICAL :: "(nat \<times> nat) list" where
  "NANO_PHYSICAL = [(0, 2), (1, 1), (2, 5), (3, 6), (4, 7), (5, 8), (6, 9), (7, 10),
     (8, 11), (9, 12), (10, 13), (11, 14), (12, 15), (13, 16)]"

definition NANO_ROLES :: "(ustr \<times> nat) list" where
  "NANO_ROLES = [(U ''uart_rx'', 0), (U ''uart_tx'', 1), (U ''spi_chip_select'', 10), (U ''spi_mosi'', 11),
     (U ''spi_miso'', 12), (U ''spi_clock'', 13)]"

definition nano_digital :: "bool \<Rightarrow> nat \<times> nat \<Rightarrow> ustr \<times> pin_def" where
  "nano_digital every = (\<lambda>(number, physical).
     let roles = map fst (filter (\<lambda>(capability, member). number = member) NANO_ROLES)
     in (numbered ''D'' number,
         mk_pin (numbered ''D'' number) (Pin_number physical) (numbered ''D'' number) (of_decimal64 50 1)
           (DIGITAL @ (if number \<in> set ([3, 5, 6, 9, 10] @ (if every then [] else [11])) then [U ''pwm''] else []) @ roles)
           (map (\<lambda>capability. (capability, 0)) roles)))"

definition nano_analog :: "bool \<Rightarrow> nat \<Rightarrow> ustr \<times> pin_def" where
  "nano_analog every number =
     (let roles = (if number = 4 then [U ''i2c_sda''] else []) @ (if number = 5 then [U ''i2c_scl''] else [])
      in (numbered ''A'' number,
          mk_pin (numbered ''A'' number) (Pin_number (19 + number)) (numbered ''A'' number) (of_decimal64 50 1)
            ([U ''analog_input''] @ (if every \<or> number \<le> 5 then DIGITAL else []) @ roles)
            (map (\<lambda>capability. (capability, 0)) roles)))"

definition nano_profile :: "string \<Rightarrow> string \<Rightarrow> string \<Rightarrow> int \<Rightarrow> int \<Rightarrow> bool \<Rightarrow> board_profile" where
  "nano_profile ident name mcu flash ram every =
     (let pins = map (nano_digital every) NANO_PHYSICAL @ map (nano_analog every) [0..<8]
      in \<lparr>bp_id = U ident, bp_name = U name, bp_family = U ''arduino_nano'', bp_mcu = U mcu,
          bp_voltage = of_decimal64 50 1, bp_flash = flash, bp_ram = ram,
          bp_features = map U [''usb'', ''adc'', ''pwm'', ''i2c'', ''spi'', ''uart''],
          bp_pins = pins,
          bp_aliases = with_aliases (map (\<lambda>(n, d). (n, n)) pins)
            (map (\<lambda>(a, n). (U a, U n)) [(''SDA'', ''A4''), (''SCL'', ''A5''), (''RX'', ''D0''), (''TX'', ''D1''), (''CS'', ''D10''),
              (''MOSI'', ''D11''), (''MISO'', ''D12''), (''SCK'', ''D13''), (''LED_BUILTIN'', ''D13'')]),
          bp_buses =
            [((U ''i2c'', 0), [(U ''sda'', U ''A4''), (U ''scl'', U ''A5'')]),
             ((U ''spi'', 0), [(U ''chip_select'', U ''D10''), (U ''mosi'', U ''D11''), (U ''miso'', U ''D12''), (U ''clock'', U ''D13'')]),
             ((U ''uart'', 0), [(U ''rx'', U ''D0''), (U ''tx'', U ''D1'')])]\<rparr>)"

definition BOARD_PROFILES :: "board_profile list" where
  "BOARD_PROFILES =
     [pico_profile ''raspberry_pi_pico'' ''Raspberry Pi Pico'' ''RP2040'' (2 * 1024\<^sup>2) (264 * 1024) False,
      pico_profile ''raspberry_pi_pico_w'' ''Raspberry Pi Pico W'' ''RP2040'' (2 * 1024\<^sup>2) (264 * 1024) True,
      pico_profile ''raspberry_pi_pico_2'' ''Raspberry Pi Pico 2'' ''RP2350'' (4 * 1024\<^sup>2) (520 * 1024) False,
      pico_profile ''raspberry_pi_pico_2_w'' ''Raspberry Pi Pico 2 W'' ''RP2350'' (4 * 1024\<^sup>2) (520 * 1024) True,
      nano_profile ''arduino_nano'' ''Arduino Nano'' ''ATmega328P'' (32 * 1024) (2 * 1024) False,
      nano_profile ''arduino_nano_every'' ''Arduino Nano Every'' ''ATmega4809'' (48 * 1024) (6 * 1024) True]"

definition profile_named :: "ustr \<Rightarrow> board_profile option" where
  "profile_named ident = find (\<lambda>b. bp_id b = ident) BOARD_PROFILES"

text \<open>A pin value is a pin of the board with an id.\<close>

type_synonym pin_value = "ustr \<times> pin_def"

definition profile_pin :: "board_profile \<Rightarrow> ustr \<Rightarrow> source_position \<Rightarrow> pin_value result" where
  "profile_pin board name p =
     (case map_of (bp_pins board) (case map_of (bp_aliases board) name of Some n \<Rightarrow> n | None \<Rightarrow> name) of
        None \<Rightarrow> Inl (mk_error 961 ''Unknown board pin'' p)
      | Some d \<Rightarrow> Inr (bp_id board, d))"

subsection \<open>The context and the adapter\<close>

record bus_value =
  bv_board :: ustr
  bv_kind :: ustr
  bv_index :: int
  bv_pins :: "pin_value list"

datatype board_value =
    Plain sep_value | Board board_profile | Pin pin_value | Bus bus_value | Pin_list "pin_value list"

datatype operation =
    Gpio_set_mode pin_value ustr | Gpio_write pin_value bool | Gpio_read pin_value
  | Analog_read pin_value | Analog_write pin_value sep_value | Pwm_write pin_value sep_value
  | Bus_open bus_value | Delay_milliseconds int | I2c_probe bus_value int
  | Uart_write bus_value ustr | Uart_read_line bus_value

text \<open>An adapter fails with an error of the language, which goes through, or with another exception.\<close>

datatype adapter_failure = Coded sep_error | Uncoded

type_synonym 'h adapter = "operation \<Rightarrow> 'h \<Rightarrow> (adapter_failure + board_value) \<times> 'h"

record 'h board_host =
  bh_io :: bool
  bh_boards :: "ustr list option"
  bh_adapter :: "'h adapter option"

record 'h board_context =
  bc_profile :: "board_profile option"
  bc_locked :: bool
  bc_hardware :: 'h

type_synonym ('h, 'a) board_comp = "('h board_context, sep_error, 'a) sem"

definition select_board :: "ustr \<Rightarrow> source_position \<Rightarrow> ('h, board_value) board_comp" where
  "select_board ident p =
     (case profile_named ident of
        None \<Rightarrow> raise (mk_error 960 ''Unknown board profile'' p)
      | Some board \<Rightarrow>
          andthen (reads (\<lambda>c. bc_locked c \<and> (case bc_profile c of None \<Rightarrow> False | Some b \<Rightarrow> bp_id b \<noteq> ident)))
            (\<lambda>mismatch.
          if mismatch then raise (mk_error 960 ''Board target mismatch'' p)
          else andthen (modifies (\<lambda>c. c\<lparr>bc_profile := Some board\<rparr>)) (\<lambda>_. ret (Board board))))"

text \<open>The constructor, with the position that stands for no position.\<close>

definition new_context :: "ustr option \<Rightarrow> bool \<Rightarrow> 'h \<Rightarrow> 'h board_context result" where
  "new_context ident locked h =
     (let c = \<lparr>bc_profile = None, bc_locked = locked, bc_hardware = h\<rparr>
      in case ident of None \<Rightarrow> Inr c
         | Some i \<Rightarrow> (case select_board i (mk_pos (U ''<board>'') 1 1 []) c of
               (Raised e, c') \<Rightarrow> Inl e | (_, c') \<Rightarrow> Inr c'))"

definition require_profile :: "source_position \<Rightarrow> ('h, board_profile) board_comp" where
  "require_profile p =
     andthen (reads bc_profile) (\<lambda>b.
     case b of None \<Rightarrow> raise (mk_error 960 ''Board is not selected'' p) | Some board \<Rightarrow> ret board)"

definition resolve_pin :: "board_value \<Rightarrow> source_position \<Rightarrow> ('h, pin_value) board_comp" where
  "resolve_pin v p =
     andthen (require_profile p) (\<lambda>board.
     case v of
       Pin (ident, d) \<Rightarrow>
         if ident \<noteq> bp_id board then raise (mk_error 961 ''Pin belongs to another board'' p) else ret (ident, d)
     | Plain (VStr name) \<Rightarrow> lift_sum (profile_pin board name p)
     | _ \<Rightarrow> raise (type_error p))"

definition backend_error :: "source_position \<Rightarrow> sep_error" where
  "backend_error p = mk_error 964 ''Embedded backend error'' p"

definition adapt :: "'h adapter \<Rightarrow> operation \<Rightarrow> source_position \<Rightarrow> ('h, board_value) board_comp" where
  "adapt adapter op p c =
     (case adapter op (bc_hardware c) of (r, h) \<Rightarrow>
        ((case r of Inr v \<Rightarrow> Done v | Inl (Coded e) \<Rightarrow> Raised e | Inl Uncoded \<Rightarrow> Raised (backend_error p)),
         c\<lparr>bc_hardware := h\<rparr>))"

definition perform_op :: "'h board_host \<Rightarrow> operation \<Rightarrow> source_position \<Rightarrow> ('h, board_value) board_comp" where
  "perform_op host op p =
     andthen (lift_sum (check (bh_io host) (mk_error 720 ''Permission error'' p))) (\<lambda>_.
     andthen (require_profile p) (\<lambda>board.
     if (case bh_boards host of None \<Rightarrow> False | Some allowed \<Rightarrow> bp_id board \<notin> set allowed)
     then raise (mk_error 720 ''Permission error'' p)
     else case bh_adapter host of
            None \<Rightarrow> raise (mk_error 964 ''Embedded backend unavailable'' p)
          | Some adapter \<Rightarrow> adapt adapter op p))"

text \<open>\<open>ValidationEmbeddedAdapter\<close>: it only records what it is asked. Python's None is \<open>VVoid\<close> here.\<close>

definition validation_adapter :: "operation list adapter" where
  "validation_adapter op seen =
     (Inr (Plain (case op of Gpio_read _ \<Rightarrow> VBool False | Analog_read _ \<Rightarrow> VInt 0 | I2c_probe _ _ \<Rightarrow> VBool False
        | Uart_read_line _ \<Rightarrow> VStr [] | _ \<Rightarrow> VVoid)), seen @ [op])"

subsection \<open>Members\<close>

definition pin_member :: "ustr \<Rightarrow> source_position \<Rightarrow> ('h, board_value) board_comp" where
  "pin_member name p =
     andthen (require_profile p) (\<lambda>board. andthen (lift_sum (profile_pin board name p)) (\<lambda>v. ret (Pin v)))"

definition texts :: "ustr list \<Rightarrow> board_value" where "texts ss = Plain (VList (map VStr ss))"
definition text_value :: "ustr \<Rightarrow> board_value" where "text_value s = Plain (VStr s)"
definition boolean_value :: "bool \<Rightarrow> board_value" where "boolean_value b = Plain (VBool b)"
definition whole_value :: "int \<Rightarrow> board_value" where "whole_value i = Plain (VInt i)"

definition board_members :: "board_profile \<Rightarrow> (string \<times> board_value) list" where
  "board_members b =
     [(''id'', text_value (bp_id b)), (''name'', text_value (bp_name b)), (''family'', text_value (bp_family b)),
      (''cpu'', text_value (bp_mcu b)), (''voltage'', Plain (VFlt (bp_voltage b))),
      (''flash_bytes'', whole_value (bp_flash b)), (''ram_bytes'', whole_value (bp_ram b)), (''features'', texts (bp_features b))]"

definition pin_members :: "pin_def \<Rightarrow> (string \<times> board_value) list" where
  "pin_members d =
     [(''name'', text_value (pd_name d)),
      (''physical_pin'', case pd_physical d of Pin_number n \<Rightarrow> whole_value (int n) | Pin_text s \<Rightarrow> text_value s),
      (''backend_pin'', text_value (pd_backend d)), (''voltage'', Plain (VFlt (pd_voltage d))),
      (''capabilities'', texts (pd_caps d))]"

definition bus_members :: "bus_value \<Rightarrow> (string \<times> board_value) list" where
  "bus_members b =
     [(''board'', text_value (bv_board b)), (''kind'', text_value (bv_kind b)), (''index'', whole_value (bv_index b)),
      (''pins'', Pin_list (bv_pins b))]"

text \<open>\<open>None\<close>: the value is none of this module.\<close>

definition fixed_member :: "board_value \<Rightarrow> ustr \<Rightarrow> source_position \<Rightarrow> board_value option result" where
  "fixed_member v name p =
     (case (case v of Board b \<Rightarrow> Some (board_members b) | Pin (i, d) \<Rightarrow> Some (pin_members d)
            | Bus b \<Rightarrow> Some (bus_members b) | _ \<Rightarrow> None) of
        None \<Rightarrow> Inr None
      | Some members \<Rightarrow>
          (case map_of (map (\<lambda>(n, x). (U n, x)) members) name of
             None \<Rightarrow> Inl (mk_error 212 ''Missing embedded field'' p)
           | Some x \<Rightarrow> Inr (Some x)))"

subsection \<open>Builtins\<close>

text \<open>An implementation takes its arguments, the named ones, the position and the host.\<close>

type_synonym 'h implementation =
  "board_value list \<Rightarrow> (ustr \<times> board_value) list \<Rightarrow> source_position \<Rightarrow> 'h board_host \<Rightarrow> ('h, board_value) board_comp"

definition require_text :: "board_value \<Rightarrow> source_position \<Rightarrow> ('h, ustr) board_comp" where
  "require_text v p = (case v of Plain (VStr s) \<Rightarrow> ret s | _ \<Rightarrow> raise (type_error p))"

definition board_select :: "'h implementation" where
  "board_select args named p host = andthen (require_text (args ! 0) p) (\<lambda>s. select_board s p)"

definition board_field :: "(board_profile \<Rightarrow> board_value) \<Rightarrow> 'h implementation" where
  "board_field field args named p host = andthen (require_profile p) (\<lambda>b. ret (field b))"

definition board_has :: "'h implementation" where
  "board_has args named p host =
     andthen (require_text (args ! 0) p) (\<lambda>s. andthen (require_profile p) (\<lambda>b.
     ret (boolean_value (s \<in> set (bp_features b)))))"

definition pin_exists :: "'h implementation" where
  "pin_exists args named p host =
     andthen (require_text (args ! 0) p) (\<lambda>s. andthen (require_profile p) (\<lambda>b.
     ret (boolean_value (s \<in> set (map fst (bp_aliases b)) \<or> s \<in> set (map fst (bp_pins b))))))"

definition pin_has :: "'h implementation" where
  "pin_has args named p host =
     andthen (resolve_pin (args ! 0) p) (\<lambda>pin. andthen (require_text (args ! 1) p) (\<lambda>s.
     ret (boolean_value (s \<in> set (pd_caps (snd pin))))))"

definition pin_capabilities :: "'h implementation" where
  "pin_capabilities args named p host =
     andthen (resolve_pin (args ! 0) p) (\<lambda>pin. ret (texts (pd_caps (snd pin))))"

definition require_pin :: "board_value \<Rightarrow> ustr \<Rightarrow> source_position \<Rightarrow> ('h, pin_value) board_comp" where
  "require_pin v capability p =
     andthen (resolve_pin v p) (\<lambda>pin.
     if capability \<in> set (pd_caps (snd pin)) then ret pin
     else raise (mk_error 962 ''Pin capability mismatch'' p))"

definition mode_capability :: "ustr \<Rightarrow> ustr option" where
  "mode_capability mode =
     (if mode \<in> {U ''input'', U ''input_pull_up'', U ''input_pull_down''} then Some (U ''digital_input'')
      else if mode = U ''output'' then Some (U ''digital_output'') else None)"

definition done_void :: "board_value \<Rightarrow> ('h, board_value) board_comp" where
  "done_void _ = ret (Plain VVoid)"

definition gpio_set_mode :: "'h implementation" where
  "gpio_set_mode args named p host =
     andthen (require_text (args ! 1) p) (\<lambda>mode.
     case mode_capability mode of
       None \<Rightarrow> raise (mk_error 965 ''Invalid GPIO mode'' p)
     | Some capability \<Rightarrow>
         andthen (require_pin (args ! 0) capability p) (\<lambda>pin.
         andthen (perform_op host (Gpio_set_mode pin mode) p) done_void))"

definition gpio_write :: "'h implementation" where
  "gpio_write args named p host =
     (case args ! 1 of
        Plain (VBool b) \<Rightarrow>
          andthen (require_pin (args ! 0) (U ''digital_output'') p) (\<lambda>pin.
          andthen (perform_op host (Gpio_write pin b) p) done_void)
      | _ \<Rightarrow> raise (type_error p))"

definition gpio_read :: "'h implementation" where
  "gpio_read args named p host =
     andthen (require_pin (args ! 0) (U ''digital_input'') p) (\<lambda>pin.
     andthen (perform_op host (Gpio_read pin) p) (\<lambda>v.
     case v of Plain (VBool b) \<Rightarrow> ret v | _ \<Rightarrow> raise (backend_error p)))"

definition analog_read :: "'h implementation" where
  "analog_read args named p host =
     andthen (require_pin (args ! 0) (U ''analog_input'') p) (\<lambda>pin.
     andthen (perform_op host (Analog_read pin) p) (\<lambda>v.
     case v of Plain (VInt i) \<Rightarrow> ret v | Plain (VFlt x) \<Rightarrow> ret v | _ \<Rightarrow> raise (backend_error p)))"

definition unit_interval :: "sep_value \<Rightarrow> bool" where
  "unit_interval v = (is_number v \<and> num_less_eq (VInt 0) v \<and> num_less_eq v (VInt 1))"

definition unit_output :: "string \<Rightarrow> ustr \<Rightarrow> (pin_value \<Rightarrow> sep_value \<Rightarrow> operation) \<Rightarrow> 'h implementation" where
  "unit_output category capability op args named p host =
     (case args ! 1 of
        Plain v \<Rightarrow>
          if unit_interval v then
            andthen (require_pin (args ! 0) capability p) (\<lambda>pin. andthen (perform_op host (op pin v) p) done_void)
          else raise (mk_error 965 category p)
      | _ \<Rightarrow> raise (mk_error 965 category p))"

definition analog_write :: "'h implementation" where
  "analog_write = unit_output ''Invalid analog output value'' (U ''analog_output'') Analog_write"

definition pwm_write :: "'h implementation" where
  "pwm_write = unit_output ''Invalid PWM duty cycle'' (U ''pwm'') Pwm_write"

definition BUS_ROLES :: "(ustr \<times> ustr list) list" where
  "BUS_ROLES = [(U ''i2c'', [U ''sda'', U ''scl'']), (U ''spi'', [U ''mosi'', U ''miso'', U ''clock'', U ''chip_select'']),
     (U ''uart'', [U ''tx'', U ''rx''])]"

definition bus_roles :: "ustr \<Rightarrow> ustr list" where
  "bus_roles kind = (case map_of BUS_ROLES kind of Some rs \<Rightarrow> rs | None \<Rightarrow> [])"

definition role_capability :: "ustr \<Rightarrow> ustr \<Rightarrow> ustr" where
  "role_capability kind role = kind @ U ''_'' @ role"

definition MAX_DELAY_MILLISECONDS :: int where "MAX_DELAY_MILLISECONDS = 86400000"

definition bus_pin :: "ustr \<Rightarrow> int \<Rightarrow> (ustr \<times> board_value) list \<Rightarrow> source_position \<Rightarrow> ustr \<Rightarrow> ('h, pin_value) board_comp" where
  "bus_pin kind index mapping p role =
     andthen (require_pin (the (map_of mapping role)) (role_capability kind role) p) (\<lambda>pin.
     if (role_capability kind role, index) \<in> set (pd_routes (snd pin)) then ret pin
     else raise (mk_error 963 ''Invalid pin mapping'' p))"

definition bus_mapping :: "board_profile \<Rightarrow> ustr \<Rightarrow> int \<Rightarrow> (ustr \<times> board_value) list \<Rightarrow> (ustr \<times> board_value) list" where
  "bus_mapping board kind index named =
     foldl (\<lambda>d (k, v). dict_set d k v)
       (case map_of (bp_buses board) (kind, index) of
          None \<Rightarrow> [] | Some defaults \<Rightarrow> map (\<lambda>(role, pin). (role, text_value pin)) defaults) named"

definition open_bus :: "ustr \<Rightarrow> int \<Rightarrow> (ustr \<times> board_value) list \<Rightarrow> source_position \<Rightarrow> 'h board_host \<Rightarrow> ('h, board_value) board_comp" where
  "open_bus kind index named p host =
     andthen (require_profile p) (\<lambda>board.
     let mapping = bus_mapping board kind index named in
     if list_ex (\<lambda>role. map_of mapping role = None) (bus_roles kind)
     then raise (mk_error 963 ''Missing bus pin mapping'' p)
     else andthen (map_sem (bus_pin kind index mapping p) (bus_roles kind)) (\<lambda>pins.
       let bus = \<lparr>bv_board = bp_id board, bv_kind = kind, bv_index = index, bv_pins = pins\<rparr> in
       andthen (perform_op host (Bus_open bus) p) (\<lambda>_. ret (Bus bus))))"

definition bus_open :: "ustr \<Rightarrow> 'h implementation" where
  "bus_open kind args named p host =
     (case (if args = [] then whole_value 0 else args ! 0) of
        Plain (VInt index) \<Rightarrow> if index < 0 then raise (type_error p) else open_bus kind index named p host
      | _ \<Rightarrow> raise (type_error p))"

definition require_bus :: "board_value \<Rightarrow> ustr \<Rightarrow> source_position \<Rightarrow> ('h, bus_value) board_comp" where
  "require_bus v kind p =
     (case v of
        Bus bus \<Rightarrow>
          if bv_kind bus \<noteq> kind then raise (type_error p)
          else andthen (require_profile p) (\<lambda>board.
            if bv_board bus \<noteq> bp_id board then raise (mk_error 963 ''Bus belongs to another board'' p) else ret bus)
      | _ \<Rightarrow> raise (type_error p))"

definition delay_milliseconds :: "'h implementation" where
  "delay_milliseconds args named p host =
     (case args ! 0 of
        Plain (VInt n) \<Rightarrow>
          if 0 \<le> n \<and> n \<le> MAX_DELAY_MILLISECONDS then andthen (perform_op host (Delay_milliseconds n) p) done_void
          else raise (mk_error 965 ''Invalid embedded delay'' p)
      | _ \<Rightarrow> raise (mk_error 965 ''Invalid embedded delay'' p))"

definition i2c_probe :: "'h implementation" where
  "i2c_probe args named p host =
     andthen (require_bus (args ! 0) (U ''i2c'') p) (\<lambda>bus.
     case args ! 1 of
       Plain (VInt a) \<Rightarrow>
         if 0 \<le> a \<and> a \<le> 127 then
           andthen (perform_op host (I2c_probe bus a) p) (\<lambda>v.
           case v of Plain (VBool b) \<Rightarrow> ret v | _ \<Rightarrow> raise (backend_error p))
         else raise (mk_error 965 ''Invalid I2C address'' p)
     | _ \<Rightarrow> raise (mk_error 965 ''Invalid I2C address'' p))"

definition uart_write :: "'h implementation" where
  "uart_write args named p host =
     andthen (require_bus (args ! 0) (U ''uart'') p) (\<lambda>bus.
     case args ! 1 of
       Plain (VStr s) \<Rightarrow> andthen (perform_op host (Uart_write bus s) p) done_void
     | _ \<Rightarrow> raise (type_error p))"

definition uart_read_line :: "'h implementation" where
  "uart_read_line args named p host =
     andthen (require_bus (args ! 0) (U ''uart'') p) (\<lambda>bus.
     andthen (perform_op host (Uart_read_line bus) p) (\<lambda>v.
     case v of Plain (VStr s) \<Rightarrow> ret v | _ \<Rightarrow> raise (backend_error p)))"

text \<open>The table: name, numbers of arguments, implementation, named arguments.\<close>

definition EMBEDDED_BUILTINS :: "(string \<times> nat \<times> nat \<times> 'h implementation \<times> string list) list" where
  "EMBEDDED_BUILTINS =
     [(''board_select'', 1, 1, board_select, []),
      (''board_name'', 0, 0, board_field (text_value \<circ> bp_id), []),
      (''board_family'', 0, 0, board_field (text_value \<circ> bp_family), []),
      (''board_cpu'', 0, 0, board_field (text_value \<circ> bp_mcu), []),
      (''board_voltage'', 0, 0, board_field (Plain \<circ> VFlt \<circ> bp_voltage), []),
      (''board_has'', 1, 1, board_has, []),
      (''board_pins'', 0, 0, board_field (\<lambda>b. texts (sort (map fst (bp_aliases b)))), []),
      (''board_features'', 0, 0, board_field (texts \<circ> bp_features), []),
      (''pin_exists'', 1, 1, pin_exists, []),
      (''pin_has'', 2, 2, pin_has, []),
      (''pin_capabilities'', 1, 1, pin_capabilities, []),
      (''gpio_set_mode'', 2, 2, gpio_set_mode, []),
      (''gpio_write'', 2, 2, gpio_write, []),
      (''gpio_read'', 1, 1, gpio_read, []),
      (''analog_read'', 1, 1, analog_read, []),
      (''analog_write'', 2, 2, analog_write, []),
      (''pwm_write'', 2, 2, pwm_write, []),
      (''i2c_open'', 0, 1, bus_open (U ''i2c''), [''sda'', ''scl'']),
      (''spi_open'', 0, 1, bus_open (U ''spi''), [''mosi'', ''miso'', ''clock'', ''chip_select'']),
      (''uart_open'', 0, 1, bus_open (U ''uart''), [''tx'', ''rx'']),
      (''delay_milliseconds'', 1, 1, delay_milliseconds, []),
      (''i2c_probe'', 2, 2, i2c_probe, []),
      (''uart_write'', 2, 2, uart_write, []),
      (''uart_read_line'', 1, 1, uart_read_line, [])]"

text \<open>\<open>UtilityFunction.call\<close>, on the function of a name.\<close>

definition utility_call ::
  "nat \<times> nat \<times> 'h implementation \<times> string list \<Rightarrow> 'h implementation" where
  "utility_call = (\<lambda>(least, most, implementation, named_ok) args named p host.
     if list_ex (\<lambda>(k, v). k \<notin> U ` set named_ok) named then raise (mk_error 207 ''Unknown named argument'' p)
     else if \<not> (least \<le> length args \<and> length args \<le> most) then raise (mk_error 207 ''Argument count mismatch'' p)
     else implementation args named p host)"

definition board_call :: "string \<Rightarrow> 'h implementation option" where
  "board_call name = map_option utility_call (map_of EMBEDDED_BUILTINS name)"

subsection \<open>What reaches the adapter\<close>

definition pin_ok :: "pin_value \<Rightarrow> bool" where
  "pin_ok pin = list_ex (\<lambda>b. bp_id b = fst pin \<and> snd pin \<in> snd ` set (bp_pins b)) BOARD_PROFILES"

definition on_board :: "ustr \<Rightarrow> pin_value \<Rightarrow> ustr \<Rightarrow> bool" where
  \<comment> \<open>a pin of the board that has the capability\<close>
  "on_board ident pin capability \<longleftrightarrow> fst pin = ident \<and> pin_ok pin \<and> capability \<in> set (pd_caps (snd pin))"

definition bus_ok :: "bus_value \<Rightarrow> bool" where
  \<comment> \<open>one pin for every role, which can take the role on this very bus\<close>
  "bus_ok bus \<longleftrightarrow> 0 \<le> bv_index bus \<and>
     list_all2 (\<lambda>role pin. on_board (bv_board bus) pin (role_capability (bv_kind bus) role) \<and>
         (role_capability (bv_kind bus) role, bv_index bus) \<in> set (pd_routes (snd pin)))
       (bus_roles (bv_kind bus)) (bv_pins bus)"

definition value_ok :: "board_value \<Rightarrow> bool" where
  "value_ok v = (case v of Plain x \<Rightarrow> True | Board b \<Rightarrow> b \<in> set BOARD_PROFILES | Pin pin \<Rightarrow> pin_ok pin
     | Bus bus \<Rightarrow> bus_ok bus | Pin_list pins \<Rightarrow> list_all pin_ok pins)"

definition bus_of :: "ustr \<Rightarrow> bus_value \<Rightarrow> ustr \<Rightarrow> bool" where
  "bus_of ident bus kind \<longleftrightarrow> bus_ok bus \<and> bv_board bus = ident \<and> bv_kind bus = kind"

definition request_ok :: "board_profile \<Rightarrow> operation \<Rightarrow> bool" where
  "request_ok board op =
     (case op of
        Gpio_set_mode pin mode \<Rightarrow> (\<exists>c. mode_capability mode = Some c \<and> on_board (bp_id board) pin c)
      | Gpio_write pin b \<Rightarrow> on_board (bp_id board) pin (U ''digital_output'')
      | Gpio_read pin \<Rightarrow> on_board (bp_id board) pin (U ''digital_input'')
      | Analog_read pin \<Rightarrow> on_board (bp_id board) pin (U ''analog_input'')
      | Analog_write pin v \<Rightarrow> on_board (bp_id board) pin (U ''analog_output'') \<and> unit_interval v
      | Pwm_write pin v \<Rightarrow> on_board (bp_id board) pin (U ''pwm'') \<and> unit_interval v
      | Bus_open bus \<Rightarrow> bus_of (bp_id board) bus (bv_kind bus)
      | Delay_milliseconds n \<Rightarrow> 0 \<le> n \<and> n \<le> MAX_DELAY_MILLISECONDS
      | I2c_probe bus a \<Rightarrow> bus_of (bp_id board) bus (U ''i2c'') \<and> 0 \<le> a \<and> a \<le> 127
      | Uart_write bus s \<Rightarrow> bus_of (bp_id board) bus (U ''uart'')
      | Uart_read_line bus \<Rightarrow> bus_of (bp_id board) bus (U ''uart''))"

definition context_ok :: "'h board_context \<Rightarrow> bool" where
  "context_ok c = (case bc_profile c of None \<Rightarrow> True | Some b \<Rightarrow> b \<in> set BOARD_PROFILES)"

definition plain_adapter :: "'h board_host \<Rightarrow> bool" where
  \<comment> \<open>an adapter answers with values of the language, not with pins or buses\<close>
  "plain_adapter host \<longleftrightarrow> (\<forall>adapter op h v h'. bh_adapter host = Some adapter \<and> adapter op h = (Inr v, h') \<longrightarrow> value_ok v)"

definition allowed_request :: "'h board_host \<Rightarrow> 'h board_context \<Rightarrow> 'h \<Rightarrow> bool" where
  \<comment> \<open>one request, which the host allows and the board can serve, leads to the state of the hardware\<close>
  "allowed_request host c h \<longleftrightarrow>
     (\<exists>adapter board op. bh_io host \<and> bh_adapter host = Some adapter \<and> bc_profile c = Some board \<and>
        (case bh_boards host of None \<Rightarrow> True | Some bs \<Rightarrow> bp_id board \<in> set bs) \<and>
        request_ok board op \<and> h = snd (adapter op (bc_hardware c)))"

definition guarded :: "'h board_host \<Rightarrow> 'h board_context \<Rightarrow> 'h board_context \<Rightarrow> bool" where
  "guarded host c c' \<longleftrightarrow> context_ok c' \<and> bc_locked c' = bc_locked c \<and>
     (bc_locked c \<and> bc_profile c \<noteq> None \<longrightarrow> bc_profile c' = bc_profile c) \<and>
     (bc_hardware c' = bc_hardware c \<or> allowed_request host c (bc_hardware c'))"

definition safe_call :: "'h board_host \<Rightarrow> ('h, board_value) board_comp \<Rightarrow> 'h board_context \<Rightarrow> bool" where
  "safe_call host m c \<longleftrightarrow> post m (\<lambda>v c'. value_ok v \<and> guarded host c c') (\<lambda>e c'. guarded host c c') False c"

named_theorems board_simps

lemma guarded_refl [simp]: "context_ok c \<Longrightarrow> guarded host c c"
  by (simp add: guarded_def)

lemma value_ok_simps [simp]:
  "value_ok (Plain v)" "value_ok (Board b) \<longleftrightarrow> b \<in> set BOARD_PROFILES" "value_ok (Pin pin) \<longleftrightarrow> pin_ok pin"
  "value_ok (Bus bus) \<longleftrightarrow> bus_ok bus" "value_ok (Pin_list pins) \<longleftrightarrow> list_all pin_ok pins"
  "value_ok (texts ss)" "value_ok (text_value s)" "value_ok (boolean_value x)" "value_ok (whole_value i)"
  by (simp_all add: value_ok_def texts_def text_value_def boolean_value_def whole_value_def)

lemma profile_named_Some: "profile_named ident = Some b \<Longrightarrow> b \<in> set BOARD_PROFILES \<and> bp_id b = ident"
  by (auto simp: profile_named_def find_Some_iff)

lemma board_ids: "map bp_id BOARD_PROFILES = map U [''raspberry_pi_pico'', ''raspberry_pi_pico_w'', ''raspberry_pi_pico_2'',
    ''raspberry_pi_pico_2_w'', ''arduino_nano'', ''arduino_nano_every'']"
  by (simp add: BOARD_PROFILES_def pico_profile_def nano_profile_def Let_def)

lemma distinct_board_ids: "distinct (map bp_id BOARD_PROFILES)"
  unfolding board_ids by simp

lemma same_board: "b \<in> set BOARD_PROFILES \<Longrightarrow> b' \<in> set BOARD_PROFILES \<Longrightarrow> bp_id b = bp_id b' \<Longrightarrow> b = b'"
  using distinct_board_ids by (auto simp: distinct_map inj_on_def)

lemma profile_pin_ok:
  "b \<in> set BOARD_PROFILES \<Longrightarrow> profile_pin b name p = Inr pin \<Longrightarrow> fst pin = bp_id b \<and> pin_ok pin"
  by (force simp: profile_pin_def pin_ok_def list_ex_iff split: option.splits dest: map_of_SomeD)

text \<open>The checks leave the context alone.\<close>

lemma post_require_profile [simp]:
  "post (require_profile p) Q X F c =
     (case bc_profile c of None \<Rightarrow> X (mk_error 960 ''Board is not selected'' p) c | Some b \<Rightarrow> Q b c)"
  by (simp add: require_profile_def split: option.split)

lemma post_require_text [simp]:
  "post (require_text v p) Q X F c = (case v of Plain (VStr s) \<Rightarrow> Q s c | _ \<Rightarrow> X (type_error p) c)"
  by (simp add: require_text_def split: board_value.split sep_value.split)

lemma post_resolve_pin:
  assumes "context_ok c" and "value_ok v" and "\<And>e. X e c"
    and "\<And>b pin. bc_profile c = Some b \<Longrightarrow> fst pin = bp_id b \<Longrightarrow> pin_ok pin \<Longrightarrow> Q pin c"
  shows "post (resolve_pin v p) Q X F c"
  using assms
  by (auto simp: resolve_pin_def context_ok_def split: option.splits board_value.splits sep_value.splits sum.splits
      dest: profile_pin_ok)

lemma post_require_pin:
  assumes "context_ok c" and "value_ok v" and "\<And>e. X e c"
    and "\<And>b pin. bc_profile c = Some b \<Longrightarrow> on_board (bp_id b) pin capability \<Longrightarrow> Q pin c"
  shows "post (require_pin v capability p) Q X F c"
  unfolding require_pin_def post_andthen
  by (rule post_resolve_pin) (use assms in \<open>auto simp: on_board_def\<close>)

lemma post_require_bus:
  assumes "value_ok v" and "\<And>e. X e c"
    and "\<And>b bus. bc_profile c = Some b \<Longrightarrow> bus_of (bp_id b) bus kind \<Longrightarrow> Q bus c"
  shows "post (require_bus v kind p) Q X F c"
  using assms by (auto simp: require_bus_def bus_of_def split: option.splits board_value.splits)

lemma post_perform:
  assumes "context_ok c" and "plain_adapter host"
    and "\<And>b. bc_profile c = Some b \<Longrightarrow> request_ok b op"
    and "\<And>v c'. value_ok v \<Longrightarrow> guarded host c c' \<Longrightarrow> Q v c'" and "\<And>e c'. guarded host c c' \<Longrightarrow> X e c'"
  shows "post (perform_op host op p) Q X F c"
proof -
  have guard: "guarded host c (c\<lparr>bc_hardware := h\<rparr>)"
    if "bh_io host" "bc_profile c = Some b" "case bh_boards host of None \<Rightarrow> True | Some bs \<Rightarrow> bp_id b \<in> set bs"
      "bh_adapter host = Some a" "a op (bc_hardware c) = (r, h)" for a r h b
    using that assms(1,3) by (force simp: guarded_def context_ok_def allowed_request_def)
  show ?thesis
    using assms(1,2) guard
    by (auto simp: perform_op_def adapt_def post_def plain_adapter_def check_def andthen_def lift_sum_def reads_def ret_def
        require_profile_def raise_def intro!: assms(4,5) split: option.splits prod.splits sum.splits adapter_failure.splits)
      (blast+)?
qed

text \<open>The shapes the builtins have: checks, a request, and a look at the answer.\<close>

lemma safe_request:
  assumes "context_ok c" and "plain_adapter host" and "\<And>b. bc_profile c = Some b \<Longrightarrow> request_ok b op"
    and "\<And>v c'. value_ok v \<Longrightarrow> guarded host c c' \<Longrightarrow>
      post (f v) (\<lambda>v c'. value_ok v \<and> guarded host c c') (\<lambda>e c'. guarded host c c') False c'"
  shows "safe_call host (andthen (perform_op host op p) f) c"
  unfolding safe_call_def post_andthen
  by (rule post_perform) (use assms in auto)

lemma safe_pin:
  assumes "context_ok c" and "value_ok v"
    and "\<And>b pin. bc_profile c = Some b \<Longrightarrow> on_board (bp_id b) pin capability \<Longrightarrow> safe_call host (f pin) c"
  shows "safe_call host (andthen (require_pin v capability p) f) c"
  unfolding safe_call_def post_andthen
  by (rule post_require_pin) (use assms in \<open>auto simp: safe_call_def\<close>)

lemma safe_bus:
  assumes "context_ok c" and "value_ok v"
    and "\<And>b bus. bc_profile c = Some b \<Longrightarrow> bus_of (bp_id b) bus kind \<Longrightarrow> safe_call host (f bus) c"
  shows "safe_call host (andthen (require_bus v kind p) f) c"
  unfolding safe_call_def post_andthen
  by (rule post_require_bus) (use assms in \<open>auto simp: safe_call_def\<close>)

lemma safe_raise [simp]: "context_ok c \<Longrightarrow> safe_call host (raise e) c"
  by (simp add: safe_call_def)

lemma safe_ret [simp]: "context_ok c \<Longrightarrow> value_ok v \<Longrightarrow> safe_call host (ret v) c"
  by (simp add: safe_call_def)

lemma safe_text:
  "context_ok c \<Longrightarrow> (\<And>s. v = Plain (VStr s) \<Longrightarrow> safe_call host (f s) c) \<Longrightarrow>
   safe_call host (andthen (require_text v p) f) c"
  by (auto simp: safe_call_def split: board_value.split sep_value.split)

lemma safe_profile:
  "context_ok c \<Longrightarrow> (\<And>b. bc_profile c = Some b \<Longrightarrow> b \<in> set BOARD_PROFILES \<Longrightarrow> safe_call host (f b) c) \<Longrightarrow>
   safe_call host (andthen (require_profile p) f) c"
  by (auto simp: safe_call_def context_ok_def split: option.splits)

lemma safe_resolve:
  assumes "context_ok c" and "value_ok v"
    and "\<And>b pin. bc_profile c = Some b \<Longrightarrow> fst pin = bp_id b \<Longrightarrow> pin_ok pin \<Longrightarrow> safe_call host (f pin) c"
  shows "safe_call host (andthen (resolve_pin v p) f) c"
  unfolding safe_call_def post_andthen
  by (rule post_resolve_pin) (use assms in \<open>auto simp: safe_call_def\<close>)

lemma post_done_void [simp]: "post (done_void v) Q X F c = Q (Plain VVoid) c"
  by (simp add: done_void_def)

lemma safe_select: "context_ok c \<Longrightarrow> safe_call host (select_board ident p) c"
  by (auto simp: safe_call_def select_board_def guarded_def context_ok_def split: option.splits dest!: profile_named_Some
      intro: same_board)

lemma bus_mapping_ok:
  assumes "list_all (value_ok \<circ> snd) named" and "map_of (bus_mapping board kind index named) role = Some v"
  shows "value_ok v"
proof -
  have all: "list_all (value_ok \<circ> snd) (foldl (\<lambda>d (k, v). dict_set d k v) d named)" if "list_all (value_ok \<circ> snd) d" for d
    using that assms(1)
  proof (induction named arbitrary: d)
    case (Cons kv named)
    obtain k v where kv: "kv = (k, v)" by fastforce
    have "list_all (value_ok \<circ> snd) (dict_set d k v)"
      using Cons.prems set_dict_set [of d k v] by (auto simp: list_all_iff kv)
    with Cons show ?case by (simp add: kv o_def)
  qed simp
  have "list_all (value_ok \<circ> snd) (bus_mapping board kind index named)"
    unfolding bus_mapping_def by (rule all) (auto simp: list_all_iff split: option.split)
  with assms(2) show ?thesis by (auto simp: list_all_iff dest!: map_of_SomeD)
qed

abbreviation "plays kind index ident \<equiv> \<lambda>role pin. on_board ident pin (role_capability kind role) \<and>
  (role_capability kind role, index) \<in> set (pd_routes (snd pin))"

lemma post_bus_pins:
  assumes "context_ok c" and "bc_profile c = Some b" and "list_all (value_ok \<circ> snd) named"
    and "\<And>role. role \<in> set roles \<Longrightarrow> map_of (bus_mapping b kind index named) role \<noteq> None"
  shows "post (map_sem (bus_pin kind index (bus_mapping b kind index named) p) roles)
    (\<lambda>pins c'. c' = c \<and> list_all2 (plays kind index (bp_id b)) roles pins) (\<lambda>e c'. c' = c) False c"
  using assms(4)
proof (induction roles)
  case (Cons role roles)
  have "value_ok (the (map_of (bus_mapping b kind index named) role))"
    using Cons.prems [of role] bus_mapping_ok [OF assms(3)] by auto
  moreover have "post (map_sem (bus_pin kind index (bus_mapping b kind index named) p) roles)
    (\<lambda>pins c'. c' = c \<and> list_all2 (plays kind index (bp_id b)) roles pins) (\<lambda>e c'. c' = c) False c"
    using Cons by simp
  ultimately show ?case
    unfolding map_sem.simps post_andthen bus_pin_def
    by (intro post_require_pin [OF assms(1)]) (auto simp: assms(2) elim: post_mono)
qed simp

lemma safe_open_bus:
  assumes "context_ok c" and "plain_adapter host" and "list_all (value_ok \<circ> snd) named" and "0 \<le> index"
  shows "safe_call host (open_bus kind index named p host) c"
  unfolding open_bus_def Let_def
proof (intro safe_profile assms(1))
  fix b assume b: "bc_profile c = Some b"
  let ?bus = "\<lambda>pins. \<lparr>bv_board = bp_id b, bv_kind = kind, bv_index = index, bv_pins = pins\<rparr>"
  have "safe_call host (andthen (map_sem (bus_pin kind index (bus_mapping b kind index named) p) (bus_roles kind)) (\<lambda>pins.
      andthen (perform_op host (Bus_open (?bus pins)) p) (\<lambda>_. ret (Bus (?bus pins))))) c"
    if "\<not> list_ex (\<lambda>role. map_of (bus_mapping b kind index named) role = None) (bus_roles kind)"
    unfolding safe_call_def post_andthen [of "map_sem _ _"]
  proof (rule post_mono [OF post_bus_pins [OF assms(1) b assms(3)]])
    show "map_of (bus_mapping b kind index named) role \<noteq> None" if "role \<in> set (bus_roles kind)" for role
      using \<open>\<not> list_ex _ _\<close> that by (auto simp: list_ex_iff)
  next
    fix pins c' assume a: "c' = c \<and> list_all2 (plays kind index (bp_id b)) (bus_roles kind) pins"
    then have "bus_ok (?bus pins)" using assms(4) by (simp add: bus_ok_def)
    then have "safe_call host (andthen (perform_op host (Bus_open (?bus pins)) p) (\<lambda>_. ret (Bus (?bus pins)))) c"
      by (intro safe_request assms(1,2)) (simp_all add: request_ok_def bus_of_def b)
    with a show "post (andthen (perform_op host (Bus_open (?bus pins)) p) (\<lambda>_. ret (Bus (?bus pins))))
        (\<lambda>v c'. value_ok v \<and> guarded host c c') (\<lambda>e c'. guarded host c c') False c'"
      by (simp add: safe_call_def)
  qed (simp_all add: assms(1))
  then show "safe_call host (if list_ex (\<lambda>role. map_of (bus_mapping b kind index named) role = None) (bus_roles kind)
      then raise (mk_error 963 ''Missing bus pin mapping'' p)
      else andthen (map_sem (bus_pin kind index (bus_mapping b kind index named) p) (bus_roles kind)) (\<lambda>pins.
        andthen (perform_op host (Bus_open (?bus pins)) p) (\<lambda>_. ret (Bus (?bus pins))))) c"
    by (simp add: assms(1))
qed

lemma safe_bus_open:
  "context_ok c \<Longrightarrow> plain_adapter host \<Longrightarrow> list_all (value_ok \<circ> snd) named \<Longrightarrow> safe_call host (bus_open kind args named p host) c"
  unfolding bus_open_def by (auto split: board_value.split sep_value.split intro: safe_open_bus)

lemma safe_implementations:
  assumes "context_ok c" and "plain_adapter host" and "list_all value_ok args"
  shows "args \<noteq> [] \<Longrightarrow> safe_call host (board_select args named p host) c"
    and "(\<And>b. b \<in> set BOARD_PROFILES \<Longrightarrow> value_ok (field b)) \<Longrightarrow> safe_call host (board_field field args named p host) c"
    and "args \<noteq> [] \<Longrightarrow> safe_call host (board_has args named p host) c"
    and "args \<noteq> [] \<Longrightarrow> safe_call host (pin_exists args named p host) c"
    and "length args = 2 \<Longrightarrow> safe_call host (pin_has args named p host) c"
    and "args \<noteq> [] \<Longrightarrow> safe_call host (pin_capabilities args named p host) c"
    and "length args = 2 \<Longrightarrow> safe_call host (gpio_set_mode args named p host) c"
    and "length args = 2 \<Longrightarrow> safe_call host (gpio_write args named p host) c"
    and "args \<noteq> [] \<Longrightarrow> safe_call host (gpio_read args named p host) c"
    and "args \<noteq> [] \<Longrightarrow> safe_call host (analog_read args named p host) c"
    and "length args = 2 \<Longrightarrow> safe_call host (analog_write args named p host) c"
    and "length args = 2 \<Longrightarrow> safe_call host (pwm_write args named p host) c"
    and "safe_call host (delay_milliseconds args named p host) c"
    and "length args = 2 \<Longrightarrow> safe_call host (i2c_probe args named p host) c"
    and "length args = 2 \<Longrightarrow> safe_call host (uart_write args named p host) c"
    and "args \<noteq> [] \<Longrightarrow> safe_call host (uart_read_line args named p host) c"
proof -
  have arg: "i < length args \<Longrightarrow> value_ok (args ! i)" for i using assms(3) by (simp add: list_all_length)
  note intros = safe_text safe_profile safe_resolve safe_pin safe_bus safe_request safe_select safe_ret assms(1,2)
  note cases = board_value.split sep_value.split option.split
  have first: "value_ok (args ! 0)" if "args \<noteq> []" using that arg [of 0] by simp
  show "args \<noteq> [] \<Longrightarrow> safe_call host (board_select args named p host) c"
    unfolding board_select_def by (intro intros)
  show "safe_call host (board_field field args named p host) c" if "\<And>b. b \<in> set BOARD_PROFILES \<Longrightarrow> value_ok (field b)"
    unfolding board_field_def by (intro intros) (rule that)
  show "args \<noteq> [] \<Longrightarrow> safe_call host (board_has args named p host) c"
    unfolding board_has_def by (intro intros) simp
  show "args \<noteq> [] \<Longrightarrow> safe_call host (pin_exists args named p host) c"
    unfolding pin_exists_def by (intro intros) simp
  show "length args = 2 \<Longrightarrow> safe_call host (pin_has args named p host) c"
    unfolding pin_has_def by (intro intros arg) simp_all
  show "args \<noteq> [] \<Longrightarrow> safe_call host (pin_capabilities args named p host) c"
    unfolding pin_capabilities_def by (intro intros first) simp_all
  show "length args = 2 \<Longrightarrow> safe_call host (gpio_set_mode args named p host) c"
    unfolding gpio_set_mode_def
    by (intro safe_text assms(1)) (auto split: option.split intro!: safe_pin safe_request arg assms(1,2) simp: request_ok_def assms(1))
  show "length args = 2 \<Longrightarrow> safe_call host (gpio_write args named p host) c"
    unfolding gpio_write_def
    by (auto split: cases intro!: safe_pin safe_request arg assms(1,2) simp: request_ok_def assms(1))
  show "args \<noteq> [] \<Longrightarrow> safe_call host (gpio_read args named p host) c"
    unfolding gpio_read_def
    by (intro safe_pin safe_request first assms(1,2)) (auto split: cases simp: request_ok_def)
  show "args \<noteq> [] \<Longrightarrow> safe_call host (analog_read args named p host) c"
    unfolding analog_read_def
    by (intro safe_pin safe_request first assms(1,2)) (auto split: cases simp: request_ok_def)
  show "length args = 2 \<Longrightarrow> safe_call host (analog_write args named p host) c"
    unfolding analog_write_def unit_output_def
    by (auto split: board_value.split intro!: safe_pin safe_request arg assms(1,2) simp: request_ok_def assms(1))
  show "length args = 2 \<Longrightarrow> safe_call host (pwm_write args named p host) c"
    unfolding pwm_write_def unit_output_def
    by (auto split: board_value.split intro!: safe_pin safe_request arg assms(1,2) simp: request_ok_def assms(1))
  show "safe_call host (delay_milliseconds args named p host) c"
    unfolding delay_milliseconds_def
    by (auto split: cases intro!: safe_request assms(1,2) simp: request_ok_def assms(1))
  show "length args = 2 \<Longrightarrow> safe_call host (i2c_probe args named p host) c"
    unfolding i2c_probe_def
    by (intro safe_bus arg assms(1)) (auto split: cases intro!: safe_request assms(1,2) simp: request_ok_def assms(1))
  show "length args = 2 \<Longrightarrow> safe_call host (uart_write args named p host) c"
    unfolding uart_write_def
    by (intro safe_bus arg assms(1)) (auto split: cases intro!: safe_request assms(1,2) simp: request_ok_def assms(1))
  show "args \<noteq> [] \<Longrightarrow> safe_call host (uart_read_line args named p host) c"
    unfolding uart_read_line_def
    by (intro safe_bus safe_request first assms(1,2)) (auto split: cases simp: request_ok_def)
qed

lemma safe_board_call:
  assumes "board_call name = Some f" and "context_ok c" and "plain_adapter host"
    and "list_all value_ok args" and "list_all (value_ok \<circ> snd) named"
  shows "safe_call host (f args named p host) c"
proof -
  obtain least most impl ok where entry: "(name, least, most, impl, ok) \<in> set EMBEDDED_BUILTINS"
    and f: "f = utility_call (least, most, impl, ok)"
    using assms(1) by (auto simp: board_call_def dest!: map_of_SomeD)
  have one: "Suc 0 = length args \<Longrightarrow> args \<noteq> []" by auto
  have "safe_call host (impl args named p host) c" if "least \<le> length args" "length args \<le> most"
    using entry that safe_implementations [OF assms(2-4)] safe_bus_open [OF assms(2,3,5)]
    by (auto simp: EMBEDDED_BUILTINS_def le_Suc_eq numeral_2_eq_2 one)
  then show ?thesis by (simp add: f utility_call_def assms(2))
qed

lemma guarded_call:
  assumes "board_call name = Some f" and "f args named p host c = (r, c')" and "context_ok c"
    and "plain_adapter host" and "list_all value_ok args" and "list_all (value_ok \<circ> snd) named"
  shows "r \<noteq> NoFuel \<and> (\<forall>v. r = Done v \<longrightarrow> value_ok v) \<and> guarded host c c'"
  using safe_board_call [OF assms(1,3-6), of p] assms(2)
  by (cases r) (simp_all add: safe_call_def post_def)

subsection \<open>Facts about the profiles\<close>

definition default_role_ok :: "board_profile \<Rightarrow> ustr \<Rightarrow> ustr \<Rightarrow> bool" where
  "default_role_ok b kind role =
     (case map_of (case map_of (bp_buses b) (kind, 0) of None \<Rightarrow> [] | Some d \<Rightarrow> d) role of
        None \<Rightarrow> False
      | Some name \<Rightarrow>
          (case map_of (bp_pins b) (case map_of (bp_aliases b) name of Some n \<Rightarrow> n | None \<Rightarrow> name) of
             None \<Rightarrow> False
           | Some d \<Rightarrow> role_capability kind role \<in> set (pd_caps d) \<and> (role_capability kind role, 0) \<in> set (pd_routes d)))"

lemma set_from_keys [simp]: "set (from_keys xs) = set xs"
  by (simp add: from_keys_def)

lemma board_cases:
  assumes "b \<in> set BOARD_PROFILES" and "\<And>i n m f r w. P (pico_profile i n m f r w)" and "\<And>i n m f r w. P (nano_profile i n m f r w)"
  shows "P b"
proof -
  have "list_all P BOARD_PROFILES"
    unfolding BOARD_PROFILES_def list.pred_inject(2) by (intro conjI list.pred_inject(1) assms(2,3))
  with assms(1) show ?thesis by (simp only: list_all_iff)
qed

lemma no_analog_output:
  assumes "b \<in> set BOARD_PROFILES" and "d \<in> snd ` set (bp_pins b)"
  shows "U ''analog_output'' \<notin> set (pd_caps d)"
proof -
  have pico: "U ''analog_output'' \<notin> set (pd_caps (snd (pico_pin x)))" for x
    by (cases x) (auto simp: pico_pin_def mk_pin_def DIGITAL_def PICO_ROLES_def)
  have nano: "U ''analog_output'' \<notin> set (pd_caps (snd (nano_digital e x)))" "U ''analog_output'' \<notin> set (pd_caps (snd (nano_analog e n)))"
    for e x n
    by (cases x; auto simp: nano_digital_def nano_analog_def mk_pin_def DIGITAL_def NANO_ROLES_def Let_def)+
  have "\<forall>d \<in> snd ` set (bp_pins b). U ''analog_output'' \<notin> set (pd_caps d)"
  proof (rule board_cases [OF assms(1)])
    show "\<forall>d \<in> snd ` set (bp_pins (pico_profile i n m f r w)). U ''analog_output'' \<notin> set (pd_caps d)" for i n m f r w
      using pico by (auto simp: pico_profile_def Let_def mk_pin_def DIGITAL_def)
    show "\<forall>d \<in> snd ` set (bp_pins (nano_profile i n m f r w)). U ''analog_output'' \<notin> set (pd_caps d)" for i n m f r w
      unfolding nano_profile_def Let_def using nano by auto
  qed
  with assms(2) show ?thesis by blast
qed

lemma map_of_with_aliases: "map_of (with_aliases d extra) = map_of d ++ map_of (rev extra)"
  unfolding with_aliases_def by (induction extra arbitrary: d) (simp_all add: split_beta map_add_assoc)

lemma numbered_eq [simp]: "numbered a m = numbered a n \<longleftrightarrow> m = n"
  unfolding numbered_def same_append_eq by (metis digits_value_show_nat)

lemma numbered_neq [simp]: "c \<noteq> d \<Longrightarrow> numbered (c # a) m \<noteq> numbered (d # b) n" "c \<noteq> d \<Longrightarrow> numbered (c # a) m \<noteq> U (d # b)"
  by (simp_all add: numbered_def U.simps)

lemma numbered_small: "n < 10 \<Longrightarrow> numbered a n = U a @ [48 + n]"
  "10 \<le> n \<Longrightarrow> n < 100 \<Longrightarrow> numbered a n = U a @ [48 + n div 10, 48 + n mod 10]"
  by (simp_all add: numbered_def show_nat.simps [of n] show_nat.simps [of "n div 10"])

lemma map_of_pins:
  assumes "\<And>x. fst (f x) = numbered a (k x)" and "distinct (map k xs)" and "x \<in> set xs" and "k x = n"
  shows "map_of (map f xs @ rest) (numbered a n) = Some (snd (f x))"
proof -
  have "map fst (map f xs) = map (numbered a) (map k xs)" by (simp add: assms(1))
  then have "distinct (map fst (map f xs))"
    using assms(2) by (simp only: distinct_map) (auto simp: inj_on_def)
  moreover have "(numbered a n, snd (f x)) \<in> set (map f xs)"
    using assms(1) [of x] assms(3,4) by (auto simp: image_iff prod_eq_iff intro!: bexI [of _ x])
  ultimately show ?thesis by (simp add: map_of_eq_Some_iff map_add_def)
qed

lemma pico_role:
  assumes "(capability, values, i) \<in> set PICO_ROLES" and "fst x \<in> set values"
  shows "capability \<in> set (pd_caps (snd (pico_pin x))) \<and> (capability, i) \<in> set (pd_routes (snd (pico_pin x)))"
  using assms by (cases x) (force simp: pico_pin_def mk_pin_def Let_def)

lemma own_alias:
  assumes "name \<in> set (map fst pins)" and "name \<notin> set (map fst extra)"
  shows "map_of (with_aliases (map (\<lambda>(n, d). (n, n)) pins) extra) name = Some name"
proof -
  have "map_of (map (\<lambda>(n, d). (n, n)) pins) name = Some name"
    using assms(1) by (induction pins) auto
  moreover have "map_of (rev extra) name = None" using assms(2) by (simp add: map_of_eq_None_iff)
  ultimately show ?thesis by (simp add: map_of_with_aliases map_add_def)
qed

lemma default_role:
  assumes "map_of (bp_buses b) (kind, 0) = Some m" and "map_of m role = Some name"
    and "map_of (bp_aliases b) name = Some name" and "map_of (bp_pins b) name = Some d"
    and "role_capability kind role \<in> set (pd_caps d)" and "(role_capability kind role, 0) \<in> set (pd_routes d)"
  shows "default_role_ok b kind role"
  using assms by (simp add: default_role_ok_def)

lemma pico_pins:
  assumes "(n, physical) \<in> set PICO_PHYSICAL"
  shows "map_of (bp_pins (pico_profile i nm m f r w)) (numbered ''GP'' n) = Some (snd (pico_pin (n, physical)))"
  unfolding pico_profile_def Let_def board_profile.simps
  by (rule map_of_pins [where k = fst])
    (use assms in \<open>auto simp: pico_pin_def Let_def PICO_PHYSICAL_def split: prod.splits\<close>)

lemma pico_alias:
  assumes "(n, physical) \<in> set PICO_PHYSICAL"
  shows "map_of (bp_aliases (pico_profile i nm m f r w)) (numbered ''GP'' n) = Some (numbered ''GP'' n)"
proof -
  have "numbered ''GP'' n \<in> set (map fst (bp_pins (pico_profile i nm m f r w)))"
    using map_of_SomeD [OF pico_pins [OF assms, of i nm m f r w]] by (auto intro: rev_image_eqI)
  then have "map_of (with_aliases (map (\<lambda>(n, d). (n, n)) (bp_pins (pico_profile i nm m f r w)))
      (map (\<lambda>n. (numbered ''D'' n, numbered ''GP'' n)) [0..<23])) (numbered ''GP'' n) = Some (numbered ''GP'' n)"
    by (rule own_alias) auto
  then show ?thesis
    unfolding pico_profile_def Let_def board_profile.simps map_of_with_aliases [of "with_aliases _ _"]
    by (simp add: map_add_def del: map_append)
qed

lemma pico_default:
  assumes "(n, physical) \<in> set PICO_PHYSICAL" and "\<exists>values. (role_capability kind role, values, 0) \<in> set PICO_ROLES \<and> n \<in> set values"
    and "map_of (bp_buses (pico_profile i nm m f r w)) (kind, 0) = Some roles" and "map_of roles role = Some (numbered ''GP'' n)"
  shows "default_role_ok (pico_profile i nm m f r w) kind role"
  by (rule default_role [OF assms(3,4) pico_alias [OF assms(1)] pico_pins [OF assms(1)]])
    (use pico_role [of _ _ _ "(n, physical)"] assms(2) in auto)

lemma pin_names:
  "fst (pico_pin x) = numbered ''GP'' (fst x)" "fst (nano_digital e x) = numbered ''D'' (fst x)"
  "fst (nano_analog e n) = numbered ''A'' n"
  by (simp_all add: pico_pin_def nano_digital_def nano_analog_def Let_def split_beta)

lemma nano_pins:
  "x \<in> set NANO_PHYSICAL \<Longrightarrow>
     map_of (bp_pins (nano_profile i nm m f r e)) (numbered ''D'' (fst x)) = Some (snd (nano_digital e x))"
  "n < 8 \<Longrightarrow> map_of (bp_pins (nano_profile i nm m f r e)) (numbered ''A'' n) = Some (snd (nano_analog e n))"
proof -
  have "distinct (map fst NANO_PHYSICAL)" by (simp add: NANO_PHYSICAL_def)
  then show "map_of (bp_pins (nano_profile i nm m f r e)) (numbered ''D'' (fst x)) = Some (snd (nano_digital e x))"
    if "x \<in> set NANO_PHYSICAL"
    unfolding nano_profile_def Let_def board_profile.simps
    by (rule map_of_pins [OF pin_names(2) _ that refl])
  have "map_of (map (nano_digital e) xs) (numbered ''A'' n) = None" for xs
    by (auto simp: map_of_eq_None_iff pin_names)
  moreover have "map_of (map (nano_analog e) [0..<8] @ []) (numbered ''A'' n) = Some (snd (nano_analog e n))" if "n < 8"
    by (rule map_of_pins [where k = id]) (use that in \<open>auto simp: pin_names\<close>)
  ultimately show "map_of (bp_pins (nano_profile i nm m f r e)) (numbered ''A'' n) = Some (snd (nano_analog e n))" if "n < 8"
    unfolding nano_profile_def Let_def board_profile.simps map_of_append using that by (simp add: map_add_def)
qed

lemma nano_roles:
  "(capability, fst x) \<in> set NANO_ROLES \<Longrightarrow> capability \<in> set (pd_caps (snd (nano_digital e x))) \<and>
     (capability, 0) \<in> set (pd_routes (snd (nano_digital e x)))"
  "(capability, n) \<in> {(U ''i2c_sda'', 4), (U ''i2c_scl'', 5)} \<Longrightarrow> capability \<in> set (pd_caps (snd (nano_analog e n))) \<and>
     (capability, 0) \<in> set (pd_routes (snd (nano_analog e n)))"
  by (cases x, force simp: nano_digital_def mk_pin_def Let_def) (auto simp: nano_analog_def mk_pin_def Let_def)

lemma nano_alias:
  assumes "map_of (bp_pins (nano_profile i nm m f r e)) name = Some d" and "name = numbered ''D'' n \<or> name = numbered ''A'' n"
  shows "map_of (bp_aliases (nano_profile i nm m f r e)) name = Some name"
proof -
  have "name \<in> set (map fst (bp_pins (nano_profile i nm m f r e)))"
    using map_of_SomeD [OF assms(1)] by (auto intro: rev_image_eqI)
  then show ?thesis
    unfolding nano_profile_def Let_def board_profile.simps by (rule own_alias) (use assms(2) in auto)
qed

lemma nano_default:
  assumes "map_of (bp_buses (nano_profile i nm m f r e)) (kind, 0) = Some roles" and "map_of roles role = Some name"
    and "(name = numbered ''D'' n \<and> (n, physical) \<in> set NANO_PHYSICAL \<and> (role_capability kind role, n) \<in> set NANO_ROLES) \<or>
      (name = numbered ''A'' n \<and> n < 8 \<and> (role_capability kind role, n) \<in> {(U ''i2c_sda'', 4), (U ''i2c_scl'', 5)})"
  shows "default_role_ok (nano_profile i nm m f r e) kind role"
  using assms(3)
proof
  assume a: "name = numbered ''D'' n \<and> (n, physical) \<in> set NANO_PHYSICAL \<and> (role_capability kind role, n) \<in> set NANO_ROLES"
  then have "map_of (bp_pins (nano_profile i nm m f r e)) name = Some (snd (nano_digital e (n, physical)))"
    using nano_pins(1) [of "(n, physical)"] by simp
  with a nano_roles(1) [of _ "(n, physical)"] nano_alias [OF this] default_role [OF assms(1,2)] show ?thesis by simp
next
  assume a: "name = numbered ''A'' n \<and> n < 8 \<and> (role_capability kind role, n) \<in> {(U ''i2c_sda'', 4), (U ''i2c_scl'', 5)}"
  then have "map_of (bp_pins (nano_profile i nm m f r e)) name = Some (snd (nano_analog e n))"
    using nano_pins(2) [of n] by blast
  with a nano_roles(2) nano_alias [OF this] default_role [OF assms(1,2)] show ?thesis by blast
qed

lemma kind_roles: "role_capability (U a) (U b) = U (a @ ''_'' @ b)"
  by (induction a) (simp_all add: role_capability_def U.simps)

lemma pin_texts:
  "numbered ''GP'' 4 = U ''GP4''" "numbered ''GP'' 5 = U ''GP5''" "numbered ''GP'' 16 = U ''GP16''" "numbered ''GP'' 17 = U ''GP17''"
  "numbered ''GP'' 18 = U ''GP18''" "numbered ''GP'' 19 = U ''GP19''" "numbered ''GP'' 0 = U ''GP0''" "numbered ''GP'' 1 = U ''GP1''"
  "numbered ''A'' 4 = U ''A4''" "numbered ''A'' 5 = U ''A5''" "numbered ''D'' 10 = U ''D10''" "numbered ''D'' 11 = U ''D11''"
  "numbered ''D'' 12 = U ''D12''" "numbered ''D'' 13 = U ''D13''" "numbered ''D'' 0 = U ''D0''" "numbered ''D'' 1 = U ''D1''"
  "numbered ''GP'' (Suc 0) = U ''GP1''" "numbered ''D'' (Suc 0) = U ''D1''"
  by (simp_all add: numbered_small U.simps)

lemma all_roles:
  assumes "default_role_ok b (U ''i2c'') (U ''sda'')" "default_role_ok b (U ''i2c'') (U ''scl'')"
    "default_role_ok b (U ''spi'') (U ''mosi'')" "default_role_ok b (U ''spi'') (U ''miso'')"
    "default_role_ok b (U ''spi'') (U ''clock'')" "default_role_ok b (U ''spi'') (U ''chip_select'')"
    "default_role_ok b (U ''uart'') (U ''tx'')" "default_role_ok b (U ''uart'') (U ''rx'')"
  shows "list_all (\<lambda>(kind, roles). list_all (default_role_ok b kind) roles) BUS_ROLES"
  using assms by (simp add: BUS_ROLES_def)

lemma default_roles:
  assumes "b \<in> set BOARD_PROFILES"
  shows "list_all (\<lambda>(kind, roles). list_all (default_role_ok b kind) roles) BUS_ROLES"
proof (rule board_cases [OF assms])
  fix i n m f r w
  let ?b = "pico_profile i n m f r w"
  note pico = pico_default [of _ _ _ _ i n m f r w]
  note facts = PICO_PHYSICAL_def kind_roles PICO_ROLES_def pico_profile_def Let_def pin_texts
  show "list_all (\<lambda>(kind, roles). list_all (default_role_ok ?b kind) roles) BUS_ROLES"
  proof (rule all_roles)
    show "default_role_ok ?b (U ''i2c'') (U ''sda'')" by (rule pico [of 4 6]) (simp add: facts)+
    show "default_role_ok ?b (U ''i2c'') (U ''scl'')" by (rule pico [of 5 7]) (simp add: facts)+
    show "default_role_ok ?b (U ''spi'') (U ''mosi'')" by (rule pico [of 19 25]) (simp add: facts)+
    show "default_role_ok ?b (U ''spi'') (U ''miso'')" by (rule pico [of 16 21]) (simp add: facts)+
    show "default_role_ok ?b (U ''spi'') (U ''clock'')" by (rule pico [of 18 24]) (simp add: facts)+
    show "default_role_ok ?b (U ''spi'') (U ''chip_select'')" by (rule pico [of 17 22]) (simp add: facts)+
    show "default_role_ok ?b (U ''uart'') (U ''tx'')" by (rule pico [of 0 1]) (simp add: facts)+
    show "default_role_ok ?b (U ''uart'') (U ''rx'')" by (rule pico [of 1 2]) (simp add: facts)+
  qed
next
  fix i n m f r e
  let ?b = "nano_profile i n m f r e"
  note nano = nano_default [of i n m f r e]
  note facts = NANO_PHYSICAL_def kind_roles NANO_ROLES_def nano_profile_def Let_def pin_texts
  show "list_all (\<lambda>(kind, roles). list_all (default_role_ok ?b kind) roles) BUS_ROLES"
  proof (rule all_roles)
    show "default_role_ok ?b (U ''i2c'') (U ''sda'')" by (rule nano [where n = 4]) (simp add: facts)+
    show "default_role_ok ?b (U ''i2c'') (U ''scl'')" by (rule nano [where n = 5]) (simp add: facts)+
    show "default_role_ok ?b (U ''spi'') (U ''mosi'')" by (rule nano [where n = 11 and physical = 14]) (simp add: facts)+
    show "default_role_ok ?b (U ''spi'') (U ''miso'')" by (rule nano [where n = 12 and physical = 15]) (simp add: facts)+
    show "default_role_ok ?b (U ''spi'') (U ''clock'')" by (rule nano [where n = 13 and physical = 16]) (simp add: facts)+
    show "default_role_ok ?b (U ''spi'') (U ''chip_select'')" by (rule nano [where n = 10 and physical = 13]) (simp add: facts)+
    show "default_role_ok ?b (U ''uart'') (U ''tx'')" by (rule nano [where n = 1 and physical = 1]) (simp add: facts)+
    show "default_role_ok ?b (U ''uart'') (U ''rx'')" by (rule nano [where n = 0 and physical = 2]) (simp add: facts)+
  qed
qed

lemma map_of_texts: "map_of (map (\<lambda>(k, n). (k, f n)) d) k = map_option f (map_of d k)"
  by (induction d) auto

lemma default_mapping:
  assumes "default_role_ok b kind role" and "bc_profile c = Some b"
  shows "map_of (bus_mapping b kind 0 []) role \<noteq> None \<and>
    (\<exists>pin. bus_pin kind 0 (bus_mapping b kind 0 []) p role c = (Done pin, c))"
proof -
  obtain names name d where names: "map_of (bp_buses b) (kind, 0) = Some names" "map_of names role = Some name"
    and d: "map_of (bp_pins b) (case map_of (bp_aliases b) name of Some n \<Rightarrow> n | None \<Rightarrow> name) = Some d"
      "role_capability kind role \<in> set (pd_caps d)" "(role_capability kind role, 0) \<in> set (pd_routes d)"
    using assms(1) by (auto simp: default_role_ok_def split: option.splits)
  have mapping: "map_of (bus_mapping b kind 0 []) role = Some (text_value name)"
    by (simp add: bus_mapping_def names map_of_texts)
  have "bus_pin kind 0 (bus_mapping b kind 0 []) p role c = (Done (bp_id b, d), c)"
    using d by (simp add: bus_pin_def require_pin_def resolve_pin_def require_profile_def profile_pin_def mapping text_value_def
        andthen_def reads_def ret_def lift_sum_def assms(2))
  with mapping show ?thesis by simp
qed

lemma map_sem_Done:
  assumes "\<And>x. x \<in> set xs \<Longrightarrow> \<exists>y. f x s = (Done y, s)"
  shows "\<exists>ys. map_sem f xs s = (Done ys, s)"
  using assms
proof (induction xs)
  case (Cons x xs)
  obtain y where "f x s = (Done y, s)" using Cons.prems [of x] by auto
  moreover obtain ys where "map_sem f xs s = (Done ys, s)" using Cons by (meson list.set_intros(2))
  ultimately show ?case by (simp add: andthen_def ret_def)
qed (simp add: ret_def)

lemma bus_opens:
  assumes "(kind, roles) \<in> set BUS_ROLES" and "b \<in> set BOARD_PROFILES" and "bc_profile c = Some b"
    and "bh_io host" and "case bh_boards host of None \<Rightarrow> True | Some bs \<Rightarrow> bp_id b \<in> set bs"
    and "bh_adapter host = Some adapter" and "\<And>bus h. \<exists>v h'. adapter (Bus_open bus) h = (Inr v, h')"
  shows "\<exists>bus c'. bus_open kind [] [] p host c = (Done (Bus bus), c') \<and> bv_board bus = bp_id b \<and> bv_kind bus = kind \<and> bv_index bus = 0"
proof -
  have roles: "bus_roles kind = roles" using assms(1) by (auto simp: bus_roles_def BUS_ROLES_def)
  have ok: "default_role_ok b kind role" if "role \<in> set roles" for role
    using default_roles [OF assms(2)] assms(1) that by (auto simp: list_all_iff)
  obtain pins where pins: "map_sem (bus_pin kind 0 (bus_mapping b kind 0 []) p) roles c = (Done pins, c)"
    using map_sem_Done [of roles "bus_pin kind 0 (bus_mapping b kind 0 []) p" c] default_mapping [OF ok assms(3)] by blast
  have present: "\<not> list_ex (\<lambda>role. map_of (bus_mapping b kind 0 []) role = None) roles"
    using default_mapping [OF ok assms(3)] by (auto simp: list_ex_iff)
  obtain v h where "adapter (Bus_open \<lparr>bv_board = bp_id b, bv_kind = kind, bv_index = 0, bv_pins = pins\<rparr>) (bc_hardware c) = (Inr v, h)"
    using assms(7) by blast
  then show ?thesis
    using assms(5)
    by (simp add: bus_open_def open_bus_def Let_def whole_value_def require_profile_def roles pins present perform_op_def adapt_def
        andthen_def reads_def ret_def lift_sum_def assms(3,4,6) split: option.splits)
qed

subsection \<open>Properties\<close>

text \<open>A host that lets everything through to the validation adapter, and a selected board.\<close>

definition open_host :: "operation list board_host" where
  "open_host = \<lparr>bh_io = True, bh_boards = None, bh_adapter = Some validation_adapter\<rparr>"

definition pico :: board_profile where
  "pico = pico_profile ''raspberry_pi_pico'' ''Raspberry Pi Pico'' ''RP2040'' (2 * 1024\<^sup>2) (264 * 1024) False"

definition pico_context :: "operation list board_context" where
  "pico_context = \<lparr>bc_profile = Some pico, bc_locked = True, bc_hardware = []\<rparr>"

lemma pico_in_table [simp]: "pico \<in> set BOARD_PROFILES"
  unfolding pico_def BOARD_PROFILES_def list.set by (rule insertI1)

lemma example_facts [simp]: "plain_adapter open_host" "context_ok pico_context" "bc_profile pico_context = Some pico"
    "bc_locked pico_context" "bc_hardware pico_context = []" "bh_io open_host" "bh_boards open_host = None"
    "bh_adapter open_host = Some validation_adapter"
  by (auto simp: plain_adapter_def open_host_def validation_adapter_def context_ok_def pico_context_def)

text \<open>
  C28. Whatever a program calls, the adapter in front of the hardware sees at most one request per
  call, and only one that the host allows (hardware access granted, the selected board on the list of
  the host) and the selected board can serve: the pins are pins of this board with the capability
  the operation needs, every pin of a bus can play its role on this very bus, duty cycles lie
  between 0 and 1, delays and addresses in their ranges. A call that fails a check leaves the hardware
  alone; pins and buses it returns are again of the kind that passes the checks. (The host and the
  adapter are arbitrary; an adapter may answer any plain value or raise any error.)
\<close>

theorem adapter_requests_checked:
  assumes "board_call name = Some f" and "f args named p host c = (r, c')" and "context_ok c"
    and "plain_adapter host" and "list_all value_ok args" and "list_all (value_ok \<circ> snd) named"
  shows "r \<noteq> NoFuel \<and> context_ok c' \<and> (\<forall>v. r = Done v \<longrightarrow> value_ok v) \<and>
    (bc_hardware c' = bc_hardware c \<or>
     (\<exists>adapter board op. bh_io host \<and> bh_adapter host = Some adapter \<and> bc_profile c = Some board \<and>
        (case bh_boards host of None \<Rightarrow> True | Some bs \<Rightarrow> bp_id board \<in> set bs) \<and>
        request_ok board op \<and> bc_hardware c' = snd (adapter op (bc_hardware c))))"
  using guarded_call [OF assms] by (auto simp: guarded_def allowed_request_def)

lemma delay_entry: "board_call ''delay_milliseconds'' = Some (utility_call (1, 1, delay_milliseconds, []))"
  by (simp add: board_call_def EMBEDDED_BUILTINS_def)

lemma adapter_requests_checked_witness:
  "\<exists>c' op. utility_call (1, 1, delay_milliseconds, []) [whole_value 5] [] (mk_pos [] 1 1 []) open_host pico_context =
     (Done (Plain VVoid), c') \<and> bc_hardware c' = [op] \<and> request_ok pico op"
proof -
  have run: "utility_call (1, 1, delay_milliseconds, []) [whole_value 5] [] (mk_pos [] 1 1 []) open_host pico_context =
     (Done (Plain VVoid), pico_context\<lparr>bc_hardware := [Delay_milliseconds 5]\<rparr>)"
    by (simp add: utility_call_def delay_milliseconds_def whole_value_def MAX_DELAY_MILLISECONDS_def perform_op_def
        require_profile_def andthen_def reads_def ret_def lift_sum_def adapt_def validation_adapter_def done_void_def)
  from adapter_requests_checked [OF delay_entry run] have "request_ok pico (Delay_milliseconds 5)"
    by (simp add: validation_adapter_def)
  with run show ?thesis by auto
qed

text \<open>
  C29. A board that was fixed from outside (the option \<open>--board\<close> of a build) stays selected: no
  builtin, also not \<open>board_select\<close> of another board, changes the board or unlocks the choice.
\<close>

theorem locked_board_stays:
  assumes "board_call name = Some f" and "f args named p host c = (r, c')" and "context_ok c"
    and "plain_adapter host" and "list_all value_ok args" and "list_all (value_ok \<circ> snd) named"
    and "bc_locked c" and "bc_profile c = Some board"
  shows "bc_locked c' \<and> bc_profile c' = Some board"
  using guarded_call [OF assms(1-6)] assms(7,8) by (simp add: guarded_def)

lemma locked_board_stays_witness:
  "\<exists>f r c'. board_call ''board_select'' = Some f \<and>
     f [text_value (U ''arduino_nano'')] [] (mk_pos [] 1 1 []) open_host pico_context = (r, c') \<and> bc_profile c' = Some pico"
proof -
  have entry: "board_call ''board_select'' = Some (utility_call (1, 1, board_select, []))"
    by (simp add: board_call_def EMBEDDED_BUILTINS_def)
  obtain r c' where run: "utility_call (1, 1, board_select, []) [text_value (U ''arduino_nano'')] [] (mk_pos [] 1 1 []) open_host
      pico_context = (r, c')" by fastforce
  from locked_board_stays [OF entry run] have "bc_profile c' = Some pico" by simp
  with entry run show ?thesis by blast
qed

text \<open>
  On every board of the table, every kind of bus opens without arguments on its default pins, if the
  host allows the board and the adapter does not fail, and the bus it gives has one suitable pin per role.
\<close>

theorem default_buses_open:
  assumes "(kind, roles) \<in> set BUS_ROLES" and "b \<in> set BOARD_PROFILES" and "bc_profile c = Some b"
    and "bh_io host" and "case bh_boards host of None \<Rightarrow> True | Some bs \<Rightarrow> bp_id b \<in> set bs"
    and "bh_adapter host = Some adapter" and "\<And>op h. \<exists>v h'. adapter op h = (Inr (Plain v), h')"
  shows "\<exists>bus c'. bus_open kind [] [] p host c = (Done (Bus bus), c') \<and>
    bv_board bus = bp_id b \<and> bv_kind bus = kind \<and> bv_index bus = 0 \<and> bus_ok bus"
proof -
  obtain bus c' where bus: "bus_open kind [] [] p host c = (Done (Bus bus), c')" "bv_board bus = bp_id b" "bv_kind bus = kind"
    "bv_index bus = 0"
    using bus_opens [OF assms(1-6)] assms(7) by meson
  have "plain_adapter host" using assms(6,7) by (auto simp: plain_adapter_def) (metis Pair_inject sum.inject(2) value_ok_simps(1))
  then have "safe_call host (bus_open kind [] [] p host) c"
    by (intro safe_bus_open) (simp_all add: context_ok_def assms(2,3))
  with bus show ?thesis by (auto simp: safe_call_def post_def)
qed

lemma default_buses_open_witness:
  "\<exists>bus c'. bus_open (U ''spi'') [] [] (mk_pos [] 1 1 []) open_host pico_context = (Done (Bus bus), c') \<and> bus_ok bus"
proof -
  have "\<exists>v h'. validation_adapter op h = (Inr (Plain v), h')" for op h by (auto simp: validation_adapter_def)
  moreover have "(U ''spi'', [U ''mosi'', U ''miso'', U ''clock'', U ''chip_select'']) \<in> set BUS_ROLES" by (simp add: BUS_ROLES_def)
  ultimately show ?thesis
    using default_buses_open [OF _ pico_in_table example_facts(3,6) _ example_facts(8)] example_facts(7) by fastforce
qed

text \<open>
  \<open>analog_write\<close> never succeeds: no pin of any board of the table has the capability \<open>analog_output\<close>,
  so the call ends with an error for every pin and value, before anything reaches the adapter.
\<close>

theorem analog_write_unusable:
  assumes "board_call ''analog_write'' = Some f" and "context_ok c" and "list_all value_ok args"
  shows "\<exists>e. f args named p host c = (Raised e, c)"
proof -
  have f: "f = utility_call (2, 2, analog_write, [])" using assms(1) by (simp add: board_call_def EMBEDDED_BUILTINS_def)
  have no_pin: "\<not> on_board i pin (U ''analog_output'')" for i pin
    using no_analog_output by (fastforce simp: on_board_def pin_ok_def list_ex_iff)
  have "post (f args named p host) (\<lambda>v c'. False) (\<lambda>e c'. c' = c) False c"
    unfolding f utility_call_def analog_write_def unit_output_def
    using assms(3) no_pin
    by (auto split: board_value.split intro!: post_require_pin assms(2) simp: list_all_length)
  then show ?thesis by (cases "f args named p host c") (auto simp: post_def split: outcome.splits)
qed

lemma analog_write_unusable_witness:
  "\<exists>f e. board_call ''analog_write'' = Some f \<and>
     f [text_value (U ''A0''), whole_value 1] [] (mk_pos [] 1 1 []) open_host pico_context = (Raised e, pico_context)"
proof -
  have "board_call ''analog_write'' = Some (utility_call (2, 2, analog_write, []))"
    by (simp add: board_call_def EMBEDDED_BUILTINS_def)
  with analog_write_unusable [OF this example_facts(2), of "[text_value (U ''A0''), whole_value 1]" "[]" "mk_pos [] 1 1 []" open_host]
  show ?thesis by (intro exI [of _ "utility_call (2, 2, analog_write, [])"]) simp
qed

end
