(* ===== verification/Board_Check.thy ===== *)
theory Board_Check
  imports Boards
begin

section \<open>Validation of a program for a board\<close>

text \<open>
  \<open>validate_embedded_program\<close> of \<open>embedded.py\<close>: a walk over the syntax tree that checks direct
  references to pins, the arguments of the pin and bus builtins that are literals or known pins, and the
  choice of the board. Names that hold a known pin are tracked in a map that assignments change in
  the order of the program text; a function body gets a copy without its parameters.
\<close>

type_synonym bindings = "ustr \<Rightarrow> pin_value option"

fun direct_pin :: "board_profile \<Rightarrow> bindings \<Rightarrow> expr \<Rightarrow> pin_value option result" where
  "direct_pin board env (MemberExpr p (VariableExpr q v) name) =
     (if v = U ''pin'' then bind_sum (profile_pin board name p) (\<lambda>pin. Inr (Some pin)) else Inr None)"
| "direct_pin board env (VariableExpr p name) = Inr (env name)"
| "direct_pin board env e = Inr None"

text \<open>The value of a literal, or of a literal number behind a minus; \<open>None\<close> is the source's \<open>unknown\<close>.\<close>

fun literal_of :: "expr \<Rightarrow> literal option" where
  "literal_of (LiteralExpr p l) = Some l"
| "literal_of (UnaryExpr p operator (LiteralExpr q (L_Token (IntLit i)))) =
     (if operator = U ''-'' then Some (L_Token (IntLit (- i))) else None)"
| "literal_of (UnaryExpr p operator (LiteralExpr q (L_Token (FloatLit x)))) =
     (if operator = U ''-'' then Some (L_Token (FloatLit (neg64 x))) else None)"
| "literal_of e = None"

definition whole_literal :: "literal \<Rightarrow> int option" where
  "whole_literal l = (case l of L_Token (IntLit i) \<Rightarrow> Some i | _ \<Rightarrow> None)"

definition whole_in :: "int \<Rightarrow> int \<Rightarrow> literal \<Rightarrow> bool" where
  "whole_in lo hi l = (case whole_literal l of Some i \<Rightarrow> lo \<le> i \<and> i \<le> hi | None \<Rightarrow> False)"

definition number_literal :: "literal \<Rightarrow> sep_value" where
  "number_literal l = (case l of L_Token (IntLit i) \<Rightarrow> VInt i | L_Token (FloatLit x) \<Rightarrow> VFlt x | _ \<Rightarrow> VVoid)"

subsection \<open>Checks of one call\<close>

definition check_select :: "board_profile \<Rightarrow> source_position \<Rightarrow> ustr \<Rightarrow> expr list \<Rightarrow> unit result" where
  "check_select board p callee args =
     (case args of
        LiteralExpr q l # _ \<Rightarrow> check (callee \<noteq> U ''board_select'' \<or> l = L_Token (StrLit (bp_id board))) (mk_error 960 ''Board target mismatch'' p)
      | _ \<Rightarrow> Inr ())"

text \<open>\<open>requirements\<close>: the capability a pin builtin needs, none for \<open>gpio_set_mode\<close>.\<close>

definition requirements :: "(ustr \<times> ustr option) list" where
  "requirements = [(U ''gpio_set_mode'', None), (U ''gpio_write'', Some (U ''digital_output'')),
     (U ''gpio_read'', Some (U ''digital_input'')), (U ''analog_read'', Some (U ''analog_input'')),
     (U ''analog_write'', Some (U ''analog_output'')), (U ''pwm_write'', Some (U ''pwm''))]"

definition second_literal :: "expr list \<Rightarrow> (source_position \<times> literal) option" where
  "second_literal args = (case args of _ # LiteralExpr q l # _ \<Rightarrow> Some (q, l) | _ \<Rightarrow> None)"

definition required_capability :: "pin_value option \<Rightarrow> ustr \<Rightarrow> ustr option \<Rightarrow> expr list \<Rightarrow> ustr option result" where
  "required_capability pin callee required args =
     (if pin \<noteq> None \<and> callee = U ''gpio_set_mode'' then
        (case second_literal args of
           None \<Rightarrow> Inr required
         | Some (q, l) \<Rightarrow>
             (case (case l of L_Token (StrLit mode) \<Rightarrow> mode_capability mode | _ \<Rightarrow> None) of
                None \<Rightarrow> Inl (mk_error 965 ''Invalid GPIO mode'' q) | Some c \<Rightarrow> Inr (Some c)))
      else Inr required)"

definition check_pin_call ::
  "board_profile \<Rightarrow> bindings \<Rightarrow> source_position \<Rightarrow> ustr \<Rightarrow> expr list \<Rightarrow> unit result" where
  "check_pin_call board env p callee args =
     (case map_of requirements callee of
        None \<Rightarrow> Inr ()
      | Some required \<Rightarrow>
          if args = [] then Inr ()
          else bind_sum (direct_pin board env (args ! 0)) (\<lambda>pin.
            bind_sum (required_capability pin callee required args) (\<lambda>needed.
            bind_sum (check (case (pin, needed) of (Some d, Some c) \<Rightarrow> c \<in> set (pd_caps (snd d)) | _ \<Rightarrow> True)
              (mk_error 962 ''Pin capability mismatch'' p)) (\<lambda>_.
            case second_literal args of
              None \<Rightarrow> Inr ()
            | Some (q, l) \<Rightarrow>
                if callee = U ''gpio_write'' then check (case l of L_Token (BoolLit b) \<Rightarrow> True | _ \<Rightarrow> False) (type_error q)
                else if callee \<in> {U ''analog_write'', U ''pwm_write''}
                  then check (unit_interval (number_literal l)) (mk_error 965 ''Invalid embedded output value'' q)
                else Inr ()))))"

fun check_roles ::
  "board_profile \<Rightarrow> bindings \<Rightarrow> ustr \<Rightarrow> int option \<Rightarrow> (ustr \<times> expr) list \<Rightarrow> unit result" where
  "check_roles board env kind index [] = Inr ()"
| "check_roles board env kind index ((role, e) # named) =
     bind_sum (direct_pin board env e) (\<lambda>pin.
     bind_sum (check (case (pin, index) of
           (Some d, Some i) \<Rightarrow> (role_capability kind role, i) \<in> set (pd_routes (snd d)) | _ \<Rightarrow> True)
         (mk_error 963 ''Invalid pin mapping'' (expr_position e))) (\<lambda>_.
     check_roles board env kind index named))"

definition check_bus_call ::
  "board_profile \<Rightarrow> bindings \<Rightarrow> source_position \<Rightarrow> ustr \<Rightarrow> expr list \<Rightarrow> (ustr \<times> expr) list \<Rightarrow> unit result" where
  "check_bus_call board env p callee args named =
     (case find (\<lambda>kind. kind @ U ''_open'' = callee) (map fst BUS_ROLES) of
        None \<Rightarrow> Inr ()
      | Some kind \<Rightarrow>
          (case (if args = [] then Some (L_Token (IntLit 0)) else literal_of (args ! 0)) of
             None \<Rightarrow> check_roles board env kind None named
           | Some l \<Rightarrow>
               (case whole_literal l of
                  None \<Rightarrow> Inl (mk_error 963 ''Invalid bus index'' p)
                | Some index \<Rightarrow>
                    bind_sum (check (0 \<le> index) (mk_error 963 ''Invalid bus index'' p)) (\<lambda>_.
                    bind_sum (check_roles board env kind (Some index) named) (\<lambda>_.
                    check (named \<noteq> [] \<or> (case map_of (bp_buses board) (kind, index) of None \<Rightarrow> False | Some d \<Rightarrow> d \<noteq> []))
                      (mk_error 963 ''Missing bus pin mapping'' p))))))"

definition check_literal :: "expr list \<Rightarrow> nat \<Rightarrow> int \<Rightarrow> int \<Rightarrow> string \<Rightarrow> unit result" where
  "check_literal args i lo hi category =
     (if i < length args
      then (case literal_of (args ! i) of
              None \<Rightarrow> Inr ()
            | Some l \<Rightarrow> check (whole_in lo hi l) (mk_error 965 category (expr_position (args ! i))))
      else Inr ())"

definition check_call ::
  "board_profile \<Rightarrow> bindings \<Rightarrow> source_position \<Rightarrow> ustr \<Rightarrow> expr list \<Rightarrow> (ustr \<times> expr) list \<Rightarrow> unit result" where
  "check_call board env p callee args named =
     bind_sum (check_select board p callee args) (\<lambda>_.
     bind_sum (check_pin_call board env p callee args) (\<lambda>_.
     bind_sum (check_bus_call board env p callee args named) (\<lambda>_.
     bind_sum (if callee = U ''delay_milliseconds'' then check_literal args 0 0 MAX_DELAY_MILLISECONDS ''Invalid embedded delay'' else Inr ()) (\<lambda>_.
     if callee = U ''i2c_probe'' then check_literal args 1 0 127 ''Invalid I2C address'' else Inr ()))))"

text \<open>What the walk checks at one expression.\<close>

definition check_node :: "board_profile \<Rightarrow> bindings \<Rightarrow> expr \<Rightarrow> unit result" where
  "check_node board env e =
     (case e of
        MemberExpr p t name \<Rightarrow> bind_sum (direct_pin board env e) (\<lambda>_. Inr ())
      | CallExpr p callee args named \<Rightarrow> check_call board env p callee args named
      | _ \<Rightarrow> Inr ())"

subsection \<open>The walk\<close>

text \<open>The expressions that stand in an expression, in the order of the node's fields.\<close>

fun operands :: "expr \<Rightarrow> expr list" where
  "operands (BinaryExpr p a operator b) = [a, b]"
| "operands (UnaryExpr p operator a) = [a]"
| "operands (EmptyTestExpr p a neg) = [a]"
| "operands (EmptysTestExpr p a neg) = [a]"
| "operands (GroupExpr p a) = [a]"
| "operands (CallExpr p callee args named) = args @ map snd named"
| "operands (ListExpr p es) = es"
| "operands (IndexExpr p a i) = [a, i]"
| "operands (MemberExpr p a name) = [a]"
| "operands (MemberCallExpr p a name args named) = a # args @ map snd named"
| "operands e = []"

lemma size_operands: "a \<in> set (operands e) \<Longrightarrow> size a < size e"
proof -
  have named: "size x \<le> size_list (size_prod (\<lambda>x. 0) size) ns" if "(k, x) \<in> set ns" for k x and ns :: "(ustr \<times> expr) list"
    using that by (induction ns) auto
  have args: "size x \<le> size_list size xs" if "x \<in> set xs" for x and xs :: "expr list"
    using that by (induction xs) auto
  assume "a \<in> set (operands e)"
  then show ?thesis by (cases e) (auto simp: less_Suc_eq_le trans_le_add1 trans_le_add2 dest!: named args)
qed

text \<open>A check of every element of a list, in order.\<close>

fun each_check :: "('a \<Rightarrow> unit result) \<Rightarrow> 'a list \<Rightarrow> unit result" where
  "each_check f [] = Inr ()"
| "each_check f (x # xs) = bind_sum (f x) (\<lambda>_. each_check f xs)"

lemma each_check_cong [fundef_cong]:
  "xs = ys \<Longrightarrow> (\<And>x. x \<in> set ys \<Longrightarrow> f x = g x) \<Longrightarrow> each_check f xs = each_check g ys"
  by (induction ys arbitrary: xs) (auto intro: bind_sum_cong)

lemma each_check_Inr [simp]: "each_check f xs = Inr u \<longleftrightarrow> (\<forall>x \<in> set xs. f x = Inr ())"
  by (induction xs) auto

function walk_expr :: "board_profile \<Rightarrow> bindings \<Rightarrow> expr \<Rightarrow> unit result" where
  "walk_expr board env e =
     bind_sum (check_node board env e) (\<lambda>_. each_check (walk_expr board env) (operands e))"
  by pat_completeness auto
termination by (relation "measure (\<lambda>(board, env, e). size e)") (auto dest: size_operands)

declare walk_expr.simps [simp del]

definition set_pin :: "board_profile \<Rightarrow> ustr \<Rightarrow> expr \<Rightarrow> bindings \<Rightarrow> bindings result" where
  "set_pin board name e env = bind_sum (direct_pin board env e) (\<lambda>pin. Inr (env(name := pin)))"

definition walk_value :: "board_profile \<Rightarrow> expr \<Rightarrow> bindings \<Rightarrow> bindings result" where
  "walk_value board e env = bind_sum (walk_expr board env e) (\<lambda>_. Inr env)"

definition walk_values :: "board_profile \<Rightarrow> expr list \<Rightarrow> bindings \<Rightarrow> bindings result" where
  "walk_values board es env = bind_sum (each_check (walk_expr board env) es) (\<lambda>_. Inr env)"

fun walk_stmt :: "board_profile \<Rightarrow> stmt \<Rightarrow> bindings \<Rightarrow> bindings result"
  and walk_stmts :: "board_profile \<Rightarrow> stmt list \<Rightarrow> bindings \<Rightarrow> bindings result"
  and walk_entries :: "board_profile \<Rightarrow> object_entry list \<Rightarrow> bindings \<Rightarrow> bindings result"
  and walk_catches :: "board_profile \<Rightarrow> catch_branch list \<Rightarrow> bindings \<Rightarrow> bindings result"
  and walk_branches :: "board_profile \<Rightarrow> if_branch list \<Rightarrow> bindings \<Rightarrow> bindings result" where
  "walk_stmt board (LogicDecl p name ps tags body q types) env =
     bind_sum (walk_stmts board body (\<lambda>n. if n \<in> set ps then None else env n)) (\<lambda>_. Inr env)"
| "walk_stmt board (Assignment p name e) env = bind_sum (walk_value board e env) (set_pin board name e)"
| "walk_stmt board (ConstDeclaration p name e) env = bind_sum (walk_value board e env) (set_pin board name e)"
| "walk_stmt board (TypedDeclaration p name t el e const) env = bind_sum (walk_value board e env) (set_pin board name e)"
| "walk_stmt board (IndexAssignment p name is e) env = walk_values board (is @ [e]) env"
| "walk_stmt board (PrintStmt p e) env = walk_value board e env"
| "walk_stmt board (PrintErrorStmt p e) env = walk_value board e env"
| "walk_stmt board (ReturnStmt p e) env = (case e of None \<Rightarrow> Inr env | Some v \<Rightarrow> walk_value board v env)"
| "walk_stmt board (ExpressionStmt p e) env = walk_value board e env"
| "walk_stmt board (ObjectBlock p name entries q) env = walk_entries board entries env"
| "walk_stmt board (ListBlock p name es q) env = walk_values board es env"
| "walk_stmt board (ImportStmt p path alias) env = Inr env"
| "walk_stmt board (TryStmt p label body catches final q) env =
     bind_sum (walk_stmts board body env) (\<lambda>env.
     bind_sum (walk_catches board catches env) (\<lambda>env.
     case final of None \<Rightarrow> Inr env | Some b \<Rightarrow> walk_stmts board b env))"
| "walk_stmt board (ThrowStmt p e) env = walk_value board e env"
| "walk_stmt board (ErrorDecl p name q) env = Inr env"
| "walk_stmt board (HttpRouteDecl p m path label body q) env = walk_stmts board body env"
| "walk_stmt board (TransactionStmt p c label body q) env =
     bind_sum (walk_value board c env) (walk_stmts board body)"
| "walk_stmt board (IfStmt p label branches final q) env =
     bind_sum (walk_branches board branches env) (\<lambda>env.
     case final of None \<Rightarrow> Inr env | Some b \<Rightarrow> walk_stmts board b env)"
| "walk_stmt board (WhileStmt p label c body q) env = bind_sum (walk_value board c env) (walk_stmts board body)"
| "walk_stmt board (ForStmt p label variable e body q) env = bind_sum (walk_value board e env) (walk_stmts board body)"
| "walk_stmts board [] env = Inr env"
| "walk_stmts board (s # ss) env = bind_sum (walk_stmt board s env) (walk_stmts board ss)"
| "walk_entries board [] env = Inr env"
| "walk_entries board (ObjectField p name e t el # es) env = bind_sum (walk_value board e env) (walk_entries board es)"
| "walk_entries board (BlockEntry s # es) env = bind_sum (walk_stmt board s env) (walk_entries board es)"
| "walk_catches board [] env = Inr env"
| "walk_catches board (CatchBranch p category body # cs) env = bind_sum (walk_stmts board body env) (walk_catches board cs)"
| "walk_branches board [] env = Inr env"
| "walk_branches board (IfBranch c body p # bs) env =
     bind_sum (walk_value board c env) (\<lambda>env. bind_sum (walk_stmts board body env) (walk_branches board bs))"

text \<open>The pins of the globals, from the assignments at the top level.\<close>

fun global_pins :: "board_profile \<Rightarrow> stmt list \<Rightarrow> bindings \<Rightarrow> bindings result" where
  "global_pins board [] env = Inr env"
| "global_pins board (s # ss) env =
     bind_sum (case s of
         Assignment p name e \<Rightarrow> set_pin board name e env
       | ConstDeclaration p name e \<Rightarrow> set_pin board name e env
       | TypedDeclaration p name t el e const \<Rightarrow> set_pin board name e env
       | _ \<Rightarrow> Inr env) (global_pins board ss)"

definition validate_program :: "program \<Rightarrow> ustr \<Rightarrow> board_profile result" where
  "validate_program prog ident =
     (case profile_named ident of
        None \<Rightarrow> Inl (mk_error 960 ''Unknown board profile'' (program_position prog))
      | Some board \<Rightarrow>
          bind_sum (global_pins board (program_statements prog) Map.empty) (\<lambda>env.
          bind_sum (walk_stmts board (program_statements prog) env) (\<lambda>_. Inr board)))"

subsection \<open>What an accepted program satisfies\<close>

text \<open>The expressions of a statement, and the expressions in them at any depth.\<close>

function sub_exprs :: "expr \<Rightarrow> expr list" where
  "sub_exprs e = e # concat (map sub_exprs (operands e))"
  by pat_completeness auto
termination by (relation "measure size") (auto dest: size_operands)

declare sub_exprs.simps [simp del]

fun stmt_exprs :: "stmt \<Rightarrow> expr list"
  and stmts_exprs :: "stmt list \<Rightarrow> expr list"
  and entries_exprs :: "object_entry list \<Rightarrow> expr list"
  and catches_exprs :: "catch_branch list \<Rightarrow> expr list"
  and branches_exprs :: "if_branch list \<Rightarrow> expr list" where
  "stmt_exprs (LogicDecl p name ps tags body q types) = stmts_exprs body"
| "stmt_exprs (Assignment p name e) = [e]"
| "stmt_exprs (ConstDeclaration p name e) = [e]"
| "stmt_exprs (TypedDeclaration p name t el e const) = [e]"
| "stmt_exprs (IndexAssignment p name is e) = is @ [e]"
| "stmt_exprs (PrintStmt p e) = [e]"
| "stmt_exprs (PrintErrorStmt p e) = [e]"
| "stmt_exprs (ReturnStmt p e) = (case e of None \<Rightarrow> [] | Some v \<Rightarrow> [v])"
| "stmt_exprs (ExpressionStmt p e) = [e]"
| "stmt_exprs (ObjectBlock p name entries q) = entries_exprs entries"
| "stmt_exprs (ListBlock p name es q) = es"
| "stmt_exprs (ImportStmt p path alias) = []"
| "stmt_exprs (TryStmt p label body catches final q) =
     stmts_exprs body @ catches_exprs catches @ (case final of None \<Rightarrow> [] | Some b \<Rightarrow> stmts_exprs b)"
| "stmt_exprs (ThrowStmt p e) = [e]"
| "stmt_exprs (ErrorDecl p name q) = []"
| "stmt_exprs (HttpRouteDecl p m path label body q) = stmts_exprs body"
| "stmt_exprs (TransactionStmt p c label body q) = c # stmts_exprs body"
| "stmt_exprs (IfStmt p label branches final q) =
     branches_exprs branches @ (case final of None \<Rightarrow> [] | Some b \<Rightarrow> stmts_exprs b)"
| "stmt_exprs (WhileStmt p label c body q) = c # stmts_exprs body"
| "stmt_exprs (ForStmt p label variable e body q) = e # stmts_exprs body"
| "stmts_exprs [] = []"
| "stmts_exprs (s # ss) = stmt_exprs s @ stmts_exprs ss"
| "entries_exprs [] = []"
| "entries_exprs (ObjectField p name e t el # es) = e # entries_exprs es"
| "entries_exprs (BlockEntry s # es) = stmt_exprs s @ entries_exprs es"
| "catches_exprs [] = []"
| "catches_exprs (CatchBranch p category body # cs) = stmts_exprs body @ catches_exprs cs"
| "branches_exprs [] = []"
| "branches_exprs (IfBranch c body p # bs) = c # stmts_exprs body @ branches_exprs bs"

definition program_exprs :: "program \<Rightarrow> expr list" where
  "program_exprs prog = concat (map sub_exprs (stmts_exprs (program_statements prog)))"

lemma walk_expr_checks:
  "walk_expr board env e = Inr u \<Longrightarrow> a \<in> set (sub_exprs e) \<Longrightarrow> check_node board env a = Inr ()"
proof (induction board env e rule: walk_expr.induct)
  case (1 board env e)
  from "1.prems"(1) have node: "check_node board env e = Inr ()" and "\<forall>o' \<in> set (operands e). walk_expr board env o' = Inr ()"
    by (simp_all add: walk_expr.simps [of board env e])
  with 1 show ?case by (auto simp: sub_exprs.simps [of e])
qed

definition walked :: "board_profile \<Rightarrow> expr \<Rightarrow> bool" where
  "walked board e \<longleftrightarrow> (\<exists>env. walk_expr board env e = Inr ())"

lemma walkedI: "walk_expr board env e = Inr () \<Longrightarrow> walked board e"
  by (auto simp: walked_def)

lemma walk_value_Inr [simp]:
  "walk_value board e env = Inr env' \<longleftrightarrow> walk_expr board env e = Inr () \<and> env' = env"
  "walk_values board es env = Inr env' \<longleftrightarrow> (\<forall>e \<in> set es. walk_expr board env e = Inr ()) \<and> env' = env"
  by (auto simp: walk_value_def walk_values_def)

lemma walk_stmt_walked:
  "walk_stmt board s env = Inr env' \<Longrightarrow> \<forall>e \<in> set (stmt_exprs s). walked board e"
  "walk_stmts board ss env = Inr env' \<Longrightarrow> \<forall>e \<in> set (stmts_exprs ss). walked board e"
  "walk_entries board es env = Inr env' \<Longrightarrow> \<forall>e \<in> set (entries_exprs es). walked board e"
  "walk_catches board cs env = Inr env' \<Longrightarrow> \<forall>e \<in> set (catches_exprs cs). walked board e"
  "walk_branches board bs env = Inr env' \<Longrightarrow> \<forall>e \<in> set (branches_exprs bs). walked board e"
  by (induction board s env and board ss env and board es env and board cs env and board bs env
      arbitrary: env' and env' and env' and env' and env'
      rule: walk_stmt_walk_stmts_walk_entries_walk_catches_walk_branches.induct)
    (auto split: option.splits intro: walkedI)

lemma validated_nodes:
  assumes "validate_program prog ident = Inr board" and "e \<in> set (program_exprs prog)"
  obtains env where "check_node board env e = Inr ()"
proof -
  obtain top where top: "top \<in> set (stmts_exprs (program_statements prog))" "e \<in> set (sub_exprs top)"
    using assms(2) by (auto simp: program_exprs_def)
  obtain env env' where "walk_stmts board (program_statements prog) env = Inr env'"
    using assms(1) by (auto simp: validate_program_def split: option.splits)
  with top(1) have "walked board top" using walk_stmt_walked(2) by blast
  with top(2) that show ?thesis by (auto simp: walked_def dest: walk_expr_checks)
qed

lemma validated_board:
  "validate_program prog ident = Inr board \<Longrightarrow> board \<in> set BOARD_PROFILES \<and> bp_id board = ident"
  by (auto simp: validate_program_def split: option.splits dest: profile_named_Some)

text \<open>The run-time checks on the pin that \<open>pin.name\<close> gives.\<close>

lemma direct_pin_runs:
  assumes "direct_pin board env (MemberExpr q (VariableExpr q' (U ''pin'')) name) = Inr pin" and "bc_profile c = Some board"
  obtains d where "pin = Some (bp_id board, d)" "pin_member name q c = (Done (Pin (bp_id board, d)), c)"
    "\<And>capability p. capability \<in> set (pd_caps d) \<Longrightarrow>
       require_pin (Pin (bp_id board, d)) capability p c = (Done (bp_id board, d), c)"
proof -
  from assms(1) obtain x where x: "profile_pin board name q = Inr x" "pin = Some x" by auto
  then obtain d where "x = (bp_id board, d)" by (auto simp: profile_pin_def split: option.splits)
  with x that assms(2) show ?thesis
    by (simp add: pin_member_def require_profile_def require_pin_def resolve_pin_def andthen_def reads_def ret_def lift_sum_def)
qed

lemma check_pin_call_runs:
  assumes "check_pin_call board env p callee (MemberExpr q (VariableExpr q' (U ''pin'')) name # rest) = Inr u"
    and "map_of requirements callee = Some (Some capability)" and "bc_profile c = Some board"
  shows "\<exists>d. pin_member name q c = (Done (Pin d), c) \<and> require_pin (Pin d) capability p c = (Done d, c)"
proof -
  have "callee \<noteq> U ''gpio_set_mode''" using assms(2) by (auto simp: requirements_def)
  with assms(1,2) obtain pin where pin: "direct_pin board env (MemberExpr q (VariableExpr q' (U ''pin'')) name) = Inr pin"
    and ok: "case pin of Some d \<Rightarrow> capability \<in> set (pd_caps (snd d)) | None \<Rightarrow> True"
    by (auto simp: check_pin_call_def required_capability_def simp del: direct_pin.simps split: option.splits)
  from pin assms(3) obtain d where "pin = Some (bp_id board, d)" "pin_member name q c = (Done (Pin (bp_id board, d)), c)"
    "\<And>capability p. capability \<in> set (pd_caps d) \<Longrightarrow> require_pin (Pin (bp_id board, d)) capability p c = (Done (bp_id board, d), c)"
    by (rule direct_pin_runs) blast
  with ok show ?thesis by auto
qed

text \<open>
  C7. A program that the validation for a board accepts does not fail on that board for the reasons the
  validation looks for: the board exists; every \<open>pin.name\<close> of the program, in whatever function, block
  or argument it stands, gives a pin; where such a pin is the argument of a builtin that reads or writes a
  pin, it has the capability that the builtin requires at run time; a delay and an I2C address that are
  written as numbers are in the ranges the builtins accept; and \<open>board_select\<close> with a literal
  selects this board.
\<close>

theorem validated_programs_fit_board:
  assumes "validate_program prog ident = Inr board" and "e \<in> set (program_exprs prog)" and "bc_profile c = Some board"
  shows "profile_named ident = Some board \<and>
    (\<forall>p q name. e = MemberExpr p (VariableExpr q (U ''pin'')) name \<longrightarrow> (\<exists>d. pin_member name p c = (Done (Pin d), c))) \<and>
    (\<forall>p callee q q' name rest named capability.
       e = CallExpr p callee (MemberExpr q (VariableExpr q' (U ''pin'')) name # rest) named \<and>
       map_of requirements callee = Some (Some capability) \<longrightarrow>
       (\<exists>d. pin_member name q c = (Done (Pin d), c) \<and> require_pin (Pin d) capability p c = (Done d, c))) \<and>
    (\<forall>p q i rest named. e = CallExpr p (U ''delay_milliseconds'') (LiteralExpr q (L_Token (IntLit i)) # rest) named \<longrightarrow>
       0 \<le> i \<and> i \<le> MAX_DELAY_MILLISECONDS) \<and>
    (\<forall>p b q i rest named. e = CallExpr p (U ''i2c_probe'') (b # LiteralExpr q (L_Token (IntLit i)) # rest) named \<longrightarrow>
       0 \<le> i \<and> i \<le> 127) \<and>
    (\<forall>p q l rest named. e = CallExpr p (U ''board_select'') (LiteralExpr q l # rest) named \<longrightarrow> l = L_Token (StrLit ident))"
proof (intro conjI allI impI; (elim conjE)?)
  obtain env where node: "check_node board env e = Inr ()" by (rule validated_nodes [OF assms(1,2)])
  have ident: "bp_id board = ident" using validated_board [OF assms(1)] by simp
  show "profile_named ident = Some board"
    using assms(1) by (auto simp: validate_program_def split: option.splits)
  show "\<exists>d. pin_member name p c = (Done (Pin d), c)" if "e = MemberExpr p (VariableExpr q (U ''pin'')) name" for p q name
  proof -
    from node that obtain pin where "direct_pin board env (MemberExpr p (VariableExpr q (U ''pin'')) name) = Inr pin"
      by (auto simp: check_node_def simp del: direct_pin.simps)
    from this assms(3) show ?thesis by (rule direct_pin_runs) blast
  qed
  show "\<exists>d. pin_member name q c = (Done (Pin d), c) \<and> require_pin (Pin d) capability p c = (Done d, c)"
    if "e = CallExpr p callee (MemberExpr q (VariableExpr q' (U ''pin'')) name # rest) named"
      "map_of requirements callee = Some (Some capability)" for p callee q q' name rest named capability
    using node that check_pin_call_runs [OF _ that(2) assms(3), of env p q q' name rest]
    by (auto simp: check_node_def check_call_def simp del: direct_pin.simps)
  show "0 \<le> i" "i \<le> MAX_DELAY_MILLISECONDS"
    if "e = CallExpr p (U ''delay_milliseconds'') (LiteralExpr q (L_Token (IntLit i)) # rest) named" for p q i rest named
    using node that by (auto simp: check_node_def check_call_def check_literal_def whole_in_def whole_literal_def)
  show "0 \<le> i" "i \<le> 127"
    if "e = CallExpr p (U ''i2c_probe'') (b # LiteralExpr q (L_Token (IntLit i)) # rest) named" for p b q i rest named
    using node that by (auto simp: check_node_def check_call_def check_literal_def whole_in_def whole_literal_def)
  show "l = L_Token (StrLit ident)" if "e = CallExpr p (U ''board_select'') (LiteralExpr q l # rest) named" for p q l rest named
    using node that ident by (auto simp: check_node_def check_call_def check_select_def)
qed

abbreviation "at_column n \<equiv> mk_pos [] 1 n []"

definition blink :: program where
  "blink = \<lparr>program_position = at_column 1, program_statements =
     [LogicDecl (at_column 1) (U ''blink'') [] [] [ExpressionStmt (at_column 2) (CallExpr (at_column 2) (U ''gpio_write'')
        [MemberExpr (at_column 3) (VariableExpr (at_column 3) (U ''pin'')) (numbered ''GP'' 15), LiteralExpr (at_column 4) (L_Token (BoolLit True))] [])]
      (at_column 5) []]\<rparr>"

lemma pico_pin_15: "profile_pin pico (numbered ''GP'' 15) p = Inr (bp_id pico, snd (pico_pin (15, 20)))"
proof -
  have "(15, 20) \<in> set PICO_PHYSICAL" by (simp add: PICO_PHYSICAL_def)
  then show ?thesis by (simp add: profile_pin_def pico_def pico_pins pico_alias)
qed

lemma blink_accepted: "validate_program blink (U ''raspberry_pi_pico'') = Inr pico"
proof -
  have "profile_named (U ''raspberry_pi_pico'') = Some pico"
    by (simp add: profile_named_def BOARD_PROFILES_def pico_def) (simp add: pico_profile_def Let_def)
  moreover have "U ''digital_output'' \<in> set (pd_caps (snd (pico_pin (15, 20))))"
    by (simp add: pico_pin_def Let_def mk_pin_def DIGITAL_def)
  ultimately show ?thesis
    by (simp add: validate_program_def blink_def walk_value_def walk_expr.simps check_node_def check_call_def check_select_def
        check_pin_call_def requirements_def pico_pin_15 required_capability_def second_literal_def check_bus_call_def BUS_ROLES_def)
qed

lemma validated_programs_fit_board_witness:
  "validate_program blink (U ''raspberry_pi_pico'') = Inr pico \<and>
   (\<exists>d. pin_member (numbered ''GP'' 15) (at_column 3) pico_context = (Done (Pin d), pico_context) \<and>
     require_pin (Pin d) (U ''digital_output'') (at_column 2) pico_context = (Done d, pico_context))"
proof -
  let ?e = "CallExpr (at_column 2) (U ''gpio_write'') [MemberExpr (at_column 3) (VariableExpr (at_column 3) (U ''pin'')) (numbered ''GP'' 15),
    LiteralExpr (at_column 4) (L_Token (BoolLit True))] []"
  have call: "?e \<in> set (program_exprs blink)"
    by (simp add: program_exprs_def blink_def, subst sub_exprs.simps) simp
  have "map_of requirements (U ''gpio_write'') = Some (Some (U ''digital_output''))" by (simp add: requirements_def)
  with validated_programs_fit_board [OF blink_accepted call example_facts(3), THEN conjunct2, THEN conjunct2, THEN conjunct1,
      rule_format, OF conjI [OF refl]] blink_accepted
  show ?thesis by simp
qed

end
