(* ===== verification/Cookies.thy ===== *)
theory Cookies
  imports Runtime
begin

section \<open>Secrets and cookie jars\<close>

text \<open>
  The values of \<open>auth.py\<close> that the HTTP client sends (secrets and the authentication constructors)
  and \<open>cookies.py\<close>: a jar is the state, every operation takes and leaves it. A jar reads the clock
  whenever the source does (\<open>clock\<close> on the number of readings so far, in seconds). The parsers of Python's
  library for \<open>Set-Cookie\<close> headers and HTTP dates are parameters. The values of these modules are handles for
  the rest of the model; here they carry what the source's dataclasses carry.
\<close>

subsection \<open>Secrets and authentication\<close>

record http_auth =
  au_kind :: ustr
  au_name :: ustr
  au_value :: "nat list"
  au_location :: ustr

datatype client_value = Value sep_value | Secret "nat list" | Auth http_auth

type_synonym 'a attempt = "exn + 'a"

abbreviation denied :: "nat \<Rightarrow> string \<Rightarrow> source_position \<Rightarrow> exn" where
  "denied code category p \<equiv> Sep (mk_error code category p)"

definition text_bytes :: "ustr \<Rightarrow> nat list attempt" where
  "text_bytes s = (case encode_text UTF_8 s of None \<Rightarrow> Inl Crash | Some b \<Rightarrow> Inr b)"

definition secret_bytes :: "source_position \<Rightarrow> client_value \<Rightarrow> nat list attempt" where
  "secret_bytes p v =
     (case v of
        Secret b \<Rightarrow> Inr b
      | Value (VBytes b) \<Rightarrow> Inr b
      | Value (VStr s) \<Rightarrow> text_bytes s
      | _ \<Rightarrow> Inl (Sep (type_error p)))"

definition basic_auth :: "source_position \<Rightarrow> client_value list \<Rightarrow> http_auth attempt" where
  "basic_auth p args =
     (case args ! 0 of
        Value (VStr user) \<Rightarrow>
          if 58 \<in> set user then Inl (denied 872 ''Invalid Basic auth username'' p)
          else bind_sum (secret_bytes p (args ! 1)) (\<lambda>password. bind_sum (text_bytes user) (\<lambda>u.
            Inr \<lparr>au_kind = U ''basic'', au_name = U ''Authorization'',
              au_value = U ''Basic '' @ b64_encode (u @ [58] @ password), au_location = U ''header''\<rparr>))
      | _ \<Rightarrow> Inl (denied 872 ''Invalid Basic auth username'' p))"

definition bearer_auth :: "source_position \<Rightarrow> client_value list \<Rightarrow> http_auth attempt" where
  "bearer_auth p args =
     bind_sum (secret_bytes p (args ! 0)) (\<lambda>token.
     if token = [] \<or> list_ex (\<lambda>b. b < 33 \<or> 126 < b) token then Inl (denied 872 ''Invalid bearer token'' p)
     else Inr \<lparr>au_kind = U ''bearer'', au_name = U ''Authorization'', au_value = U ''Bearer '' @ token, au_location = U ''header''\<rparr>)"

definition api_key_auth :: "source_position \<Rightarrow> client_value list \<Rightarrow> (ustr \<times> client_value) list \<Rightarrow> http_auth attempt" where
  "api_key_auth p args named =
     (case args ! 0 of
        Value (VStr name) \<Rightarrow>
          if name = [] \<or> list_ex (\<lambda>c. c < 33) name then Inl (denied 872 ''Invalid API key name'' p)
          else (case (case map_of named (U ''location'') of None \<Rightarrow> Value (VStr (U ''header'')) | Some l \<Rightarrow> l) of
              Value (VStr l) \<Rightarrow>
                if l \<in> {U ''header'', U ''query''} then
                  bind_sum (secret_bytes p (args ! 1)) (\<lambda>b.
                  Inr \<lparr>au_kind = U ''api_key'', au_name = name, au_value = b, au_location = l\<rparr>)
                else Inl (denied 872 ''Invalid API key location'' p)
            | _ \<Rightarrow> Inl (denied 872 ''Invalid API key location'' p))
      | _ \<Rightarrow> Inl (denied 872 ''Invalid API key name'' p))"

subsection \<open>Jars\<close>

record cookie =
  ck_name :: ustr
  ck_value :: "nat list"
  ck_domain :: "ustr option"
  ck_path :: ustr
  ck_expires :: "b64 option"
  ck_secure :: bool
  ck_http_only :: bool
  ck_same_site :: "ustr option"
  ck_host_only :: bool
  ck_order :: nat

record jar =
  cj_cookies :: "cookie list"
  cj_counter :: nat
  cj_ticks :: nat

type_synonym 'a cookie_comp = "(jar, exn, 'a) sem"

definition now :: "(nat \<Rightarrow> b64) \<Rightarrow> b64 cookie_comp" where
  "now clock = andthen (reads cj_ticks) (\<lambda>n. andthen (modifies (\<lambda>j. j\<lparr>cj_ticks := Suc n\<rparr>)) (\<lambda>_. ret (clock n)))"

definition empty_jar :: jar where "empty_jar = \<lparr>cj_cookies = [], cj_counter = 0, cj_ticks = 0\<rparr>"

text \<open>The separators \<open>()<>@,;:\"/[]?={}\<close> with backslash, space, tab, CR and LF.\<close>

definition unsafe_name_chars :: ustr where
  "unsafe_name_chars = [40, 41, 60, 62, 64, 44, 59, 58, 92, 34, 47, 91, 93, 63, 61, 123, 125, 32, 9, 13, 10]"

definition safe_name :: "source_position \<Rightarrow> client_value \<Rightarrow> ustr attempt" where
  "safe_name p v =
     (case v of
        Value (VStr name) \<Rightarrow>
          if name = [] \<or> list_ex (\<lambda>c. c \<in> set unsafe_name_chars) name then Inl (denied 880 ''Invalid cookie name'' p)
          else Inr name
      | _ \<Rightarrow> Inl (denied 880 ''Invalid cookie name'' p))"

definition safe_byte :: "nat \<Rightarrow> bool" where
  "safe_byte b \<longleftrightarrow> 33 \<le> b \<and> b \<le> 126 \<and> b \<noteq> 59 \<and> b \<noteq> 44"

definition safe_value :: "source_position \<Rightarrow> client_value \<Rightarrow> nat list attempt" where
  "safe_value p v =
     bind_sum (secret_bytes p v) (\<lambda>raw.
     if list_all safe_byte raw then Inr raw else Inl (denied 880 ''Invalid cookie value'' p))"

definition cookie_key :: "cookie \<Rightarrow> ustr \<times> ustr option \<times> ustr" where
  "cookie_key c = (ck_name c, ck_domain c, ck_path c)"

definition unexpired :: "b64 \<Rightarrow> cookie \<Rightarrow> bool" where
  "unexpired t c = (case ck_expires c of None \<Rightarrow> True | Some e \<Rightarrow> less64 t e)"

definition store :: "(nat \<Rightarrow> b64) \<Rightarrow> cookie \<Rightarrow> unit cookie_comp" where
  "store clock c =
     andthen (modifies (\<lambda>j. j\<lparr>cj_cookies := filter (\<lambda>d. cookie_key d \<noteq> cookie_key c) (cj_cookies j)\<rparr>)) (\<lambda>_.
     andthen (if ck_expires c = None then ret True else andthen (now clock) (\<lambda>t. ret (unexpired t c))) (\<lambda>keep.
     if keep then modifies (\<lambda>j. j\<lparr>cj_cookies := cj_cookies j @ [c]\<rparr>) else ret ()))"

definition next_order :: "nat cookie_comp" where
  "next_order = andthen (modifies (\<lambda>j. j\<lparr>cj_counter := Suc (cj_counter j)\<rparr>)) (\<lambda>_. reads cj_counter)"

text \<open>Storing a cookie with the next number.\<close>

definition store_new :: "(nat \<Rightarrow> b64) \<Rightarrow> (nat \<Rightarrow> cookie) \<Rightarrow> unit cookie_comp" where
  "store_new clock c = andthen next_order (\<lambda>n. store clock (c n))"

definition optional :: "(ustr \<times> client_value) list \<Rightarrow> string \<Rightarrow> client_value \<Rightarrow> client_value" where
  "optional named k d = (case map_of named (U k) of None \<Rightarrow> d | Some v \<Rightarrow> v)"

definition without_dots :: "ustr \<Rightarrow> ustr" where "without_dots s = dropWhile (\<lambda>c. c = 46) s"

text \<open>The options of \<open>cookie_set\<close>: domain (an omitted one and an empty text give none), path, flags, SameSite.\<close>

definition cookie_options ::
  "host \<Rightarrow> source_position \<Rightarrow> (ustr \<times> client_value) list \<Rightarrow> (ustr option \<times> bool \<times> ustr \<times> bool \<times> bool \<times> ustr) attempt" where
  "cookie_options h p named =
     bind_sum (case map_of named (U ''domain'') of
         None \<Rightarrow> Inr None | Some (Value (VStr d)) \<Rightarrow> Inr (Some d) | Some _ \<Rightarrow> Inl (Sep (type_error p))) (\<lambda>domain.
     bind_sum (case optional named ''path'' (Value (VStr (U ''/''))) of
         Value (VStr path) \<Rightarrow> if starts_with path (U ''/'') then Inr path else Inl (denied 880 ''Invalid cookie path'' p)
       | _ \<Rightarrow> Inl (denied 880 ''Invalid cookie path'' p)) (\<lambda>path.
     bind_sum (case (optional named ''secure'' (Value (VBool False)), optional named ''http_only'' (Value (VBool True))) of
         (Value (VBool s), Value (VBool o')) \<Rightarrow> Inr (s, o') | _ \<Rightarrow> Inl (Sep (type_error p))) (\<lambda>(secure, http_only).
     bind_sum (case optional named ''same_site'' (Value (VStr (U ''Lax''))) of
         Value (VStr s) \<Rightarrow> if s \<in> {U ''Strict'', U ''Lax'', U ''None''} then Inr s else Inl (denied 880 ''Invalid SameSite'' p)
       | _ \<Rightarrow> Inl (denied 880 ''Invalid SameSite'' p)) (\<lambda>same_site.
     if same_site = U ''None'' \<and> \<not> secure then Inl (denied 880 ''Unsafe SameSite=None'' p)
     else Inr (case domain of None \<Rightarrow> None | Some d \<Rightarrow> if d = [] then None else Some (without_dots (h_lower h d)),
               domain = None, path, secure, http_only, same_site)))))"

definition cookie_set ::
  "host \<Rightarrow> (nat \<Rightarrow> b64) \<Rightarrow> source_position \<Rightarrow> client_value \<Rightarrow> client_value \<Rightarrow> (ustr \<times> client_value) list \<Rightarrow> unit cookie_comp" where
  "cookie_set h clock p name v named =
     andthen (lift_sum (safe_name p name)) (\<lambda>n.
     andthen (lift_sum (safe_value p v)) (\<lambda>raw.
     andthen (lift_sum (cookie_options h p named)) (\<lambda>(domain, host_only, path, secure, http_only, same_site).
     store_new clock (\<lambda>order. \<lparr>ck_name = n, ck_value = raw, ck_domain = domain, ck_path = path, ck_expires = None, ck_secure = secure,
       ck_http_only = http_only, ck_same_site = Some same_site, ck_host_only = host_only, ck_order = order\<rparr>))))"

text \<open>\<open>_live\<close>: drop what has expired, keep the rest; one reading of the clock.\<close>

definition live :: "(nat \<Rightarrow> b64) \<Rightarrow> cookie list cookie_comp" where
  "live clock =
     andthen (now clock) (\<lambda>t.
     andthen (modifies (\<lambda>j. j\<lparr>cj_cookies := filter (unexpired t) (cj_cookies j)\<rparr>)) (\<lambda>_.
     reads cj_cookies))"

fun newest :: "cookie \<Rightarrow> cookie list \<Rightarrow> cookie" where
  "newest c [] = c"
| "newest c (d # ds) = newest (if ck_order c < ck_order d then d else c) ds"

text \<open>\<open>None\<close> is the EMPTY of a secret.\<close>

definition cookie_get :: "(nat \<Rightarrow> b64) \<Rightarrow> source_position \<Rightarrow> client_value \<Rightarrow> nat list option cookie_comp" where
  "cookie_get clock p name =
     andthen (lift_sum (safe_name p name)) (\<lambda>n.
     andthen (live clock) (\<lambda>cs.
     ret (case filter (\<lambda>c. ck_name c = n) cs of [] \<Rightarrow> None | d # ds \<Rightarrow> Some (ck_value (newest d ds)))))"

definition cookie_remove :: "source_position \<Rightarrow> client_value \<Rightarrow> unit cookie_comp" where
  "cookie_remove p name =
     andthen (lift_sum (safe_name p name)) (\<lambda>n.
     modifies (\<lambda>j. j\<lparr>cj_cookies := filter (\<lambda>c. ck_name c \<noteq> n) (cj_cookies j)\<rparr>))"

definition cookie_clear :: "unit cookie_comp" where
  "cookie_clear = modifies (\<lambda>j. j\<lparr>cj_cookies := []\<rparr>)"

definition cookie_all :: "(nat \<Rightarrow> b64) \<Rightarrow> (ustr \<times> nat list) list cookie_comp" where
  "cookie_all clock =
     andthen (live clock) (\<lambda>cs.
     ret (foldl (\<lambda>d c. dict_set d (ck_name c) (ck_value c)) [] (sort_key ck_order cs)))"

subsection \<open>Sending\<close>

text \<open>The parts of a URL that Python's \<open>urlsplit\<close> gives; reading a port that is no number raises (\<open>None\<close>).\<close>

record url_parts =
  ur_scheme :: ustr
  ur_netloc :: ustr
  ur_host :: "ustr option"
  ur_port :: "nat option option"
  ur_username :: "ustr option"
  ur_password :: "ustr option"
  ur_path :: ustr
  ur_query :: ustr
  ur_fragment :: ustr

definition domain_match :: "ustr \<Rightarrow> cookie \<Rightarrow> bool" where
  "domain_match name c =
     (case ck_domain c of
        None \<Rightarrow> True
      | Some d \<Rightarrow> if ck_host_only c then name = d else name = d \<or> ends_with name (U ''.'' @ d))"

definition without_slashes :: "ustr \<Rightarrow> ustr" where "without_slashes s = rev (dropWhile (\<lambda>c. c = 47) (rev s))"

definition path_match :: "ustr \<Rightarrow> ustr \<Rightarrow> bool" where
  "path_match path cookie_path \<longleftrightarrow> path = cookie_path \<or> starts_with path (without_slashes cookie_path @ U ''/'')"

definition bind_domain :: "ustr \<Rightarrow> cookie \<Rightarrow> cookie" where
  "bind_domain name c = (if ck_domain c = None then c\<lparr>ck_domain := Some name, ck_host_only := True\<rparr> else c)"

definition sends_to :: "url_parts \<Rightarrow> ustr \<Rightarrow> ustr \<Rightarrow> cookie \<Rightarrow> bool" where
  "sends_to url name path c \<longleftrightarrow>
     domain_match name c \<and> path_match path (ck_path c) \<and> (\<not> ck_secure c \<or> ur_scheme url = U ''https'')"

definition url_path :: "url_parts \<Rightarrow> ustr" where
  "url_path url = (if ur_path url = [] then U ''/'' else ur_path url)"

text \<open>The order of a stable sort by the length of the path, longest first, and then by creation.\<close>

definition sending_order :: "cookie list \<Rightarrow> cookie list" where
  "sending_order cs = sort_key (\<lambda>c. - int (length (ck_path c))) (sort_key ck_order cs)"

definition cookie_text :: "cookie \<Rightarrow> ustr option" where
  "cookie_text c = map_option (\<lambda>s. ck_name c @ U ''='' @ s) (decode_bytes ASCII (ck_value c))"

text \<open>A URL without a host has no \<open>lower()\<close>, and a value that is not ASCII cannot be decoded: crashes.\<close>

definition cookie_header :: "host \<Rightarrow> (nat \<Rightarrow> b64) \<Rightarrow> url_parts \<Rightarrow> ustr cookie_comp" where
  "cookie_header h clock url =
     (case ur_host url of
        None \<Rightarrow> raise Crash
      | Some host_text \<Rightarrow>
          let name = h_lower h host_text in
          andthen (live clock) (\<lambda>_.
          andthen (modifies (\<lambda>j. j\<lparr>cj_cookies := map (bind_domain name) (cj_cookies j)\<rparr>)) (\<lambda>_.
          andthen (reads cj_cookies) (\<lambda>cs.
          case those (map cookie_text (sending_order (filter (sends_to url name (url_path url)) cs))) of
            None \<Rightarrow> raise Crash
          | Some parts \<Rightarrow> ret (join_with (U ''; '') parts)))))"

subsection \<open>Receiving\<close>

record morsel =
  mo_value :: ustr
  mo_domain :: ustr
  mo_path :: ustr
  mo_max_age :: ustr
  mo_expires :: ustr
  mo_same_site :: ustr
  mo_secure :: bool
  mo_http_only :: bool

record cookie_library =
  cl_load :: "ustr \<Rightarrow> (ustr \<times> morsel) list option"
  cl_date :: "ustr \<Rightarrow> b64 option"

text \<open>Python's \<open>int\<close> of a text (the header is Latin-1, where only the ASCII digits are decimal digits).\<close>

definition python_int :: "ustr \<Rightarrow> int option" where
  "python_int s =
     (let t = rstrip (lstrip s); signed = starts_with t (U ''-'') \<or> starts_with t (U ''+'');
          body = (if signed then drop 1 t else t)
      in if valid_digits is_digit body
         then Some ((if starts_with t (U ''-'') then - 1 else 1) * int (digits_value 10 (strip_underscores body)))
         else None)"

definition capitalize :: "host \<Rightarrow> ustr \<Rightarrow> ustr" where
  "capitalize h s = (case s of [] \<Rightarrow> [] | c # r \<Rightarrow> h_upper h [c] @ h_lower h r)"

text \<open>\<open>timestamp() + int(...)\<close>: an integer beyond the floats raises OverflowError, which nothing catches.\<close>

definition expiry ::
  "cookie_library \<Rightarrow> (nat \<Rightarrow> b64) \<Rightarrow> source_position \<Rightarrow> morsel \<Rightarrow> b64 option cookie_comp" where
  "expiry lib clock p m =
     (if mo_max_age m \<noteq> [] then
        andthen (now clock) (\<lambda>t.
        case python_int (mo_max_age m) of
          None \<Rightarrow> raise (denied 881 ''Invalid Set-Cookie Max-Age'' p)
        | Some i \<Rightarrow> (case of_int64 i of None \<Rightarrow> raise Crash | Some x \<Rightarrow> ret (Some (add64 t x))))
      else if mo_expires m \<noteq> [] then
        (case cl_date lib (mo_expires m) of
           None \<Rightarrow> raise (denied 881 ''Invalid Set-Cookie Expires'' p) | Some x \<Rightarrow> ret (Some x))
      else ret None)"

definition received_same_site :: "host \<Rightarrow> source_position \<Rightarrow> morsel \<Rightarrow> ustr option attempt" where
  "received_same_site h p m =
     (if mo_same_site m = [] then Inr None
      else let s = capitalize h (mo_same_site m) in
        if s \<notin> {U ''Strict'', U ''Lax'', U ''None''} then Inl (denied 881 ''Invalid Set-Cookie SameSite'' p)
        else if s = U ''None'' \<and> \<not> mo_secure m then Inl (denied 881 ''Unsafe Set-Cookie'' p)
        else Inr (Some s))"

definition default_path :: "ustr \<Rightarrow> ustr" where
  "default_path path =
     (let d = (if 47 \<in> set path then rev (drop 1 (dropWhile (\<lambda>c. c \<noteq> 47) (rev path))) else path)
      in if d = [] then U ''/'' else d)"

definition morsel_domain :: "host \<Rightarrow> ustr \<Rightarrow> morsel \<Rightarrow> ustr" where
  "morsel_domain h name m = (if mo_domain m \<noteq> [] then without_dots (h_lower h (mo_domain m)) else name)"

definition receive_morsel ::
  "host \<Rightarrow> cookie_library \<Rightarrow> (nat \<Rightarrow> b64) \<Rightarrow> source_position \<Rightarrow> ustr \<Rightarrow> ustr \<Rightarrow> ustr \<times> morsel \<Rightarrow> (ustr \<times> nat list) cookie_comp" where
  "receive_morsel h lib clock p name path = (\<lambda>(n, m).
     andthen (lift_sum (safe_name p (Value (VStr n)))) (\<lambda>_.
     if \<not> list_all is_ascii (mo_value m) then raise (denied 881 ''Invalid Set-Cookie value'' p)
     else
       let domain = morsel_domain h name m in
       if \<not> (name = domain \<or> ends_with name (U ''.'' @ domain)) then raise (denied 881 ''Invalid Set-Cookie domain'' p)
       else
         andthen (expiry lib clock p m) (\<lambda>expires.
         andthen (lift_sum (received_same_site h p m)) (\<lambda>same_site.
         andthen (store_new clock (\<lambda>order. \<lparr>ck_name = n, ck_value = mo_value m, ck_domain = Some domain,
             ck_path = (if mo_path m \<noteq> [] then mo_path m else default_path path), ck_expires = expires,
             ck_secure = mo_secure m, ck_http_only = mo_http_only m, ck_same_site = same_site,
             ck_host_only = (mo_domain m = []), ck_order = order\<rparr>)) (\<lambda>_.
         ret (n, mo_value m))))))"

definition receive_header ::
  "host \<Rightarrow> cookie_library \<Rightarrow> (nat \<Rightarrow> b64) \<Rightarrow> source_position \<Rightarrow> ustr \<Rightarrow> ustr \<Rightarrow> ustr \<Rightarrow> (ustr \<times> nat list) list cookie_comp" where
  "receive_header h lib clock p name path header =
     (case cl_load lib header of
        None \<Rightarrow> raise (denied 881 ''Invalid Set-Cookie'' p)
      | Some items \<Rightarrow> map_sem (receive_morsel h lib clock p name path) items)"

definition receive_cookies ::
  "host \<Rightarrow> cookie_library \<Rightarrow> (nat \<Rightarrow> b64) \<Rightarrow> source_position \<Rightarrow> url_parts \<Rightarrow> ustr list \<Rightarrow> (ustr \<times> nat list) list cookie_comp" where
  "receive_cookies h lib clock p url headers =
     (case ur_host url of
        None \<Rightarrow> raise Crash
      | Some host_text \<Rightarrow>
          andthen (map_sem (receive_header h lib clock p (h_lower h host_text) (ur_path url)) headers) (\<lambda>received.
          ret (foldl (\<lambda>d (n, v). dict_set d n v) [] (concat received))))"

subsection \<open>Reading a header back\<close>

text \<open>What the HTTP client does with the text of a jar: split it at the separators and every part at
  its first \<open>=\<close>; a part without one raises IndexError (\<open>None\<close>).\<close>

definition cookie_pair :: "ustr \<Rightarrow> (ustr \<times> ustr) option" where
  "cookie_pair part =
     (if 61 \<in> set part then Some (takeWhile (\<lambda>c. c \<noteq> 61) part, drop 1 (dropWhile (\<lambda>c. c \<noteq> 61) part)) else None)"

definition cookie_pairs :: "ustr \<Rightarrow> (ustr \<times> ustr) list option" where
  "cookie_pairs t = those (map cookie_pair (filter (\<lambda>x. x \<noteq> []) (split_text (U ''; '') t)))"

definition proper_cookie :: "cookie \<Rightarrow> bool" where
  "proper_cookie c \<longleftrightarrow> ck_name c \<noteq> [] \<and> set (ck_name c) \<inter> set unsafe_name_chars = {} \<and> list_all safe_byte (ck_value c)"

definition jar_ok :: "jar \<Rightarrow> bool" where
  "jar_ok j \<longleftrightarrow> (\<forall>c \<in> set (cj_cookies j). ck_order c \<le> cj_counter j) \<and> distinct (map ck_order (cj_cookies j))"

definition jar_proper :: "jar \<Rightarrow> bool" where
  "jar_proper j \<longleftrightarrow> list_all proper_cookie (cj_cookies j)"

lemma separator: "U ''; '' = [59, 32]"
  by (simp add: U.simps)

lemma find_sub_semicolon:
  assumes "59 \<notin> set s"
  shows "find_sub [59, 32] (s @ 59 # 32 # r) = Some (length s)" and "find_sub [59, 32] s = None"
  using assms by (induction s) (auto simp: find_sub.simps [of "[59, 32]"])

lemma split_joined:
  "parts \<noteq> [] \<Longrightarrow> \<forall>x \<in> set parts. 59 \<notin> set x \<Longrightarrow> split_text [59, 32] (join_with [59, 32] parts) = parts"
proof (induction "[59, 32] :: ustr" parts rule: join_with.induct)
  case (2 x)
  then show ?case by (simp add: split_text.simps [of "[59, 32]" x] find_sub_semicolon)
next
  case (3 x y r)
  let ?s = "x @ 59 # 32 # join_with [59, 32] (y # r)"
  have "find_sub [59, 32] ?s = Some (length x)" using 3(3) by (simp add: find_sub_semicolon)
  then show ?case using 3 by (simp add: split_text.simps [of "[59, 32]" ?s])
qed simp

lemma proper_cookie_text:
  assumes "proper_cookie c"
  shows "cookie_text c = Some (ck_name c @ 61 # ck_value c)" and "59 \<notin> set (ck_name c @ 61 # ck_value c)"
    and "cookie_pair (ck_name c @ 61 # ck_value c) = Some (ck_name c, ck_value c)"
proof -
  have ascii: "list_all is_ascii (ck_value c)" and bytes: "59 \<notin> set (ck_value c)"
    using assms by (auto simp: proper_cookie_def list_all_iff safe_byte_def is_ascii_def)
  have name: "59 \<notin> set (ck_name c)" "61 \<notin> set (ck_name c)"
    using assms by (auto simp: proper_cookie_def unsafe_name_chars_def)
  show "cookie_text c = Some (ck_name c @ 61 # ck_value c)"
    by (simp add: cookie_text_def decode_bytes_def ascii U.simps)
  show "59 \<notin> set (ck_name c @ 61 # ck_value c)" using name bytes by simp
  have "takeWhile (\<lambda>x. x \<noteq> 61) (n @ 61 # v) = n \<and> dropWhile (\<lambda>x. x \<noteq> 61) (n @ 61 # v) = 61 # v"
    if "61 \<notin> set n" for n v :: "nat list"
    using that by (induction n) auto
  with name(2) show "cookie_pair (ck_name c @ 61 # ck_value c) = Some (ck_name c, ck_value c)"
    by (simp add: cookie_pair_def)
qed

lemma proper_cookie_pairs:
  assumes "list_all proper_cookie cs"
  shows "\<exists>parts. those (map cookie_text cs) = Some parts \<and>
    cookie_pairs (join_with (U ''; '') parts) = Some (map (\<lambda>c. (ck_name c, ck_value c)) cs)"
proof -
  let ?parts = "map (\<lambda>c. ck_name c @ 61 # ck_value c) cs"
  have "those (map cookie_text cs) = Some ?parts"
    using assms by (induction cs) (auto simp: proper_cookie_text)
  moreover have "cookie_pairs (join_with (U ''; '') ?parts) = Some (map (\<lambda>c. (ck_name c, ck_value c)) cs)"
  proof (cases "cs = []")
    case True
    then show ?thesis by (simp add: cookie_pairs_def separator split_text.simps find_sub.simps)
  next
    case False
    have "split_text (U ''; '') (join_with (U ''; '') ?parts) = ?parts"
      unfolding separator by (rule split_joined) (use assms False proper_cookie_text(2) in \<open>auto simp: list_all_iff\<close>)
    moreover have "filter (\<lambda>x. x \<noteq> []) ?parts = ?parts" by (simp add: filter_id_conv)
    moreover have "those (map cookie_pair ?parts) = Some (map (\<lambda>c. (ck_name c, ck_value c)) cs)"
      using assms by (induction cs) (simp_all add: proper_cookie_text(3))
    ultimately show ?thesis by (simp only: cookie_pairs_def)
  qed
  ultimately show ?thesis by blast
qed

subsection \<open>Invariants of a jar\<close>

text \<open>What a computation keeps of the jar, however it ends.\<close>

definition keeps :: "(jar \<Rightarrow> bool) \<Rightarrow> 'a cookie_comp \<Rightarrow> bool" where
  "keeps P m \<longleftrightarrow> (\<forall>j. P j \<longrightarrow> post m (\<lambda>a. P) (\<lambda>e. P) False j)"

named_theorems keeps_intros

lemma keepsD: "keeps P m \<Longrightarrow> P j \<Longrightarrow> m j = (r, j') \<Longrightarrow> P j' \<and> r \<noteq> NoFuel"
  by (cases r) (auto simp: keeps_def post_def split: outcome.splits dest!: spec [of _ j])

lemma keeps_basic [keeps_intros]:
  "keeps P (ret a)" "keeps P (raise e)" "keeps P (reads f)" "keeps P (lift_sum x)"
  by (auto simp: keeps_def split: sum.split)

lemma keeps_andthen [keeps_intros]: "keeps P m \<Longrightarrow> (\<And>a. keeps P (f a)) \<Longrightarrow> keeps P (andthen m f)"
  unfolding keeps_def post_andthen by (blast intro: post_mono)

lemma keeps_modifies [keeps_intros]: "(\<And>j. P j \<Longrightarrow> P (f j)) \<Longrightarrow> keeps P (modifies f)"
  by (auto simp: keeps_def)

lemma keeps_if [keeps_intros]: "(b \<Longrightarrow> keeps P m) \<Longrightarrow> (\<not> b \<Longrightarrow> keeps P k) \<Longrightarrow> keeps P (if b then m else k)"
  by auto

lemma keeps_map_sem [keeps_intros]: "(\<And>x. keeps P (f x)) \<Longrightarrow> keeps P (map_sem f xs)"
  by (induction xs) (auto intro!: keeps_intros)

lemma keeps_now [keeps_intros]: "(\<And>j n. P j \<Longrightarrow> P (j\<lparr>cj_ticks := n\<rparr>)) \<Longrightarrow> keeps P (now clock)"
  unfolding now_def by (intro keeps_intros) auto

lemma ok_simps [simp]:
  "jar_ok (j\<lparr>cj_ticks := n\<rparr>) = jar_ok j" "jar_proper (j\<lparr>cj_ticks := n\<rparr>) = jar_proper j"
  by (auto simp: jar_ok_def jar_proper_def)

lemma ok_filter: "jar_ok j \<Longrightarrow> jar_ok (j\<lparr>cj_cookies := filter f (cj_cookies j)\<rparr>)"
  "jar_proper j \<Longrightarrow> jar_proper (j\<lparr>cj_cookies := filter f (cj_cookies j)\<rparr>)"
  by (auto simp: jar_ok_def jar_proper_def list_all_iff distinct_map_filter)

lemma proper_bind: "proper_cookie (bind_domain name c) = proper_cookie c"
  by (simp add: proper_cookie_def bind_domain_def)

lemma ok_bind: "jar_ok j \<Longrightarrow> jar_ok (j\<lparr>cj_cookies := map (bind_domain name) (cj_cookies j)\<rparr>)"
  "jar_proper j \<Longrightarrow> jar_proper (j\<lparr>cj_cookies := map (bind_domain name) (cj_cookies j)\<rparr>)"
proof -
  have "ck_order \<circ> bind_domain name = ck_order" by (auto simp: bind_domain_def)
  then show "jar_ok j \<Longrightarrow> jar_ok (j\<lparr>cj_cookies := map (bind_domain name) (cj_cookies j)\<rparr>)"
    by (auto simp: jar_ok_def bind_domain_def)
  show "jar_proper j \<Longrightarrow> jar_proper (j\<lparr>cj_cookies := map (bind_domain name) (cj_cookies j)\<rparr>)"
    by (simp add: jar_proper_def list.pred_map o_def proper_bind)
qed

lemma keeps_live [keeps_intros]: "keeps jar_ok (live clock)" "keeps jar_proper (live clock)"
  unfolding live_def by (intro keeps_intros; simp add: ok_filter)+

lemma keeps_store_new [keeps_intros]:
  assumes "\<And>n. ck_order (c n) = n"
  shows "keeps jar_ok (store_new clock c)"
  unfolding keeps_def
proof (intro allI impI)
  fix j assume j: "jar_ok j"
  let ?n = "Suc (cj_counter j)"
  have added: "jar_ok (j\<lparr>cj_counter := ?n, cj_cookies := filter f (cj_cookies j) @ [c ?n]\<rparr>)"
      "jar_ok (j\<lparr>cj_counter := ?n, cj_ticks := t, cj_cookies := filter f (cj_cookies j) @ [c ?n]\<rparr>)"
    and dropped: "jar_ok (j\<lparr>cj_counter := ?n, cj_cookies := filter f (cj_cookies j)\<rparr>)"
      "jar_ok (j\<lparr>cj_counter := ?n, cj_cookies := filter f (cj_cookies j), cj_ticks := t\<rparr>)" for f t
    using j assms by (fastforce simp: jar_ok_def distinct_map_filter)+
  show "post (store_new clock c) (\<lambda>_. jar_ok) (\<lambda>_. jar_ok) False j"
    using added dropped by (auto simp: store_new_def next_order_def store_def now_def)
qed

lemma keeps_store_proper [keeps_intros]:
  assumes "\<And>n. proper_cookie (c n)"
  shows "keeps jar_proper (store_new clock c)"
  unfolding store_new_def next_order_def store_def
  by (intro keeps_intros) (use assms in \<open>auto simp: jar_proper_def list_all_iff\<close>)

lemma keeps_checked [keeps_intros]: "(\<And>a. x = Inr a \<Longrightarrow> keeps P (f a)) \<Longrightarrow> keeps P (andthen (lift_sum x) f)"
  by (auto simp: keeps_def split: sum.split)

lemma keeps_option [keeps_intros]:
  "keeps P m \<Longrightarrow> (\<And>a. x = Some a \<Longrightarrow> keeps P (f a)) \<Longrightarrow> keeps P (case x of None \<Rightarrow> m | Some a \<Rightarrow> f a)"
  by (cases x) auto

lemma keeps_prod [keeps_intros]: "(\<And>a b. x = (a, b) \<Longrightarrow> keeps P (f a b)) \<Longrightarrow> keeps P (case x of (a, b) \<Rightarrow> f a b)"
  by (cases x) auto

lemma jar_ok_empty: "jar_ok (j\<lparr>cj_cookies := []\<rparr>)" "jar_proper (j\<lparr>cj_cookies := []\<rparr>)"
  by (simp_all add: jar_ok_def jar_proper_def)

lemma keeps_simple [keeps_intros]:
  "keeps jar_ok (cookie_get clock p name)" "keeps jar_proper (cookie_get clock p name)"
  "keeps jar_ok (cookie_remove p name)" "keeps jar_proper (cookie_remove p name)"
  "keeps jar_ok cookie_clear" "keeps jar_proper cookie_clear"
  "keeps jar_ok (cookie_all clock)" "keeps jar_proper (cookie_all clock)"
  "keeps jar_ok (cookie_header h clock url)" "keeps jar_proper (cookie_header h clock url)"
  unfolding cookie_get_def cookie_remove_def cookie_clear_def cookie_all_def cookie_header_def Let_def
  by (intro keeps_intros; simp add: ok_filter ok_bind jar_ok_empty)+

lemma keeps_cookie_set [keeps_intros]: "keeps jar_ok (cookie_set h clock p name v named)"
  unfolding cookie_set_def by (intro keeps_intros) simp

lemma safe_name_proper: "safe_name p v = Inr n \<Longrightarrow> n \<noteq> [] \<and> set n \<inter> set unsafe_name_chars = {}"
  by (auto simp: safe_name_def list_ex_iff split: client_value.splits sep_value.splits if_splits)

lemma keeps_cookie_set_proper [keeps_intros]: "keeps jar_proper (cookie_set h clock p name v named)"
  unfolding cookie_set_def
  by (intro keeps_intros) (auto simp: proper_cookie_def safe_value_def dest!: safe_name_proper split: if_splits)

lemma keeps_receive [keeps_intros]: "keeps jar_ok (receive_cookies h lib clock p url headers)"
proof -
  have expiry: "keeps jar_ok (expiry lib clock p m)" for m
    unfolding expiry_def by (intro keeps_intros) auto
  have "keeps jar_ok (receive_morsel h lib clock p name path item)" for name path item
    unfolding receive_morsel_def Let_def by (cases item) (auto intro!: keeps_intros expiry)
  then show ?thesis
    unfolding receive_cookies_def receive_header_def by (intro keeps_intros)
qed

text \<open>The jars a program can build without a response of a server: from an empty one, with any calls, to any URLs.\<close>

inductive own_jar :: "host \<Rightarrow> (nat \<Rightarrow> b64) \<Rightarrow> jar \<Rightarrow> bool" for h clock where
  "own_jar h clock empty_jar"
| "own_jar h clock j \<Longrightarrow> cookie_set h clock p name v named j = (r, j') \<Longrightarrow> own_jar h clock j'"
| "own_jar h clock j \<Longrightarrow> cookie_get clock p name j = (r', j') \<Longrightarrow> own_jar h clock j'"
| "own_jar h clock j \<Longrightarrow> cookie_remove p name j = (r, j') \<Longrightarrow> own_jar h clock j'"
| "own_jar h clock j \<Longrightarrow> cookie_clear j = (r, j') \<Longrightarrow> own_jar h clock j'"
| "own_jar h clock j \<Longrightarrow> cookie_all clock j = (r'', j') \<Longrightarrow> own_jar h clock j'"
| "own_jar h clock j \<Longrightarrow> cookie_header h clock url j = (r3, j') \<Longrightarrow> own_jar h clock j'"

lemma keeps_both:
  "m j = (r, j') \<Longrightarrow> jar_ok j \<and> jar_proper j \<Longrightarrow> keeps jar_ok m \<Longrightarrow> keeps jar_proper m \<Longrightarrow> jar_ok j' \<and> jar_proper j'"
  using keepsD by blast

lemma own_jar_kept: "own_jar h clock j \<Longrightarrow> jar_ok j \<and> jar_proper j"
proof (induction rule: own_jar.induct)
  case 1
  then show ?case by (simp add: empty_jar_def jar_ok_def jar_proper_def)
qed (erule keeps_both; (assumption | rule keeps_simple keeps_cookie_set keeps_cookie_set_proper))+

subsection \<open>What is sent\<close>

lemma live_result:
  assumes "live clock j = (Done cs, j')"
  shows "cs = cj_cookies j' \<and> cj_cookies j' = filter (unexpired (clock (cj_ticks j))) (cj_cookies j)"
  using assms by (auto simp: live_def now_def andthen_def reads_def modifies_def ret_def)

lemma set_sending_order [simp]: "set (sending_order cs) = set cs"
  by (simp add: sending_order_def)

abbreviation "by_key f R \<equiv> \<lambda>a b. f a < f b \<or> f a = f b \<and> R a b"

lemma insort_lex:
  fixes f :: "'a \<Rightarrow> 'b::linorder"
  assumes "sorted_wrt (by_key f R) ys" and "\<forall>y \<in> set ys. R x y"
  shows "sorted_wrt (by_key f R) (insort_key f x ys)"
  using assms by (induction ys) (auto simp: set_insort_key intro: order_less_trans)

lemma sort_key_lex: "sorted_wrt R xs \<Longrightarrow> sorted_wrt (by_key f R) (sort_key f xs)"
proof (induction xs)
  case (Cons x xs)
  then have "sorted_wrt (by_key f R) (sort_key f xs)" and "\<forall>y \<in> set (sort_key f xs). R x y" by simp_all
  then show ?case unfolding sort_key_simps(2) by (rule insort_lex)
qed simp

lemma sending_order_sorted:
  "sorted_wrt (by_key (\<lambda>c. - int (length (ck_path c))) (\<lambda>c d. ck_order c \<le> ck_order d)) (sending_order cs)"
  unfolding sending_order_def using sorted_sort_key [of ck_order cs] unfolding sorted_map by (rule sort_key_lex)

lemma cookie_header_result:
  assumes "cookie_header h clock url j = (Done t, j')" and "ur_host url = Some host_text"
  shows "cj_cookies j' = map (bind_domain (h_lower h host_text)) (filter (unexpired (clock (cj_ticks j))) (cj_cookies j)) \<and>
    (\<exists>parts. those (map cookie_text (sending_order (filter (sends_to url (h_lower h host_text) (url_path url)) (cj_cookies j')))) =
       Some parts \<and> t = join_with (U ''; '') parts)"
  using assms
  by (auto simp: cookie_header_def Let_def live_def now_def andthen_def reads_def modifies_def ret_def raise_def split: option.splits)

lemma cookie_header_total:
  assumes "ur_host url = Some host_text" and "jar_proper j"
  shows "\<exists>t j'. cookie_header h clock url j = (Done t, j')"
proof -
  let ?n = "h_lower h host_text"
  let ?cs = "map (bind_domain ?n) (filter (unexpired (clock (cj_ticks j))) (cj_cookies j))"
  have "list_all proper_cookie (sending_order (filter (sends_to url ?n (url_path url)) ?cs))"
    using assms(2) by (auto simp: list_all_iff jar_proper_def proper_bind)
  then obtain parts where "those (map cookie_text (sending_order (filter (sends_to url ?n (url_path url)) ?cs))) = Some parts"
    using proper_cookie_pairs by blast
  then show ?thesis
    by (simp add: cookie_header_def Let_def live_def now_def andthen_def reads_def modifies_def ret_def assms(1))
qed

text \<open>
  C8. The text a jar of a program sends and what the HTTP client reads out of it agree: for every jar built by any
  calls of the cookie builtins, and every URL with a host, there is a header; split at the separators and at the
  first \<open>=\<close> of each part it gives exactly the names and values of the cookies that belong to the URL, each
  once, longer paths first and older cookies first among equally long ones. So no name or value a program can store
  changes the meaning of the header.
\<close>

theorem cookie_header_reads_back:
  assumes "own_jar h clock j" and "ur_host url = Some host_text"
  shows "\<exists>t j' cs. cookie_header h clock url j = (Done t, j') \<and>
    cookie_pairs t = Some (map (\<lambda>c. (ck_name c, ck_value c)) cs) \<and> distinct (map ck_order cs) \<and>
    set cs = {c \<in> set (cj_cookies j'). sends_to url (h_lower h host_text) (url_path url) c} \<and>
    sorted_wrt (by_key (\<lambda>c. - int (length (ck_path c))) (\<lambda>c d. ck_order c \<le> ck_order d)) cs"
proof -
  have ok: "jar_ok j \<and> jar_proper j" by (rule own_jar_kept [OF assms(1)])
  then obtain t j' where run: "cookie_header h clock url j = (Done t, j')"
    using cookie_header_total [OF assms(2)] by blast
  have ok': "jar_ok j' \<and> jar_proper j'"
    by (rule keeps_both [where m = "cookie_header h clock url", OF run ok]) (rule keeps_simple)+
  let ?cs = "sending_order (filter (sends_to url (h_lower h host_text) (url_path url)) (cj_cookies j'))"
  have "list_all proper_cookie ?cs" using ok' by (auto simp: list_all_iff jar_proper_def)
  with cookie_header_result [OF run assms(2)] proper_cookie_pairs [of ?cs]
  have "cookie_pairs t = Some (map (\<lambda>c. (ck_name c, ck_value c)) ?cs)" by auto
  moreover have "distinct (map ck_order ?cs)"
    using ok' by (simp add: sending_order_def jar_ok_def distinct_map distinct_filter inj_on_def)
  ultimately show ?thesis using run sending_order_sorted by (fastforce intro!: exI [of _ t] exI [of _ j'] exI [of _ ?cs])
qed

definition example_url :: "string \<Rightarrow> string \<Rightarrow> url_parts" where
  "example_url host_text path = \<lparr>ur_scheme = U ''https'', ur_netloc = U host_text, ur_host = Some (U host_text), ur_port = Some None,
     ur_username = None, ur_password = None, ur_path = U path, ur_query = [], ur_fragment = []\<rparr>"

definition plain_host :: host where
  "plain_host = \<lparr>h_tz = ascii_db, h_casefold = (\<lambda>s. s), h_upper = (\<lambda>s. s), h_lower = (\<lambda>s. s), h_is_alpha = (\<lambda>_. False),
     h_libm = (\<lambda>_ _. None), h_pow = (\<lambda>_ _. None), h_libm2 = (\<lambda>_ _ _. None), h_statistics = (\<lambda>_ _. None),
     h_float_sum = (\<lambda>_. None), h_display = (\<lambda>_ _. [])\<rparr>"

abbreviation "still \<equiv> \<lambda>_ :: nat. of_decimal64 0 0"

lemma distinct_singleton: "set cs = {x} \<Longrightarrow> distinct cs \<Longrightarrow> cs = [x]"
  by (cases cs; cases "tl cs") auto

definition own_cookie :: "ustr option \<Rightarrow> cookie" where
  "own_cookie domain = \<lparr>ck_name = U ''id'', ck_value = U ''7'', ck_domain = domain, ck_path = U ''/'', ck_expires = None,
     ck_secure = False, ck_http_only = True, ck_same_site = Some (U ''Lax''), ck_host_only = True, ck_order = Suc 0\<rparr>"

lemma cookie_header_reads_back_witness:
  "\<exists>j t j'. own_jar plain_host still j \<and> cj_cookies j \<noteq> [] \<and>
     cookie_header plain_host still (example_url ''a.org'' ''/'') j = (Done t, j') \<and> cookie_pairs t = Some [(U ''id'', U ''7'')]"
proof -
  let ?c = "own_cookie (Some (U ''a.org''))"
  let ?j = "\<lparr>cj_cookies = [own_cookie None], cj_counter = Suc 0, cj_ticks = 0\<rparr>"
  have set: "cookie_set plain_host still (mk_pos [] 1 1 []) (Value (VStr (U ''id''))) (Value (VStr (U ''7''))) [] empty_jar = (Done (), ?j)"
    by (simp add: cookie_set_def safe_name_def unsafe_name_chars_def safe_value_def secret_bytes_def text_bytes_def encode_text_def
        utf8_encode_def utf8_char_def scalar_value_def safe_byte_def cookie_options_def optional_def store_new_def next_order_def
        store_def andthen_def lift_sum_def ret_def modifies_def reads_def empty_jar_def U.simps starts_with_iff own_cookie_def)
  from own_jar.intros(1) set have own: "own_jar plain_host still ?j" by (rule own_jar.intros(2))
  have url: "ur_host (example_url ''a.org'' ''/'') = Some (U ''a.org'')" by (simp add: example_url_def)
  obtain t j' cs where run: "cookie_header plain_host still (example_url ''a.org'' ''/'') ?j = (Done t, j')"
    and pairs: "cookie_pairs t = Some (map (\<lambda>c. (ck_name c, ck_value c)) cs)" and orders: "distinct (map ck_order cs)"
    and cs: "set cs = {c \<in> set (cj_cookies j'). sends_to (example_url ''a.org'' ''/'') (h_lower plain_host (U ''a.org''))
      (url_path (example_url ''a.org'' ''/'')) c}"
    using cookie_header_reads_back [OF own url] by blast
  have "cj_cookies j' = [?c]"
    using cookie_header_result [OF run url] by (simp add: unexpired_def bind_domain_def plain_host_def own_cookie_def)
  moreover have "sends_to (example_url ''a.org'' ''/'') (h_lower plain_host (U ''a.org'')) (url_path (example_url ''a.org'' ''/'')) ?c"
    by (simp add: sends_to_def domain_match_def path_match_def url_path_def example_url_def plain_host_def own_cookie_def)
  ultimately have "set cs = {?c}" using cs by auto
  moreover have "distinct cs" using orders by (simp add: distinct_map)
  ultimately have "cs = [?c]" by (rule distinct_singleton)
  then have "cookie_pairs t = Some [(U ''id'', U ''7'')]" using pairs by (simp add: own_cookie_def)
  with own run show ?thesis by (intro exI [of _ ?j] exI [of _ t] exI [of _ j']) simp
qed

text \<open>What a response can add to a jar.\<close>

definition from_site :: "ustr \<Rightarrow> cookie \<Rightarrow> bool" where
  "from_site name c \<longleftrightarrow> (\<exists>d. ck_domain c = Some d \<and> (name = d \<or> ends_with name (U ''.'' @ d)) \<and> (ck_host_only c \<longrightarrow> name = d))"

definition adds :: "(cookie \<Rightarrow> bool) \<Rightarrow> 'a cookie_comp \<Rightarrow> bool" where
  "adds P m \<longleftrightarrow> (\<forall>old. keeps (\<lambda>j. \<forall>c \<in> set (cj_cookies j). c \<in> old \<or> P c) m)"

lemma adds_receive:
  assumes "ur_host url = Some host_text"
  shows "adds (from_site (h_lower h host_text)) (receive_cookies h lib clock p url headers)"
  unfolding adds_def
proof
  fix old
  let ?P = "\<lambda>j. \<forall>c \<in> set (cj_cookies j). c \<in> old \<or> from_site (h_lower h host_text) c"
  have store: "keeps ?P (store_new clock c)" if "\<And>n. from_site (h_lower h host_text) (c n)" for c
    unfolding store_new_def next_order_def store_def by (intro keeps_intros) (use that in auto)
  have expiry: "keeps ?P (expiry lib clock p m)" for m
    unfolding expiry_def by (intro keeps_intros) auto
  have "keeps ?P (receive_morsel h lib clock p (h_lower h host_text) path item)" for path item
  proof -
    obtain n m where item: "item = (n, m)" by fastforce
    have site: "from_site (h_lower h host_text) c"
      if "h_lower h host_text = morsel_domain h (h_lower h host_text) m \<or>
          ends_with (h_lower h host_text) (U ''.'' @ morsel_domain h (h_lower h host_text) m)"
        "ck_domain c = Some (morsel_domain h (h_lower h host_text) m)" "ck_host_only c = (mo_domain m = [])" for c
      using that by (auto simp: from_site_def morsel_domain_def)
    show ?thesis
      unfolding receive_morsel_def Let_def item prod.case
      by (intro keeps_checked keeps_if keeps_andthen expiry store site keeps_basic) simp_all
  qed
  then show "keeps ?P (receive_cookies h lib clock p url headers)"
    unfolding receive_cookies_def receive_header_def using assms by (auto intro!: keeps_intros)
qed

text \<open>
  C9. A cookie of a response never leaves its site. Whatever headers a server sends, a cookie they add to a jar is
  sent to another URL only if its host is the very host of the response, or the cookie has a domain that both
  hosts belong to and that the response was allowed to name; a \<open>Secure\<close> cookie is sent over HTTPS only; and
  the path of the URL is the path of the cookie or lies below it, at a \<open>/\<close>.
\<close>

theorem received_cookies_stay_in_site:
  assumes "receive_cookies h lib clock p url headers j = (r, j')" and "ur_host url = Some host_text"
    and "c \<in> set (cj_cookies j')" and "c \<notin> set (cj_cookies j)"
    and "sends_to url' name' path' c"
  shows "(name' = h_lower h host_text \<or>
      (\<exists>d. ck_domain c = Some d \<and> \<not> ck_host_only c \<and> (\<forall>n \<in> {name', h_lower h host_text}. n = d \<or> ends_with n (U ''.'' @ d)))) \<and>
    (ck_secure c \<longrightarrow> ur_scheme url' = U ''https'') \<and>
    (path' = ck_path c \<or> starts_with path' (without_slashes (ck_path c) @ U ''/''))"
proof -
  have "keeps (\<lambda>j. \<forall>c \<in> set (cj_cookies j). c \<in> set (cj_cookies j0) \<or> from_site (h_lower h host_text) c)
      (receive_cookies h lib clock p url headers)" for j0
    using adds_receive [OF assms(2)] by (simp add: adds_def)
  from keepsD [OF this _ assms(1)] assms(3,4) have "from_site (h_lower h host_text) c" by blast
  with assms(5) show ?thesis
    by (auto simp: from_site_def sends_to_def domain_match_def path_match_def split: if_splits)
qed

text \<open>The response of a server at \<open>a.org\<close> with one cookie \<open>sid\<close>.\<close>

definition example_morsel :: "ustr \<Rightarrow> morsel" where
  "example_morsel v = \<lparr>mo_value = v, mo_domain = [], mo_path = U ''/'', mo_max_age = [], mo_expires = [], mo_same_site = [],
     mo_secure = True, mo_http_only = True\<rparr>"

definition example_library :: "ustr \<Rightarrow> cookie_library" where
  "example_library v = \<lparr>cl_load = (\<lambda>_. Some [(U ''sid'', example_morsel v)]), cl_date = (\<lambda>_. None)\<rparr>"

definition received_cookie :: "ustr \<Rightarrow> cookie" where
  "received_cookie v = \<lparr>ck_name = U ''sid'', ck_value = v, ck_domain = Some (U ''a.org''), ck_path = U ''/'', ck_expires = None,
     ck_secure = True, ck_http_only = True, ck_same_site = None, ck_host_only = True, ck_order = Suc 0\<rparr>"

lemma receive_example:
  assumes "list_all is_ascii v" and "cl_load lib header = Some [(U ''sid'', example_morsel v)]"
  shows "receive_cookies plain_host lib still p (example_url ''a.org'' ''/'') [header] empty_jar =
    (Done [(U ''sid'', v)], \<lparr>cj_cookies = [received_cookie v], cj_counter = Suc 0, cj_ticks = 0\<rparr>)"
  using assms
  by (simp add: receive_cookies_def receive_header_def receive_morsel_def Let_def example_morsel_def example_url_def
      safe_name_def unsafe_name_chars_def U.simps morsel_domain_def expiry_def received_same_site_def store_new_def next_order_def
      store_def andthen_def lift_sum_def ret_def modifies_def reads_def empty_jar_def plain_host_def received_cookie_def)

lemma received_cookies_stay_in_site_witness:
  "\<exists>r j'. receive_cookies plain_host (example_library (U ''7'')) still (mk_pos [] 1 1 []) (example_url ''a.org'' ''/'') [U ''x'']
       empty_jar = (r, j') \<and> received_cookie (U ''7'') \<in> set (cj_cookies j') \<and> ur_scheme (example_url ''a.org'' ''/x'') = U ''https''"
proof -
  have run: "receive_cookies plain_host (example_library (U ''7'')) still (mk_pos [] 1 1 []) (example_url ''a.org'' ''/'') [U ''x''] empty_jar =
    (Done [(U ''sid'', U ''7'')], \<lparr>cj_cookies = [received_cookie (U ''7'')], cj_counter = Suc 0, cj_ticks = 0\<rparr>)"
    by (rule receive_example) (simp_all add: U.simps is_ascii_def example_library_def)
  have sends: "sends_to (example_url ''a.org'' ''/x'') (U ''a.org'') (U ''/x'') (received_cookie (U ''7''))"
    by (simp add: sends_to_def domain_match_def path_match_def received_cookie_def example_url_def without_slashes_def U.simps starts_with_iff)
  have url: "ur_host (example_url ''a.org'' ''/'') = Some (U ''a.org'')" by (simp add: example_url_def)
  have "ur_scheme (example_url ''a.org'' ''/x'') = U ''https''"
    using received_cookies_stay_in_site [OF run url _ _ sends] by (simp add: received_cookie_def empty_jar_def)
  with run show ?thesis by simp
qed

text \<open>
  The value of a received cookie is not checked like that of \<open>cookie_set\<close>: every ASCII text goes into the jar. The
  library decodes the escapes of a quoted value, so a response can store \<open>1; admin=1\<close>; the jar holds one cookie then, but
  the header it sends reads as two, the second with a name and a value of the server's choice.
\<close>

theorem received_value_splits:
  assumes "cl_load lib header = Some [(U ''sid'', example_morsel (U ''1; admin=1''))]"
  shows "\<exists>j' t j''. receive_cookies plain_host lib still p (example_url ''a.org'' ''/'') [header] empty_jar =
      (Done [(U ''sid'', U ''1; admin=1'')], j') \<and> length (cj_cookies j') = 1 \<and>
    cookie_header plain_host still (example_url ''a.org'' ''/'') j' = (Done t, j'') \<and>
    cookie_pairs t = Some [(U ''sid'', U ''1''), (U ''admin'', U ''1'')]"
proof -
  let ?v = "U ''1; admin=1''"
  let ?j = "\<lparr>cj_cookies = [received_cookie ?v], cj_counter = Suc 0, cj_ticks = 0\<rparr>"
  have run: "receive_cookies plain_host lib still p (example_url ''a.org'' ''/'') [header] empty_jar = (Done [(U ''sid'', ?v)], ?j)"
    by (rule receive_example [OF _ assms]) (simp add: U.simps is_ascii_def)
  have "cookie_header plain_host still (example_url ''a.org'' ''/'') ?j = (Done (U ''sid='' @ ?v), ?j\<lparr>cj_ticks := Suc 0\<rparr>)"
    by (simp add: cookie_header_def Let_def live_def now_def andthen_def reads_def modifies_def ret_def example_url_def plain_host_def
        received_cookie_def unexpired_def bind_domain_def sends_to_def domain_match_def path_match_def url_path_def sending_order_def
        cookie_text_def decode_bytes_def U.simps is_ascii_def)
  moreover have "cookie_pairs (U ''sid='' @ ?v) = Some [(U ''sid'', U ''1''), (U ''admin'', U ''1'')]"
    by (simp add: cookie_pairs_def cookie_pair_def separator U.simps split_text.simps find_sub.simps)
  ultimately show ?thesis using run by (intro exI [of _ ?j]) simp
qed

lemma received_value_splits_witness:
  "\<exists>j'. receive_cookies plain_host (example_library (U ''1; admin=1'')) still (mk_pos [] 1 1 []) (example_url ''a.org'' ''/'') [[]] empty_jar =
      (Done [(U ''sid'', U ''1; admin=1'')], j') \<and> length (cj_cookies j') = 1"
proof -
  have "cl_load (example_library (U ''1; admin=1'')) [] = Some [(U ''sid'', example_morsel (U ''1; admin=1''))]"
    by (simp add: example_library_def)
  from received_value_splits [OF this] show ?thesis by blast
qed

end
