(* ===== verification/Http_Client.thy ===== *)
theory Http_Client
  imports Cookies
begin

section \<open>The HTTP client\<close>

text \<open>
  \<open>http_client.py\<close>: profiles, the checks of the options, the check of a URL against the network capability, the
  redirects. The state is the cookie jar the call was given, the network (\<open>nt_net\<close>, with the resolver and the
  transport as steps on it) and, for the properties, the requests handed to the transport so far. The URL functions
  of \<open>urllib.parse\<close>, the resolver, the test for public addresses, the text codecs and the transport are
  parameters; a call of Python's library that raises something no caller catches gives \<open>None\<close>.
\<close>

record http_profile =
  pr_name :: ustr
  pr_user_agent :: ustr
  pr_accept :: ustr
  pr_accept_language :: ustr
  pr_accept_encoding :: ustr

text \<open>An argument: a plain value, a profile, the jar of the state, or an object with secrets among its fields.\<close>

datatype http_value = Plain client_value | Profile http_profile | Cookie_jar | Fields "(ustr \<times> client_value) list"

record request_message =
  rq_url :: ustr
  rq_method :: ustr
  rq_headers :: "(ustr \<times> ustr) list"
  rq_body :: "nat list option"
  rq_timeout :: b64
  rq_max_bytes :: int

record transport_response =
  rs_status :: int
  rs_url :: ustr
  rs_headers :: "(ustr \<times> ustr) list"
  rs_body :: "nat list"
  rs_set_cookies :: "ustr list"

record http_response =
  hr_status :: int
  hr_url :: ustr
  hr_headers :: "(ustr \<times> ustr) list"
  hr_bytes :: "nat list"
  hr_text :: "ustr option"
  hr_encoding :: "ustr option"
  hr_redirects :: "ustr list"
  hr_cookies :: "(ustr \<times> nat list) list"

record network_capability =
  nc_network :: bool
  nc_schemes :: "ustr list"
  nc_hosts :: "ustr list option"
  nc_ports :: "nat list option"
  nc_private :: bool
  nc_max_timeout :: int
  nc_max_bytes :: int

record 'n http_platform =
  hp_host :: host
  hp_clock :: "nat \<Rightarrow> b64"
  hp_cookies :: cookie_library
  hp_capability :: network_capability
  hp_split :: "ustr \<Rightarrow> url_parts option"
  hp_unsplit :: "ustr \<Rightarrow> ustr \<Rightarrow> ustr \<Rightarrow> ustr \<Rightarrow> ustr \<Rightarrow> ustr"
  hp_join :: "ustr \<Rightarrow> ustr \<Rightarrow> ustr option"
  hp_parse_query :: "ustr \<Rightarrow> (ustr \<times> ustr) list"
  hp_encode_query :: "(ustr \<times> ustr) list \<Rightarrow> ustr option"
  hp_resolves :: bool
  hp_lookup :: "ustr \<Rightarrow> nat \<Rightarrow> 'n \<Rightarrow> ustr list option \<times> 'n"
  hp_global :: "ustr \<Rightarrow> bool"
  hp_transport :: "request_message \<Rightarrow> 'n \<Rightarrow> transport_response option \<times> 'n"
  hp_decode :: "ustr \<Rightarrow> nat list \<Rightarrow> ustr option option"

record 'n network =
  nt_jar :: jar
  nt_net :: 'n
  nt_sent :: "request_message list"

type_synonym ('n, 'a) net_comp = "('n network, exn, 'a) sem"

abbreviation lower :: "'n http_platform \<Rightarrow> ustr \<Rightarrow> ustr" where "lower pf \<equiv> h_lower (hp_host pf)"

definition lift_crash :: "'a option \<Rightarrow> ('n, 'a) net_comp" where
  "lift_crash x = (case x of None \<Rightarrow> raise Crash | Some a \<Rightarrow> ret a)"

subsection \<open>Profiles\<close>

definition web_accept :: ustr where
  "web_accept = U ''text/html,application/xhtml+xml,application/json;q=0.9,*/*;q=0.8''"

definition PROFILES :: "(ustr \<times> http_profile) list" where
  "PROFILES = map (\<lambda>(n, agent, accept). (U n, \<lparr>pr_name = U n, pr_user_agent = U agent, pr_accept = accept,
       pr_accept_language = U ''en'', pr_accept_encoding = U ''identity''\<rparr>))
     [(''separan'', ''Separan/0.1-alpha'', web_accept),
      (''desktop'', ''Separan-Desktop/0.1-alpha'', web_accept),
      (''mobile'', ''Separan-Mobile/0.1-alpha'', U ''text/html,application/json;q=0.9,*/*;q=0.8'')]"

definition safe_field :: "client_value \<Rightarrow> ustr option" where
  "safe_field v = (case v of Value (VStr s) \<Rightarrow> if 13 \<in> set s \<or> 10 \<in> set s then None else Some s | _ \<Rightarrow> None)"

text \<open>The keys of the defaults are \<open>user_agent\<close>, \<open>accept\<close>, \<open>language\<close> and \<open>accept_encoding\<close>; the builtin's table admits no others.\<close>

definition profile :: "source_position \<Rightarrow> client_value list \<Rightarrow> (ustr \<times> client_value) list \<Rightarrow> http_profile attempt" where
  "profile p args named =
     (case (case args ! 0 of Value (VStr n) \<Rightarrow> map_of PROFILES n | _ \<Rightarrow> None) of
        None \<Rightarrow> Inl (denied 781 ''Invalid HTTP profile'' p)
      | Some d \<Rightarrow>
          (case (safe_field (optional named ''user_agent'' (Value (VStr (pr_user_agent d)))),
                 safe_field (optional named ''accept'' (Value (VStr (pr_accept d)))),
                 safe_field (optional named ''language'' (Value (VStr (pr_accept_language d)))),
                 safe_field (optional named ''accept_encoding'' (Value (VStr (pr_accept_encoding d))))) of
             (Some agent, Some accept, Some language, Some encoding) \<Rightarrow>
               Inr \<lparr>pr_name = pr_name d, pr_user_agent = agent, pr_accept = accept, pr_accept_language = language, pr_accept_encoding = encoding\<rparr>
           | _ \<Rightarrow> Inl (Sep (type_error p))))"

definition profile_headers :: "http_profile \<Rightarrow> (ustr \<times> ustr) list" where
  "profile_headers d = [(U ''User-Agent'', pr_user_agent d), (U ''Accept'', pr_accept d),
     (U ''Accept-Language'', pr_accept_language d), (U ''Accept-Encoding'', pr_accept_encoding d)]"

subsection \<open>Which URLs may be requested\<close>

definition host_allowed :: "network_capability \<Rightarrow> ustr \<Rightarrow> bool" where
  "host_allowed nc host_name \<longleftrightarrow>
     (case nc_hosts nc of None \<Rightarrow> True | Some hs \<Rightarrow> list_ex (\<lambda>a. host_name = a \<or> ends_with host_name (U ''.'' @ a)) hs)"

definition present :: "ustr option \<Rightarrow> bool" where
  "present x \<longleftrightarrow> (case x of None \<Rightarrow> False | Some s \<Rightarrow> s \<noteq> [])"

definition effective_port :: "url_parts \<Rightarrow> nat option \<Rightarrow> nat" where
  "effective_port q port =
     (case port of Some n \<Rightarrow> if n \<noteq> 0 then n else if ur_scheme q = U ''https'' then 443 else 80
      | None \<Rightarrow> if ur_scheme q = U ''https'' then 443 else 80)"

definition sent_form :: "'n http_platform \<Rightarrow> url_parts \<Rightarrow> ustr" where
  "sent_form pf q = hp_unsplit pf (ur_scheme q) (ur_netloc q) (url_path q) (ur_query q) []"

definition resolve_host :: "'n http_platform \<Rightarrow> source_position \<Rightarrow> ustr \<Rightarrow> nat \<Rightarrow> ('n, unit) net_comp" where
  "resolve_host pf p host_name port s =
     (case hp_lookup pf host_name port (nt_net s) of
        (None, n) \<Rightarrow> (Raised (denied 783 ''http_dns_error'' p), s\<lparr>nt_net := n\<rparr>)
      | (Some addresses, n) \<Rightarrow>
          (if list_all (hp_global pf) addresses then Done () else Raised (denied 780 ''Denied private network'' p), s\<lparr>nt_net := n\<rparr>))"

definition validate_url :: "'n http_platform \<Rightarrow> source_position \<Rightarrow> http_value \<Rightarrow> ('n, ustr) net_comp" where
  "validate_url pf p url =
     (case url of
        Plain (Value (VStr u)) \<Rightarrow>
          let nc = hp_capability pf in
          if \<not> nc_network nc then raise (denied 720 ''Permission error'' p)
          else andthen (lift_crash (hp_split pf u)) (\<lambda>q.
            if ur_scheme q \<notin> set (nc_schemes nc) \<or> \<not> present (ur_host q) \<or> present (ur_username q) \<or> present (ur_password q) \<or> ur_fragment q \<noteq> []
            then raise (denied 780 ''Invalid or denied URL'' p)
            else let host_name = lower pf (the (ur_host q)) in
              if \<not> host_allowed nc host_name then raise (denied 780 ''Denied HTTP host'' p)
              else andthen (lift_crash (ur_port q)) (\<lambda>port.
                if (case nc_ports nc of None \<Rightarrow> False | Some ps \<Rightarrow> effective_port q port \<notin> set ps) then raise (denied 780 ''Denied HTTP port'' p)
                else andthen (if hp_resolves pf \<and> \<not> nc_private nc then resolve_host pf p host_name (effective_port q port) else ret ()) (\<lambda>_.
                  ret (sent_form pf q))))
      | _ \<Rightarrow> raise (Sep (type_error p)))"

subsection \<open>The options of a request\<close>

definition METHODS :: "ustr list" where
  "METHODS = map U [''GET'', ''HEAD'', ''POST'', ''PUT'', ''PATCH'', ''DELETE'']"

definition FORBIDDEN_HEADERS :: "ustr list" where
  "FORBIDDEN_HEADERS = map U [''host'', ''content-length'', ''transfer-encoding'', ''connection'', ''proxy-authorization'']"

record http_call =
  hc_url :: http_value
  hc_method :: ustr
  hc_timeout :: int
  hc_redirect :: bool
  hc_max_redirects :: nat
  hc_encoding :: ustr
  hc_max_bytes :: int
  hc_headers :: "(ustr \<times> ustr) list"
  hc_body :: "nat list option"
  hc_jar :: bool
  hc_explicit :: "(ustr \<times> ustr) list"

type_synonym http_options = "(ustr \<times> http_value) list"

definition option_or :: "http_options \<Rightarrow> string \<Rightarrow> sep_value \<Rightarrow> http_value" where
  "option_or named k d = (case map_of named (U k) of None \<Rightarrow> Plain (Value d) | Some v \<Rightarrow> v)"

definition method_option :: "source_position \<Rightarrow> http_options \<Rightarrow> ustr attempt" where
  "method_option p named =
     (case option_or named ''method'' (VStr (U ''GET'')) of
        Plain (Value (VStr m)) \<Rightarrow> if m \<in> set METHODS then Inr m else Inl (denied 781 ''Invalid HTTP method'' p)
      | _ \<Rightarrow> Inl (denied 781 ''Invalid HTTP method'' p))"

definition timeout_option :: "network_capability \<Rightarrow> source_position \<Rightarrow> http_options \<Rightarrow> int attempt" where
  "timeout_option nc p named =
     (case option_or named ''timeout'' (VDuration 30000) of
        Plain (Value (VDuration t)) \<Rightarrow>
          if t \<le> 0 \<or> nc_max_timeout nc < t then Inl (denied 782 ''Invalid HTTP timeout'' p) else Inr t
      | _ \<Rightarrow> Inl (denied 782 ''Invalid HTTP timeout'' p))"

definition redirect_options :: "source_position \<Rightarrow> http_options \<Rightarrow> (bool \<times> nat) attempt" where
  "redirect_options p named =
     (case (option_or named ''redirect'' (VBool True), option_or named ''max_redirects'' (VInt 10)) of
        (Plain (Value (VBool b)), Plain (Value (VInt n))) \<Rightarrow>
          if 0 \<le> n \<and> n \<le> 20 then Inr (b, nat n) else Inl (denied 785 ''Invalid redirect option'' p)
      | _ \<Rightarrow> Inl (denied 785 ''Invalid redirect option'' p))"

definition max_bytes_option :: "network_capability \<Rightarrow> source_position \<Rightarrow> http_options \<Rightarrow> int attempt" where
  "max_bytes_option nc p named =
     (case option_or named ''max_bytes'' (VInt (min 10485760 (nc_max_bytes nc))) of
        Plain (Value (VInt n)) \<Rightarrow> if n < 0 \<or> nc_max_bytes nc < n then Inl (denied 787 ''http_limit_error'' p) else Inr n
      | _ \<Rightarrow> Inl (denied 787 ''http_limit_error'' p))"

definition fields_of :: "http_value \<Rightarrow> (ustr \<times> client_value) list option" where
  "fields_of v =
     (case v of Fields fs \<Rightarrow> Some fs | Plain (Value (VObj fs ts)) \<Rightarrow> Some (map (\<lambda>(k, x). (k, Value x)) fs) | _ \<Rightarrow> None)"

fun custom_headers ::
  "'n http_platform \<Rightarrow> source_position \<Rightarrow> (ustr \<times> ustr) list \<Rightarrow> (ustr \<times> client_value) list \<Rightarrow> (ustr \<times> ustr) list attempt" where
  "custom_headers pf p hs [] = Inr hs"
| "custom_headers pf p hs ((k, v) # fs) =
     (case v of
        Value (VStr s) \<Rightarrow>
          if k = [] \<or> list_ex (\<lambda>c. c < 32) (k @ s) \<or> lower pf k \<in> set FORBIDDEN_HEADERS
          then Inl (denied 781 ''Invalid HTTP header'' p)
          else custom_headers pf p (dict_set hs k s) fs
      | _ \<Rightarrow> Inl (denied 781 ''Invalid HTTP header'' p))"

definition header_options :: "'n http_platform \<Rightarrow> source_position \<Rightarrow> http_options \<Rightarrow> (ustr \<times> ustr) list attempt" where
  "header_options pf p named =
     bind_sum (case map_of named (U ''profile'') of
         None \<Rightarrow> profile p [Value (VStr (U ''separan''))] [] | Some (Profile d) \<Rightarrow> Inr d | Some _ \<Rightarrow> Inl (Sep (type_error p))) (\<lambda>d.
     case map_of named (U ''headers'') of
       None \<Rightarrow> Inr (profile_headers d)
     | Some v \<Rightarrow> (case fields_of v of None \<Rightarrow> Inl (Sep (type_error p)) | Some fs \<Rightarrow> custom_headers pf p (profile_headers d) fs))"

definition body_option :: "source_position \<Rightarrow> ustr \<Rightarrow> http_options \<Rightarrow> nat list option attempt" where
  "body_option p m named =
     (case map_of named (U ''body'') of
        None \<Rightarrow> Inr None
      | Some v \<Rightarrow>
          if m \<in> {U ''GET'', U ''HEAD''} then Inl (denied 781 ''Invalid HTTP body'' p)
          else (case v of
              Plain (Value (VStr s)) \<Rightarrow> bind_sum (text_bytes s) (\<lambda>b. Inr (Some b))
            | Plain (Value (VBytes b)) \<Rightarrow> Inr (Some b)
            | _ \<Rightarrow> Inl (Sep (type_error p))))"

text \<open>The authentication goes into a header of its own or into the query of the URL.\<close>

definition auth_option ::
  "'n http_platform \<Rightarrow> source_position \<Rightarrow> http_options \<Rightarrow> http_value \<Rightarrow> (ustr \<times> ustr) list \<Rightarrow> (http_value \<times> (ustr \<times> ustr) list) attempt" where
  "auth_option pf p named url hs =
     (case map_of named (U ''auth'') of
        None \<Rightarrow> Inr (url, hs)
      | Some (Plain (Auth a)) \<Rightarrow>
          if \<not> list_all is_ascii (au_value a) then Inl (denied 872 ''Invalid HTTP authentication'' p)
          else if au_location a = U ''header'' then
            (if lower pf (au_name a) \<in> set (map (\<lambda>(k, v). lower pf k) hs) then Inl (denied 872 ''Duplicate authentication header'' p)
             else Inr (url, dict_set hs (au_name a) (au_value a)))
          else (case url of
              Plain (Value (VStr u)) \<Rightarrow>
                (case hp_split pf u of
                   None \<Rightarrow> Inl Crash
                 | Some q \<Rightarrow>
                     let query = hp_parse_query pf (ur_query q) in
                     if au_name a \<in> set (map fst query) then Inl (denied 872 ''Duplicate authentication query'' p)
                     else (case hp_encode_query pf (query @ [(au_name a, au_value a)]) of
                         None \<Rightarrow> Inl Crash
                       | Some t \<Rightarrow> Inr (Plain (Value (VStr (hp_unsplit pf (ur_scheme q) (ur_netloc q) (ur_path q) t (ur_fragment q)))), hs)))
            | _ \<Rightarrow> Inl Crash)
      | Some _ \<Rightarrow> Inl (Sep (type_error p)))"

fun explicit_cookies :: "source_position \<Rightarrow> (ustr \<times> ustr) list \<Rightarrow> (ustr \<times> client_value) list \<Rightarrow> (ustr \<times> ustr) list attempt" where
  "explicit_cookies p d [] = Inr d"
| "explicit_cookies p d ((k, v) # fs) =
     bind_sum (safe_name p (Value (VStr k))) (\<lambda>n. bind_sum (safe_value p v) (\<lambda>b. explicit_cookies p (dict_set d k b) fs))"

definition cookie_options_of :: "source_position \<Rightarrow> http_options \<Rightarrow> (bool \<times> (ustr \<times> ustr) list) attempt" where
  "cookie_options_of p named =
     bind_sum (case map_of named (U ''cookie_jar'') of
         None \<Rightarrow> Inr False | Some Cookie_jar \<Rightarrow> Inr True | Some _ \<Rightarrow> Inl (Sep (type_error p))) (\<lambda>j.
     bind_sum (case map_of named (U ''cookies'') of
         None \<Rightarrow> Inr []
       | Some v \<Rightarrow> (case fields_of v of None \<Rightarrow> Inl (Sep (type_error p)) | Some fs \<Rightarrow> explicit_cookies p [] fs)) (\<lambda>cs.
     Inr (j, cs)))"

definition http_options_of :: "'n http_platform \<Rightarrow> source_position \<Rightarrow> http_value \<Rightarrow> http_options \<Rightarrow> http_call attempt" where
  "http_options_of pf p url named =
     (let nc = hp_capability pf in
     bind_sum (method_option p named) (\<lambda>m.
     bind_sum (timeout_option nc p named) (\<lambda>t.
     bind_sum (redirect_options p named) (\<lambda>(redirect, limit).
     bind_sum (case option_or named ''encoding'' (VStr (U ''auto'')) of Plain (Value (VStr e)) \<Rightarrow> Inr e | _ \<Rightarrow> Inl (Sep (type_error p))) (\<lambda>encoding.
     bind_sum (max_bytes_option nc p named) (\<lambda>max_bytes.
     bind_sum (header_options pf p named) (\<lambda>headers.
     bind_sum (body_option p m named) (\<lambda>body.
     bind_sum (auth_option pf p named url headers) (\<lambda>(url', headers').
     bind_sum (cookie_options_of p named) (\<lambda>(j, explicit).
     Inr \<lparr>hc_url = url', hc_method = m, hc_timeout = t, hc_redirect = redirect, hc_max_redirects = limit, hc_encoding = encoding,
       hc_max_bytes = max_bytes, hc_headers = headers', hc_body = body, hc_jar = j, hc_explicit = explicit\<rparr>))))))))))"

subsection \<open>Requests and redirects\<close>

definition on_jar :: "'a cookie_comp \<Rightarrow> ('n, 'a) net_comp" where
  "on_jar m s = (case m (nt_jar s) of (r, j) \<Rightarrow> (r, s\<lparr>nt_jar := j\<rparr>))"

text \<open>A jar that is thrown away, with the clock of the other one.\<close>

definition on_fresh_jar :: "'a cookie_comp \<Rightarrow> ('n, 'a) net_comp" where
  "on_fresh_jar m s =
     (case m (empty_jar\<lparr>cj_ticks := cj_ticks (nt_jar s)\<rparr>) of (r, j) \<Rightarrow> (r, s\<lparr>nt_jar := (nt_jar s)\<lparr>cj_ticks := cj_ticks j\<rparr>\<rparr>))"

definition send :: "'n http_platform \<Rightarrow> source_position \<Rightarrow> request_message \<Rightarrow> ('n, transport_response) net_comp" where
  "send pf p rq s =
     (case hp_transport pf rq (nt_net s) of (x, n) \<Rightarrow>
        (case x of None \<Rightarrow> Raised (denied 784 ''http_error'' p) | Some raw \<Rightarrow> Done raw, s\<lparr>nt_net := n, nt_sent := nt_sent s @ [rq]\<rparr>))"

definition origin :: "'n http_platform \<Rightarrow> ustr \<Rightarrow> (ustr \<times> ustr option \<times> nat option) option" where
  "origin pf u =
     (case hp_split pf u of None \<Rightarrow> None | Some q \<Rightarrow> map_option (\<lambda>port. (ur_scheme q, ur_host q, port)) (ur_port q))"

definition jar_cookies :: "'n http_platform \<Rightarrow> http_call \<Rightarrow> ustr \<Rightarrow> ('n, (ustr \<times> ustr) list) net_comp" where
  "jar_cookies pf c current =
     (if hc_jar c then
        andthen (lift_crash (hp_split pf current)) (\<lambda>q.
        andthen (on_jar (cookie_header (hp_host pf) (hp_clock pf) q)) (\<lambda>t.
        andthen (lift_crash (cookie_pairs t)) (\<lambda>pairs.
        ret (foldl (\<lambda>d (k, v). dict_set d k v) [] pairs))))
      else ret [])"

text \<open>What the loop of \<open>_request\<close> carries from one request to the next; \<open>lp_visited\<close> in the order of the visits.\<close>

record hop =
  lp_count :: nat
  lp_current :: ustr
  lp_visited :: "ustr list"
  lp_redirects :: "ustr list"
  lp_headers :: "(ustr \<times> ustr) list"
  lp_method :: ustr
  lp_body :: "nat list option"
  lp_received :: "(ustr \<times> nat list) list"

type_synonym origin_key = "ustr \<times> ustr option \<times> nat option"

definition request_of :: "http_call \<Rightarrow> origin_key \<Rightarrow> hop \<Rightarrow> origin_key \<Rightarrow> (ustr \<times> ustr) list \<Rightarrow> b64 \<Rightarrow> request_message" where
  "request_of c initial h now_at jarred seconds =
     (let cookies = (if now_at = initial then foldl (\<lambda>d (k, v). dict_set d k v) jarred (hc_explicit c) else jarred);
          text = join_with (U ''; '') (map (\<lambda>(k, v). k @ U ''='' @ v) cookies)
      in \<lparr>rq_url = lp_current h, rq_method = lp_method h,
          rq_headers = (if cookies = [] then lp_headers h else dict_set (lp_headers h) (U ''Cookie'') text),
          rq_body = lp_body h, rq_timeout = seconds, rq_max_bytes = hc_max_bytes c\<rparr>)"

definition set_cookie_texts :: "'n http_platform \<Rightarrow> transport_response \<Rightarrow> ustr list" where
  "set_cookie_texts pf raw =
     (if rs_set_cookies raw \<noteq> [] then rs_set_cookies raw
      else map snd (filter (\<lambda>(k, v). lower pf k = U ''set-cookie'') (rs_headers raw)))"

definition receive :: "'n http_platform \<Rightarrow> source_position \<Rightarrow> http_call \<Rightarrow> ustr \<Rightarrow> transport_response \<Rightarrow> ('n, (ustr \<times> nat list) list) net_comp" where
  "receive pf p c current raw =
     (let texts = set_cookie_texts pf raw in
      if texts = [] then ret []
      else andthen (lift_crash (hp_split pf current)) (\<lambda>q.
        (if hc_jar c then on_jar else on_fresh_jar) (receive_cookies (hp_host pf) (hp_cookies pf) (hp_clock pf) p q texts)))"

definition secret_header :: "'n http_platform \<Rightarrow> ustr \<Rightarrow> bool" where
  "secret_header pf k \<longleftrightarrow> lower pf k \<in> {U ''authorization'', U ''cookie'', U ''proxy-authorization''}"

definition location_of :: "'n http_platform \<Rightarrow> transport_response \<Rightarrow> ustr" where
  "location_of pf raw =
     (case filter (\<lambda>(k, v). lower pf k = U ''location'') (rs_headers raw) of [] \<Rightarrow> [] | (k, v) # _ \<Rightarrow> v)"

text \<open>Moving on to the target of a redirect.\<close>

definition follow :: "'n http_platform \<Rightarrow> source_position \<Rightarrow> transport_response \<Rightarrow> ustr \<Rightarrow> hop \<Rightarrow> ('n, hop) net_comp" where
  "follow pf p raw location h =
     andthen (lift_crash (hp_split pf (lp_current h))) (\<lambda>previous.
     andthen (lift_crash (hp_join pf (lp_current h) location)) (\<lambda>joined.
     andthen (validate_url pf p (Plain (Value (VStr joined)))) (\<lambda>target.
     andthen (lift_crash (hp_split pf target)) (\<lambda>next_parts.
     if ur_scheme previous = U ''https'' \<and> ur_scheme next_parts = U ''http'' then raise (denied 785 ''http_redirect_error'' p)
     else if target \<in> set (lp_visited h) then raise (denied 785 ''http_redirect_error'' p)
     else
       andthen (lift_crash (origin pf (lp_current h))) (\<lambda>here.
       andthen (lift_crash (origin pf target)) (\<lambda>there.
       let rewrite = rs_status raw \<in> {301, 302, 303} \<and> lp_method h \<notin> {U ''GET'', U ''HEAD''} in
       ret (h\<lparr>lp_count := Suc (lp_count h), lp_current := target, lp_visited := lp_visited h @ [target],
         lp_redirects := lp_redirects h @ [target],
         lp_headers := (if here \<noteq> there then filter (\<lambda>(k, v). \<not> secret_header pf k) (lp_headers h) else lp_headers h),
         lp_method := (if rewrite then U ''GET'' else lp_method h),
         lp_body := (if rewrite then None else lp_body h)\<rparr>)))))))"

text \<open>What becomes of a response: too long, a redirect, or the last one.\<close>

definition settle ::
  "'n http_platform \<Rightarrow> source_position \<Rightarrow> http_call \<Rightarrow> hop \<Rightarrow> transport_response \<Rightarrow> ('n, hop + hop \<times> transport_response) net_comp" where
  "settle pf p c h raw =
     (if hc_max_bytes c < int (length (rs_body raw)) then raise (denied 787 ''http_limit_error'' p)
      else andthen (receive pf p c (lp_current h) raw) (\<lambda>got.
        let h' = h\<lparr>lp_received := foldl (\<lambda>d (k, v). dict_set d k v) (lp_received h) got\<rparr>; location = location_of pf raw in
        if rs_status raw \<in> {301, 302, 303, 307, 308} \<and> hc_redirect c \<and> location \<noteq> [] then
          (if hc_max_redirects c \<le> lp_count h then raise (denied 785 ''http_redirect_error'' p)
           else andthen (follow pf p raw location h') (\<lambda>h''. ret (Inl h'')))
        else ret (Inr (h', raw))))"

definition hop_step ::
  "'n http_platform \<Rightarrow> source_position \<Rightarrow> http_call \<Rightarrow> origin_key \<Rightarrow> hop \<Rightarrow> ('n, hop + hop \<times> transport_response) net_comp" where
  "hop_step pf p c initial h =
     andthen (jar_cookies pf c (lp_current h)) (\<lambda>jarred.
     andthen (lift_crash (origin pf (lp_current h))) (\<lambda>now_at.
     andthen (lift_crash (int_div64 (hc_timeout c) 1000)) (\<lambda>seconds.
     andthen (send pf p (request_of c initial h now_at jarred seconds)) (settle pf p c h))))"

text \<open>The first request and what follows it; \<open>max_redirects + 1\<close> rounds are all there are.\<close>

definition exchange :: "'n http_platform \<Rightarrow> source_position \<Rightarrow> http_call \<Rightarrow> ('n, hop \<times> transport_response) net_comp" where
  "exchange pf p c =
     andthen (validate_url pf p (hc_url c)) (\<lambda>u.
     andthen (lift_crash (origin pf u)) (\<lambda>initial.
     loop_n (Suc (hc_max_redirects c)) (hop_step pf p c initial)
       \<lparr>lp_count = 0, lp_current = u, lp_visited = [u], lp_redirects = [], lp_headers = hc_headers c, lp_method = hc_method c,
        lp_body = hc_body c, lp_received = []\<rparr>))"

subsection \<open>The response\<close>

definition strip_text :: "ustr \<Rightarrow> ustr" where "strip_text s = rstrip (lstrip s)"

definition strip_quotes :: "ustr \<Rightarrow> ustr" where
  "strip_quotes s = rev (dropWhile (\<lambda>c. c = 34) (rev (dropWhile (\<lambda>c. c = 34) s)))"

text \<open>The last \<open>charset\<close> parameter of a content type counts.\<close>

definition charset :: "'n http_platform \<Rightarrow> ustr \<Rightarrow> ustr \<Rightarrow> ustr" where
  "charset pf content_type d =
     foldl (\<lambda>e part.
       if starts_with (lower pf (strip_text part)) (U ''charset='')
       then lower pf (strip_quotes (strip_text (drop 1 (dropWhile (\<lambda>c. c \<noteq> 61) part)))) else e)
     d (drop 1 (split_on 59 content_type))"

definition normalized_headers :: "'n http_platform \<Rightarrow> transport_response \<Rightarrow> (ustr \<times> ustr) list" where
  "normalized_headers pf raw =
     filter (\<lambda>(k, v). k \<noteq> U ''set-cookie'') (foldl (\<lambda>d (k, v). dict_set d (lower pf k) v) [] (rs_headers raw))"

definition selected_encoding :: "'n http_platform \<Rightarrow> http_call \<Rightarrow> hop \<Rightarrow> transport_response \<Rightarrow> ustr option" where
  "selected_encoding pf c h raw =
     (if lp_method h = U ''HEAD'' then None
      else if hc_encoding c \<noteq> U ''auto'' then Some (hc_encoding c)
      else Some (charset pf (case map_of (normalized_headers pf raw) (U ''content-type'') of None \<Rightarrow> [] | Some t \<Rightarrow> t) (U ''utf-8'')))"

definition response_of :: "'n http_platform \<Rightarrow> http_call \<Rightarrow> hop \<Rightarrow> transport_response \<Rightarrow> http_response attempt" where
  "response_of pf c h raw =
     (let selected = selected_encoding pf c h raw in
     bind_sum (case selected of
         None \<Rightarrow> Inr None
       | Some e \<Rightarrow> (case hp_decode pf e (rs_body raw) of None \<Rightarrow> Inl Crash | Some t \<Rightarrow> Inr t)) (\<lambda>t.
     Inr \<lparr>hr_status = rs_status raw, hr_url = rs_url raw, hr_headers = normalized_headers pf raw, hr_bytes = rs_body raw,
       hr_text = t, hr_encoding = (if t = None then None else selected), hr_redirects = lp_redirects h, hr_cookies = lp_received h\<rparr>))"

definition http_request :: "'n http_platform \<Rightarrow> source_position \<Rightarrow> http_value \<Rightarrow> http_options \<Rightarrow> ('n, http_response) net_comp" where
  "http_request pf p url named =
     andthen (lift_sum (http_options_of pf p url named)) (\<lambda>c.
     andthen (exchange pf p c) (\<lambda>(h, raw).
     lift_sum (response_of pf c h raw)))"

definition http_get :: "'n http_platform \<Rightarrow> source_position \<Rightarrow> http_value \<Rightarrow> http_options \<Rightarrow> ('n, ustr) net_comp" where
  "http_get pf p url named =
     andthen (http_request pf p url (dict_set named (U ''method'') (Plain (Value (VStr (U ''GET'')))))) (\<lambda>r.
     if \<not> (200 \<le> hr_status r \<and> hr_status r < 300) then raise (denied 786 ''http_status_error'' p)
     else (case hr_text r of None \<Rightarrow> raise (denied 788 ''http_decode_error'' p) | Some t \<Rightarrow> ret t))"

subsection \<open>What leaves the requests alone\<close>

text \<open>A step that hands nothing to the transport, whatever becomes of it.\<close>

definition quiet :: "('a \<Rightarrow> bool) \<Rightarrow> ('n, 'a) net_comp \<Rightarrow> bool" where
  "quiet Q m \<longleftrightarrow> (\<forall>s. post m (\<lambda>a t. nt_sent t = nt_sent s \<and> Q a) (\<lambda>_ t. nt_sent t = nt_sent s) False s)"

named_theorems quiet_intros

lemma quiet_basic [quiet_intros]:
  "Q a \<Longrightarrow> quiet Q (ret a)" "quiet Q (raise e)"
  "(\<And>a. x = Some a \<Longrightarrow> Q a) \<Longrightarrow> quiet Q (lift_crash x)"
  by (auto simp: quiet_def lift_crash_def split: option.split)

lemma quiet_andthen [quiet_intros]:
  fixes m :: "('n, 'a) net_comp"
  assumes "quiet P m" and "\<And>a. P a \<Longrightarrow> quiet Q (f a)"
  shows "quiet Q (andthen m f)"
  unfolding quiet_def post_andthen
proof
  fix s :: "'n network"
  show "post m (\<lambda>a. post (f a) (\<lambda>a t. nt_sent t = nt_sent s \<and> Q a) (\<lambda>_ t. nt_sent t = nt_sent s) False)
      (\<lambda>_ t. nt_sent t = nt_sent s) False s"
  proof (rule post_mono [OF assms(1) [unfolded quiet_def, rule_format]])
    fix a and t :: "'n network"
    assume "nt_sent t = nt_sent s \<and> P a"
    then show "post (f a) (\<lambda>a t. nt_sent t = nt_sent s \<and> Q a) (\<lambda>_ t. nt_sent t = nt_sent s) False t"
      using assms(2) [of a, unfolded quiet_def, rule_format, of t] by simp
  qed
qed

lemma quiet_crash [quiet_intros]:
  "(\<And>a. x = Some a \<Longrightarrow> quiet Q (f a)) \<Longrightarrow> quiet Q (andthen (lift_crash x) f)"
  by (rule quiet_andthen [where P = "\<lambda>a. x = Some a"]) (auto intro: quiet_basic)

lemma quiet_if [quiet_intros]:
  "(b \<Longrightarrow> quiet Q m) \<Longrightarrow> (\<not> b \<Longrightarrow> quiet Q k) \<Longrightarrow> quiet Q (if b then m else k)"
  by simp

lemma quiet_post: "quiet Q m \<Longrightarrow> post m (\<lambda>a t. nt_sent t = nt_sent s \<and> Q a) (\<lambda>_ t. nt_sent t = nt_sent s) False s"
  by (simp add: quiet_def)

lemma quiet_jar:
  assumes "keeps (\<lambda>_. True) m"
  shows "quiet (\<lambda>_. True) (on_jar m)" and "quiet (\<lambda>_. True) (on_fresh_jar m)"
proof -
  have "fst (m j) \<noteq> NoFuel" for j
    using keepsD [OF assms, of j "fst (m j)" "snd (m j)"] by simp
  then show "quiet (\<lambda>_. True) (on_jar m)" and "quiet (\<lambda>_. True) (on_fresh_jar m)"
    by (auto simp: quiet_def post_def on_jar_def on_fresh_jar_def split: prod.splits outcome.splits) (metis fst_conv)+
qed

lemma keeps_anything:
  "keeps (\<lambda>_. True) (cookie_header h clock q)" "keeps (\<lambda>_. True) (receive_cookies h lib clock p q texts)"
proof -
  show "keeps (\<lambda>_. True) (cookie_header h clock q)"
    unfolding cookie_header_def Let_def live_def by (intro keeps_intros) auto
  have "keeps (\<lambda>_. True) (store_new clock c)" for c
    unfolding store_new_def next_order_def store_def by (intro keeps_intros) auto
  moreover have "keeps (\<lambda>_. True) (expiry lib clock p m)" for m
    unfolding expiry_def by (intro keeps_intros) auto
  ultimately have "keeps (\<lambda>_. True) (receive_morsel h lib clock p name path item)" for name path item
    unfolding receive_morsel_def Let_def by (cases item) (auto intro!: keeps_intros)
  then show "keeps (\<lambda>_. True) (receive_cookies h lib clock p q texts)"
    unfolding receive_cookies_def receive_header_def by (intro keeps_intros)
qed

lemma quiet_jar_cookies: "quiet (\<lambda>jarred. hc_jar c \<or> jarred = []) (jar_cookies pf c u)"
  unfolding jar_cookies_def
  by (intro quiet_if quiet_crash quiet_andthen [where P = "\<lambda>_. True", OF quiet_jar(1) [OF keeps_anything(1)]] quiet_basic(1)) simp_all

lemma quiet_receive: "quiet (\<lambda>_. True) (receive pf p c u raw)"
  unfolding receive_def Let_def
  by (cases "hc_jar c") (simp_all add: quiet_if quiet_crash quiet_basic quiet_jar keeps_anything)

text \<open>What the capability lets through.\<close>

definition permitted_parts :: "network_capability \<Rightarrow> (ustr \<Rightarrow> ustr) \<Rightarrow> url_parts \<Rightarrow> bool" where
  "permitted_parts nc lower_case q \<longleftrightarrow>
     nc_network nc \<and> ur_scheme q \<in> set (nc_schemes nc) \<and>
     (\<exists>name. ur_host q = Some name \<and> name \<noteq> [] \<and> host_allowed nc (lower_case name)) \<and>
     \<not> present (ur_username q) \<and> \<not> present (ur_password q) \<and> ur_fragment q = [] \<and>
     (\<exists>port. ur_port q = Some port \<and> (case nc_ports nc of None \<Rightarrow> True | Some ps \<Rightarrow> effective_port q port \<in> set ps))"

definition permitted :: "'n http_platform \<Rightarrow> ustr \<Rightarrow> bool" where
  "permitted pf u \<longleftrightarrow> (\<exists>raw q. hp_split pf raw = Some q \<and> u = sent_form pf q \<and> permitted_parts (hp_capability pf) (lower pf) q)"

lemma quiet_resolve: "quiet (\<lambda>_. True) (resolve_host pf p name port)"
  by (auto simp: quiet_def post_def resolve_host_def split: prod.splits option.splits)

lemma quiet_validate: "quiet (permitted pf) (validate_url pf p url)"
proof -
  have ok: "permitted pf (sent_form pf q)"
    if "nc_network (hp_capability pf)" "hp_split pf u = Some q"
      "\<not> (ur_scheme q \<notin> set (nc_schemes (hp_capability pf)) \<or> \<not> present (ur_host q) \<or> present (ur_username q) \<or> present (ur_password q) \<or> ur_fragment q \<noteq> [])"
      "host_allowed (hp_capability pf) (lower pf (the (ur_host q)))" "ur_port q = Some port"
      "\<not> (case nc_ports (hp_capability pf) of None \<Rightarrow> False | Some ps \<Rightarrow> effective_port q port \<notin> set ps)"
    for u q port
    unfolding permitted_def permitted_parts_def
    by (intro exI [of _ u] exI [of _ q]) (use that in \<open>auto simp: present_def split: option.splits\<close>)
  have "quiet (permitted pf) (validate_url pf p (Plain (Value (VStr u))))" for u
    unfolding validate_url_def Let_def http_value.case client_value.case sep_value.case
    by (intro quiet_if quiet_crash quiet_basic(2) quiet_andthen [where P = "\<lambda>_. True"] quiet_resolve quiet_basic(1) TrueI ok) auto
  then show ?thesis
    by (cases url) (auto simp: validate_url_def quiet_basic split: client_value.splits sep_value.splits)
qed

subsection \<open>The trail of a request\<close>

definition others :: "'n http_platform \<Rightarrow> (ustr \<times> ustr) list \<Rightarrow> (ustr \<times> ustr) list" where
  "others pf hs = filter (\<lambda>(k, v). \<not> secret_header pf k) hs"

definition scheme_at :: "'n http_platform \<Rightarrow> ustr \<Rightarrow> ustr option" where
  "scheme_at pf u = map_option ur_scheme (hp_split pf u)"

definition no_downgrade :: "'n http_platform \<Rightarrow> ustr \<Rightarrow> ustr \<Rightarrow> bool" where
  "no_downgrade pf u v \<longleftrightarrow> \<not> (scheme_at pf u = Some (U ''https'') \<and> scheme_at pf v = Some (U ''http''))"

definition content :: "request_message \<Rightarrow> ustr \<times> nat list option" where
  "content r = (rq_method r, rq_body r)"

definition rewritten :: "ustr \<times> nat list option \<Rightarrow> ustr \<times> nat list option \<Rightarrow> bool" where
  "rewritten x y \<longleftrightarrow> y = x \<or> fst x \<notin> {U ''GET'', U ''HEAD''} \<and> y = (U ''GET'', None)"

text \<open>The headers of a request: those of the call or, behind another origin, what is left of them; and a \<open>Cookie\<close>.\<close>

definition carries :: "'n http_platform \<Rightarrow> http_call \<Rightarrow> origin_key \<Rightarrow> request_message \<Rightarrow> bool" where
  "carries pf c initial r \<longleftrightarrow>
     (\<exists>hs. (hs = hc_headers c \<and> origin pf (rq_url r) = Some initial \<or> hs = others pf (hc_headers c)) \<and>
       (rq_headers r = hs \<or>
        (hc_jar c \<or> origin pf (rq_url r) = Some initial) \<and> (\<exists>text. rq_headers r = dict_set hs (U ''Cookie'') text)))"

definition trail :: "'n http_platform \<Rightarrow> http_call \<Rightarrow> origin_key \<Rightarrow> request_message list \<Rightarrow> bool" where
  "trail pf c initial rs \<longleftrightarrow>
     length rs \<le> Suc (hc_max_redirects c) \<and> distinct (map rq_url rs) \<and> (\<forall>r \<in> set rs. permitted pf (rq_url r) \<and> carries pf c initial r) \<and>
     successively (no_downgrade pf) (map rq_url rs) \<and> sorted_wrt rewritten (map content rs) \<and>
     (rs \<noteq> [] \<longrightarrow> origin pf (rq_url (hd rs)) = Some initial)"

text \<open>Where the loop stands after the requests \<open>rs\<close>.\<close>

definition stands :: "'n http_platform \<Rightarrow> http_call \<Rightarrow> origin_key \<Rightarrow> request_message list \<Rightarrow> hop \<Rightarrow> bool" where
  "stands pf c initial rs h \<longleftrightarrow>
     trail pf c initial rs \<and> length rs = lp_count h \<and> lp_count h \<le> hc_max_redirects c \<and>
     lp_visited h = map rq_url rs @ [lp_current h] \<and> lp_redirects h = tl (lp_visited h) \<and>
     (lp_headers h = hc_headers c \<and> (\<forall>u \<in> set (lp_visited h). origin pf u = Some initial) \<or> lp_headers h = others pf (hc_headers c)) \<and>
     (\<forall>r. rq_url r = lp_current h \<and> content r = (lp_method h, lp_body h) \<and> carries pf c initial r \<longrightarrow> trail pf c initial (rs @ [r]))"

lemma others_others [simp]: "others pf (others pf hs) = others pf hs"
  by (simp add: others_def)

lemma post_lift_crash [simp]:
  "post (lift_crash x) Q X F s = (case x of None \<Rightarrow> X Crash s | Some a \<Rightarrow> Q a s)"
  by (simp add: lift_crash_def split: option.split)

lemma post_quiet:
  assumes "quiet P m" and "\<And>a t. nt_sent t = nt_sent s \<Longrightarrow> P a \<Longrightarrow> Q a t" and "\<And>e t. nt_sent t = nt_sent s \<Longrightarrow> X e t"
  shows "post m Q X F s"
  by (rule post_mono [OF quiet_post [OF assms(1)]]) (use assms(2,3) in auto)

lemma post_send:
  assumes "\<And>raw t. nt_sent t = nt_sent s @ [rq] \<Longrightarrow> Q raw t" and "\<And>e t. nt_sent t = nt_sent s @ [rq] \<Longrightarrow> X e t"
  shows "post (send pf p rq) Q X F s"
  using assms by (auto simp: post_def send_def split: prod.split option.split)

lemma request_carries:
  assumes "stands pf c initial rs h" and "hc_jar c \<or> jarred = []" and "origin pf (lp_current h) = Some now_at"
  shows "trail pf c initial (rs @ [request_of c initial h now_at jarred seconds])"
proof -
  have "carries pf c initial (request_of c initial h now_at jarred seconds)"
    unfolding carries_def
    by (rule exI [of _ "lp_headers h"]) (use assms in \<open>auto simp: stands_def request_of_def Let_def\<close>)
  with assms(1) show ?thesis
    by (auto simp: stands_def request_of_def Let_def content_def)
qed

text \<open>The loop after a redirect to \<open>target\<close>.\<close>

definition moved :: "'n http_platform \<Rightarrow> ustr \<Rightarrow> bool \<Rightarrow> bool \<Rightarrow> hop \<Rightarrow> hop" where
  "moved pf target other_origin rewrite h =
     h\<lparr>lp_count := Suc (lp_count h), lp_current := target, lp_visited := lp_visited h @ [target],
       lp_redirects := lp_redirects h @ [target],
       lp_headers := (if other_origin then filter (\<lambda>(k, v). \<not> secret_header pf k) (lp_headers h) else lp_headers h),
       lp_method := (if rewrite then U ''GET'' else lp_method h),
       lp_body := (if rewrite then None else lp_body h)\<rparr>"

definition moves :: "'n http_platform \<Rightarrow> hop \<Rightarrow> hop \<Rightarrow> bool" where
  "moves pf h h' \<longleftrightarrow>
     (\<exists>target here there rewrite. permitted pf target \<and> target \<notin> set (lp_visited h) \<and> no_downgrade pf (lp_current h) target \<and>
       origin pf (lp_current h) = Some here \<and> origin pf target = Some there \<and>
       (rewrite \<longrightarrow> lp_method h \<notin> {U ''GET'', U ''HEAD''}) \<and> h' = moved pf target (here \<noteq> there) rewrite h)"

lemma quiet_follow: "quiet (moves pf h) (follow pf p raw location h)"
proof -
  have ok: "moves pf h (moved pf target (here \<noteq> there) (rs_status raw \<in> {301, 302, 303} \<and> lp_method h \<notin> {U ''GET'', U ''HEAD''}) h)"
    if "hp_split pf (lp_current h) = Some q" "permitted pf target" "hp_split pf target = Some q'"
      "\<not> (ur_scheme q = U ''https'' \<and> ur_scheme q' = U ''http'')" "target \<notin> set (lp_visited h)"
      "origin pf (lp_current h) = Some here" "origin pf target = Some there" for q q' target here there
    unfolding moves_def by (intro exI conjI) (use that in \<open>auto simp: no_downgrade_def scheme_at_def\<close>)
  show ?thesis
    unfolding follow_def Let_def moved_def [symmetric]
    by (intro quiet_crash quiet_andthen [OF quiet_validate] quiet_if quiet_basic(1,2) ok)
qed

text \<open>Moving on keeps the trail.\<close>

lemma stands_moves:
  assumes st: "stands pf c initial rs h" and tr: "trail pf c initial (rs @ [r])" and r: "rq_url r = lp_current h" "content r = (lp_method h, lp_body h)"
    and more: "lp_count h < hc_max_redirects c" and moves: "moves pf (h\<lparr>lp_received := got\<rparr>) h'"
  shows "stands pf c initial (rs @ [r]) h'"
proof -
  from moves [unfolded moves_def] obtain target here there rewrite where
    "permitted pf target \<and> target \<notin> set (lp_visited (h\<lparr>lp_received := got\<rparr>)) \<and>
     no_downgrade pf (lp_current (h\<lparr>lp_received := got\<rparr>)) target \<and>
     origin pf (lp_current (h\<lparr>lp_received := got\<rparr>)) = Some here \<and> origin pf target = Some there \<and>
     (rewrite \<longrightarrow> lp_method (h\<lparr>lp_received := got\<rparr>) \<notin> {U ''GET'', U ''HEAD''}) \<and>
     h' = moved pf target (here \<noteq> there) rewrite (h\<lparr>lp_received := got\<rparr>)"
    by (elim exE) (rule that)
  then have target: "permitted pf target" "target \<notin> set (lp_visited h)" "no_downgrade pf (lp_current h) target"
    and origins: "origin pf (lp_current h) = Some here" "origin pf target = Some there"
    and rewrite: "rewrite \<Longrightarrow> lp_method h \<notin> {U ''GET'', U ''HEAD''}"
    and h': "h' = moved pf target (here \<noteq> there) rewrite (h\<lparr>lp_received := got\<rparr>)"
    by simp_all
  note h' = h' [unfolded moved_def]
  have visited: "lp_visited h = map rq_url (rs @ [r])" using st r by (simp add: stands_def)
  have headers: "lp_headers h' = hc_headers c \<and> (\<forall>u \<in> set (lp_visited h'). origin pf u = Some initial) \<or> lp_headers h' = others pf (hc_headers c)"
  proof (cases "here = there")
    case True
    have "here = initial" if "\<forall>u \<in> set (lp_visited h). origin pf u = Some initial"
      using that origins visited r by simp
    with st True origins show ?thesis by (auto simp: stands_def h')
  next
    case False
    then have "lp_headers h' = others pf (lp_headers h)" by (simp add: h' others_def)
    then show ?thesis using st by (auto simp: stands_def)
  qed
  have trail: "trail pf c initial ((rs @ [r]) @ [x])"
    if x: "rq_url x = target" "content x = (lp_method h', lp_body h')" "carries pf c initial x" for x
  proof -
    have "rewritten (content r) (content x)" using x r rewrite by (auto simp: h' rewritten_def)
    moreover have "rewritten a (content x)" if "a \<in> content ` set rs" for a
    proof -
      have "rewritten a (content r)" using tr that by (auto simp: trail_def sorted_wrt_append)
      with \<open>rewritten (content r) (content x)\<close> show ?thesis by (auto simp: rewritten_def)
    qed
    ultimately show ?thesis
      using tr x target st r more visited
      by (auto simp: trail_def stands_def successively_append_iff sorted_wrt_append hd_append)
  qed
  have "lp_visited h \<noteq> []" and "lp_redirects h = tl (lp_visited h)" using visited st by (simp_all add: stands_def)
  then have redirects: "lp_redirects h' = tl (lp_visited h')" by (simp add: h')
  have rest: "length (rs @ [r]) = lp_count h' \<and> lp_count h' \<le> hc_max_redirects c \<and> lp_visited h' = map rq_url (rs @ [r]) @ [lp_current h']"
    using st more visited by (simp add: h' stands_def)
  have "lp_current h' = target" by (simp add: h')
  with tr rest redirects headers trail show ?thesis
    unfolding stands_def by simp
qed

definition reached :: "'n http_platform \<Rightarrow> http_call \<Rightarrow> request_message list \<Rightarrow> hop \<times> transport_response \<Rightarrow> bool" where
  "reached pf c rs = (\<lambda>(h, raw).
     rs \<noteq> [] \<and> lp_redirects h = tl (map rq_url rs) \<and> int (length (rs_body raw)) \<le> hc_max_bytes c)"

definition stepped :: "'n http_platform \<Rightarrow> http_call \<Rightarrow> origin_key \<Rightarrow> request_message list \<Rightarrow> hop + hop \<times> transport_response \<Rightarrow> bool" where
  "stepped pf c initial rs x \<longleftrightarrow>
     (case x of Inl h \<Rightarrow> stands pf c initial rs h \<and> length rs \<le> hc_max_redirects c | Inr y \<Rightarrow> reached pf c rs y)"

lemma quiet_settle:
  assumes st: "stands pf c initial rs h" and tr: "trail pf c initial (rs @ [r])" and r: "rq_url r = lp_current h" "content r = (lp_method h, lp_body h)"
  shows "quiet (stepped pf c initial (rs @ [r])) (settle pf p c h raw)"
proof -
  have last: "lp_redirects h = tl (map rq_url (rs @ [r]))" using st r by (simp add: stands_def)
  have moved: "stepped pf c initial (rs @ [r]) (Inl h')"
    if "lp_count h < hc_max_redirects c" "moves pf (h\<lparr>lp_received := got\<rparr>) h'" for got h'
  proof -
    note st' = stands_moves [OF st tr r that]
    then have "length (rs @ [r]) = lp_count h'" and "lp_count h' \<le> hc_max_redirects c" by (simp_all only: stands_def)
    with st' show ?thesis by (simp add: stepped_def)
  qed
  show ?thesis
    unfolding settle_def Let_def
    by (intro quiet_if quiet_basic(1,2) quiet_andthen [OF quiet_receive] quiet_andthen [OF quiet_follow])
      (simp_all add: moved stepped_def [of _ _ _ _ "Inr _"] reached_def last)
qed

lemma hop_step_trail:
  fixes pf :: "'n http_platform"
  assumes st: "stands pf c initial rs h" and sent: "nt_sent s = b @ rs"
  shows "post (hop_step pf p c initial h)
    (\<lambda>x t. \<exists>rs'. nt_sent t = b @ rs' \<and> trail pf c initial rs' \<and> stepped pf c initial rs' x \<and> length rs' = Suc (length rs))
    (\<lambda>_ t. \<exists>rs'. nt_sent t = b @ rs' \<and> trail pf c initial rs') False s"
    (is "post _ ?Q ?X _ _")
proof -
  have x0: "?X e t" if "nt_sent t = nt_sent s" for e t
    using that st sent by (auto simp: stands_def)
  show ?thesis
    unfolding hop_step_def
  proof (subst post_andthen, rule post_quiet [OF quiet_jar_cookies])
    fix jarred :: "(ustr \<times> ustr) list" and t :: "'n network"
    assume t: "nt_sent t = nt_sent s" and jarred: "hc_jar c \<or> jarred = []"
    have go: "post (andthen (send pf p (request_of c initial h now_at jarred seconds)) (settle pf p c h)) ?Q ?X False t"
      if now_at: "origin pf (lp_current h) = Some now_at" for now_at seconds
    proof (subst post_andthen, rule post_send)
      let ?r = "request_of c initial h now_at jarred seconds"
      have tr: "trail pf c initial (rs @ [?r])" by (rule request_carries [OF st jarred now_at])
      fix u :: "'n network"
      assume "nt_sent u = nt_sent t @ [?r]"
      then have u: "nt_sent u = b @ (rs @ [?r])" by (simp add: t sent)
      with tr show "?X e u" for e by blast
      have "rq_url ?r = lp_current h" and "content ?r = (lp_method h, lp_body h)"
        by (simp_all add: request_of_def Let_def content_def)
      then show "post (settle pf p c h raw) ?Q ?X False u" for raw
        by (intro post_quiet [OF quiet_settle [OF st tr]]) (use tr u in fastforce)+
    qed
    show "post (andthen (lift_crash (origin pf (lp_current h))) (\<lambda>now_at.
        andthen (lift_crash (int_div64 (hc_timeout c) 1000)) (\<lambda>seconds.
        andthen (send pf p (request_of c initial h now_at jarred seconds)) (settle pf p c h)))) ?Q ?X False t"
      using go x0 [OF t] by (auto split: option.split simp del: post_andthen simp: post_andthen [of "lift_crash _"])
  qed (rule x0)
qed

lemma exchange_trail:
  fixes pf :: "'n http_platform"
  assumes "nt_sent s = b"
  shows "post (exchange pf p c)
    (\<lambda>y t. \<exists>initial rs. nt_sent t = b @ rs \<and> trail pf c initial rs \<and> reached pf c rs y)
    (\<lambda>_ t. \<exists>initial rs. nt_sent t = b @ rs \<and> trail pf c initial rs) False s"
    (is "post _ ?Q ?X _ _")
proof -
  have none: "trail pf c initial []" for initial by (simp add: trail_def)
  have x0: "?X e t" if "nt_sent t = nt_sent s" for e t
    using that assms none by auto
  have loop: "post (loop_n (Suc (hc_max_redirects c)) (hop_step pf p c initial)
       \<lparr>lp_count = 0, lp_current = u, lp_visited = [u], lp_redirects = [], lp_headers = hc_headers c, lp_method = hc_method c,
        lp_body = hc_body c, lp_received = []\<rparr>) ?Q ?X False t"
    if t: "nt_sent t = nt_sent s" and u: "permitted pf u" "origin pf u = Some initial" for t u initial
  proof (rule post_loop_n [where m = "\<lambda>s'. hc_max_redirects c - (length (nt_sent s') - length b)"
        and I = "\<lambda>h s'. \<exists>rs. nt_sent s' = b @ rs \<and> stands pf c initial rs h"])
    show "\<exists>rs. nt_sent t = b @ rs \<and> stands pf c initial rs \<lparr>lp_count = 0, lp_current = u, lp_visited = [u], lp_redirects = [],
        lp_headers = hc_headers c, lp_method = hc_method c, lp_body = hc_body c, lp_received = []\<rparr>"
      by (intro exI [of _ "[]"]) (use t u assms none in \<open>auto simp: stands_def trail_def\<close>)
    show "hc_max_redirects c - (length (nt_sent t) - length b) < Suc (hc_max_redirects c)" by simp
  next
    fix h and s' :: "'n network"
    assume "\<exists>rs. nt_sent s' = b @ rs \<and> stands pf c initial rs h"
    then obtain rs where s': "nt_sent s' = b @ rs" and st: "stands pf c initial rs h" by blast
    show "post (hop_step pf p c initial h)
        (\<lambda>r t. case r of
            Inl h' \<Rightarrow> (\<exists>rs. nt_sent t = b @ rs \<and> stands pf c initial rs h') \<and>
              hc_max_redirects c - (length (nt_sent t) - length b) < hc_max_redirects c - (length (nt_sent s') - length b)
          | Inr y \<Rightarrow> ?Q y t) ?X False s'"
      by (rule post_mono [OF hop_step_trail [OF st s']])
        (use s' in \<open>auto simp: stepped_def simp del: split_paired_Ex split: sum.splits\<close>)
  qed
  have start: "post (andthen (lift_crash (origin pf u)) (\<lambda>initial.
      loop_n (Suc (hc_max_redirects c)) (hop_step pf p c initial)
       \<lparr>lp_count = 0, lp_current = u, lp_visited = [u], lp_redirects = [], lp_headers = hc_headers c, lp_method = hc_method c,
        lp_body = hc_body c, lp_received = []\<rparr>)) ?Q ?X False t"
    if "nt_sent t = nt_sent s" and "permitted pf u" for t u
    unfolding post_andthen [of "lift_crash _"] post_lift_crash
    using loop [OF that] x0 [OF that(1)] by (auto split: option.split)
  show ?thesis
    unfolding exchange_def
    by (subst post_andthen, rule post_quiet [OF quiet_validate]) (rule start x0, assumption+)+
qed

text \<open>The trail of a whole call: nothing is sent before the options are accepted.\<close>

definition call_trail ::
  "'n http_platform \<Rightarrow> source_position \<Rightarrow> http_value \<Rightarrow> http_options \<Rightarrow> request_message list \<Rightarrow> (exn, http_response) outcome \<Rightarrow> bool" where
  "call_trail pf p url named rs r \<longleftrightarrow> r \<noteq> NoFuel \<and>
     (case http_options_of pf p url named of
        Inl e \<Rightarrow> rs = [] \<and> r = Raised e
      | Inr c \<Rightarrow> \<exists>initial. trail pf c initial rs \<and>
          (\<forall>y. r = Done y \<longrightarrow> rs \<noteq> [] \<and> hr_redirects y = tl (map rq_url rs) \<and> int (length (hr_bytes y)) \<le> hc_max_bytes c))"

lemma http_request_trail:
  fixes pf :: "'n http_platform"
  assumes "http_request pf p url named s = (r, s')"
  shows "\<exists>rs. nt_sent s' = nt_sent s @ rs \<and> call_trail pf p url named rs r"
proof (cases "http_options_of pf p url named")
  case (Inl e)
  with assms show ?thesis
    by (auto simp: http_request_def lift_sum_def andthen_def raise_def call_trail_def)
next
  case (Inr c)
  have "post (http_request pf p url named)
      (\<lambda>y t. \<exists>rs. nt_sent t = nt_sent s @ rs \<and> call_trail pf p url named rs (Done y))
      (\<lambda>e t. \<exists>rs. nt_sent t = nt_sent s @ rs \<and> call_trail pf p url named rs (Raised e)) False s"
    unfolding http_request_def post_andthen post_lift_sum Inr sum.case
  proof (rule post_mono [OF exchange_trail [OF refl]])
    fix y and t :: "'n network"
    assume "\<exists>initial rs. nt_sent t = nt_sent s @ rs \<and> trail pf c initial rs \<and> reached pf c rs y"
    moreover obtain h raw where "y = (h, raw)" by fastforce
    moreover have "hr_redirects v = lp_redirects h \<and> hr_bytes v = rs_body raw" if "response_of pf c h raw = Inr v" for h raw v
      using that by (auto simp: response_of_def Let_def bind_sum_def split: sum.splits)
    ultimately show "post (case y of (h, raw) \<Rightarrow> lift_sum (response_of pf c h raw))
        (\<lambda>y t. \<exists>rs. nt_sent t = nt_sent s @ rs \<and> call_trail pf p url named rs (Done y))
        (\<lambda>e t. \<exists>rs. nt_sent t = nt_sent s @ rs \<and> call_trail pf p url named rs (Raised e)) False t"
      by (auto simp: call_trail_def Inr reached_def simp del: split_paired_Ex split: sum.splits)
  qed (auto simp: call_trail_def Inr simp del: split_paired_Ex)
  with assms show ?thesis by (auto simp: post_def call_trail_def split: outcome.splits)
qed

subsection \<open>What the network sees\<close>

lemma bind_sum_Inr: "bind_sum x f = Inr b \<longleftrightarrow> (\<exists>a. x = Inr a \<and> f a = Inr b)"
  by (auto simp: bind_sum_def split: sum.splits)

lemma redirect_limit: "redirect_options p named = Inr (b, n) \<Longrightarrow> n \<le> 20"
  by (auto simp: redirect_options_def split: http_value.splits client_value.splits sep_value.splits if_splits)

lemma byte_limit: "max_bytes_option nc p named = Inr n \<Longrightarrow> n \<le> nc_max_bytes nc"
  by (auto simp: max_bytes_option_def split: http_value.splits client_value.splits sep_value.splits if_splits)

lemma jar_given: "cookie_options_of p named = Inr (j, cs) \<Longrightarrow> j \<longleftrightarrow> map_of named (U ''cookie_jar'') = Some Cookie_jar"
  by (auto simp: cookie_options_of_def bind_sum_Inr split: http_value.splits option.splits)

lemma options_bounds:
  assumes "http_options_of pf p url named = Inr c"
  shows "hc_max_redirects c \<le> 20" and "hc_max_bytes c \<le> nc_max_bytes (hp_capability pf)"
    and "hc_jar c \<longleftrightarrow> map_of named (U ''cookie_jar'') = Some Cookie_jar"
proof -
  from assms obtain redirect limit max_bytes j explicit where
    given: "redirect_options p named = Inr (redirect, limit)" "max_bytes_option (hp_capability pf) p named = Inr max_bytes"
      "cookie_options_of p named = Inr (j, explicit)"
    and c: "hc_max_redirects c = limit" "hc_max_bytes c = max_bytes" "hc_jar c = j"
    by (auto simp: http_options_of_def Let_def bind_sum_Inr simp del: split_paired_Ex)
  show "hc_max_redirects c \<le> 20" and "hc_max_bytes c \<le> nc_max_bytes (hp_capability pf)"
    and "hc_jar c \<longleftrightarrow> map_of named (U ''cookie_jar'') = Some Cookie_jar"
    using redirect_limit [OF given(1)] byte_limit [OF given(2)] jar_given [OF given(3)] by (simp_all add: c)
qed

text \<open>
  C5. Whatever a server answers, \<open>http_request\<close> talks only to where the host allows it to: every URL handed to the
  transport, the one of the call or the target of a redirect, is the normal form of a URL that passed the checks of the network
  capability (scheme, host, port, no user information, no fragment); no URL is requested twice, there are at most 21
  requests, and no redirect leads from HTTPS to HTTP. The call ends; a response it returns has at most as many bytes
  as the capability allows and names exactly the URLs that were followed.
\<close>

theorem requests_stay_permitted:
  assumes "http_request pf p url named s = (r, s')"
  shows "r \<noteq> NoFuel \<and> (\<exists>rs. nt_sent s' = nt_sent s @ rs \<and> length rs \<le> 21 \<and> distinct (map rq_url rs) \<and>
    (\<forall>q \<in> set rs. permitted pf (rq_url q)) \<and> successively (no_downgrade pf) (map rq_url rs) \<and>
    (\<forall>y. r = Done y \<longrightarrow> rs \<noteq> [] \<and> hr_redirects y = tl (map rq_url rs) \<and>
      int (length (hr_bytes y)) \<le> nc_max_bytes (hp_capability pf)))"
proof -
  obtain rs where "nt_sent s' = nt_sent s @ rs" and call: "call_trail pf p url named rs r"
    using http_request_trail [OF assms] by blast
  show ?thesis
  proof (cases "http_options_of pf p url named")
    case (Inl e)
    with call have "rs = []" and "r = Raised e" by (simp_all add: call_trail_def)
    with \<open>nt_sent s' = nt_sent s @ rs\<close> show ?thesis by simp
  next
    case (Inr c)
    with call obtain initial where tr: "trail pf c initial rs"
      and final: "\<And>y. r = Done y \<Longrightarrow> rs \<noteq> [] \<and> hr_redirects y = tl (map rq_url rs) \<and> int (length (hr_bytes y)) \<le> hc_max_bytes c"
      by (auto simp: call_trail_def simp del: split_paired_Ex)
    have answer: "\<forall>y. r = Done y \<longrightarrow> rs \<noteq> [] \<and> hr_redirects y = tl (map rq_url rs) \<and>
      int (length (hr_bytes y)) \<le> nc_max_bytes (hp_capability pf)"
    proof (intro allI impI)
      fix y
      assume "r = Done y"
      from final [OF this] options_bounds(2) [OF Inr]
      show "rs \<noteq> [] \<and> hr_redirects y = tl (map rq_url rs) \<and> int (length (hr_bytes y)) \<le> nc_max_bytes (hp_capability pf)"
        by (blast intro: order_trans)
    qed
    have short: "length rs \<le> 21" using tr options_bounds(1) [OF Inr] by (simp add: trail_def)
    have facts: "distinct (map rq_url rs)" "\<forall>q \<in> set rs. permitted pf (rq_url q)" "successively (no_downgrade pf) (map rq_url rs)"
      using tr by (simp_all add: trail_def)
    have "r \<noteq> NoFuel" using call by (simp add: call_trail_def)
    then show ?thesis
      by (intro conjI exI [of _ rs] \<open>nt_sent s' = nt_sent s @ rs\<close> short facts answer)
  qed
qed

lemma dict_set_in: "(k, v) \<in> set (dict_set d k' v') \<Longrightarrow> (k, v) = (k', v') \<or> (k, v) \<in> set d"
  by (drule subsetD [OF set_dict_set]) simp

lemma others_cookie:
  "secret_header pf k \<Longrightarrow> others pf (dict_set hs k t) = others pf hs"
  by (induction hs k t rule: dict_set.induct) (auto simp: others_def)

text \<open>
  C6. Credentials stay with the origin of the call. A request to another scheme, host or port than the first one, after any number
  of redirects, carries no \<open>Authorization\<close> and no \<open>Proxy-Authorization\<close> header, whether the program or an
  authentication value supplied it, and a \<open>Cookie\<close> header only when the call has a cookie jar: never the cookies
  of the option \<open>cookies\<close> alone nor a \<open>Cookie\<close> header of the program.
\<close>

theorem credentials_stay_at_origin:
  assumes "http_request pf p url named s = (r, s')" and "nt_sent s' = nt_sent s @ q # rs" and "q' \<in> set rs"
    and "origin pf (rq_url q') \<noteq> origin pf (rq_url q)" and "(k, v) \<in> set (rq_headers q')"
    and "lower pf (U ''Cookie'') = U ''cookie''"
  shows "lower pf k \<notin> {U ''authorization'', U ''proxy-authorization''} \<and>
    (lower pf k = U ''cookie'' \<longrightarrow> map_of named (U ''cookie_jar'') = Some Cookie_jar)"
proof -
  obtain c initial where "http_options_of pf p url named = Inr c" and tr: "trail pf c initial (q # rs)"
    using http_request_trail [OF assms(1)] assms(2) by (auto simp: call_trail_def simp del: split_paired_Ex split: sum.splits)
  note jar = options_bounds(3) [OF this(1)]
  have "carries pf c initial q'" and "origin pf (rq_url q') \<noteq> Some initial"
    using tr assms(3,4) by (auto simp: trail_def)
  then obtain t where "rq_headers q' = others pf (hc_headers c) \<or>
      hc_jar c \<and> rq_headers q' = dict_set (others pf (hc_headers c)) (U ''Cookie'') t"
    by (auto simp: carries_def)
  with assms(5) have "(k, v) \<in> set (others pf (hc_headers c)) \<or> hc_jar c \<and> k = U ''Cookie''"
    by (auto dest: dict_set_in)
  with assms(6) jar show ?thesis
    by (auto simp: others_def secret_header_def U.simps)
qed


text \<open>
  An example: a call with an API key and basic authentication cannot be made at once, so the key is the authentication and
  \<open>Authorization\<close> a header of the program; the server at \<open>a.org\<close> redirects to \<open>b.org\<close>.
\<close>

definition example_transport :: "request_message \<Rightarrow> unit \<Rightarrow> transport_response option \<times> unit" where
  "example_transport rq n =
     (Some (if rq_url rq = U ''https://a.org/''
        then \<lparr>rs_status = 302, rs_url = rq_url rq, rs_headers = [(U ''location'', U ''https://b.org/'')], rs_body = [], rs_set_cookies = []\<rparr>
        else \<lparr>rs_status = 200, rs_url = rq_url rq, rs_headers = [], rs_body = U ''ok'', rs_set_cookies = []\<rparr>), n)"

definition ascii_host :: host where
  "ascii_host = plain_host\<lparr>h_lower := List.map ascii_lower\<rparr>"

definition example_platform :: "unit http_platform" where
  "example_platform = \<lparr>hp_host = ascii_host, hp_clock = still, hp_cookies = example_library [],
     hp_capability = \<lparr>nc_network = True, nc_schemes = [U ''https''], nc_hosts = None, nc_ports = None, nc_private = False,
       nc_max_timeout = 60000, nc_max_bytes = 1000\<rparr>,
     hp_split = map_of [(U ''https://a.org/'', example_url ''a.org'' ''/''), (U ''https://b.org/'', example_url ''b.org'' ''/'')],
     hp_unsplit = (\<lambda>scheme netloc path query fragment. scheme @ U ''://'' @ netloc @ path), hp_join = (\<lambda>_. Some),
     hp_parse_query = (\<lambda>_. []), hp_encode_query = (\<lambda>_. None), hp_resolves = False, hp_lookup = (\<lambda>_ _ n. (None, n)),
     hp_global = (\<lambda>_. False), hp_transport = example_transport, hp_decode = (\<lambda>_ b. Some (Some b))\<rparr>"

definition example_call :: "(exn, http_response) outcome \<times> unit network" where
  "example_call = http_request example_platform (mk_pos [] 1 1 []) (Plain (Value (VStr (U ''https://a.org/''))))
     [(U ''auth'', Plain (Auth \<lparr>au_kind = U ''api_key'', au_name = U ''X-Key'', au_value = U ''k1'', au_location = U ''header''\<rparr>)),
      (U ''headers'', Fields [(U ''Authorization'', Value (VStr (U ''Basic eA=='')))])]
     \<lparr>nt_jar = empty_jar, nt_net = (), nt_sent = []\<rparr>"

lemma redirected_urls:
  "map rq_url (nt_sent (snd example_call)) = [U ''https://a.org/'', U ''https://b.org/''] \<and>
   map (\<lambda>q. map_of (rq_headers q) (U ''X-Key'')) (nt_sent (snd example_call)) = [Some (U ''k1''), Some (U ''k1'')] \<and>
   map (\<lambda>q. map_of (rq_headers q) (U ''Authorization'')) (nt_sent (snd example_call)) = [Some (U ''Basic eA==''), None]"
  by code_simp

lemma redirected_run:
  "\<exists>r s'. example_call = (r, s') \<and> map rq_url (nt_sent s') = [U ''https://a.org/'', U ''https://b.org/''] \<and>
     map (\<lambda>q. map_of (rq_headers q) (U ''X-Key'')) (nt_sent s') = [Some (U ''k1''), Some (U ''k1'')] \<and>
     map (\<lambda>q. map_of (rq_headers q) (U ''Authorization'')) (nt_sent s') = [Some (U ''Basic eA==''), None]"
  using redirected_urls by (metis prod.collapse)

lemma requests_stay_permitted_witness:
  "\<exists>rs :: request_message list. map rq_url rs = [U ''https://a.org/'', U ''https://b.org/''] \<and> (\<forall>q \<in> set rs. permitted example_platform (rq_url q))"
proof -
  obtain r s' where run: "example_call = (r, s')" and urls: "map rq_url (nt_sent s') = [U ''https://a.org/'', U ''https://b.org/'']"
    using redirected_run by (elim exE conjE) (rule that)
  have "\<forall>q \<in> set (nt_sent s'). permitted example_platform (rq_url q)"
    using conjunct2 [OF requests_stay_permitted [OF run [unfolded example_call_def]]] by auto
  with urls show ?thesis by (intro exI [of _ "nt_sent s'"] conjI)
qed

lemma credentials_stay_at_origin_witness:
  "\<exists>s' q q'. nt_sent s' = [q, q'] \<and> s' = snd example_call \<and>
     (\<forall>(k, v) \<in> set (rq_headers q'). lower example_platform k \<noteq> U ''authorization'')"
proof -
  obtain r s' where run: "example_call = (r, s')" and urls: "map rq_url (nt_sent s') = [U ''https://a.org/'', U ''https://b.org/'']"
    using redirected_run by (elim exE conjE) (rule that)
  then obtain q q' where sent: "nt_sent s' = [q, q']" and q: "rq_url q = U ''https://a.org/''" "rq_url q' = U ''https://b.org/''"
    by (auto simp: map_eq_Cons_conv)
  have lower: "lower example_platform (U ''Cookie'') = U ''cookie''"
    by (simp add: example_platform_def ascii_host_def U.simps ascii_lower_def)
  have origins: "origin example_platform (rq_url q') \<noteq> origin example_platform (rq_url q)"
    by (simp add: q origin_def example_platform_def example_url_def U.simps)
  have "\<forall>(k, v) \<in> set (rq_headers q'). lower example_platform k \<noteq> U ''authorization''"
    using credentials_stay_at_origin [OF run [unfolded example_call_def], of q "[q']" q', OF _ _ origins _ lower] sent by auto
  moreover have "nt_sent s' = [q, q'] \<and> s' = snd example_call" by (simp add: run sent)
  ultimately show ?thesis by blast
qed


end
