(* ===== verification/Http_Server.thy ===== *)
theory Http_Server
  imports Executions
begin

section \<open>The HTTP server\<close>

text \<open>
  \<open>http_server.py\<close> and \<open>dispatch_http\<close> of \<open>interpreter.py\<close>: the builtins a route uses, the matching of routes, static files
  and the dispatch of a request. The state of these modules (\<open>web\<close>) is the part of the world outside the interpreter:
  the request that is being answered, the responses built so far (\<open>HttpReturned\<close> carries the number of one), the static
  mounts and the secrets behind handles. A path of the file system is the list of its components from the root; \<open>Path.resolve\<close>,
  the files, text codecs and the guess of a content type are parameters. The loop that serves sockets is not modelled.
\<close>

record server_request =
  sq_method :: ustr
  sq_path :: ustr
  sq_query :: "(ustr \<times> ustr list) list"
  sq_headers :: "(ustr \<times> ustr) list"
  sq_body :: "nat list"

record server_response =
  sv_status :: sep_value
  sv_headers :: "(ustr \<times> sep_value) list"
  sv_body :: "nat list"
  sv_cookies :: "ustr list"

record web_context =
  wc_request :: server_request
  wc_params :: "(ustr \<times> ustr) list"
  wc_cookies :: "ustr list"

type_synonym file_path = "ustr list"

record web =
  wb_context :: "web_context option"
  wb_responses :: "server_response list"
  wb_mounts :: "(ustr \<times> file_path) list"
  wb_secrets :: "nat list list"

record web_platform =
  wp_lower :: "ustr \<Rightarrow> ustr"
  wp_decode :: "ustr \<Rightarrow> nat list \<Rightarrow> ustr option option"
  wp_read_files :: bool
  wp_capability_path :: "ustr \<Rightarrow> file_path result"
  wp_resolve :: "file_path \<Rightarrow> file_path"
  wp_is_dir :: "file_path \<Rightarrow> bool"
  wp_is_file :: "file_path \<Rightarrow> bool"
  wp_read :: "file_path \<Rightarrow> nat list option"
  wp_mime :: "ustr \<Rightarrow> ustr option"

type_synonym 'a web_comp = "(web, exn, 'a) sem"
type_synonym server_builtin = "web_platform \<Rightarrow> source_position \<Rightarrow> sep_value list \<Rightarrow> named_arguments \<Rightarrow> sep_value web_comp"

abbreviation refuse :: "nat \<Rightarrow> string \<Rightarrow> source_position \<Rightarrow> 'a web_comp" where
  "refuse code category p \<equiv> raise (Sep (mk_error code category p))"

abbreviation wrong_type :: "source_position \<Rightarrow> 'a web_comp" where
  "wrong_type p \<equiv> raise (Sep (type_error p))"

subsection \<open>What a route can read\<close>

definition web_context_of :: "source_position \<Rightarrow> web_context web_comp" where
  "web_context_of p =
     andthen (reads wb_context) (\<lambda>c. case c of None \<Rightarrow> refuse 893 ''No HTTP request context'' p | Some x \<Rightarrow> ret x)"

definition text_or_empty :: "ustr option \<Rightarrow> sep_value" where
  "text_or_empty x = (case x of None \<Rightarrow> VEmpty (Some (U ''string'')) None False | Some s \<Rightarrow> VStr s)"

definition request_method :: server_builtin where
  "request_method wp p args named = andthen (web_context_of p) (\<lambda>c. ret (VStr (sq_method (wc_request c))))"

definition request_path :: server_builtin where
  "request_path wp p args named = andthen (web_context_of p) (\<lambda>c. ret (VStr (sq_path (wc_request c))))"

definition request_header :: server_builtin where
  "request_header wp p args named =
     (case args ! 0 of
        VStr name \<Rightarrow> andthen (web_context_of p) (\<lambda>c. ret (text_or_empty (map_of (sq_headers (wc_request c)) (wp_lower wp name))))
      | _ \<Rightarrow> wrong_type p)"

definition request_param :: server_builtin where
  "request_param wp p args named =
     (case args ! 0 of
        VStr name \<Rightarrow> andthen (web_context_of p) (\<lambda>c. ret (text_or_empty (map_of (wc_params c) name)))
      | _ \<Rightarrow> wrong_type p)"

definition request_query :: server_builtin where
  "request_query wp p args named =
     (case args ! 0 of
        VStr name \<Rightarrow> andthen (web_context_of p) (\<lambda>c.
          ret (text_or_empty (case map_of (sq_query (wc_request c)) name of Some (v # vs) \<Rightarrow> Some v | _ \<Rightarrow> None)))
      | _ \<Rightarrow> wrong_type p)"

text \<open>An encoding that is no text raises TypeError.\<close>

definition request_body :: server_builtin where
  "request_body wp p args named =
     andthen (web_context_of p) (\<lambda>c.
     case (case map_of named (U ''encoding'') of None \<Rightarrow> VStr (U ''utf-8'') | Some e \<Rightarrow> e) of
       VStr e \<Rightarrow>
         (case wp_decode wp e (sq_body (wc_request c)) of
            None \<Rightarrow> raise Crash
          | Some None \<Rightarrow> refuse 894 ''HTTP request decode error'' p
          | Some (Some t) \<Rightarrow> ret (VStr t))
     | _ \<Rightarrow> raise Crash)"

definition new_secret :: "nat list \<Rightarrow> sep_value web_comp" where
  "new_secret b =
     andthen (reads (\<lambda>w. length (wb_secrets w))) (\<lambda>i.
     andthen (modifies (\<lambda>w. w\<lparr>wb_secrets := wb_secrets w @ [b]\<rparr>)) (\<lambda>_. ret (VHost H_secret i)))"

text \<open>The value of the first part of the header \<open>cookie\<close> with that name; one that is not ASCII raises UnicodeEncodeError.\<close>

fun cookie_named :: "ustr \<Rightarrow> ustr list \<Rightarrow> ustr option" where
  "cookie_named name [] = None"
| "cookie_named name (part # parts) =
     (let t = rstrip (lstrip part) in
      if 61 \<in> set t \<and> takeWhile (\<lambda>c. c \<noteq> 61) t = name then Some (drop 1 (dropWhile (\<lambda>c. c \<noteq> 61) t))
      else cookie_named name parts)"

definition request_cookie :: server_builtin where
  "request_cookie wp p args named =
     andthen (web_context_of p) (\<lambda>c.
     let header = (case map_of (sq_headers (wc_request c)) (U ''cookie'') of None \<Rightarrow> [] | Some t \<Rightarrow> t) in
     case (case args ! 0 of VStr name \<Rightarrow> cookie_named name (split_on 59 header) | _ \<Rightarrow> None) of
       None \<Rightarrow> ret (VEmpty (Some (U ''secret'')) None False)
     | Some v \<Rightarrow> if list_all is_ascii v then new_secret v else raise Crash)"

subsection \<open>What a route can answer\<close>

definition return_response :: "server_response \<Rightarrow> 'a web_comp" where
  "return_response x =
     andthen (reads (\<lambda>w. length (wb_responses w))) (\<lambda>i.
     andthen (modifies (\<lambda>w. w\<lparr>wb_responses := wb_responses w @ [x]\<rparr>)) (\<lambda>_. raise (Http_returned i)))"

definition named_or :: "named_arguments \<Rightarrow> string \<Rightarrow> sep_value \<Rightarrow> sep_value" where
  "named_or named k d = (case map_of named (U k) of None \<Rightarrow> d | Some v \<Rightarrow> v)"

definition response_body :: "source_position \<Rightarrow> sep_value \<Rightarrow> nat list web_comp" where
  "response_body p v =
     (case v of
        VStr s \<Rightarrow> (case encode_text UTF_8 s of None \<Rightarrow> raise Crash | Some b \<Rightarrow> ret b)
      | VBytes b \<Rightarrow> ret b
      | _ \<Rightarrow> wrong_type p)"

definition response_headers :: "source_position \<Rightarrow> named_arguments \<Rightarrow> (ustr \<times> sep_value) list web_comp" where
  "response_headers p named =
     (let content = [(U ''Content-Type'', named_or named ''content_type'' (VStr (U ''text/plain; charset=utf-8'')))] in
      case map_of named (U ''headers'') of
        None \<Rightarrow> ret content
      | Some (VObj fs ts) \<Rightarrow> ret (foldl (\<lambda>d (k, v). dict_set d k v) content fs)
      | Some _ \<Rightarrow> wrong_type p)"

definition response :: server_builtin where
  "response wp p args named =
     (let status = named_or named ''status'' (VInt 200) in
      if \<not> (case status of VInt i \<Rightarrow> 100 \<le> i \<and> i \<le> 599 | _ \<Rightarrow> False) then refuse 895 ''Invalid HTTP response status'' p
      else andthen (response_body p (named_or named ''body'' (VStr []))) (\<lambda>raw.
        andthen (response_headers p named) (\<lambda>headers.
        andthen (web_context_of p) (\<lambda>c.
        return_response \<lparr>sv_status = status, sv_headers = headers, sv_body = raw, sv_cookies = wc_cookies c\<rparr>))))"

text \<open>A float that equals one of the codes passes the test too.\<close>

definition redirect_status :: "sep_value \<Rightarrow> bool" where
  "redirect_status v \<longleftrightarrow>
     (case v of
        VInt i \<Rightarrow> i \<in> {301, 302, 303, 307, 308}
      | VFlt x \<Rightarrow> list_ex (\<lambda>i. case of_int64 i of None \<Rightarrow> False | Some y \<Rightarrow> eq64 x y) [301, 302, 303, 307, 308]
      | _ \<Rightarrow> False)"

definition redirect :: server_builtin where
  "redirect wp p args named =
     (let status = named_or named ''status'' (VInt 302) in
      case args ! 0 of
        VStr location \<Rightarrow>
          if redirect_status status
          then return_response \<lparr>sv_status = status, sv_headers = [(U ''Location'', VStr location)], sv_body = [], sv_cookies = []\<rparr>
          else refuse 895 ''Invalid HTTP redirect'' p
      | _ \<Rightarrow> refuse 895 ''Invalid HTTP redirect'' p)"

text \<open>The separators \<open>()<>@,;:\"/[]?={}\<close> with backslash, space, tab, CR and LF.\<close>

definition cookie_separators :: ustr where
  "cookie_separators = [40, 41, 60, 62, 64, 44, 59, 58, 92, 34, 47, 91, 93, 63, 61, 123, 125, 32, 9, 13, 10]"

definition truthy :: "sep_value \<Rightarrow> bool" where
  "truthy v = (case v of VBool b \<Rightarrow> b | VInt i \<Rightarrow> i \<noteq> 0 | VFlt x \<Rightarrow> \<not> is_zero64 x | VStr s \<Rightarrow> s \<noteq> [] | VList xs \<Rightarrow> xs \<noteq> [] | _ \<Rightarrow> True)"

definition cookie_bytes :: "source_position \<Rightarrow> sep_value \<Rightarrow> nat list web_comp" where
  "cookie_bytes p v =
     (case v of
        VHost H_secret i \<Rightarrow> andthen (reads wb_secrets) (\<lambda>bs. if i < length bs then ret (bs ! i) else raise Crash)
      | VStr s \<Rightarrow> if list_all is_ascii s then ret s else raise Crash
      | _ \<Rightarrow> wrong_type p)"

definition same_site_text :: "sep_value \<Rightarrow> ustr option" where
  "same_site_text v = (case v of VStr s \<Rightarrow> if s \<in> {U ''Lax'', U ''Strict'', U ''None''} then Some s else None | _ \<Rightarrow> None)"

definition cookie_line :: "ustr \<Rightarrow> nat list \<Rightarrow> ustr \<Rightarrow> named_arguments \<Rightarrow> ustr \<Rightarrow> ustr" where
  "cookie_line name t path named site = join_with (U ''; '')
     ([name @ U ''='' @ t, U ''Path='' @ path] @
      (if truthy (named_or named ''secure'' (VBool False)) then [U ''Secure''] else []) @
      (if truthy (named_or named ''http_only'' (VBool True)) then [U ''HttpOnly''] else []) @
      [U ''SameSite='' @ site])"

definition add_cookie :: "source_position \<Rightarrow> ustr \<Rightarrow> sep_value web_comp" where
  "add_cookie p line =
     andthen (web_context_of p) (\<lambda>c.
     andthen (modifies (\<lambda>w. w\<lparr>wb_context := Some (c\<lparr>wc_cookies := wc_cookies c @ [line]\<rparr>)\<rparr>)) (\<lambda>_. ret VVoid))"

definition set_cookie :: server_builtin where
  "set_cookie wp p args named =
     (case args ! 0 of
        VStr name \<Rightarrow>
          if name = [] \<or> list_ex (\<lambda>c. c \<in> set cookie_separators) name then refuse 895 ''Invalid response cookie'' p
          else andthen (cookie_bytes p (args ! 1)) (\<lambda>t.
            if \<not> list_all is_ascii t \<or> list_ex (\<lambda>c. c \<in> {59, 13, 10}) t then refuse 895 ''Invalid response cookie'' p
            else (case named_or named ''path'' (VStr (U ''/'')) of
              VStr path \<Rightarrow>
                if \<not> starts_with path (U ''/'') \<or> 13 \<in> set path \<or> 10 \<in> set path then refuse 895 ''Invalid response cookie'' p
                else (case same_site_text (named_or named ''same_site'' (VStr (U ''Lax''))) of
                    None \<Rightarrow> refuse 895 ''Invalid response cookie'' p
                  | Some site \<Rightarrow> add_cookie p (cookie_line name t path named site))
            | _ \<Rightarrow> refuse 895 ''Invalid response cookie'' p))
      | _ \<Rightarrow> refuse 895 ''Invalid response cookie'' p)"

definition http_static :: server_builtin where
  "http_static wp p args named =
     (case map_of named (U ''url'') of
        Some (VStr url) \<Rightarrow>
          if \<not> starts_with url (U ''/'') \<or> \<not> ends_with url (U ''/'') \<or> 63 \<in> set url \<or> 35 \<in> set url
          then refuse 898 ''Invalid static URL'' p
          else (case map_of named (U ''directory'') of
              Some (VStr directory) \<Rightarrow>
                if \<not> wp_read_files wp then refuse 720 ''Permission error'' p
                else andthen (lift_sum (case wp_capability_path wp directory of Inl e \<Rightarrow> Inl (Sep e) | Inr f \<Rightarrow> Inr f)) (\<lambda>base.
                  if \<not> wp_is_dir wp base then refuse 898 ''Invalid static directory'' p
                  else andthen (reads wb_mounts) (\<lambda>ms.
                    if url \<in> set (map fst ms) then refuse 899 ''Duplicate static mount'' p
                    else andthen (modifies (\<lambda>w. w\<lparr>wb_mounts := ms @ [(url, wp_resolve wp base)]\<rparr>)) (\<lambda>_. ret VVoid)))
            | _ \<Rightarrow> wrong_type p)
      | _ \<Rightarrow> refuse 898 ''Invalid static URL'' p)"

definition SERVER_BUILTINS :: "(ustr \<times> nat \<times> nat \<times> ustr list \<times> server_builtin) list" where
  "SERVER_BUILTINS = map (\<lambda>(n, lo, hi, names, f). (U n, lo, hi, map U names, f))
     [(''request_method'', 0, 0, [], request_method), (''request_path'', 0, 0, [], request_path),
      (''request_header'', 1, 1, [], request_header), (''request_param'', 1, 1, [], request_param),
      (''request_query'', 1, 1, [], request_query), (''request_body'', 0, 0, [''encoding''], request_body),
      (''request_cookie'', 1, 1, [], request_cookie),
      (''return_http'', 0, 0, [''status'', ''content_type'', ''headers'', ''body''], response),
      (''redirect_http'', 1, 1, [''status''], redirect),
      (''http_set_cookie'', 2, 2, [''path'', ''secure'', ''http_only'', ''same_site''], set_cookie),
      (''http_static'', 0, 0, [''url'', ''directory''], http_static)]"

text \<open>The server's builtins as what the interpreter asks its platform for.\<close>

definition server_external ::
  "web_platform \<Rightarrow> ustr \<Rightarrow> sep_value list \<Rightarrow> named_arguments \<Rightarrow> source_position \<Rightarrow> web \<Rightarrow> (exn + sep_value) \<times> web" where
  "server_external wp name args named p w =
     (case map_of SERVER_BUILTINS name of
        None \<Rightarrow> (Inl Crash, w)
      | Some (lo, hi, names, f) \<Rightarrow>
          (case f wp p args named w of (Done v, w') \<Rightarrow> (Inr v, w') | (Raised x, w') \<Rightarrow> (Inl x, w') | (NoFuel, w') \<Rightarrow> (Inl Crash, w')))"

subsection \<open>Routes\<close>

definition strip_slashes :: "ustr \<Rightarrow> ustr" where
  "strip_slashes s = rev (dropWhile (\<lambda>c. c = 47) (rev (dropWhile (\<lambda>c. c = 47) s)))"

definition path_segments :: "ustr \<Rightarrow> ustr list" where
  "path_segments s = (if s = [47] then [] else split_on 47 (strip_slashes s))"

type_synonym compiled = "(bool \<times> ustr) list"

fun compile_segments :: "ustr list \<Rightarrow> ustr list \<Rightarrow> compiled option" where
  "compile_segments names [] = Some []"
| "compile_segments names (s # ss) =
     (if starts_with s [58]
      then (let name = drop 1 s in
            if name = [] \<or> name \<in> set names then None
            else map_option ((#) (True, name)) (compile_segments (name # names) ss))
      else map_option ((#) (False, s)) (compile_segments names ss))"

definition compile_path :: "ustr \<Rightarrow> compiled option" where
  "compile_path pattern = compile_segments [] (path_segments pattern)"

fun match_segments :: "compiled \<Rightarrow> ustr list \<Rightarrow> (ustr \<times> ustr) list \<Rightarrow> (ustr \<times> ustr) list option" where
  "match_segments ((dynamic, x) # c) (actual # vs) ps =
     (if dynamic then match_segments c vs (dict_set ps x actual)
      else if x \<noteq> actual then None else match_segments c vs ps)"
| "match_segments c vs ps = Some ps"

definition match_path :: "compiled \<Rightarrow> ustr \<Rightarrow> (ustr \<times> ustr) list option" where
  "match_path c path =
     (let values = path_segments path in if length values \<noteq> length c then None else match_segments c values [])"

subsection \<open>Static files\<close>

fun percent_digit :: "nat \<Rightarrow> nat option" where
  "percent_digit c = (if 48 \<le> c \<and> c \<le> 57 then Some (c - 48) else if 97 \<le> c \<and> c \<le> 102 then Some (c - 87)
     else if 65 \<le> c \<and> c \<le> 70 then Some (c - 55) else None)"

fun unquote :: "nat list \<Rightarrow> nat list" where
  "unquote (c # a # b # s) =
     (if c = 37 then (case (percent_digit a, percent_digit b) of (Some x, Some y) \<Rightarrow> (16 * x + y) # unquote s | _ \<Rightarrow> c # unquote (a # b # s))
      else c # unquote (a # b # s))"
| "unquote s = s"

text \<open>The parts of a relative \<open>PurePosixPath\<close>: empty ones and \<open>.\<close> disappear.\<close>

definition path_parts :: "ustr \<Rightarrow> ustr list" where
  "path_parts s = filter (\<lambda>x. x \<noteq> [] \<and> x \<noteq> U ''.'') (split_on 47 s)"

definition plain_text :: "int \<Rightarrow> string \<Rightarrow> server_response" where
  "plain_text status body = \<lparr>sv_status = VInt status, sv_headers = [(U ''Content-Type'', VStr (U ''text/plain; charset=utf-8''))],
     sv_body = U body, sv_cookies = []\<rparr>"

definition content_type_of :: "web_platform \<Rightarrow> file_path \<Rightarrow> ustr" where
  "content_type_of wp file =
     (let t = (case wp_mime wp (case file of [] \<Rightarrow> [] | _ \<Rightarrow> last file) of None \<Rightarrow> U ''application/octet-stream'' | Some t \<Rightarrow> if t = [] then U ''application/octet-stream'' else t)
      in if starts_with t (U ''text/'') \<or> t \<in> {U ''application/javascript'', U ''application/json'', U ''image/svg+xml''}
         then t @ U ''; charset=utf-8'' else t)"

definition static_file :: "web_platform \<Rightarrow> ustr \<Rightarrow> file_path \<Rightarrow> server_response" where
  "static_file wp decoded base =
     (let parts = path_parts decoded; missing = plain_text 404 ''Not Found'' in
      if 92 \<in> set decoded \<or> 0 \<in> set decoded \<or> starts_with decoded (U ''/'') \<or> U ''..'' \<in> set parts then missing
      else
        let candidate = wp_resolve wp (base @ (if decoded = [] then [U ''index.html''] else parts)) in
        if \<not> starts_with candidate base then missing
        else if \<not> wp_is_file wp candidate then missing
        else (case wp_read wp candidate of
            None \<Rightarrow> missing
          | Some b \<Rightarrow> \<lparr>sv_status = VInt 200, sv_headers = [(U ''Content-Type'', VStr (content_type_of wp candidate))],
              sv_body = b, sv_cookies = []\<rparr>))"

text \<open>\<open>None\<close> where no mount takes the request; a path that cannot be encoded raises UnicodeEncodeError.\<close>

definition static_response :: "web_platform \<Rightarrow> (ustr \<times> file_path) list \<Rightarrow> server_request \<Rightarrow> exn + server_response option" where
  "static_response wp mounts rq =
     (if sq_method rq \<notin> {U ''GET'', U ''HEAD''} then Inr None
      else case find (\<lambda>(url, base). starts_with (sq_path rq) url) (sort_key (\<lambda>(url, base). - int (length url)) mounts) of
        None \<Rightarrow> Inr None
      | Some (url, base) \<Rightarrow>
          (case encode_text UTF_8 (drop (length url) (sq_path rq)) of
             None \<Rightarrow> Inl Crash
           | Some encoded \<Rightarrow>
               (case utf8_decode (unquote encoded) of
                  None \<Rightarrow> Inr (Some (plain_text 400 ''Bad Request''))
                | Some decoded \<Rightarrow> Inr (Some (static_file wp decoded base)))))"

subsection \<open>Dispatch\<close>

definition route_takes :: "server_request \<Rightarrow> ustr \<Rightarrow> bool" where
  "route_takes rq m \<longleftrightarrow> m = sq_method rq \<or> sq_method rq = U ''HEAD'' \<and> m = U ''GET''"

fun select_route ::
  "server_request \<Rightarrow> ((ustr \<times> ustr) \<times> stmt list) list \<Rightarrow> ((ustr \<times> ustr) list \<times> stmt list) option" where
  "select_route rq [] = None"
| "select_route rq (((m, pattern), body) # routes) =
     (case (if route_takes rq m then Option.bind (compile_path pattern) (\<lambda>c. match_path c (sq_path rq)) else None) of
        None \<Rightarrow> select_route rq routes | Some params \<Rightarrow> Some (params, body))"

definition set_context :: "web_context option \<Rightarrow> (web, unit) comp" where
  "set_context c = modifies (\<lambda>w. w\<lparr>w_rest := (w_rest w)\<lparr>wb_context := c\<rparr>\<rparr>)"

definition returned_response :: "nat \<Rightarrow> (web, server_response) comp" where
  "returned_response i =
     andthen (reads (\<lambda>w. wb_responses (w_rest w))) (\<lambda>xs. if i < length xs then ret (xs ! i) else raise Crash)"

definition no_content :: server_response where
  "no_content = \<lparr>sv_status = VInt 204, sv_headers = [], sv_body = [], sv_cookies = []\<rparr>"

definition run_route ::
  "'w platform \<Rightarrow> nat \<Rightarrow> nat \<Rightarrow> stmt list \<Rightarrow> 'a \<Rightarrow> (nat \<Rightarrow> ('w, 'a) comp) \<Rightarrow> ('w, 'a) comp" where
  "run_route pf n r body nothing answer =
     andthen (runtime_of r) (\<lambda>rt.
     andthen (enter_scope r) (\<lambda>_.
     with_finally
       (catching (andthen (exec_all pf (perform pf n) n r body) (\<lambda>_. ret nothing))
          (\<lambda>x. case x of Http_returned i \<Rightarrow> answer i | _ \<Rightarrow> raise x))
       (leave_scope r (rt_local rt))))"

definition dispatch_http :: "web platform \<Rightarrow> web_platform \<Rightarrow> nat \<Rightarrow> nat \<Rightarrow> server_request \<Rightarrow> (web, server_response) comp" where
  "dispatch_http pf wp n r rq =
     andthen (runtime_of r) (\<lambda>rt.
     case select_route rq (rt_routes rt) of
       Some (params, body) \<Rightarrow>
         andthen (reads (\<lambda>w. wb_context (w_rest w))) (\<lambda>previous.
         andthen (set_context (Some \<lparr>wc_request = rq, wc_params = params, wc_cookies = []\<rparr>)) (\<lambda>_.
         with_finally (run_route pf n r body no_content returned_response) (set_context previous)))
     | None \<Rightarrow>
         andthen (reads (\<lambda>w. wb_mounts (w_rest w))) (\<lambda>mounts.
         andthen (lift_sum (static_response wp mounts rq)) (\<lambda>x.
         ret (case x of None \<Rightarrow> plain_text 404 ''Not Found'' | Some y \<Rightarrow> y))))"

subsection \<open>What a request leaves behind\<close>

context world_steps
begin

lemma route_keeps: "(\<And>i. holds (R r) (answer i)) \<Longrightarrow> holds S (run_route pf n r body nothing answer)"
  unfolding run_route_def
  by (rule body_call) (auto intro!: code.holds_intros code_statements perform_keeps split: exn.split)

lemma rest_is_call: "holds S (modifies (\<lambda>w. w\<lparr>w_rest := f (w_rest w)\<rparr>))"
  by (rule holds_modifies) (rule S_rest)

lemma reads_is_code: "holds (R r) (reads f)"
  by simp

end

lemma dispatch_steps:
  assumes T: "step_relation T" and ctx: "\<And>c. holds T (set_context c)"
    and route: "\<And>body. holds T (run_route pf n r body no_content returned_response)" and "holds T (runtime_of r)"
  shows "holds T (dispatch_http pf wp n r rq)"
proof -
  note holds = step_relation.holds_intros [OF T] step_relation.holds_reads [OF T] step_relation.holds_ret [OF T]
    step_relation.holds_raise [OF T]
  show ?thesis
    unfolding dispatch_http_def lift_sum_def by (intro holds ctx route assms(4))
qed

lemma holds_answer:
  assumes "step_relation T"
  shows "holds T (returned_response i)"
  unfolding returned_response_def
  by (intro step_relation.holds_intros [OF assms] step_relation.holds_reads [OF assms] step_relation.holds_ret [OF assms]
      step_relation.holds_raise [OF assms])

lemma step_relations:
  "step_relation globals_step" "step_relation (locals_step x)" "step_relation types_kept"
  by unfold_locales (auto simp: types_kept_def locals_step_def [of x s s for x s] intro: globals_step_trans locals_step_trans)

lemma dispatch_keeps:
  "holds globals_step (dispatch_http pf wp n r rq)" "holds (locals_step None) (dispatch_http pf wp n r rq)"
  "holds types_kept (dispatch_http pf wp n r rq)"
  by (rule dispatch_steps, rule step_relations, unfold set_context_def,
      rule keeping_globals.rest_is_call keeping_locals.rest_is_call keeping_types.rest_is_call,
      rule keeping_globals.route_keeps keeping_locals.route_keeps keeping_types.route_keeps,
      rule holds_answer, rule step_relations,
      rule keeping_globals.calls_runtime_of keeping_locals.calls_runtime_of keeping_types.calls_runtime_of)+

lemma dispatch_context:
  assumes "dispatch_http pf wp n r rq w = (q, w')" and "q \<noteq> NoFuel"
  shows "wb_context (w_rest w') = wb_context (w_rest w)"
proof -
  have last: "wb_context (w_rest v') = previous"
    if "with_finally m (set_context previous) v = (q, v')" and "q \<noteq> NoFuel" for m :: "(web, server_response) comp" and v v' previous
    using that by (auto simp: with_finally_def set_context_def modifies_def split: prod.splits outcome.splits)
  from assms show ?thesis
    by (auto simp: dispatch_http_def andthen_def runtime_of_def reads_def set_context_def [of "Some x" for x] modifies_def
        lift_sum_def raise_def ret_def split: if_splits option.splits sum.splits dest: last)
qed


subsection \<open>What a pattern matches\<close>

definition route_names :: "compiled \<Rightarrow> ustr list" where
  "route_names c = map snd (filter fst c)"

definition fill :: "(ustr \<Rightarrow> ustr) \<Rightarrow> compiled \<Rightarrow> ustr list" where
  "fill v c = map (\<lambda>(dynamic, x). if dynamic then v x else x) c"

lemma route_simps [simp]:
  "route_names [] = []" "route_names ((True, x) # c) = x # route_names c" "route_names ((False, x) # c) = route_names c"
  "fill v [] = []" "fill v ((True, x) # c) = v x # fill v c" "fill v ((False, x) # c) = x # fill v c"
  by (simp_all add: route_names_def fill_def)

lemma compile_distinct:
  "compile_segments names ss = Some c \<Longrightarrow> distinct (route_names c) \<and> set (route_names c) \<inter> set names = {}"
proof (induction ss arbitrary: names c)
  case (Cons s ss)
  show ?case
  proof (cases "starts_with s [58]")
    case True
    with Cons.prems obtain d where d: "compile_segments (drop 1 s # names) ss = Some d" "c = (True, drop 1 s) # d"
      and new: "drop 1 s \<notin> set names"
      by (auto simp: Let_def split: if_splits)
    from Cons.IH [OF d(1)] new d(2) show ?thesis by auto
  next
    case False
    with Cons.prems obtain d where d: "compile_segments names ss = Some d" "c = (False, s) # d" by auto
    from Cons.IH [OF d(1)] d(2) show ?thesis by simp
  qed
qed simp

lemma dict_set_new: "k \<notin> set (map fst d) \<Longrightarrow> dict_set d k v = d @ [(k, v)]"
  by (induction d k v rule: dict_set.induct) auto

lemma match_fill:
  "distinct (map fst ps @ route_names c) \<Longrightarrow> match_segments c (fill v c) ps = Some (ps @ map (\<lambda>n. (n, v n)) (route_names c))"
proof (induction c arbitrary: ps)
  case (Cons dx c)
  obtain d x where dx: "dx = (d, x)" by fastforce
  show ?case
  proof (cases d)
    case True
    with Cons.prems dx have "x \<notin> set (map fst ps)" by auto
    with Cons.IH [of "ps @ [(x, v x)]"] Cons.prems dx True show ?thesis by (simp add: dict_set_new)
  next
    case False
    with Cons dx show ?thesis by simp
  qed
qed simp

lemma match_filled:
  "match_segments c vs ps = Some qs \<Longrightarrow> length vs = length c \<Longrightarrow> distinct (map fst ps @ route_names c) \<Longrightarrow>
   \<exists>rs. qs = ps @ rs \<and> map fst rs = route_names c \<and> vs = fill (\<lambda>n. the (map_of rs n)) c"
proof (induction c arbitrary: vs ps)
  case (Cons dx c)
  obtain d x where dx: "dx = (d, x)" by fastforce
  from Cons.prems(2) obtain actual us where vs: "vs = actual # us" and length: "length us = length c" by (cases vs) auto
  show ?case
  proof (cases d)
    case True
    with Cons.prems(3) dx have x: "x \<notin> set (map fst ps)" "x \<notin> set (route_names c)" by auto
    have "match_segments c us (ps @ [(x, actual)]) = Some qs" and "distinct (map fst (ps @ [(x, actual)]) @ route_names c)"
      using Cons.prems dx vs True x by (auto simp: dict_set_new)
    from Cons.IH [OF this(1) length this(2)] obtain rs
      where rs: "qs = (ps @ [(x, actual)]) @ rs" "map fst rs = route_names c" "us = fill (\<lambda>n. the (map_of rs n)) c" by blast
    have "(True, x) \<notin> set c"
      using x(2) by (force simp: route_names_def)
    then have "fill (\<lambda>n. the (map_of ((x, actual) # rs) n)) c = fill (\<lambda>n. the (map_of rs n)) c"
      by (auto simp: fill_def)
    with rs True dx vs show ?thesis
      by (intro exI [of _ "(x, actual) # rs"]) simp
  next
    case False
    with Cons.prems dx vs have "match_segments c us ps = Some qs" and "distinct (map fst ps @ route_names c)" and "x = actual"
      by (auto split: if_splits)
    with Cons.IH [OF this(1) length this(2)] False dx vs show ?thesis by auto
  qed
qed simp

lemma split_joined_segments:
  "ss \<noteq> [] \<Longrightarrow> \<forall>s \<in> set ss. c \<notin> set s \<Longrightarrow> split_on c (join_with [c] ss) = ss"
proof (induction "[c]" ss rule: join_with.induct)
  case (2 x)
  then have "c \<notin> set x" by simp
  then show ?case by (induction x) auto
next
  case (3 x y r)
  have "split_on c (s @ c # t) = s # split_on c t" if "c \<notin> set s" for s t
    using that by (induction s) auto
  with 3 show ?case by simp
qed simp

lemma path_segments_join:
  assumes "\<forall>s \<in> set ss. s \<noteq> [] \<and> 47 \<notin> set s"
  shows "path_segments (47 # join_with [47] ss) = ss"
proof (cases ss)
  case Nil
  then show ?thesis by (simp add: path_segments_def)
next
  case (Cons s r)
  have first: "hd (join_with [47] ss) \<noteq> 47" and last: "last (join_with [47] ss) \<noteq> 47" and some: "join_with [47] ss \<noteq> []"
  proof -
    have "join_with [47] ss \<noteq> [] \<and> hd (join_with [47] ss) \<noteq> 47 \<and> last (join_with [47] ss) \<noteq> 47"
      if "ss \<noteq> []" "\<forall>s \<in> set ss. s \<noteq> [] \<and> 47 \<notin> set s" for ss
      using that
    proof (induction "[47] :: ustr" ss rule: join_with.induct)
      case (2 x)
      then show ?case by (metis hd_in_set join_with.simps(2) last_in_set list.set_intros(1))
    next
      case (3 x y r)
      have "x \<noteq> []" and "47 \<notin> set x" using 3(3) by auto
      then have "hd x \<noteq> 47" using hd_in_set [of x] by metis
      with 3 \<open>x \<noteq> []\<close> show ?case by (auto simp: hd_append)
    qed simp
    with Cons assms show "hd (join_with [47] ss) \<noteq> 47" "last (join_with [47] ss) \<noteq> 47" "join_with [47] ss \<noteq> []" by blast+
  qed
  have drop: "dropWhile (\<lambda>c. c = 47) t = t" if "t \<noteq> []" "hd t \<noteq> 47" for t :: ustr
    using that by (cases t) auto
  have "strip_slashes (47 # join_with [47] ss) = join_with [47] ss"
    using drop [OF some first] drop [of "rev (join_with [47] ss)"] some last by (simp add: strip_slashes_def hd_rev)
  moreover have "split_on 47 (join_with [47] ss) = ss"
    by (rule split_joined_segments) (use Cons assms in auto)
  ultimately show ?thesis using some by (simp add: path_segments_def)
qed

text \<open>
  C17. Patterns of routes and paths correspond. The parameters of an accepted pattern have distinct names. A path that matches
  gives each of them the value that stands at its place: filling the pattern with the values gives the segments of the path back.
  Conversely, a path made by filling the pattern with any values that are not empty and hold no slash matches, and yields
  these values.
\<close>

theorem route_roundtrip:
  assumes "compile_path pattern = Some c"
  shows "distinct (route_names c) \<and>
    (\<forall>path ps. match_path c path = Some ps \<longrightarrow>
       map fst ps = route_names c \<and> path_segments path = fill (\<lambda>n. the (map_of ps n)) c) \<and>
    (\<forall>v. (\<forall>s \<in> set (fill v c). s \<noteq> [] \<and> 47 \<notin> set s) \<longrightarrow>
       match_path c (47 # join_with [47] (fill v c)) = Some (map (\<lambda>n. (n, v n)) (route_names c)))"
proof -
  have names: "distinct (route_names c)"
    using assms compile_distinct [of "[]"] by (simp add: compile_path_def)
  then have new: "distinct (map fst ([] :: (ustr \<times> ustr) list) @ route_names c)" by simp
  show ?thesis
  proof (intro conjI allI impI)
    fix path ps
    assume "match_path c path = Some ps"
    then have "match_segments c (path_segments path) [] = Some ps" and "length (path_segments path) = length c"
      by (auto simp: match_path_def Let_def split: if_splits)
    from match_filled [OF this new] show "map fst ps = route_names c" "path_segments path = fill (\<lambda>n. the (map_of ps n)) c"
      by auto
  next
    fix v
    assume "\<forall>s \<in> set (fill v c). s \<noteq> [] \<and> 47 \<notin> set s"
    then show "match_path c (47 # join_with [47] (fill v c)) = Some (map (\<lambda>n. (n, v n)) (route_names c))"
      using match_fill [OF new, of v] by (simp add: match_path_def Let_def path_segments_join) (simp add: fill_def)
  qed (rule names)
qed

lemma route_roundtrip_witness:
  "\<exists>c. compile_path (U ''/users/:id/'') = Some c \<and> match_path c (U ''/users/7'') = Some [(U ''id'', U ''7'')]"
proof -
  let ?c = "[(False, U ''users''), (True, U ''id'')]"
  have c: "compile_path (U ''/users/:id/'') = Some ?c"
    by (simp add: compile_path_def path_segments_def strip_slashes_def U.simps)
  have path: "47 # join_with [47] (fill (\<lambda>_. U ''7'') ?c) = U ''/users/7''" by (simp add: U.simps)
  have "match_path ?c (47 # join_with [47] (fill (\<lambda>_. U ''7'') ?c)) = Some [(U ''id'', U ''7'')]"
    using route_roundtrip [OF c] by (elim conjE allE [of _ "\<lambda>_. U ''7''"]) (simp add: U.simps)
  with c show ?thesis unfolding path by blast
qed

subsection \<open>What static files can be reached\<close>

text \<open>
  C10. Static files stay below their directory. Whatever the path of a request (percent-encoded, with dots, backslashes, zero
  bytes), the body of a response \<open>200\<close> is the content of a file whose resolved path, symbolic links followed, lies in the directory of
  a mount whose URL begins the path, the longest such URL; and the path asks for it without \<open>..\<close>.
\<close>

theorem static_files_confined:
  assumes "static_response wp mounts rq = Inr (Some x)" and "sv_status x = VInt 200"
  shows "sq_method rq \<in> {U ''GET'', U ''HEAD''} \<and>
    (\<exists>url base parts. (url, base) \<in> set mounts \<and> starts_with (sq_path rq) url \<and>
      (\<forall>(url', base') \<in> set mounts. starts_with (sq_path rq) url' \<longrightarrow> length url' \<le> length url) \<and>
      starts_with (wp_resolve wp (base @ parts)) base \<and> U ''..'' \<notin> set parts \<and>
      wp_is_file wp (wp_resolve wp (base @ parts)) \<and> wp_read wp (wp_resolve wp (base @ parts)) = Some (sv_body x))"
proof -
  let ?sorted = "sort_key (\<lambda>(url, base). - int (length url)) mounts"
  let ?fits = "\<lambda>(url, base). starts_with (sq_path rq) url"
  from assms obtain url base decoded where verb: "sq_method rq \<in> {U ''GET'', U ''HEAD''}"
    and found: "find ?fits ?sorted = Some (url, base)" and x: "x = static_file wp decoded base"
    by (auto simp: static_response_def plain_text_def split: if_splits option.splits)
  from found obtain i where i: "i < length ?sorted" "?sorted ! i = (url, base)" "\<forall>k < i. \<not> ?fits (?sorted ! k)"
    and "starts_with (sq_path rq) url"
    by (auto simp: find_Some_iff)
  then have mounted: "(url, base) \<in> set mounts" "starts_with (sq_path rq) url"
    using nth_mem [OF i(1)] by simp_all
  have longest: "\<forall>(url', base') \<in> set mounts. starts_with (sq_path rq) url' \<longrightarrow> length url' \<le> length url"
  proof (clarify)
    fix url' base'
    assume "(url', base') \<in> set mounts" and fits: "starts_with (sq_path rq) url'"
    then have "(url', base') \<in> set ?sorted" by simp
    then obtain j where j: "j < length ?sorted" "?sorted ! j = (url', base')" unfolding in_set_conv_nth by blast
    have "i \<le> j" using i(3) j fits by (metis case_prodI not_le)
    then show "length url' \<le> length url"
      using sorted_nth_mono [OF sorted_sort_key [of "\<lambda>(url, base). - int (length url)" mounts], of i j] i j by simp
  qed
  let ?parts = "if decoded = [] then [U ''index.html''] else path_parts decoded"
  have "starts_with (wp_resolve wp (base @ ?parts)) base \<and> U ''..'' \<notin> set ?parts \<and>
      wp_is_file wp (wp_resolve wp (base @ ?parts)) \<and> wp_read wp (wp_resolve wp (base @ ?parts)) = Some (sv_body x)"
    using assms(2) unfolding x
    by (auto simp: static_file_def Let_def plain_text_def U.simps split: if_splits option.splits)
  with verb mounted longest show ?thesis by blast
qed

definition example_site :: web_platform where
  "example_site = \<lparr>wp_lower = (\<lambda>s. s), wp_decode = (\<lambda>_ b. Some (Some b)), wp_read_files = True, wp_capability_path = (\<lambda>s. Inr [s]),
     wp_resolve = (\<lambda>f. f), wp_is_dir = (\<lambda>_. True), wp_is_file = (\<lambda>f. f = [U ''www'', U ''a.txt'']),
     wp_read = (\<lambda>f. Some (U ''hi'')), wp_mime = (\<lambda>_. None)\<rparr>"

lemma static_files_confined_witness:
  "\<exists>x. static_response example_site [(U ''/s/'', [U ''www''])]
      \<lparr>sq_method = U ''GET'', sq_path = U ''/s/%61.txt'', sq_query = [], sq_headers = [], sq_body = []\<rparr> = Inr (Some x) \<and>
    (\<exists>url base. (url, base) \<in> {(U ''/s/'', [U ''www''])} \<and> starts_with (U ''/s/%61.txt'') url)"
proof -
  let ?rq = "\<lparr>sq_method = U ''GET'', sq_path = U ''/s/%61.txt'', sq_query = [], sq_headers = [], sq_body = []\<rparr> :: server_request"
  let ?x = "static_file example_site (U ''a.txt'') [U ''www'']"
  have "static_response example_site [(U ''/s/'', [U ''www''])] ?rq = Inr (Some ?x) \<and> sv_status ?x = VInt 200"
    by code_simp
  then show ?thesis using static_files_confined [of example_site "[(U ''/s/'', [U ''www''])]" ?rq ?x] by auto
qed

subsection \<open>What a cookie header says\<close>

lemma join_without:
  "set sep \<inter> A = {} \<Longrightarrow> (\<And>x. x \<in> set xs \<Longrightarrow> set x \<inter> A = {}) \<Longrightarrow> set (join_with sep xs) \<inter> A = {}"
  by (induction sep xs rule: join_with.induct) (auto simp: Int_Un_distrib2)

lemma join_with_first: "xs \<noteq> [] \<Longrightarrow> join_with sep (x # xs) = x @ sep @ join_with sep xs"
  by (cases xs) auto

text \<open>
  C12. A route cannot break the header of a cookie it sets. If \<open>http_set_cookie\<close> succeeds, it appends one header to those of the
  response under way; the header has no line break, so it starts no other header, and what stands before its first semicolon is exactly
  the name, an equals sign and the value (the text, or the bytes behind a secret); the name has no equals sign.
\<close>

theorem set_cookie_header_intact:
  assumes "set_cookie wp p args named w = (Done v, w')"
  shows "\<exists>c name t line. wb_context w = Some c \<and> w' = w\<lparr>wb_context := Some (c\<lparr>wc_cookies := wc_cookies c @ [line]\<rparr>)\<rparr> \<and>
    args ! 0 = VStr name \<and> (args ! 1 = VStr t \<or> (\<exists>i < length (wb_secrets w). args ! 1 = VHost H_secret i \<and> t = wb_secrets w ! i)) \<and>
    set line \<inter> {10, 13} = {} \<and> takeWhile (\<lambda>x. x \<noteq> 59) line = name @ 61 # t \<and> 61 \<notin> set name"
proof -
  obtain name where name: "args ! 0 = VStr name" and safe: "\<not> list_ex (\<lambda>c. c \<in> set cookie_separators) name"
    using assms by (auto simp: set_cookie_def raise_def split: sep_value.splits if_splits)
  obtain t w1 where t: "cookie_bytes p (args ! 1) w = (Done t, w1)"
    using assms name by (auto simp: set_cookie_def raise_def andthen_def split: if_splits prod.splits outcome.splits)
  have source: "w1 = w \<and> (args ! 1 = VStr t \<or> (\<exists>i < length (wb_secrets w). args ! 1 = VHost H_secret i \<and> t = wb_secrets w ! i))"
    using t by (auto simp: cookie_bytes_def andthen_def reads_def ret_def raise_def split: sep_value.splits host_kind.splits if_splits)
  have run: "(if \<not> list_all is_ascii t \<or> list_ex (\<lambda>c. c \<in> {59, 13, 10}) t then refuse 895 ''Invalid response cookie'' p
      else (case named_or named ''path'' (VStr (U ''/'')) of
        VStr path \<Rightarrow>
          if \<not> starts_with path (U ''/'') \<or> 13 \<in> set path \<or> 10 \<in> set path then refuse 895 ''Invalid response cookie'' p
          else (case same_site_text (named_or named ''same_site'' (VStr (U ''Lax''))) of
              None \<Rightarrow> refuse 895 ''Invalid response cookie'' p
            | Some site \<Rightarrow> add_cookie p (cookie_line name t path named site))
      | _ \<Rightarrow> refuse 895 ''Invalid response cookie'' p)) w = (Done v, w')"
    using assms [unfolded set_cookie_def name sep_value.case] t source
    by (simp add: andthen_def raise_def split: if_splits)
  then have clean: "\<not> list_ex (\<lambda>c. c \<in> {59, 13, 10}) t" and "list_all is_ascii t"
    by (auto simp: raise_def simp del: list_ex_iff split: if_splits)
  with run obtain path where path: "named_or named ''path'' (VStr (U ''/'')) = VStr path"
    by (cases "named_or named ''path'' (VStr (U ''/''))") (simp_all add: raise_def)
  with run clean \<open>list_all is_ascii t\<close> have paths: "13 \<notin> set path" "10 \<notin> set path"
    and run2: "(case same_site_text (named_or named ''same_site'' (VStr (U ''Lax''))) of
              None \<Rightarrow> refuse 895 ''Invalid response cookie'' p
            | Some site \<Rightarrow> add_cookie p (cookie_line name t path named site)) w = (Done v, w')"
    by (auto simp: raise_def split: if_splits)
  then obtain site where site: "same_site_text (named_or named ''same_site'' (VStr (U ''Lax''))) = Some site"
    and run3: "add_cookie p (cookie_line name t path named site) w = (Done v, w')"
    by (cases "same_site_text (named_or named ''same_site'' (VStr (U ''Lax'')))") (simp_all add: raise_def)
  have sites: "site \<in> {U ''Lax'', U ''Strict'', U ''None''}"
    using site by (auto simp: same_site_text_def split: sep_value.splits if_splits)
  define line where "line = cookie_line name t path named site"
  obtain c where c: "wb_context w = Some c" and w'_line: "w' = w\<lparr>wb_context := Some (c\<lparr>wc_cookies := wc_cookies c @ [line]\<rparr>)\<rparr>"
    using run3 unfolding line_def
    by (auto simp: add_cookie_def andthen_def raise_def web_context_of_def reads_def modifies_def ret_def split: option.splits)
  define rest where "rest = [U ''Path='' @ path] @ (if truthy (named_or named ''secure'' (VBool False)) then [U ''Secure''] else []) @
      (if truthy (named_or named ''http_only'' (VBool True)) then [U ''HttpOnly''] else []) @ [U ''SameSite='' @ site]"
  have line: "line = join_with (U ''; '') ((name @ U ''='' @ t) # rest)"
    by (simp add: line_def cookie_line_def rest_def)
  have chars: "59 \<notin> set name" "61 \<notin> set name" "set name \<inter> {10, 13} = {}"
    using safe by (auto simp: list_ex_iff cookie_separators_def)
  have text_ok: "59 \<notin> set t" "set t \<inter> {10, 13} = {}" using clean by (auto simp: list_ex_iff)
  have "set s \<inter> {10, 13} = {}" if "s \<in> set ((name @ U ''='' @ t) # rest)" for s
    using that chars(3) text_ok(2) paths sites by (auto simp: rest_def U.simps split: if_splits)
  then have "set line \<inter> {10, 13} = {}"
    unfolding line by (intro join_without) (simp_all add: U.simps)
  moreover have "line = (name @ 61 # t) @ 59 # 32 # join_with (U ''; '') rest"
    unfolding line by (subst join_with_first) (simp_all add: rest_def U.simps)
  then have "takeWhile (\<lambda>x. x \<noteq> 59) line = name @ 61 # t"
    using chars(1) text_ok(1) by (auto simp: takeWhile_append)
  ultimately show ?thesis using c w'_line name source chars(2) by blast
qed

definition example_request :: "string \<Rightarrow> server_request" where
  "example_request path = \<lparr>sq_method = U ''GET'', sq_path = U path, sq_query = [], sq_headers = [], sq_body = []\<rparr>"

definition example_web :: "web_context option \<Rightarrow> web" where
  "example_web c = \<lparr>wb_context = c, wb_responses = [], wb_mounts = [], wb_secrets = []\<rparr>"

lemma set_cookie_header_intact_witness:
  "\<exists>w' line c. set_cookie example_site (mk_pos [] 1 1 []) [VStr (U ''id''), VStr (U ''7'')] []
       (example_web (Some \<lparr>wc_request = example_request ''/'', wc_params = [], wc_cookies = []\<rparr>)) = (Done VVoid, w') \<and>
     wb_context w' = Some c \<and> wc_cookies c = [line] \<and> takeWhile (\<lambda>x. x \<noteq> 59) line = U ''id=7''"
proof -
  let ?c = "\<lparr>wc_request = example_request ''/'', wc_params = [], wc_cookies = []\<rparr>"
  obtain w' where run: "set_cookie example_site (mk_pos [] 1 1 []) [VStr (U ''id''), VStr (U ''7'')] [] (example_web (Some ?c)) = (Done VVoid, w')"
    by (simp add: set_cookie_def cookie_separators_def cookie_bytes_def is_ascii_def andthen_def ret_def named_or_def starts_with_iff
        same_site_text_def add_cookie_def web_context_of_def reads_def example_web_def modifies_def U.simps)
  from set_cookie_header_intact [OF run] obtain line where
    "wb_context w' = Some (?c\<lparr>wc_cookies := [line]\<rparr>)" "takeWhile (\<lambda>x. x \<noteq> 59) line = U ''id'' @ 61 # U ''7''"
    by (auto simp: example_web_def)
  with run show ?thesis by (auto simp: U.simps)
qed

text \<open>A server with one route, whose body reads a constant.\<close>

definition server_platform :: "web platform" where
  "server_platform = \<lparr>p_host = quiet_host, p_unicode = latin_tables, p_clock = (\<lambda>_. 0), p_entropy = (\<lambda>_. 0),
     p_builtins = map (\<lambda>(n, lo, hi, names, f). (n, lo, hi, Some names)) SERVER_BUILTINS, p_external = server_external example_site,
     p_functions = [], p_function = (\<lambda>_ _ _ _ s. (Inl Crash, s)), p_transaction = (\<lambda>_ _ _ s. (Inl Crash, s)),
     p_member = (\<lambda>_ _ _ _ s. (Inl Crash, s)), p_match = (\<lambda>_. ([], [])), p_route_ok = (\<lambda>path. compile_path path \<noteq> None),
     p_may_import = (\<lambda>_. Inr ()), p_import_path = (\<lambda>_ _ path. Inr path), p_source = (\<lambda>_. None),
     p_load = (\<lambda>source _. Inl (mk_error 100 [] (mk_pos [] 1 1 [])))\<rparr>"

definition server_world :: "web world" where
  "server_world = \<lparr>w_runtimes = [\<lparr>rt_globals = [U ''k'' \<mapsto> mk_binding (VInt 7) (U ''number'') None True (mk_pos [] 9 1 [])],
       rt_local = None, rt_logics = [], rt_errors = [],
       rt_routes = [((U ''GET'', U ''/k/:id''), [Assignment (mk_pos [] 2 1 []) (U ''x'') (VariableExpr (mk_pos [] 2 5 []) (U ''k''))])],
       rt_signatures = [], rt_random = seed 0, rt_script = None\<rparr>],
     w_cache = [], w_stack = [], w_out = [], w_err = [], w_in = [], w_ticks = 0, w_rest = example_web None\<rparr>"


end
