(* ===== verification/Structured_Data.thy ===== *)
theory Structured_Data
  imports Runtime
begin

section \<open>JSON and YAML\<close>

text \<open>
  The conversions of \<open>io_json.py\<close> and \<open>structured_data.py\<close> between values and the plain data that Python's \<open>json\<close> and the
  \<open>yaml\<close> package read and write; the text formats themselves are parameters (\<open>data_library\<close>). A dictionary is an association
  list without duplicate keys, as both loaders reject those. \<open>D_Again\<close> is a YAML alias to a collection
  that encloses it, \<open>D_Other\<close> any other Python object a loader may build (a date, a set, bytes). A value is a tree, so the checks
  of the encoders against recursive lists and objects have nothing to find.
\<close>

datatype data =
    D_Null | D_Bool bool | D_Int int | D_Flt b64 | D_Str ustr
  | D_List "data list" | D_Dict "(ustr \<times> data) list"
  | D_Again | D_Other

abbreviation "MAX_DOCUMENT_BYTES \<equiv> 8000000 :: nat"
abbreviation "MAX_NODES \<equiv> 100000 :: nat"
abbreviation "MAX_DEPTH \<equiv> 100 :: nat"

record data_library =
  dl_json_load :: "ustr \<Rightarrow> data option"
  dl_json_dump :: "data \<Rightarrow> ustr"
  dl_yaml_load :: "ustr \<Rightarrow> data list option"
  dl_yaml_dump :: "bool \<Rightarrow> int \<Rightarrow> bool \<Rightarrow> data list \<Rightarrow> ustr option"

definition external_empty :: sep_value where "external_empty = VEmpty None None True"

subsection \<open>JSON\<close>

definition normalized_list :: "source_position \<Rightarrow> sep_value list \<Rightarrow> sep_value list result" where
  "normalized_list p vs = bind_sum (list_element_type p vs) (\<lambda>e. normalize_list_values p vs e)"

fun from_json :: "source_position \<Rightarrow> data \<Rightarrow> sep_value result"
  and from_json_items :: "source_position \<Rightarrow> data list \<Rightarrow> sep_value list result"
  and from_json_fields :: "source_position \<Rightarrow> (ustr \<times> data) list \<Rightarrow> (ustr \<times> sep_value) list result" where
  "from_json p D_Null = Inr external_empty"
| "from_json p (D_Bool b) = Inr (VBool b)"
| "from_json p (D_Int i) = Inr (VInt i)"
| "from_json p (D_Flt x) = Inr (VFlt x)"
| "from_json p (D_Str s) = Inr (VStr s)"
| "from_json p (D_List ds) =
     bind_sum (from_json_items p ds) (\<lambda>vs. bind_sum (normalized_list p vs) (\<lambda>ws. Inr (VList ws)))"
| "from_json p (D_Dict fs) = bind_sum (from_json_fields p fs) (\<lambda>gs. Inr (VObj gs []))"
| "from_json p D_Again = Inl (mk_error 740 ''JSON error'' p)"
| "from_json p D_Other = Inl (mk_error 740 ''JSON error'' p)"
| "from_json_items p [] = Inr []"
| "from_json_items p (d # ds) = bind_sum (from_json p d) (\<lambda>v. bind_sum (from_json_items p ds) (\<lambda>vs. Inr (v # vs)))"
| "from_json_fields p [] = Inr []"
| "from_json_fields p ((k, d) # fs) = bind_sum (from_json p d) (\<lambda>v. bind_sum (from_json_fields p fs) (\<lambda>gs. Inr ((k, v) # gs)))"

definition json_decode :: "data_library \<Rightarrow> source_position \<Rightarrow> sep_value \<Rightarrow> sep_value result" where
  "json_decode lib p v =
     (case v of
        VStr text \<Rightarrow> (case dl_json_load lib text of None \<Rightarrow> Inl (mk_error 740 ''JSON parse error'' p) | Some d \<Rightarrow> from_json p d)
      | _ \<Rightarrow> Inl (type_error p))"

text \<open>The fields of an object are converted in the order of their keys.\<close>

fun to_json :: "source_position \<Rightarrow> sep_value \<Rightarrow> data result"
  and to_json_items :: "source_position \<Rightarrow> sep_value list \<Rightarrow> data list result"
  and to_json_fields :: "source_position \<Rightarrow> (ustr \<times> sep_value) list \<Rightarrow> (ustr \<times> data) list result" where
  "to_json p (VEmpty d e x) = Inr D_Null"
| "to_json p (VObj fs ts) = bind_sum (to_json_fields p fs) (\<lambda>gs. Inr (D_Dict (sort_key fst gs)))"
| "to_json p (VList vs) = bind_sum (to_json_items p vs) (\<lambda>ds. Inr (D_List ds))"
| "to_json p (VStr s) = Inr (D_Str s)"
| "to_json p (VBool b) = Inr (D_Bool b)"
| "to_json p (VInt i) = Inr (D_Int i)"
| "to_json p (VFlt x) = (if is_finite64 x then Inr (D_Flt x) else Inl (mk_error 741 ''JSON encode error'' p))"
| "to_json p _ = Inl (mk_error 741 ''JSON encode error'' p)"
| "to_json_items p [] = Inr []"
| "to_json_items p (v # vs) = bind_sum (to_json p v) (\<lambda>d. bind_sum (to_json_items p vs) (\<lambda>ds. Inr (d # ds)))"
| "to_json_fields p [] = Inr []"
| "to_json_fields p ((k, v) # fs) = bind_sum (to_json p v) (\<lambda>d. bind_sum (to_json_fields p fs) (\<lambda>gs. Inr ((k, d) # gs)))"

definition json_encode :: "data_library \<Rightarrow> source_position \<Rightarrow> sep_value \<Rightarrow> sep_value result" where
  "json_encode lib p v = bind_sum (to_json p v) (\<lambda>d. Inr (VStr (dl_json_dump lib d)))"

subsection \<open>YAML\<close>

text \<open>The budget of a conversion, counted up by every node of one document stream.\<close>

type_synonym 'a budgeted = "(nat, sep_error, 'a) sem"

definition spend :: "source_position \<Rightarrow> nat \<Rightarrow> unit budgeted" where
  "spend p depth =
     andthen (modifies Suc) (\<lambda>_. andthen (reads id) (\<lambda>n.
     if MAX_NODES < n \<or> MAX_DEPTH < depth then raise (mk_error 943 ''yaml_limit_error'' p) else ret ()))"

text \<open>The error for a list of mixed types, where it is the one that would be raised.\<close>

definition mixed_as_yaml :: "source_position \<Rightarrow> 'a result \<Rightarrow> 'a result" where
  "mixed_as_yaml p r =
     (case r of Inl e \<Rightarrow> Inl (if err_code e = 203 then mk_error 942 ''yaml_type_error'' p else e) | Inr v \<Rightarrow> Inr v)"

fun from_yaml :: "source_position \<Rightarrow> nat \<Rightarrow> data \<Rightarrow> sep_value budgeted"
  and from_yaml_items :: "source_position \<Rightarrow> nat \<Rightarrow> data list \<Rightarrow> sep_value list budgeted"
  and from_yaml_fields :: "source_position \<Rightarrow> nat \<Rightarrow> (ustr \<times> data) list \<Rightarrow> (ustr \<times> sep_value) list budgeted" where
  "from_yaml p k D_Null = andthen (spend p k) (\<lambda>_. ret external_empty)"
| "from_yaml p k (D_Str s) = andthen (spend p k) (\<lambda>_. ret (VStr s))"
| "from_yaml p k (D_Bool b) = andthen (spend p k) (\<lambda>_. ret (VBool b))"
| "from_yaml p k (D_Int i) = andthen (spend p k) (\<lambda>_. ret (VInt i))"
| "from_yaml p k (D_Flt x) = andthen (spend p k) (\<lambda>_.
     if is_finite64 x then ret (VFlt x) else raise (mk_error 942 ''yaml_type_error'' p))"
| "from_yaml p k (D_List ds) = andthen (spend p k) (\<lambda>_. andthen (from_yaml_items p (Suc k) ds) (\<lambda>vs.
     andthen (lift_sum (mixed_as_yaml p (normalized_list p vs))) (\<lambda>ws. ret (VList ws))))"
| "from_yaml p k (D_Dict fs) = andthen (spend p k) (\<lambda>_. andthen (from_yaml_fields p (Suc k) fs) (\<lambda>gs. ret (VObj gs [])))"
| "from_yaml p k D_Again = andthen (spend p k) (\<lambda>_. raise (mk_error 943 ''yaml_limit_error'' p))"
| "from_yaml p k D_Other = andthen (spend p k) (\<lambda>_. raise (mk_error 942 ''yaml_type_error'' p))"
| "from_yaml_items p k [] = ret []"
| "from_yaml_items p k (d # ds) = andthen (from_yaml p k d) (\<lambda>v. andthen (from_yaml_items p k ds) (\<lambda>vs. ret (v # vs)))"
| "from_yaml_fields p k [] = ret []"
| "from_yaml_fields p k ((key, d) # fs) =
     andthen (from_yaml p k d) (\<lambda>v. andthen (from_yaml_fields p k fs) (\<lambda>gs. ret ((key, v) # gs)))"

fun to_data :: "source_position \<Rightarrow> nat \<Rightarrow> sep_value \<Rightarrow> data budgeted"
  and to_data_items :: "source_position \<Rightarrow> nat \<Rightarrow> sep_value list \<Rightarrow> data list budgeted"
  and to_data_fields :: "source_position \<Rightarrow> nat \<Rightarrow> (ustr \<times> sep_value) list \<Rightarrow> (ustr \<times> data) list budgeted" where
  "to_data p k (VEmpty d e x) = andthen (spend p k) (\<lambda>_. ret D_Null)"
| "to_data p k (VStr s) = andthen (spend p k) (\<lambda>_. ret (D_Str s))"
| "to_data p k (VBool b) = andthen (spend p k) (\<lambda>_. ret (D_Bool b))"
| "to_data p k (VInt i) = andthen (spend p k) (\<lambda>_. ret (D_Int i))"
| "to_data p k (VFlt x) = andthen (spend p k) (\<lambda>_.
     if is_finite64 x then ret (D_Flt x) else raise (mk_error 941 ''yaml_encode_error'' p))"
| "to_data p k (VList vs) = andthen (spend p k) (\<lambda>_. andthen (to_data_items p (Suc k) vs) (\<lambda>ds. ret (D_List ds)))"
| "to_data p k (VObj fs ts) = andthen (spend p k) (\<lambda>_. andthen (to_data_fields p (Suc k) fs) (\<lambda>gs. ret (D_Dict gs)))"
| "to_data p k _ = andthen (spend p k) (\<lambda>_. raise (mk_error 941 ''yaml_encode_error'' p))"
| "to_data_items p k [] = ret []"
| "to_data_items p k (v # vs) = andthen (to_data p k v) (\<lambda>d. andthen (to_data_items p k vs) (\<lambda>ds. ret (d # ds)))"
| "to_data_fields p k [] = ret []"
| "to_data_fields p k ((key, v) # fs) =
     andthen (to_data p k v) (\<lambda>d. andthen (to_data_fields p k fs) (\<lambda>gs. ret ((key, d) # gs)))"

text \<open>A text too long, or (\<open>None\<close>) one that has no UTF-8.\<close>

definition sized_text :: "nat \<Rightarrow> string \<Rightarrow> source_position \<Rightarrow> sep_value \<Rightarrow> exn + ustr" where
  "sized_text code category p v =
     (case v of
        VStr s \<Rightarrow> (case encode_text UTF_8 s of
            None \<Rightarrow> Inl Crash
          | Some b \<Rightarrow> if MAX_DOCUMENT_BYTES < length b then Inl (Sep (mk_error code category p)) else Inr s)
      | _ \<Rightarrow> Inl (Sep (type_error p)))"

definition yaml_documents :: "data_library \<Rightarrow> source_position \<Rightarrow> sep_value \<Rightarrow> exn + sep_value list" where
  "yaml_documents lib p v =
     bind_sum (sized_text 943 ''yaml_limit_error'' p v) (\<lambda>text.
     case dl_yaml_load lib text of
       None \<Rightarrow> Inl (Sep (mk_error 940 ''yaml_parse_error'' p))
     | Some ds \<Rightarrow> (case fst (from_yaml_items p 0 ds 0) of Done vs \<Rightarrow> Inr vs | Raised e \<Rightarrow> Inl (Sep e) | NoFuel \<Rightarrow> Inl Crash))"

definition yaml_to_object :: "data_library \<Rightarrow> source_position \<Rightarrow> sep_value \<Rightarrow> exn + sep_value" where
  "yaml_to_object lib p v =
     bind_sum (yaml_documents lib p v) (\<lambda>vs.
     case vs of [] \<Rightarrow> Inr external_empty | [w] \<Rightarrow> Inr w | _ \<Rightarrow> Inl (Sep (mk_error 940 ''yaml_parse_error'' p)))"

definition yaml_to_objects :: "data_library \<Rightarrow> source_position \<Rightarrow> sep_value \<Rightarrow> exn + sep_value" where
  "yaml_to_objects lib p v =
     bind_sum (yaml_documents lib p v) (\<lambda>vs.
     case mixed_as_yaml p (list_element_type p vs) of Inl e \<Rightarrow> Inl (Sep e) | Inr _ \<Rightarrow> Inr (VList vs))"

definition yaml_validate :: "data_library \<Rightarrow> source_position \<Rightarrow> sep_value \<Rightarrow> exn + sep_value" where
  "yaml_validate lib p v = bind_sum (yaml_documents lib p v) (\<lambda>_. Inr (VBool True))"

definition yaml_options :: "source_position \<Rightarrow> named_arguments \<Rightarrow> (int \<times> bool) result" where
  "yaml_options p named =
     (case (case map_of named (U ''indent'') of None \<Rightarrow> VInt 2 | Some v \<Rightarrow> v) of
        VInt i \<Rightarrow>
          if 2 \<le> i \<and> i \<le> 8 then
            (case (case map_of named (U ''sort_keys'') of None \<Rightarrow> VBool False | Some v \<Rightarrow> v) of
               VBool b \<Rightarrow> Inr (i, b) | _ \<Rightarrow> Inl (type_error p))
          else Inl (type_error p)
      | _ \<Rightarrow> Inl (type_error p))"

text \<open>Every document of a stream has a budget of its own when it is written.\<close>

definition whole_data :: "source_position \<Rightarrow> sep_value \<Rightarrow> data result" where
  "whole_data p v =
     (case fst (to_data p 0 v 0) of Done d \<Rightarrow> Inr d | Raised e \<Rightarrow> Inl e | NoFuel \<Rightarrow> Inl (mk_error 941 ''yaml_encode_error'' p))"

definition dump_yaml :: "data_library \<Rightarrow> source_position \<Rightarrow> bool \<Rightarrow> sep_value list \<Rightarrow> named_arguments \<Rightarrow> sep_value result" where
  "dump_yaml lib p multiple vs named =
     bind_sum (yaml_options p named) (\<lambda>(indent, sort_keys).
     bind_sum (map_result (whole_data p) vs) (\<lambda>ds.
     case dl_yaml_dump lib multiple indent sort_keys ds of
       None \<Rightarrow> Inl (mk_error 941 ''yaml_encode_error'' p) | Some t \<Rightarrow> Inr (VStr t)))"

definition object_to_yaml :: "data_library \<Rightarrow> source_position \<Rightarrow> sep_value \<Rightarrow> named_arguments \<Rightarrow> sep_value result" where
  "object_to_yaml lib p v named = dump_yaml lib p False [v] named"

definition objects_to_yaml :: "data_library \<Rightarrow> source_position \<Rightarrow> sep_value \<Rightarrow> named_arguments \<Rightarrow> sep_value result" where
  "objects_to_yaml lib p v named = (case v of VList vs \<Rightarrow> dump_yaml lib p True vs named | _ \<Rightarrow> Inl (type_error p))"

subsection \<open>What is read is written back\<close>

lemma to_json_normalized: "normalize_value_for_type_spec p v s = Inr w \<Longrightarrow> to_json q w = to_json q v"
proof (induction p v s arbitrary: w rule: normalize_value_for_type_spec.induct)
  case (1 p d e x s)
  then show ?case by (auto simp: empty_for_type_spec_def split: option.splits type_spec.splits)
next
  case (2 p vs s)
  have items: "to_json_items q ws = to_json_items q vs"
    if "map_result (\<lambda>v. normalize_value_for_type_spec p v (element_spec s)) vs = Inr ws"
      "\<And>v w. v \<in> set vs \<Longrightarrow> normalize_value_for_type_spec p v (element_spec s) = Inr w \<Longrightarrow> to_json q w = to_json q v" for vs ws
    using that
  proof (induction vs arbitrary: ws)
    case (Cons a vs)
    then obtain b bs where "normalize_value_for_type_spec p a (element_spec s) = Inr b" "ws = b # bs"
      "map_result (\<lambda>v. normalize_value_for_type_spec p v (element_spec s)) vs = Inr bs"
      by (auto simp: bind_sum_def split: sum.splits)
    moreover from this(3) have "to_json_items q bs = to_json_items q vs"
      by (rule Cons.IH) (rule Cons.prems(2), simp_all)
    ultimately show ?case using Cons.prems(2) [of a b] by simp
  qed simp
  show ?case
  proof (cases "is_list_type_spec s \<and> \<not> (vs \<noteq> [] \<and> element_spec s = None)")
    case True
    then obtain ws where ws: "map_result (\<lambda>v. normalize_value_for_type_spec p v (element_spec s)) vs = Inr ws" "w = VList ws"
      using 2(2) by (auto simp: bind_sum_def split: sum.splits)
    have "to_json_items q ws = to_json_items q vs"
      by (rule items [OF ws(1)]) (rule 2(1), use True in auto)
    with ws(2) show ?thesis by simp
  next
    case False
    with 2(2) show ?thesis by (auto split: if_splits)
  qed
qed (auto split: if_splits)

lemma to_data_normalized: "normalize_value_for_type_spec p v s = Inr w \<Longrightarrow> to_data q k w = to_data q k v"
proof (induction p v s arbitrary: w k rule: normalize_value_for_type_spec.induct)
  case (1 p d e x s)
  then show ?case by (auto simp: empty_for_type_spec_def split: option.splits type_spec.splits)
next
  case (2 p vs s)
  have items: "to_data_items q k ws = to_data_items q k vs"
    if "map_result (\<lambda>v. normalize_value_for_type_spec p v (element_spec s)) vs = Inr ws"
      "\<And>v w k. v \<in> set vs \<Longrightarrow> normalize_value_for_type_spec p v (element_spec s) = Inr w \<Longrightarrow> to_data q k w = to_data q k v" for vs ws k
    using that
  proof (induction vs arbitrary: ws)
    case (Cons a vs)
    then obtain b bs where "normalize_value_for_type_spec p a (element_spec s) = Inr b" "ws = b # bs"
      "map_result (\<lambda>v. normalize_value_for_type_spec p v (element_spec s)) vs = Inr bs"
      by (auto simp: bind_sum_def split: sum.splits)
    moreover from this(3) have "to_data_items q k bs = to_data_items q k vs"
      by (rule Cons.IH) (rule Cons.prems(2), simp_all)
    ultimately show ?case using Cons.prems(2) [of a b k] by simp
  qed simp
  show ?case
  proof (cases "is_list_type_spec s \<and> \<not> (vs \<noteq> [] \<and> element_spec s = None)")
    case True
    then obtain ws where ws: "map_result (\<lambda>v. normalize_value_for_type_spec p v (element_spec s)) vs = Inr ws" "w = VList ws"
      using 2(2) by (auto simp: bind_sum_def split: sum.splits)
    have "to_data_items q (Suc k) ws = to_data_items q (Suc k) vs"
      by (rule items [OF ws(1)]) (rule 2(1), use True in auto)
    with ws(2) show ?thesis by simp
  next
    case False
    with 2(2) show ?thesis by (auto split: if_splits)
  qed
qed (auto split: if_splits)

lemma normalized_items:
  assumes "normalized_list p vs = Inr ws"
  shows "to_json_items q ws = to_json_items q vs" and "to_data_items q k ws = to_data_items q k vs"
proof -
  obtain e where "normalize_list_values p vs e = Inr ws"
    using assms by (auto simp: normalized_list_def bind_sum_def split: sum.splits)
  then have "normalize_value_for_type_spec p (VList vs) (Some (TList e)) = Inr (VList ws)"
    by (simp only: normalize_list_spec bind_sum_simps)
  then have "to_json q (VList ws) = to_json q (VList vs)" by (rule to_json_normalized)
  then show "to_json_items q ws = to_json_items q vs" by (auto simp: bind_sum_def split: sum.splits)
  have items: "to_data_items q k ws = to_data_items q k vs"
    if "map_result (\<lambda>v. normalize_value_for_type_spec p v e) vs = Inr ws" for vs ws
    using that
  proof (induction vs arbitrary: ws)
    case (Cons a vs)
    then obtain b bs where "normalize_value_for_type_spec p a e = Inr b" "ws = b # bs"
      "map_result (\<lambda>v. normalize_value_for_type_spec p v e) vs = Inr bs"
      by (auto simp: bind_sum_def split: sum.splits)
    with Cons.IH [of bs] to_data_normalized [of p a e b q k] show ?case by simp
  qed simp
  from \<open>normalize_list_values p vs e = Inr ws\<close> show "to_data_items q k ws = to_data_items q k vs"
    by (auto simp: normalize_list_values_def split: if_splits intro: items)
qed

text \<open>The data with the keys of every dictionary in order, and whether all its floats are finite.\<close>

fun sort_data :: "data \<Rightarrow> data" where
  "sort_data (D_List ds) = D_List (map sort_data ds)"
| "sort_data (D_Dict fs) = D_Dict (sort_key fst (map (\<lambda>(k, d). (k, sort_data d)) fs))"
| "sort_data d = d"

fun data_finite :: "data \<Rightarrow> bool" where
  "data_finite (D_List ds) = list_all data_finite ds"
| "data_finite (D_Dict fs) = list_all (\<lambda>(k, d). data_finite d) fs"
| "data_finite (D_Flt x) = is_finite64 x"
| "data_finite d = True"

fun data_nodes :: "data \<Rightarrow> nat" where
  "data_nodes (D_List ds) = Suc (sum_list (map data_nodes ds))"
| "data_nodes (D_Dict fs) = Suc (sum_list (map (\<lambda>(k, d). data_nodes d) fs))"
| "data_nodes d = 1"

text \<open>No node lies deeper than \<open>n\<close> below this one.\<close>

fun data_within :: "nat \<Rightarrow> data \<Rightarrow> bool" where
  "data_within n (D_List ds) = (ds = [] \<or> (case n of 0 \<Rightarrow> False | Suc m \<Rightarrow> list_all (data_within m) ds))"
| "data_within n (D_Dict fs) = (fs = [] \<or> (case n of 0 \<Rightarrow> False | Suc m \<Rightarrow> list_all (\<lambda>(k, d). data_within m d) fs))"
| "data_within n d = True"

lemma json_written_back:
  "from_json p d = Inr v \<Longrightarrow> data_finite d \<Longrightarrow> to_json q v = Inr (sort_data d)"
  "from_json_items p ds = Inr vs \<Longrightarrow> list_all data_finite ds \<Longrightarrow> to_json_items q vs = Inr (map sort_data ds)"
  "from_json_fields p fs = Inr gs \<Longrightarrow> list_all (\<lambda>(k, d). data_finite d) fs \<Longrightarrow>
     to_json_fields q gs = Inr (map (\<lambda>(k, d). (k, sort_data d)) fs)"
proof (induction p d and p ds and p fs arbitrary: v and vs and gs rule: from_json_from_json_items_from_json_fields.induct)
  case (6 p ds)
  then obtain vs ws where "from_json_items p ds = Inr vs" "normalized_list p vs = Inr ws" "v = VList ws"
    by (auto simp: bind_sum_def split: sum.splits)
  with 6 show ?case by (simp add: normalized_items(1))
qed (auto simp: bind_sum_def external_empty_def split: sum.splits)

lemma spend_Done: "spend p k n = (Done u, m) \<longleftrightarrow> m = Suc n \<and> m \<le> MAX_NODES \<and> k \<le> MAX_DEPTH"
  by (auto simp: spend_def andthen_def modifies_def reads_def raise_def ret_def)

lemma andthen_Done: "andthen m f s = (Done b, u) \<longleftrightarrow> (\<exists>a t. m s = (Done a, t) \<and> f a t = (Done b, u))"
  by (auto simp: andthen_def split: prod.splits outcome.splits)

lemma simple_Done [simp]:
  "ret a s = (Done b, t) \<longleftrightarrow> b = a \<and> t = s" "raise x s \<noteq> (Done b, t)"
  "lift_sum r s = (Done b, t) \<longleftrightarrow> r = Inr b \<and> t = s"
  by (auto simp: ret_def raise_def lift_sum_def split: sum.splits)

lemma mixed_Inr [simp]: "mixed_as_yaml p r = Inr v \<longleftrightarrow> r = Inr v"
  by (auto simp: mixed_as_yaml_def split: sum.splits)

lemma depth_left: "MAX_DEPTH - k = Suc x \<Longrightarrow> x = 99 - k"
  by simp

lemma yaml_written_back:
  "from_yaml p k d n = (Done v, m) \<Longrightarrow>
     to_data q k v n = (Done d, m) \<and> m = n + data_nodes d \<and> m \<le> MAX_NODES \<and> k \<le> MAX_DEPTH \<and> data_within (MAX_DEPTH - k) d"
  "from_yaml_items p k ds n = (Done vs, m) \<Longrightarrow>
     to_data_items q k vs n = (Done ds, m) \<and> m = n + sum_list (map data_nodes ds) \<and>
     (ds \<noteq> [] \<longrightarrow> m \<le> MAX_NODES \<and> k \<le> MAX_DEPTH \<and> list_all (data_within (MAX_DEPTH - k)) ds)"
  "from_yaml_fields p k fs n = (Done gs, m) \<Longrightarrow>
     to_data_fields q k gs n = (Done fs, m) \<and> m = n + sum_list (map (\<lambda>(key, d). data_nodes d) fs) \<and>
     (fs \<noteq> [] \<longrightarrow> m \<le> MAX_NODES \<and> k \<le> MAX_DEPTH \<and> list_all (\<lambda>(key, d). data_within (MAX_DEPTH - k) d) fs)"
proof (induction p k d and p k ds and p k fs arbitrary: v n m and vs n m and gs n m
    rule: from_yaml_from_yaml_items_from_yaml_fields.induct)
  case (6 p k ds)
  then obtain vs ws where start: "Suc n \<le> MAX_NODES" "k \<le> MAX_DEPTH"
    and items: "from_yaml_items p (Suc k) ds (Suc n) = (Done vs, m)" and "normalized_list p vs = Inr ws" and v: "v = VList ws"
    by (auto simp: andthen_Done spend_Done)
  then have "to_data_items q (Suc k) ws = to_data_items q (Suc k) vs" by (simp add: normalized_items(2))
  with 6(1) [OF items] start v show ?case
    by (auto simp: andthen_Done spend_Done split: nat.splits dest!: depth_left)
next
  case (7 p k fs)
  then obtain gs where start: "Suc n \<le> MAX_NODES" "k \<le> MAX_DEPTH"
    and items: "from_yaml_fields p (Suc k) fs (Suc n) = (Done gs, m)" and v: "v = VObj gs []"
    by (auto simp: andthen_Done spend_Done)
  with 7(1) [OF items] show ?case
    by (auto simp: andthen_Done spend_Done split: nat.splits dest!: depth_left)
qed (fastforce simp: andthen_Done spend_Done external_empty_def split: if_splits)+

text \<open>
  C15. JSON and YAML survive the conversion to values. What \<open>json_decode\<close> accepts and holds only finite numbers is what
  \<open>json_encode\<close> hands to the JSON library for the resulting value, with the keys of every object in order; so normalizing lists and
  losing the type of EMPTY loses nothing of the document. What the YAML readers accept is handed to the YAML library unchanged,
  and never has more than 100000 nodes nor nests deeper than 100 levels.
\<close>

theorem data_roundtrip:
  "(\<forall>d v. from_json p d = Inr v \<and> data_finite d \<longrightarrow> to_json q v = Inr (sort_data d)) \<and>
   (\<forall>d v n. from_yaml p 0 d 0 = (Done v, n) \<longrightarrow>
      whole_data q v = Inr d \<and> n = data_nodes d \<and> data_nodes d \<le> MAX_NODES \<and> data_within MAX_DEPTH d)"
  using json_written_back(1) yaml_written_back(1) [of p 0 _ 0 _ _ q] by (fastforce simp: whole_data_def)

definition example_data :: data where
  "example_data = D_Dict [(U ''b'', D_List [D_Null, D_Int 3]), (U ''a'', D_Str (U ''x''))]"

lemma data_roundtrip_witness:
  "\<exists>v. from_json (mk_pos [] 1 1 []) example_data = Inr v \<and>
     to_json (mk_pos [] 2 1 []) v = Inr (D_Dict [(U ''a'', D_Str (U ''x'')), (U ''b'', D_List [D_Null, D_Int 3])]) \<and>
     (\<exists>w n. from_yaml (mk_pos [] 1 1 []) 0 example_data 0 = (Done w, n) \<and> whole_data (mk_pos [] 2 1 []) w = Inr example_data)"
proof -
  note facts = data_roundtrip [of "mk_pos [] 1 1 []" "mk_pos [] 2 1 []"]
  obtain v where v: "from_json (mk_pos [] 1 1 []) example_data = Inr v"
    by (simp add: example_data_def external_empty_def normalized_list_def list_element_type.simps retained_empty_type_def
        normalize_list_values_def is_list_type_spec_def)
  obtain w n where w: "from_yaml (mk_pos [] 1 1 []) 0 example_data 0 = (Done w, n)"
    by (simp add: example_data_def external_empty_def normalized_list_def list_element_type.simps retained_empty_type_def
        normalize_list_values_def is_list_type_spec_def andthen_Done spend_Done)
  have "data_finite example_data" by (simp add: example_data_def)
  moreover have "sort_data example_data = D_Dict [(U ''a'', D_Str (U ''x'')), (U ''b'', D_List [D_Null, D_Int 3])]"
    by (simp add: example_data_def U.simps)
  ultimately show ?thesis using facts v w by fastforce
qed

end
