(* ===== verification/Xml.thy ===== *)
theory Xml
  imports Structured_Data
begin

section \<open>XML\<close>

text \<open>
  The XML part of \<open>structured_data.py\<close>. Documents here are trees; those that programs hold are in \<open>Xml_Store\<close>.
  The parser and the writer of \<open>xml.etree\<close> and the classes of characters are parameters. The text that follows a child inside its parent (the library's \<open>tail\<close>) is read by no function of the module and is not modelled.
\<close>

datatype xml_tree = Tree (tree_tag: "ustr option") "(ustr \<times> ustr) list" "ustr option" (tree_children: "xml_tree list")

type_synonym namespaces = "(ustr \<times> ustr) list"

record xml_platform =
  xp_alpha :: "uchar \<Rightarrow> bool"
  xp_digit :: "uchar \<Rightarrow> bool"
  xp_mark :: "uchar \<Rightarrow> bool"
  xp_word :: "uchar \<Rightarrow> bool"
  xp_parse :: "ustr \<Rightarrow> (xml_tree \<times> namespaces) option"
  xp_write :: "xml_tree \<Rightarrow> int \<Rightarrow> ustr"

subsection \<open>Sources\<close>

text \<open>The search for \<open><!DOCTYPE\<close> and \<open><!ENTITY\<close> in any case; Python also takes both Turkish forms of the letter \<open>i\<close> for it.\<close>

definition same_letter :: "uchar \<Rightarrow> uchar \<Rightarrow> bool" where
  "same_letter c l \<longleftrightarrow> ascii_lower c = l \<or> l = 105 \<and> c \<in> {304, 305}"

definition word_ahead :: "xml_platform \<Rightarrow> ustr \<Rightarrow> string \<Rightarrow> bool" where
  "word_ahead xp s w \<longleftrightarrow> length w \<le> length s \<and> list_all2 same_letter (take (length w) s) (U w) \<and>
     (case drop (length w) s of [] \<Rightarrow> True | c # _ \<Rightarrow> \<not> xp_word xp c)"

fun unsafe_xml :: "xml_platform \<Rightarrow> ustr \<Rightarrow> bool" where
  "unsafe_xml xp [] = False"
| "unsafe_xml xp (c # s) =
     (c = 60 \<and> (case s of d # r \<Rightarrow> d = 33 \<and> (word_ahead xp (lstrip r) ''doctype'' \<or> word_ahead xp (lstrip r) ''entity'') | [] \<Rightarrow> False)
      \<or> unsafe_xml xp s)"

lemma tree_size: "size_list size (tree_children t) < size t"
  by (cases t) simp

text \<open>The stack of \<open>_check_xml_tree\<close>, its top first; the children of a node are pushed in order.\<close>

function check_stack :: "nat \<Rightarrow> (xml_tree \<times> nat) list \<Rightarrow> bool" where
  "check_stack seen [] = True"
| "check_stack seen ((t, depth) # rest) =
     (if MAX_NODES < Suc seen \<or> MAX_DEPTH < depth then False
      else check_stack (Suc seen) (rev (map (\<lambda>c. (c, Suc depth)) (tree_children t)) @ rest))"
  by pat_completeness auto
termination
proof (relation "measure (\<lambda>(n, st). sum_list (map (\<lambda>(t, d). size t) st))")
  fix seen t depth and rest :: "(xml_tree \<times> nat) list"
  have "sum_list (map size (tree_children t)) < size t"
    using tree_size [of t] by (simp add: size_list_conv_sum_list)
  then show "((Suc seen, rev (map (\<lambda>c. (c, Suc depth)) (tree_children t)) @ rest), seen, (t, depth) # rest)
      \<in> measure (\<lambda>(n, st). sum_list (map (\<lambda>(t, d). size t) st))"
    by (simp add: o_def rev_map [symmetric] sum_list_rev)
qed simp

definition xml_source :: "xml_platform \<Rightarrow> source_position \<Rightarrow> sep_value \<Rightarrow> exn + ustr" where
  "xml_source xp p v =
     bind_sum (sized_text 953 ''xml_limit_error'' p v) (\<lambda>t.
     if unsafe_xml xp t then Inl (Sep (mk_error 952 ''xml_security_error'' p)) else Inr t)"

definition xml_parse :: "xml_platform \<Rightarrow> source_position \<Rightarrow> sep_value \<Rightarrow> exn + (xml_tree \<times> namespaces)" where
  "xml_parse xp p v =
     bind_sum (xml_source xp p v) (\<lambda>t.
     case xp_parse xp t of
       None \<Rightarrow> Inl (Sep (mk_error 950 ''xml_parse_error'' p))
     | Some (tree, ns) \<Rightarrow>
         if check_stack 0 [(tree, 0)] then Inr (tree, ns) else Inl (Sep (mk_error 953 ''xml_limit_error'' p)))"

subsection \<open>Names\<close>

text \<open>A tag \<open>{uri}local\<close>; one that opens a brace and does not close it raises IndexError (\<open>None\<close>).\<close>

definition local_name :: "ustr \<Rightarrow> ustr option" where
  "local_name tag =
     (if starts_with tag [123] then (if 125 \<in> set tag then Some (drop 1 (dropWhile (\<lambda>c. c \<noteq> 125) tag)) else None) else Some tag)"

definition namespace_of :: "ustr \<Rightarrow> ustr option" where
  "namespace_of tag = (if starts_with tag [123] then Some (takeWhile (\<lambda>c. c \<noteq> 125) (drop 1 tag)) else None)"

definition name_char :: "xml_platform \<Rightarrow> uchar \<Rightarrow> bool" where
  "name_char xp c \<longleftrightarrow> c \<in> {95, 46, 45} \<or> xp_alpha xp c \<or> xp_digit xp c \<or> xp_mark xp c"

definition valid_xml_name :: "xml_platform \<Rightarrow> ustr \<Rightarrow> bool" where
  "valid_xml_name xp s \<longleftrightarrow>
     (case s of [] \<Rightarrow> False | c # r \<Rightarrow> 58 \<notin> set s \<and> (c = 95 \<or> xp_alpha xp c) \<and> list_all (name_char xp) r)"

definition xml_name :: "xml_platform \<Rightarrow> source_position \<Rightarrow> sep_value \<Rightarrow> exn + ustr" where
  "xml_name xp p v =
     (case v of
        VStr s \<Rightarrow> if valid_xml_name xp s then Inr s else Inl (Sep (mk_error 951 ''xml_model_error'' p))
      | _ \<Rightarrow> Inl (Sep (mk_error 951 ''xml_model_error'' p)))"

definition clark_name :: "ustr option \<Rightarrow> ustr \<Rightarrow> ustr" where
  "clark_name ns s = (case ns of None \<Rightarrow> s | Some u \<Rightarrow> 123 # u @ 125 # s)"

definition given_namespace :: "source_position \<Rightarrow> sep_value option \<Rightarrow> exn + ustr option" where
  "given_namespace p v =
     (case v of
        None \<Rightarrow> Inr None
      | Some (VStr u) \<Rightarrow> if u = [] then Inl (Sep (type_error p)) else Inr (Some u)
      | Some _ \<Rightarrow> Inl (Sep (type_error p)))"

definition xml_qualified_name :: "xml_platform \<Rightarrow> source_position \<Rightarrow> sep_value \<Rightarrow> sep_value option \<Rightarrow> exn + ustr" where
  "xml_qualified_name xp p v ns =
     bind_sum (xml_name xp p v) (\<lambda>s. bind_sum (given_namespace p ns) (\<lambda>u. Inr (clark_name u s)))"

subsection \<open>Conversion to and from objects\<close>

type_synonym 'a xml_budgeted = "(nat, exn, 'a) sem"

definition spend_xml :: "source_position \<Rightarrow> nat \<Rightarrow> unit xml_budgeted" where
  "spend_xml p depth =
     andthen (modifies Suc) (\<lambda>_. andthen (reads id) (\<lambda>n.
     if MAX_NODES < n \<or> MAX_DEPTH < depth then raise (Sep (mk_error 953 ''xml_limit_error'' p)) else ret ()))"

definition node_object :: "ustr \<Rightarrow> ustr option \<Rightarrow> (ustr \<times> ustr) list \<Rightarrow> ustr option \<Rightarrow> sep_value list \<Rightarrow> sep_value" where
  "node_object name ns attrib text children = VObj
     [(U ''name'', VStr name),
      (U ''namespace_uri'', case ns of None \<Rightarrow> VEmpty (Some (U ''string'')) None True
         | Some u \<Rightarrow> if u = [] then VEmpty (Some (U ''string'')) None True else VStr u),
      (U ''attributes'', VObj (map (\<lambda>(k, v). (k, VStr v)) attrib) []),
      (U ''text'', VStr (case text of None \<Rightarrow> [] | Some t \<Rightarrow> t)),
      (U ''children'', VList children)] []"

text \<open>The children are converted before the name of the node is taken apart.\<close>

fun node_to_object :: "source_position \<Rightarrow> nat \<Rightarrow> xml_tree \<Rightarrow> sep_value xml_budgeted"
  and nodes_to_objects :: "source_position \<Rightarrow> nat \<Rightarrow> xml_tree list \<Rightarrow> sep_value list xml_budgeted" where
  "node_to_object p k (Tree tag attrib t children) =
     andthen (spend_xml p k) (\<lambda>_.
     andthen (nodes_to_objects p (Suc k) children) (\<lambda>vs.
     case tag of
       None \<Rightarrow> raise Crash
     | Some s \<Rightarrow> (case local_name s of None \<Rightarrow> raise Crash | Some n \<Rightarrow> ret (node_object n (namespace_of s) attrib t vs))))"
| "nodes_to_objects p k [] = ret []"
| "nodes_to_objects p k (c # cs) =
     (if tree_tag c = None then nodes_to_objects p k cs
      else andthen (node_to_object p k c) (\<lambda>v. andthen (nodes_to_objects p k cs) (\<lambda>vs. ret (v # vs))))"

fun clean_attributes :: "xml_platform \<Rightarrow> source_position \<Rightarrow> (ustr \<times> sep_value) list \<Rightarrow> exn + (ustr \<times> ustr) list" where
  "clean_attributes xp p [] = Inr []"
| "clean_attributes xp p ((k, v) # fs) =
     bind_sum
       (if starts_with k [123] \<and> 125 \<in> set k
        then (if takeWhile (\<lambda>c. c \<noteq> 125) (drop 1 k) = [] then Inl (Sep (mk_error 951 ''xml_model_error'' p))
              else xml_name xp p (VStr (drop 1 (dropWhile (\<lambda>c. c \<noteq> 125) k))))
        else xml_name xp p (VStr k)) (\<lambda>_.
     case v of
       VStr s \<Rightarrow> bind_sum (clean_attributes xp p fs) (\<lambda>gs. Inr ((k, s) # gs))
     | _ \<Rightarrow> Inl (Sep (type_error p)))"

text \<open>The checks at one node object: its tag, attributes and text.\<close>

definition node_shell :: "xml_platform \<Rightarrow> source_position \<Rightarrow> sep_value \<Rightarrow> exn + (ustr \<times> (ustr \<times> ustr) list \<times> ustr)" where
  "node_shell xp p v =
     (case v of
        VObj fs ts \<Rightarrow>
          (case (map_of fs (U ''name''), map_of fs (U ''attributes''), map_of fs (U ''text''), map_of fs (U ''children'')) of
             (Some name, Some attributes, Some t, Some children) \<Rightarrow>
               bind_sum (xml_name xp p name) (\<lambda>n.
               bind_sum (given_namespace p (case map_of fs (U ''namespace_uri'') of Some (VEmpty d e x) \<Rightarrow> None | u \<Rightarrow> u)) (\<lambda>ns.
               bind_sum (case attributes of VObj gs us \<Rightarrow> clean_attributes xp p gs | _ \<Rightarrow> Inl (Sep (type_error p))) (\<lambda>attrib.
               bind_sum (case t of VStr s \<Rightarrow> Inr s | _ \<Rightarrow> Inl (Sep (type_error p))) (\<lambda>s.
               case children of VList cs \<Rightarrow> Inr (clark_name ns n, attrib, s) | _ \<Rightarrow> Inl (Sep (type_error p))))))
           | _ \<Rightarrow> Inl (Sep (mk_error 951 ''xml_model_error'' p)))
      | _ \<Rightarrow> Inl (Sep (type_error p)))"

definition object_children :: "sep_value \<Rightarrow> sep_value list" where
  "object_children v =
     (case v of VObj fs ts \<Rightarrow> (case map_of fs (U ''children'') of Some (VList cs) \<Rightarrow> cs | _ \<Rightarrow> []) | _ \<Rightarrow> [])"

lemma object_children_size: "size_list size (object_children v) \<le> size v"
proof (cases "object_children v = []")
  case False
  then obtain fs ts cs where v: "v = VObj fs ts" and cs: "map_of fs (U ''children'') = Some (VList cs)" "object_children v = cs"
    by (cases v) (auto simp: object_children_def split: option.splits sep_value.splits)
  have "size_prod (\<lambda>x. 0) size (U ''children'', VList cs) \<le> size_list (size_prod (\<lambda>x. 0) size) fs"
    by (rule size_list_estimation' [OF map_of_SomeD [OF cs(1)] order.refl])
  with v cs show ?thesis by simp
qed simp

function object_to_element :: "xml_platform \<Rightarrow> source_position \<Rightarrow> nat \<Rightarrow> sep_value \<Rightarrow> xml_tree xml_budgeted"
  and objects_to_elements :: "xml_platform \<Rightarrow> source_position \<Rightarrow> nat \<Rightarrow> sep_value list \<Rightarrow> xml_tree list xml_budgeted" where
  "object_to_element xp p k v =
     andthen (spend_xml p k) (\<lambda>_.
     andthen (lift_sum (node_shell xp p v)) (\<lambda>(tag, attrib, t).
     andthen (objects_to_elements xp p (Suc k) (object_children v)) (\<lambda>cs.
     ret (Tree (Some tag) attrib (Some t) cs))))"
| "objects_to_elements xp p k [] = ret []"
| "objects_to_elements xp p k (v # vs) =
     andthen (object_to_element xp p k v) (\<lambda>c. andthen (objects_to_elements xp p k vs) (\<lambda>cs. ret (c # cs)))"
  by pat_completeness auto
termination
  by (relation "measure (\<lambda>z. case z of Inl (xp, p, k, v) \<Rightarrow> 2 * size v + 1 | Inr (xp, p, k, vs) \<Rightarrow> 2 * size_list size vs)")
    (simp_all add: less_Suc_eq_le object_children_size)

declare object_to_element.simps [simp del]

definition xml_to_object :: "xml_platform \<Rightarrow> source_position \<Rightarrow> sep_value \<Rightarrow> exn + sep_value" where
  "xml_to_object xp p v =
     bind_sum (xml_parse xp p v) (\<lambda>(t, ns).
     case fst (node_to_object p 0 t 0) of Done w \<Rightarrow> Inr w | Raised e \<Rightarrow> Inl e | NoFuel \<Rightarrow> Inl Crash)"

definition xml_options :: "source_position \<Rightarrow> named_arguments \<Rightarrow> exn + (int \<times> bool)" where
  "xml_options p named =
     (case (case map_of named (U ''indent'') of None \<Rightarrow> VInt 2 | Some v \<Rightarrow> v) of
        VInt i \<Rightarrow>
          if 0 \<le> i \<and> i \<le> 8 then
            (case (case map_of named (U ''declaration'') of None \<Rightarrow> VBool True | Some v \<Rightarrow> v) of
               VBool b \<Rightarrow> Inr (i, b) | _ \<Rightarrow> Inl (Sep (type_error p)))
          else Inl (Sep (type_error p))
      | _ \<Rightarrow> Inl (Sep (type_error p)))"

definition xml_header :: ustr where
  "xml_header = U ''<?xml version='' @ [34] @ U ''1.0'' @ [34] @ U '' encoding='' @ [34] @ U ''UTF-8'' @ [34] @ U ''?>'' @ [10]"

definition xml_format :: "xml_platform \<Rightarrow> source_position \<Rightarrow> named_arguments \<Rightarrow> xml_tree \<Rightarrow> exn + sep_value" where
  "xml_format xp p named t =
     bind_sum (xml_options p named) (\<lambda>(indent, declaration).
     Inr (VStr ((if declaration then xml_header else []) @ xp_write xp t indent)))"

definition object_to_xml :: "xml_platform \<Rightarrow> source_position \<Rightarrow> sep_value \<Rightarrow> named_arguments \<Rightarrow> exn + sep_value" where
  "object_to_xml xp p v named =
     (case fst (object_to_element xp p 0 v 0) of
        Done t \<Rightarrow> xml_format xp p named t | Raised e \<Rightarrow> Inl e | NoFuel \<Rightarrow> Inl Crash)"

subsection \<open>Escapes\<close>

definition html_escape_char :: "bool \<Rightarrow> uchar \<Rightarrow> ustr" where
  "html_escape_char qt c =
     (if c = 38 then U ''&amp;'' else if c = 60 then U ''&lt;'' else if c = 62 then U ''&gt;''
      else if qt \<and> c = 34 then U ''&quot;'' else if qt \<and> c = 39 then U ''&#x27;'' else [c])"

definition html_escape :: "bool \<Rightarrow> ustr \<Rightarrow> ustr" where
  "html_escape qt s = concat (map (html_escape_char qt) s)"

definition xml_escape :: "bool \<Rightarrow> source_position \<Rightarrow> sep_value \<Rightarrow> exn + sep_value" where
  "xml_escape qt p v = bind_sum (sized_text 953 ''xml_limit_error'' p v) (\<lambda>s. Inr (VStr (html_escape qt s)))"

definition hex_char :: "uchar \<Rightarrow> bool" where
  "hex_char c \<longleftrightarrow> is_digit c \<or> 97 \<le> c \<and> c \<le> 102 \<or> 65 \<le> c \<and> c \<le> 70"

definition hex_number :: "ustr \<Rightarrow> nat" where
  "hex_number s = foldl (\<lambda>n c. 16 * n + (if is_digit c then c - 48 else if c < 97 then c - 55 else c - 87)) 0 s"

definition decimal_number :: "ustr \<Rightarrow> nat" where
  "decimal_number s = foldl (\<lambda>n c. 10 * n + (c - 48)) 0 s"

definition entity_names :: "(ustr \<times> nat) list" where
  "entity_names = [(U ''lt'', 60), (U ''gt'', 62), (U ''amp'', 38), (U ''quot'', 34), (U ''apos'', 39)]"

definition entity_code :: "ustr \<Rightarrow> nat option" where
  "entity_code body =
     (case map_of entity_names body of
        Some c \<Rightarrow> Some c
      | None \<Rightarrow>
          if starts_with body (U ''#x'') \<and> drop 2 body \<noteq> [] \<and> list_all hex_char (drop 2 body) then Some (hex_number (drop 2 body))
          else if starts_with body (U ''#'') \<and> drop 1 body \<noteq> [] \<and> list_all is_digit (drop 1 body) then Some (decimal_number (drop 1 body))
          else None)"

text \<open>The reference at the start of a text after its \<open>&\<close>, and what follows it: no reference holds a semicolon before its end.\<close>

definition entity_at :: "ustr \<Rightarrow> (nat \<times> ustr) option" where
  "entity_at r =
     (if 59 \<in> set r then map_option (\<lambda>c. (c, drop 1 (dropWhile (\<lambda>x. x \<noteq> 59) r))) (entity_code (takeWhile (\<lambda>x. x \<noteq> 59) r)) else None)"

lemma entity_at_shorter: "entity_at r = Some (c, rest) \<Longrightarrow> length rest < length r"
  using length_dropWhile_le [of "\<lambda>x. x \<noteq> 59" r]
  by (cases r) (auto simp: entity_at_def split: if_splits)

function references_known :: "ustr \<Rightarrow> bool" where
  "references_known [] = True"
| "references_known (c # r) =
     (if c = 38 then (case entity_at r of None \<Rightarrow> False | Some (_, rest) \<Rightarrow> references_known rest) else references_known r)"
  by pat_completeness auto
termination by (relation "measure length") (auto dest!: entity_at_shorter)

definition xml_character :: "source_position \<Rightarrow> nat \<Rightarrow> exn + uchar" where
  "xml_character p code =
     (if 1114111 < code \<or> 55296 \<le> code \<and> code \<le> 57343 \<or> code < 32 \<and> code \<notin> {9, 10, 13}
      then Inl (Sep (mk_error 955 ''xml_escape_error'' p)) else Inr code)"

text \<open>Python reads no decimal number of more than 4300 digits.\<close>

definition too_many_digits :: "ustr \<Rightarrow> bool" where
  "too_many_digits r \<longleftrightarrow> starts_with r (U ''#'') \<and> \<not> starts_with r (U ''#x'') \<and> 4301 < length (takeWhile (\<lambda>x. x \<noteq> 59) r)"

text \<open>The named references stand for allowed characters.\<close>

function replace_references :: "source_position \<Rightarrow> ustr \<Rightarrow> exn + ustr" where
  "replace_references p [] = Inr []"
| "replace_references p (c # r) =
     (case (if c = 38 then entity_at r else None) of
        None \<Rightarrow> bind_sum (replace_references p r) (\<lambda>t. Inr (c # t))
      | Some (code, rest) \<Rightarrow>
          if too_many_digits r then Inl Crash
          else bind_sum (xml_character p code) (\<lambda>x. bind_sum (replace_references p rest) (\<lambda>t. Inr (x # t))))"
  by pat_completeness auto
termination by (relation "measure (length \<circ> snd)") (auto dest!: entity_at_shorter split: if_splits)

definition xml_unescape :: "source_position \<Rightarrow> sep_value \<Rightarrow> exn + sep_value" where
  "xml_unescape p v =
     bind_sum (sized_text 953 ''xml_limit_error'' p v) (\<lambda>s.
     if \<not> references_known s then Inl (Sep (mk_error 955 ''xml_escape_error'' p))
     else bind_sum (replace_references p s) (\<lambda>t. Inr (VStr t)))"

lemma entity_at_escape:
  "entity_at (U ''amp;'' @ r) = Some (38, r)" "entity_at (U ''lt;'' @ r) = Some (60, r)" "entity_at (U ''gt;'' @ r) = Some (62, r)"
  "entity_at (U ''quot;'' @ r) = Some (34, r)" "entity_at (U ''#x27;'' @ r) = Some (39, r)"
  by (simp_all add: entity_at_def entity_code_def entity_names_def U.simps is_digit_def hex_char_def hex_number_def)

lemma few_digits:
  "\<not> too_many_digits (U ''amp;'' @ r)" "\<not> too_many_digits (U ''lt;'' @ r)" "\<not> too_many_digits (U ''gt;'' @ r)"
  "\<not> too_many_digits (U ''quot;'' @ r)" "\<not> too_many_digits (U ''#x27;'' @ r)"
  by (simp_all add: too_many_digits_def U.simps)

lemma escape_read:
  "references_known (html_escape q s) \<and> replace_references p (html_escape q s) = Inr s"
proof (induction s)
  case (Cons c s)
  have code: "xml_character p x = Inr x" if "x \<in> {38, 60, 62, 34, 39}" for x
    using that by (auto simp: xml_character_def)
  have cons: "html_escape q (c # s) = html_escape_char q c @ html_escape q s" by (simp add: html_escape_def)
  have U: "U ''&amp;'' = 38 # U ''amp;''" "U ''&lt;'' = 38 # U ''lt;''" "U ''&gt;'' = 38 # U ''gt;''"
    "U ''&quot;'' = 38 # U ''quot;''" "U ''&#x27;'' = 38 # U ''#x27;''" by (simp_all add: U.simps)
  show ?case
    unfolding cons html_escape_char_def using Cons.IH
    by (cases "c = 38"; cases "c = 60"; cases "c = 62"; cases "q \<and> c = 34"; cases "q \<and> c = 39")
      (simp_all only: if_True if_False U append_Cons references_known.simps replace_references.simps entity_at_escape few_digits
        append_Nil option.case prod.case simp_thms bind_sum_simps code insertI1 insertI2 insert_iff)
qed (simp add: html_escape_def)

lemma escape_plain: "set (html_escape q s) \<inter> {60, 62} = {} \<and> (q \<longrightarrow> set (html_escape q s) \<inter> {34, 39} = {})"
  by (auto simp: html_escape_def html_escape_char_def U.simps split: if_splits)

text \<open>
  C16. Escaping is safe and is undone by \<open>xml_unescape\<close>: the text that \<open>xml_escape_text\<close> and \<open>xml_escape_attribute\<close>
  make of any string holds neither angle bracket (nor, for an attribute, either quotation mark), so it cannot leave its place in a document,
  and when it is within the size limit \<open>xml_unescape\<close> gives the string back.
\<close>

theorem xml_escape_roundtrip:
  assumes "xml_escape q p (VStr s) = Inr w"
  shows "\<exists>t. w = VStr t \<and> set t \<inter> {60, 62} = {} \<and> (q \<longrightarrow> set t \<inter> {34, 39} = {}) \<and>
     (sized_text 953 ''xml_limit_error'' p w = Inr t \<longrightarrow> xml_unescape p w = Inr (VStr s))"
proof -
  have "w = VStr (html_escape q s)"
    using assms by (auto simp: xml_escape_def sized_text_def bind_sum_def split: sum.splits option.splits if_splits)
  then show ?thesis
    using escape_plain [of q s] escape_read [of q s p] by (auto simp: xml_unescape_def)
qed

lemma xml_escape_roundtrip_witness:
  "\<exists>t. xml_escape True (mk_pos [] 1 1 []) (VStr (U ''a<b & c'')) = Inr (VStr t) \<and> set t \<inter> {60, 62} = {} \<and>
     xml_unescape (mk_pos [] 1 1 []) (VStr t) = Inr (VStr (U ''a<b & c''))"
proof -
  have run: "xml_escape True (mk_pos [] 1 1 []) (VStr (U ''a<b & c'')) = Inr (VStr (U ''a&lt;b &amp; c''))"
    by (simp add: xml_escape_def sized_text_def html_escape_def html_escape_char_def U.simps encode_text_def scalar_value_def utf8_encode_def utf8_char_def)
  moreover have "sized_text 953 ''xml_limit_error'' (mk_pos [] 1 1 []) (VStr (U ''a&lt;b &amp; c'')) = Inr (U ''a&lt;b &amp; c'')"
    by (simp add: sized_text_def U.simps encode_text_def scalar_value_def utf8_encode_def utf8_char_def)
  ultimately show ?thesis using xml_escape_roundtrip [OF run] by auto
qed


subsection \<open>Documents as objects and back\<close>

text \<open>The tree without its comments, and with the empty text where an element has none.\<close>

fun elements_only :: "xml_tree \<Rightarrow> xml_tree" where
  "elements_only (Tree tag attrib t cs) =
     Tree tag attrib (Some (case t of None \<Rightarrow> [] | Some s \<Rightarrow> s)) (map elements_only (List.filter (\<lambda>c. tree_tag c \<noteq> None) cs))"

definition good_key :: "xml_platform \<Rightarrow> ustr \<Rightarrow> bool" where
  "good_key xp k \<longleftrightarrow>
     (if starts_with k [123] \<and> 125 \<in> set k
      then takeWhile (\<lambda>c. c \<noteq> 125) (drop 1 k) \<noteq> [] \<and> valid_xml_name xp (drop 1 (dropWhile (\<lambda>c. c \<noteq> 125) k))
      else valid_xml_name xp k)"

fun well_named :: "xml_platform \<Rightarrow> xml_tree \<Rightarrow> bool" where
  "well_named xp (Tree tag attrib t cs) \<longleftrightarrow>
     (case tag of None \<Rightarrow> True | Some s \<Rightarrow> good_key xp s) \<and> list_all (\<lambda>(k, v). good_key xp k) attrib \<and> list_all (well_named xp) cs"

fun tree_nodes :: "xml_tree \<Rightarrow> nat" where
  "tree_nodes (Tree tag attrib t cs) = Suc (sum_list (map tree_nodes cs))"

fun tree_within :: "nat \<Rightarrow> xml_tree \<Rightarrow> bool" where
  "tree_within n (Tree tag attrib t cs) = (cs = [] \<or> (case n of 0 \<Rightarrow> False | Suc m \<Rightarrow> list_all (tree_within m) cs))"

lemma spend_xml_Done: "spend_xml p k n = (Done u, m) \<longleftrightarrow> m = Suc n \<and> m \<le> MAX_NODES \<and> k \<le> MAX_DEPTH"
  by (auto simp: spend_xml_def andthen_def modifies_def reads_def raise_def ret_def)

lemma clean_attributes_kept:
  "list_all (\<lambda>(k, v). good_key xp k) attrib \<Longrightarrow> clean_attributes xp p (map (\<lambda>(k, v). (k, VStr v)) attrib) = Inr attrib"
  by (induction attrib) (auto simp: good_key_def xml_name_def split: if_splits)

lemma clark_name_parts:
  assumes "good_key xp s" "local_name s = Some n"
  shows "valid_xml_name xp n" and "namespace_of s \<noteq> Some []" and "clark_name (namespace_of s) n = s"
proof -
  have "valid_xml_name xp n \<and> namespace_of s \<noteq> Some [] \<and> clark_name (namespace_of s) n = s"
  proof (cases "starts_with s [123]")
    case True
    then obtain r where s: "s = 123 # r" by (cases s) auto
    with True assms have r: "125 \<in> set r" and n: "n = drop 1 (dropWhile (\<lambda>c. c \<noteq> 125) r)"
      by (auto simp: local_name_def split: if_splits)
    have "takeWhile (\<lambda>c. c \<noteq> 125) r @ 125 # n = r"
      using r takeWhile_dropWhile_id [of "\<lambda>c. c \<noteq> 125" r] hd_dropWhile [of "\<lambda>c. c \<noteq> 125" r] unfolding n
      by (cases "dropWhile (\<lambda>c. c \<noteq> 125) r") (auto dest: dropWhile_eq_Nil_conv [THEN iffD1])
    with s r n assms(1) show ?thesis
      by (auto simp: good_key_def namespace_of_def clark_name_def)
  qed (use assms in \<open>auto simp: good_key_def local_name_def namespace_of_def clark_name_def\<close>)
  then show "valid_xml_name xp n" "namespace_of s \<noteq> Some []" "clark_name (namespace_of s) n = s" by auto
qed

lemma node_shell_back:
  assumes "good_key xp s" "local_name s = Some n" "list_all (\<lambda>(k, v). good_key xp k) attrib"
  shows "node_shell xp p (node_object n (namespace_of s) attrib t vs) = Inr (s, attrib, case t of None \<Rightarrow> [] | Some u \<Rightarrow> u)"
    and "object_children (node_object n (namespace_of s) attrib t vs) = vs"
  using clark_name_parts [OF assms(1,2)] clean_attributes_kept [OF assms(3), of p]
  by (auto simp: node_shell_def node_object_def object_children_def xml_name_def given_namespace_def U.simps clark_name_def split: option.splits)

lemma xml_written_back:
  "node_to_object p k t n = (Done v, m) \<Longrightarrow> well_named xp t \<Longrightarrow>
     object_to_element xp q k v n = (Done (elements_only t), m) \<and> m = n + tree_nodes (elements_only t) \<and>
     m \<le> MAX_NODES \<and> k \<le> MAX_DEPTH \<and> tree_within (MAX_DEPTH - k) (elements_only t)"
  "nodes_to_objects p k ts n = (Done vs, m) \<Longrightarrow> list_all (well_named xp) ts \<Longrightarrow>
     (let es = map elements_only (List.filter (\<lambda>c. tree_tag c \<noteq> None) ts) in
      objects_to_elements xp q k vs n = (Done es, m) \<and> m = n + sum_list (map tree_nodes es) \<and>
      (es \<noteq> [] \<longrightarrow> m \<le> MAX_NODES \<and> k \<le> MAX_DEPTH \<and> list_all (tree_within (MAX_DEPTH - k)) es))"
proof (induction p k t and p k ts arbitrary: v n m and vs n m rule: node_to_object_nodes_to_objects.induct)
  case (1 p k tag attrib t children)
  then obtain vs s name where start: "Suc n \<le> MAX_NODES" "k \<le> MAX_DEPTH"
    and items: "nodes_to_objects p (Suc k) children (Suc n) = (Done vs, m)"
    and tag: "tag = Some s" "local_name s = Some name" and v: "v = node_object name (namespace_of s) attrib t vs"
    by (auto simp: andthen_Done spend_xml_Done split: option.splits)
  from 1(3) tag have names: "good_key xp s" "list_all (\<lambda>(k, v). good_key xp k) attrib" "list_all (well_named xp) children" by auto
  note shell = node_shell_back(1) [OF names(1) tag(2) names(2), where p = q and t = t and vs = vs]
    node_shell_back(2) [OF names(1) tag(2) names(2), where t = t and vs = vs]
  from 1(1) [OF items names(3)] start tag(1) shell v show ?case
    by (auto simp: object_to_element.simps(1) andthen_Done spend_xml_Done Let_def split: nat.splits dest!: depth_left)
next
  case (3 p k c cs)
  show ?case
  proof (cases "tree_tag c = None")
    case True
    with 3 show ?thesis by (simp add: Let_def)
  next
    case False
    with 3(4) obtain w ws l where vs: "vs = w # ws" and c: "node_to_object p k c n = (Done w, l)"
      and cs: "nodes_to_objects p k cs l = (Done ws, m)" by (auto simp: andthen_Done)
    from 3(5) have named: "well_named xp c" "list_all (well_named xp) cs" by auto
    from 3(2) [OF False c named(1)] 3(3) [OF False cs named(2)] False vs show ?thesis
      by (auto simp: andthen_Done Let_def)
  qed
qed (simp add: Let_def)

lemma good_key_local: "good_key xp s \<Longrightarrow> \<not> xp_alpha xp 123 \<Longrightarrow> \<exists>n. local_name s = Some n"
  by (cases s) (auto simp: good_key_def local_name_def valid_xml_name_def split: if_splits list.splits)

lemma object_read_back:
  "object_to_element xp p k v n = (Done t, m) \<Longrightarrow> well_named xp t \<Longrightarrow> \<not> xp_alpha xp 123 \<Longrightarrow>
     (\<exists>w. node_to_object q k t n = (Done w, m)) \<and> elements_only t = t \<and> tree_tag t \<noteq> None"
  "objects_to_elements xp p k vs n = (Done ts, m) \<Longrightarrow> list_all (well_named xp) ts \<Longrightarrow> \<not> xp_alpha xp 123 \<Longrightarrow>
     (\<exists>ws. nodes_to_objects q k ts n = (Done ws, m)) \<and> map elements_only ts = ts \<and> list_all (\<lambda>t. tree_tag t \<noteq> None) ts"
proof (induction xp p k v and xp p k vs arbitrary: n t m and n ts m rule: object_to_element_objects_to_elements.induct)
  case (1 xp p k v)
  from 1(2) obtain tag attrib s cs where start: "Suc n \<le> MAX_NODES" "k \<le> MAX_DEPTH"
    and shell: "node_shell xp p v = Inr (tag, attrib, s)"
    and cs: "objects_to_elements xp p (Suc k) (object_children v) (Suc n) = (Done cs, m)"
    and t: "t = Tree (Some tag) attrib (Some s) cs"
    by (auto simp: object_to_element.simps(1) andthen_Done spend_xml_Done)
  from 1(3) t have named: "good_key xp tag" "list_all (well_named xp) cs" by auto
  from good_key_local [OF named(1) 1(4)] obtain l where l: "local_name tag = Some l" by auto
  from 1(1) [OF cs named(2) 1(4)] obtain ws where ws: "nodes_to_objects q (Suc k) cs (Suc n) = (Done ws, m)"
    and same: "map elements_only cs = cs" "list_all (\<lambda>t. tree_tag t \<noteq> None) cs" by auto
  from same(2) have "filter (\<lambda>c. tree_tag c \<noteq> None) cs = cs" by (simp add: filter_id_conv list_all_iff)
  with same(1) ws l start t show ?case
    by (auto simp: andthen_Done spend_xml_Done)
next
  case (3 xp p k v vs)
  then obtain c cs l where ts: "ts = c # cs" and c: "object_to_element xp p k v n = (Done c, l)"
    and cs: "objects_to_elements xp p k vs l = (Done cs, m)" by (auto simp: andthen_Done)
  from 3(4) ts have named: "well_named xp c" "list_all (well_named xp) cs" by auto
  from 3(1) [OF c named(1) 3(5)] 3(2) [OF cs named(2) 3(5)] ts show ?case
    by (auto simp: andthen_Done)
qed simp

text \<open>
  C14. XML survives the conversion to objects and back, within the limits. An accepted document whose names are XML names becomes
  an object that \<open>object_to_xml\<close> turns into the tree of the document without its comments (and without the text that follows a
  child), and that tree has at most 100000 nodes and 100 levels. A tree that was built from an object is read back as an
  object that gives the same tree, as long as its names are still XML names (a namespace that holds a closing brace is not refused).
\<close>

theorem xml_roundtrip:
  assumes "\<not> xp_alpha xp 123"
  shows "(\<forall>t w n. node_to_object p 0 t 0 = (Done w, n) \<and> well_named xp t \<longrightarrow>
      object_to_element xp q 0 w 0 = (Done (elements_only t), n) \<and> tree_nodes (elements_only t) = n \<and> n \<le> MAX_NODES \<and>
      tree_within MAX_DEPTH (elements_only t)) \<and>
    (\<forall>v t n. object_to_element xp q 0 v 0 = (Done t, n) \<and> well_named xp t \<longrightarrow>
      (\<exists>w. node_to_object p 0 t 0 = (Done w, n) \<and> object_to_element xp q 0 w 0 = (Done t, n)))"
proof (intro conjI allI impI)
  fix v t n
  assume "object_to_element xp q 0 v 0 = (Done t, n) \<and> well_named xp t"
  with object_read_back(1) [OF _ _ assms, of q 0 v 0 t n p] xml_written_back(1) [of p 0 t 0 _ n xp q]
  show "\<exists>w. node_to_object p 0 t 0 = (Done w, n) \<and> object_to_element xp q 0 w 0 = (Done t, n)" by fastforce
qed (use xml_written_back(1) [where k = 0 and n = 0 and q = q] in fastforce)+

definition example_xml :: xml_platform where
  "example_xml = \<lparr>xp_alpha = (\<lambda>c. 97 \<le> c \<and> c \<le> 122), xp_digit = (\<lambda>c. 48 \<le> c \<and> c \<le> 57), xp_mark = (\<lambda>c. False),
     xp_word = (\<lambda>c. 97 \<le> c \<and> c \<le> 122), xp_parse = (\<lambda>s. None), xp_write = (\<lambda>t i. [])\<rparr>"

definition example_tree :: xml_tree where
  "example_tree = Tree (Some (123 # U ''u'' @ 125 # U ''a'')) [(U ''k'', U ''1'')] None
     [Tree None [] (Some (U ''note'')) [], Tree (Some (U ''b'')) [] (Some (U ''x'')) []]"

lemma xml_roundtrip_witness:
  "\<exists>w t. node_to_object (mk_pos [] 1 1 []) 0 example_tree 0 = (Done w, 2) \<and>
     object_to_element example_xml (mk_pos [] 2 1 []) 0 w 0 = (Done t, 2) \<and>
     t = Tree (Some (123 # U ''u'' @ 125 # U ''a'')) [(U ''k'', U ''1'')] (Some []) [Tree (Some (U ''b'')) [] (Some (U ''x'')) []] \<and>
     (\<exists>w'. node_to_object (mk_pos [] 1 1 []) 0 t 0 = (Done w', 2))"
proof -
  have "\<not> xp_alpha example_xml 123" by (simp add: example_xml_def)
  note facts = xml_roundtrip [OF this, of "mk_pos [] 1 1 []" "mk_pos [] 2 1 []"]
  obtain w where w: "node_to_object (mk_pos [] 1 1 []) 0 example_tree 0 = (Done w, 2)"
    by (simp add: example_tree_def andthen_Done spend_xml_Done local_name_def U.simps)
  have named: "well_named example_xml example_tree" "well_named example_xml (elements_only example_tree)"
    by (simp_all add: example_tree_def example_xml_def good_key_def valid_xml_name_def name_char_def U.simps)
  have "elements_only example_tree =
      Tree (Some (123 # U ''u'' @ 125 # U ''a'')) [(U ''k'', U ''1'')] (Some []) [Tree (Some (U ''b'')) [] (Some (U ''x'')) []]"
    by (simp add: example_tree_def)
  with facts w named show ?thesis by metis
qed

end
