(* ===== verification/Xml_Store.thy ===== *)
theory Xml_Store
  imports Xml
begin

section \<open>Documents and elements that programs hold\<close>

text \<open>
  The \<open>xml_*\<close> builtins of \<open>structured_data.py\<close> on documents and elements: nodes in a store, and values that name them. The table
  \<open>STRUCTURED_DATA_BUILTINS\<close> is \<open>XML_BUILTINS\<close>; the functions on files are not modelled.
\<close>

record xml_node =
  xn_tag :: "ustr option"
  xn_attrib :: "(ustr \<times> ustr) list"
  xn_text :: "ustr option"
  xn_children :: "nat list"

type_synonym xml_store = "xml_node list"

datatype xml_value =
    Plain sep_value | Document nat namespaces | Element nat namespaces | Elements "xml_value list"

type_synonym 'a xml_comp = "(xml_store, exn, 'a) sem"

definition given_document :: "source_position \<Rightarrow> xml_value \<Rightarrow> exn + (nat \<times> namespaces)" where
  "given_document p v = (case v of Document i ns \<Rightarrow> Inr (i, ns) | _ \<Rightarrow> Inl (Sep (type_error p)))"

definition given_element :: "source_position \<Rightarrow> xml_value \<Rightarrow> exn + (nat \<times> namespaces)" where
  "given_element p v = (case v of Element i ns \<Rightarrow> Inr (i, ns) | _ \<Rightarrow> Inl (Sep (type_error p)))"

text \<open>An argument where a plain value is expected; a document or element has none of the expected types.\<close>

definition plain :: "xml_value \<Rightarrow> sep_value" where
  "plain v = (case v of Plain w \<Rightarrow> w | _ \<Rightarrow> VVoid)"

definition no_text :: xml_value where "no_text = Plain (VEmpty (Some (U ''string'')) None False)"
definition no_element :: xml_value where "no_element = Plain (VEmpty (Some (U ''xml_element'')) None False)"

definition node_at :: "xml_store \<Rightarrow> nat \<Rightarrow> xml_node" where
  "node_at st i = (if i < length st then st ! i else \<lparr>xn_tag = None, xn_attrib = [], xn_text = None, xn_children = []\<rparr>)"

definition new_node :: "xml_node \<Rightarrow> nat xml_comp" where
  "new_node n = andthen (reads length) (\<lambda>i. andthen (modifies (\<lambda>st. st @ [n])) (\<lambda>_. ret i))"

definition change_node :: "nat \<Rightarrow> (xml_node \<Rightarrow> xml_node) \<Rightarrow> unit xml_comp" where
  "change_node i f = modifies (\<lambda>st. st[i := f (node_at st i)])"

fun load_tree :: "xml_tree \<Rightarrow> nat xml_comp" and load_trees :: "xml_tree list \<Rightarrow> nat list xml_comp" where
  "load_tree (Tree tag attrib t cs) =
     andthen (load_trees cs) (\<lambda>js. new_node \<lparr>xn_tag = tag, xn_attrib = attrib, xn_text = t, xn_children = js\<rparr>)"
| "load_trees [] = ret []"
| "load_trees (c # cs) = andthen (load_tree c) (\<lambda>i. andthen (load_trees cs) (\<lambda>js. ret (i # js)))"

text \<open>The local name of a node, \<open>None\<close> for a comment; the tag of a stored element always has one.\<close>

definition node_name :: "xml_store \<Rightarrow> nat \<Rightarrow> ustr option" where
  "node_name st i = Option.bind (xn_tag (node_at st i)) local_name"

type_synonym xml_builtin = "xml_platform \<Rightarrow> source_position \<Rightarrow> xml_value list \<Rightarrow> sep_value option \<Rightarrow> xml_value xml_comp"

subsection \<open>Documents\<close>

definition xml_document_parse :: xml_builtin where
  "xml_document_parse xp p args ns =
     andthen (lift_sum (xml_parse xp p (plain (args ! 0)))) (\<lambda>(t, spaces). andthen (load_tree t) (\<lambda>i. ret (Document i spaces)))"

definition xml_root :: xml_builtin where
  "xml_root xp p args ns = andthen (lift_sum (given_document p (args ! 0))) (\<lambda>(i, spaces). ret (Element i spaces))"

definition xml_create_element :: xml_builtin where
  "xml_create_element xp p args ns =
     andthen (lift_sum (xml_qualified_name xp p (plain (args ! 0)) ns)) (\<lambda>tag.
     andthen (new_node \<lparr>xn_tag = Some tag, xn_attrib = [], xn_text = None, xn_children = []\<rparr>) (\<lambda>i. ret (Element i [])))"

subsection \<open>Names, texts and attributes\<close>

definition xml_element_name :: xml_builtin where
  "xml_element_name xp p args ns =
     andthen (lift_sum (given_element p (args ! 0))) (\<lambda>(i, spaces). andthen (reads (\<lambda>st. node_name st i)) (\<lambda>n.
     case n of None \<Rightarrow> raise Crash | Some s \<Rightarrow> ret (Plain (VStr s))))"

definition xml_element_text :: xml_builtin where
  "xml_element_text xp p args ns =
     andthen (lift_sum (given_element p (args ! 0))) (\<lambda>(i, spaces). andthen (reads (\<lambda>st. xn_text (node_at st i))) (\<lambda>t.
     ret (Plain (VStr (case t of None \<Rightarrow> [] | Some s \<Rightarrow> s)))))"

definition xml_set_element_text :: xml_builtin where
  "xml_set_element_text xp p args ns =
     andthen (lift_sum (given_element p (args ! 0))) (\<lambda>(i, spaces).
     case plain (args ! 1) of
       VStr s \<Rightarrow> andthen (change_node i (\<lambda>n. n\<lparr>xn_text := Some s\<rparr>)) (\<lambda>_. ret (Plain VVoid))
     | _ \<Rightarrow> raise (Sep (type_error p)))"

text \<open>The element and the attribute's full name, in the order of the checks.\<close>

definition given_attribute ::
  "xml_platform \<Rightarrow> source_position \<Rightarrow> xml_value list \<Rightarrow> sep_value option \<Rightarrow> exn + (nat \<times> ustr)" where
  "given_attribute xp p args ns =
     bind_sum (given_element p (args ! 0)) (\<lambda>(i, spaces).
     bind_sum (xml_qualified_name xp p (plain (args ! 1)) ns) (\<lambda>k. Inr (i, k)))"

definition xml_get_attribute :: xml_builtin where
  "xml_get_attribute xp p args ns =
     andthen (lift_sum (given_attribute xp p args ns)) (\<lambda>(i, k). andthen (reads (\<lambda>st. map_of (xn_attrib (node_at st i)) k)) (\<lambda>v.
     ret (case v of None \<Rightarrow> no_text | Some s \<Rightarrow> Plain (VStr s))))"

definition xml_set_attribute :: xml_builtin where
  "xml_set_attribute xp p args ns =
     andthen (lift_sum (given_attribute xp p args ns)) (\<lambda>(i, k).
     case plain (args ! 2) of
       VStr s \<Rightarrow> andthen (change_node i (\<lambda>n. n\<lparr>xn_attrib := dict_set (xn_attrib n) k s\<rparr>)) (\<lambda>_. ret (Plain VVoid))
     | _ \<Rightarrow> raise (Sep (type_error p)))"

definition xml_remove_attribute :: xml_builtin where
  "xml_remove_attribute xp p args ns =
     andthen (lift_sum (given_attribute xp p args ns)) (\<lambda>(i, k). andthen (reads (\<lambda>st. map_of (xn_attrib (node_at st i)) k)) (\<lambda>v.
     if v = None then raise (Sep (mk_error 951 ''xml_model_error'' p))
     else andthen (change_node i (\<lambda>n. n\<lparr>xn_attrib := dict_del (xn_attrib n) k\<rparr>)) (\<lambda>_. ret (Plain VVoid))))"

definition xml_namespace_uri :: xml_builtin where
  "xml_namespace_uri xp p args ns =
     andthen (lift_sum (given_element p (args ! 0))) (\<lambda>(i, spaces). andthen (reads (\<lambda>st. xn_tag (node_at st i))) (\<lambda>tag.
     ret (case Option.bind tag namespace_of of None \<Rightarrow> no_text | Some u \<Rightarrow> Plain (VStr u))))"

definition xml_namespace_prefix :: xml_builtin where
  "xml_namespace_prefix xp p args ns =
     andthen (lift_sum (given_element p (args ! 0))) (\<lambda>(i, spaces). andthen (reads (\<lambda>st. xn_tag (node_at st i))) (\<lambda>tag.
     ret (case Option.bind (Option.bind tag namespace_of) (map_of spaces) of None \<Rightarrow> no_text | Some s \<Rightarrow> Plain (VStr s))))"

subsection \<open>Children\<close>

definition element_children :: "xml_store \<Rightarrow> nat \<Rightarrow> nat list" where
  "element_children st i = filter (\<lambda>c. xn_tag (node_at st c) \<noteq> None) (xn_children (node_at st i))"

definition xml_children :: xml_builtin where
  "xml_children xp p args ns =
     andthen (lift_sum (given_element p (args ! 0))) (\<lambda>(i, spaces). andthen (reads (\<lambda>st. element_children st i)) (\<lambda>js.
     ret (Elements (map (\<lambda>c. Element c spaces) js))))"

definition xml_child :: xml_builtin where
  "xml_child xp p args ns =
     andthen (lift_sum (given_element p (args ! 0))) (\<lambda>(i, spaces). andthen (lift_sum (xml_name xp p (plain (args ! 1)))) (\<lambda>name.
     andthen (reads (\<lambda>st. find (\<lambda>c. node_name st c = Some name) (element_children st i))) (\<lambda>c.
     ret (case c of None \<Rightarrow> no_element | Some c \<Rightarrow> Element c spaces))))"

definition given_pair :: "source_position \<Rightarrow> xml_value list \<Rightarrow> exn + (nat \<times> nat)" where
  "given_pair p args =
     bind_sum (given_element p (args ! 0)) (\<lambda>(i, _). bind_sum (given_element p (args ! 1)) (\<lambda>(c, _). Inr (i, c)))"

definition xml_add_child :: xml_builtin where
  "xml_add_child xp p args ns =
     andthen (lift_sum (given_pair p args)) (\<lambda>(i, c). andthen (reads (\<lambda>st. xn_children (node_at st i))) (\<lambda>cs.
     if c \<in> set cs then raise (Sep (mk_error 951 ''xml_model_error'' p))
     else andthen (change_node i (\<lambda>n. n\<lparr>xn_children := xn_children n @ [c]\<rparr>)) (\<lambda>_. ret (Plain VVoid))))"

definition xml_remove_child :: xml_builtin where
  "xml_remove_child xp p args ns =
     andthen (lift_sum (given_pair p args)) (\<lambda>(i, c). andthen (reads (\<lambda>st. xn_children (node_at st i))) (\<lambda>cs.
     if c \<notin> set cs then raise (Sep (mk_error 951 ''xml_model_error'' p))
     else andthen (change_node i (\<lambda>n. n\<lparr>xn_children := remove1 c (xn_children n)\<rparr>)) (\<lambda>_. ret (Plain VVoid))))"

subsection \<open>Paths\<close>

definition valid_path :: "ustr \<Rightarrow> bool" where
  "valid_path s \<longleftrightarrow> s \<noteq> [] \<and> find_sub s (U ''//'') = None \<and> last s \<noteq> 47"

text \<open>Whether the path starts at the root, and its parts: names or stars.\<close>

definition xml_path_parts :: "xml_platform \<Rightarrow> source_position \<Rightarrow> sep_value \<Rightarrow> exn + (bool \<times> ustr list)" where
  "xml_path_parts xp p v =
     (case v of
        VStr s \<Rightarrow>
          if \<not> valid_path s then Inl (Sep (mk_error 954 ''xml_path_error'' p))
          else bind_sum (map_result (\<lambda>part. if part = U ''*'' then Inr part else xml_name xp p (VStr part))
                 (split_on 47 (dropWhile (\<lambda>c. c = 47) s))) (\<lambda>parts. Inr (hd s = 47, parts))
      | _ \<Rightarrow> Inl (Sep (type_error p)))"

definition fits_part :: "xml_store \<Rightarrow> ustr \<Rightarrow> nat \<Rightarrow> bool" where
  "fits_part st part i \<longleftrightarrow> xn_tag (node_at st i) \<noteq> None \<and> (part = U ''*'' \<or> node_name st i = Some part)"

fun walk :: "xml_store \<Rightarrow> nat list \<Rightarrow> ustr list \<Rightarrow> nat list" where
  "walk st roots [] = roots"
| "walk st roots (part # parts) = walk st (concat (map (\<lambda>r. filter (fits_part st part) (xn_children (node_at st r))) roots)) parts"

definition given_target :: "source_position \<Rightarrow> bool \<Rightarrow> xml_value \<Rightarrow> exn + (nat \<times> namespaces)" where
  "given_target p absolute v =
     (case v of
        Document i spaces \<Rightarrow> Inr (i, spaces)
      | Element i spaces \<Rightarrow> if absolute then Inl (Sep (mk_error 954 ''xml_path_error'' p)) else Inr (i, spaces)
      | _ \<Rightarrow> Inl (Sep (type_error p)))"

text \<open>The first part of a path from the root names the root itself.\<close>

definition found_nodes :: "xml_store \<Rightarrow> nat \<Rightarrow> bool \<Rightarrow> ustr list \<Rightarrow> nat list" where
  "found_nodes st i absolute parts =
     (if \<not> absolute then walk st [i] parts
      else if hd parts \<noteq> U ''*'' \<and> node_name st i \<noteq> Some (hd parts) then []
      else walk st [i] (tl parts))"

definition find_nodes :: "xml_platform \<Rightarrow> source_position \<Rightarrow> xml_value list \<Rightarrow> xml_value list xml_comp" where
  "find_nodes xp p args =
     andthen (lift_sum (xml_path_parts xp p (plain (args ! 1)))) (\<lambda>(absolute, parts).
     andthen (lift_sum (given_target p absolute (args ! 0))) (\<lambda>(i, spaces).
     andthen (reads (\<lambda>st. found_nodes st i absolute parts)) (\<lambda>js. ret (map (\<lambda>c. Element c spaces) js))))"

definition xml_find_all :: xml_builtin where
  "xml_find_all xp p args ns = andthen (find_nodes xp p args) (\<lambda>vs. ret (Elements vs))"

definition xml_find :: xml_builtin where
  "xml_find xp p args ns = andthen (find_nodes xp p args) (\<lambda>vs. ret (case vs of [] \<Rightarrow> no_element | v # _ \<Rightarrow> v))"

definition XML_BUILTINS :: "(string \<times> nat \<times> bool \<times> xml_builtin) list" where
  "XML_BUILTINS =
     [(''xml_document_parse'', 1, False, xml_document_parse), (''xml_create_element'', 1, True, xml_create_element),
      (''xml_root'', 1, False, xml_root), (''xml_element_name'', 1, False, xml_element_name),
      (''xml_element_text'', 1, False, xml_element_text), (''xml_set_element_text'', 2, False, xml_set_element_text),
      (''xml_get_attribute'', 2, True, xml_get_attribute), (''xml_set_attribute'', 3, True, xml_set_attribute),
      (''xml_remove_attribute'', 2, True, xml_remove_attribute), (''xml_children'', 1, False, xml_children),
      (''xml_child'', 2, False, xml_child), (''xml_add_child'', 2, False, xml_add_child),
      (''xml_remove_child'', 2, False, xml_remove_child), (''xml_find'', 2, False, xml_find),
      (''xml_find_all'', 2, False, xml_find_all), (''xml_namespace_uri'', 1, False, xml_namespace_uri),
      (''xml_namespace_prefix'', 1, False, xml_namespace_prefix)]"

subsection \<open>What every builtin keeps\<close>

definition closed_tag :: "ustr option \<Rightarrow> bool" where
  "closed_tag tag \<longleftrightarrow> (case tag of None \<Rightarrow> True | Some s \<Rightarrow> local_name s \<noteq> None)"

definition node_ok :: "nat \<Rightarrow> xml_node \<Rightarrow> bool" where
  "node_ok m n \<longleftrightarrow> (\<forall>c \<in> set (xn_children n). c < m) \<and> distinct (xn_children n) \<and>
     distinct (map fst (xn_attrib n)) \<and> closed_tag (xn_tag n)"

definition store_ok :: "xml_store \<Rightarrow> bool" where
  "store_ok st \<longleftrightarrow> list_all (node_ok (length st)) st"

text \<open>A later store: no node is gone or has another tag.\<close>

definition grown :: "xml_store \<Rightarrow> xml_store \<Rightarrow> bool" where
  "grown st st' \<longleftrightarrow> length st \<le> length st' \<and> (\<forall>i < length st. xn_tag (st' ! i) = xn_tag (st ! i))"

fun valid :: "xml_store \<Rightarrow> xml_value \<Rightarrow> bool" where
  "valid st (Plain v) = True"
| "valid st (Document i ns) = (i < length st \<and> xn_tag (st ! i) \<noteq> None)"
| "valid st (Element i ns) = (i < length st \<and> xn_tag (st ! i) \<noteq> None)"
| "valid st (Elements vs) = list_all (valid st) vs"

text \<open>What the parser of \<open>xml.etree\<close> builds.\<close>

fun tree_ok :: "xml_tree \<Rightarrow> bool" where
  "tree_ok (Tree tag attrib t cs) \<longleftrightarrow> closed_tag tag \<and> distinct (map fst attrib) \<and> list_all tree_ok cs"

lemma node_ok_mono: "node_ok m n \<Longrightarrow> m \<le> k \<Longrightarrow> node_ok k n"
  by (auto simp: node_ok_def)

lemma store_ok_node: "store_ok st \<Longrightarrow> i < length st \<Longrightarrow> node_ok (length st) (st ! i)"
  by (simp add: store_ok_def list_all_length)

lemma store_ok_add: "store_ok st \<Longrightarrow> node_ok (Suc (length st)) n \<Longrightarrow> store_ok (st @ [n])"
  by (auto simp: store_ok_def list_all_iff intro: node_ok_mono)

lemma store_ok_change: "store_ok st \<Longrightarrow> node_ok (length st) n \<Longrightarrow> store_ok (st[i := n])"
  by (auto simp: store_ok_def list_all_iff dest!: set_update_subset_insert [THEN subsetD])

lemma grown_refl [simp]: "grown st st"
  by (simp add: grown_def)

lemma grown_trans: "grown a b \<Longrightarrow> grown b c \<Longrightarrow> grown a c"
  by (auto simp: grown_def)

lemma grown_add [simp]: "grown st (st @ [n])"
  by (auto simp: grown_def nth_append)

lemma grown_change: "i < length st \<Longrightarrow> xn_tag n = xn_tag (st ! i) \<Longrightarrow> grown st (st[i := n])"
  by (auto simp: grown_def nth_list_update)

lemma node_at_in [simp]: "i < length st \<Longrightarrow> node_at st i = st ! i"
  by (simp add: node_at_def)

lemma load_tree_ok:
  "load_tree t st = (r, st') \<Longrightarrow> tree_ok t \<Longrightarrow> store_ok st \<Longrightarrow>
     \<exists>i. r = Done i \<and> store_ok st' \<and> grown st st' \<and> length st \<le> i \<and> i < length st' \<and> xn_tag (st' ! i) = tree_tag t"
  "load_trees ts st = (q, st') \<Longrightarrow> list_all tree_ok ts \<Longrightarrow> store_ok st \<Longrightarrow>
     \<exists>js. q = Done js \<and> store_ok st' \<and> grown st st' \<and> distinct js \<and> (\<forall>i \<in> set js. length st \<le> i \<and> i < length st')"
proof (induction t and ts arbitrary: r st st' and q st st' rule: load_tree_load_trees.induct)
  case (1 tag attrib t cs)
  obtain q mid where run: "load_trees cs st = (q, mid)" by fastforce
  from 1 run obtain js where q: "q = Done js" "store_ok mid" "grown st mid" "distinct js" "\<forall>i \<in> set js. length st \<le> i \<and> i < length mid"
    by fastforce
  let ?n = "\<lparr>xn_tag = tag, xn_attrib = attrib, xn_text = t, xn_children = js\<rparr>"
  have "node_ok (Suc (length mid)) ?n" using q 1(3) by (fastforce simp: node_ok_def)
  then have "store_ok (mid @ [?n])" by (rule store_ok_add [OF q(2)])
  moreover have "grown st (mid @ [?n])" using q(3) grown_add by (rule grown_trans)
  moreover have "r = Done (length mid)" "st' = mid @ [?n]"
    using 1(2) run q(1) by (auto simp: andthen_def new_node_def reads_def modifies_def ret_def)
  moreover have "length st \<le> length mid" using q(3) by (simp add: grown_def)
  ultimately show ?case by simp
next
  case 2
  then have "q = Done []" "st' = st" by (simp_all add: ret_def)
  with 2 show ?case by simp
next
  case (3 c cs)
  obtain x mid where c: "load_tree c st = (x, mid)" by fastforce
  with 3(1) [OF c] 3(4,5) obtain i where i: "x = Done i" "store_ok mid" "grown st mid" "length st \<le> i" "i < length mid" by auto
  obtain y fin where cs: "load_trees cs mid = (y, fin)" by fastforce
  with 3(2) [OF cs] 3(4) i obtain ks where ks: "y = Done ks" "store_ok fin" "grown mid fin" "distinct ks"
    "\<forall>i \<in> set ks. length mid \<le> i \<and> i < length fin" by auto
  have "q = Done (i # ks)" "st' = fin" using 3(3) c i(1) cs ks(1) by (auto simp: andthen_def ret_def)
  moreover have "grown st fin" using i(3) ks(3) by (rule grown_trans)
  moreover have "length st \<le> length mid" "length mid \<le> length fin" using i(3) ks(3) by (auto simp: grown_def)
  ultimately show ?case using i ks by fastforce
qed

lemma no_crash [simp]:
  "given_element p v \<noteq> Inl Crash" "given_document p v \<noteq> Inl Crash" "xml_name xp p w \<noteq> Inl Crash"
  "xml_qualified_name xp p w ns \<noteq> Inl Crash" "given_attribute xp p args ns \<noteq> Inl Crash" "given_pair p args \<noteq> Inl Crash"
  "given_target p b v \<noteq> Inl Crash"
  by (auto simp: given_element_def given_document_def xml_name_def xml_qualified_name_def given_namespace_def given_attribute_def
      given_pair_def given_target_def bind_sum_def split: xml_value.splits sep_value.splits option.splits sum.splits if_splits)

lemma map_result_no_crash: "(\<And>a. f a \<noteq> Inl Crash) \<Longrightarrow> map_result f as \<noteq> Inl Crash"
  by (induction "as") (auto simp: bind_sum_def split: sum.splits)

lemma path_no_crash [simp]: "xml_path_parts xp p v \<noteq> Inl Crash"
proof -
  have "map_result (\<lambda>part. if part = U ''*'' then Inr part else xml_name xp p (VStr part)) as \<noteq> Inl Crash" for "as"
    by (rule map_result_no_crash) simp
  then show ?thesis by (auto simp: xml_path_parts_def bind_sum_def split: sep_value.splits sum.splits if_splits)
qed

lemma given_nodes:
  "given_element p v = Inr (i, ns) \<Longrightarrow> valid st v \<Longrightarrow> i < length st \<and> xn_tag (st ! i) \<noteq> None"
  "given_document p v = Inr (i, ns) \<Longrightarrow> valid st v \<Longrightarrow> i < length st \<and> xn_tag (st ! i) \<noteq> None"
  "given_target p b v = Inr (i, ns) \<Longrightarrow> valid st v \<Longrightarrow> i < length st \<and> xn_tag (st ! i) \<noteq> None"
  "given_attribute xp p args sp = Inr (i, k) \<Longrightarrow> valid st (args ! 0) \<Longrightarrow> i < length st \<and> xn_tag (st ! i) \<noteq> None"
  "given_pair p args = Inr (i, c) \<Longrightarrow> valid st (args ! 0) \<Longrightarrow> valid st (args ! 1) \<Longrightarrow>
     i < length st \<and> xn_tag (st ! i) \<noteq> None \<and> c < length st"
  by (auto simp: given_element_def given_document_def given_target_def given_attribute_def given_pair_def bind_sum_def
      split: xml_value.splits sum.splits if_splits prod.splits)

definition kept :: "bool \<Rightarrow> xml_store \<Rightarrow> xml_value xml_comp \<Rightarrow> bool" where
  "kept crash st m \<longleftrightarrow>
     post m (\<lambda>v st'. store_ok st' \<and> grown st st' \<and> valid st' v) (\<lambda>x st'. st' = st \<and> (x = Crash \<longrightarrow> crash)) False st"

lemma post_change [simp]:
  "post (change_node i f) Q X F st = Q () (st[i := f (node_at st i)])"
  "post (new_node n) R X F st = R (length st) (st @ [n])"
  by (simp_all add: change_node_def new_node_def)

lemma element_children_ok: "store_ok st \<Longrightarrow> i < length st \<Longrightarrow> c \<in> set (element_children st i) \<Longrightarrow> c < length st \<and> xn_tag (st ! c) \<noteq> None"
  using store_ok_node [of st i] by (auto simp: element_children_def node_ok_def)

lemma walk_ok:
  "store_ok st \<Longrightarrow> \<forall>i \<in> set roots. i < length st \<and> xn_tag (st ! i) \<noteq> None \<Longrightarrow> c \<in> set (walk st roots parts) \<Longrightarrow>
     c < length st \<and> xn_tag (st ! c) \<noteq> None"
proof (induction st roots parts rule: walk.induct)
  case (2 st roots part parts)
  have child: "c < length st \<and> xn_tag (st ! c) \<noteq> None" if "r \<in> set roots" "c \<in> set (xn_children (node_at st r))" "fits_part st part c" for r c
  proof -
    from 2(3) that(1) have "r < length st" by blast
    with store_ok_node [OF 2(2)] that(2) have "c < length st" by (simp add: node_ok_def)
    with that(3) show ?thesis by (simp add: fits_part_def)
  qed
  have "\<forall>i \<in> set (concat (map (\<lambda>r. filter (fits_part st part) (xn_children (node_at st r))) roots)). i < length st \<and> xn_tag (st ! i) \<noteq> None"
  proof
    fix i assume "i \<in> set (concat (map (\<lambda>r. filter (fits_part st part) (xn_children (node_at st r))) roots))"
    then obtain r where "r \<in> set roots" "i \<in> set (xn_children (node_at st r))" "fits_part st part i" by auto
    then show "i < length st \<and> xn_tag (st ! i) \<noteq> None" by (rule child)
  qed
  then show ?case using 2(1) [OF 2(2)] 2(4) by simp
qed simp

lemma quiet_kept:
  assumes "store_ok st"
  shows "valid st (args ! 0) \<Longrightarrow> kept c st (xml_root xp p args ns)"
    "valid st (args ! 0) \<Longrightarrow> kept c st (xml_element_name xp p args ns)"
    "valid st (args ! 0) \<Longrightarrow> kept c st (xml_element_text xp p args ns)"
    "valid st (args ! 0) \<Longrightarrow> kept c st (xml_get_attribute xp p args ns)"
    "valid st (args ! 0) \<Longrightarrow> kept c st (xml_namespace_uri xp p args ns)"
    "valid st (args ! 0) \<Longrightarrow> kept c st (xml_namespace_prefix xp p args ns)"
proof -
  show "kept c st (xml_root xp p args ns)" if "valid st (args ! 0)"
    using that assms by (auto simp: kept_def xml_root_def dest: given_nodes split: sum.splits)
  show "kept c st (xml_element_name xp p args ns)" if "valid st (args ! 0)"
    using that assms
    by (auto simp: kept_def xml_element_name_def node_name_def node_ok_def closed_tag_def split: sum.splits option.splits
        dest!: given_nodes store_ok_node)
  show "kept c st (xml_element_text xp p args ns)" if "valid st (args ! 0)"
    using that assms by (auto simp: kept_def xml_element_text_def split: sum.splits)
  show "kept c st (xml_get_attribute xp p args ns)" if "valid st (args ! 0)"
    using that assms by (auto simp: kept_def xml_get_attribute_def no_text_def split: sum.splits option.splits)
  show "kept c st (xml_namespace_uri xp p args ns)" if "valid st (args ! 0)"
    using that assms by (auto simp: kept_def xml_namespace_uri_def no_text_def split: sum.splits option.splits)
  show "kept c st (xml_namespace_prefix xp p args ns)" if "valid st (args ! 0)"
    using that assms by (auto simp: kept_def xml_namespace_prefix_def no_text_def split: sum.splits option.splits)
qed

lemma children_kept:
  assumes "store_ok st" "valid st (args ! 0)"
  shows "kept c st (xml_children xp p args ns)" "kept c st (xml_child xp p args ns)"
proof -
  have child: "k < length st \<and> xn_tag (st ! k) \<noteq> None"
    if "given_element p (args ! 0) = Inr (i, spaces)" "k \<in> set (element_children st i)" for i spaces k
    using element_children_ok [OF assms(1)] given_nodes(1) [OF that(1) assms(2)] that(2) by blast
  show "kept c st (xml_children xp p args ns)"
    using assms(1) by (auto simp: kept_def xml_children_def list_all_iff split: sum.splits dest: child)
  show "kept c st (xml_child xp p args ns)"
    using assms(1)
    by (auto simp: kept_def xml_child_def no_element_def find_Some_iff split: sum.splits option.splits
        intro!: child [THEN conjunct1] child [THEN conjunct2, unfolded not_None_eq])
qed

lemma node_ok_changes:
  assumes "node_ok m n"
  shows "node_ok m (n\<lparr>xn_text := t\<rparr>)" "node_ok m (n\<lparr>xn_attrib := dict_set (xn_attrib n) k v\<rparr>)"
    "node_ok m (n\<lparr>xn_attrib := dict_del (xn_attrib n) k\<rparr>)" "node_ok m (n\<lparr>xn_children := remove1 c (xn_children n)\<rparr>)"
    "c < m \<Longrightarrow> c \<notin> set (xn_children n) \<Longrightarrow> node_ok m (n\<lparr>xn_children := xn_children n @ [c]\<rparr>)"
  using assms by (auto simp: node_ok_def distinct_dict_del dest: notin_set_remove1)

lemma changes_kept:
  assumes "store_ok st" "valid st (args ! 0)"
  shows "kept c st (xml_set_element_text xp p args ns)" and "kept c st (xml_set_attribute xp p args ns)"
    and "kept c st (xml_remove_attribute xp p args ns)"
    and "valid st (args ! 1) \<Longrightarrow> kept c st (xml_remove_child xp p args ns)"
    and "valid st (args ! 1) \<Longrightarrow> kept c st (xml_add_child xp p args ns)"
proof -
  note ok = node_ok_changes [OF store_ok_node [OF assms(1)]]
  have change: "store_ok (st[i := n])" "grown st (st[i := n])"
    if "i < length st" "node_ok (length st) n" "xn_tag n = xn_tag (st ! i)" for i n
    using store_ok_change [OF assms(1) that(2)] grown_change [OF that(1,3)] by simp_all
  show "kept c st (xml_set_element_text xp p args ns)"
    unfolding xml_set_element_text_def kept_def
    by (auto simp: change ok split: sum.splits prod.splits sep_value.splits dest!: given_nodes(1) [OF _ assms(2)])
  show "kept c st (xml_set_attribute xp p args ns)"
    unfolding xml_set_attribute_def kept_def
    by (auto simp: change ok split: sum.splits prod.splits sep_value.splits dest!: given_nodes(4) [OF _ assms(2)])
  show "kept c st (xml_remove_attribute xp p args ns)"
    unfolding xml_remove_attribute_def kept_def
    by (auto simp: change ok split: sum.splits prod.splits sep_value.splits dest!: given_nodes(4) [OF _ assms(2)])
  show "kept c st (xml_remove_child xp p args ns)" if "valid st (args ! 1)"
    unfolding xml_remove_child_def kept_def
    by (auto simp: change ok split: sum.splits prod.splits sep_value.splits dest!: given_nodes(5) [OF _ assms(2) that])
  show "kept c st (xml_add_child xp p args ns)" if "valid st (args ! 1)"
    unfolding xml_add_child_def kept_def
    by (auto simp: change ok split: sum.splits prod.splits sep_value.splits dest!: given_nodes(5) [OF _ assms(2) that])
qed

lemma find_kept:
  assumes "store_ok st" "valid st (args ! 0)"
  shows "kept c st (xml_find_all xp p args ns)" "kept c st (xml_find xp p args ns)"
proof -
  have found: "k < length st \<and> xn_tag (st ! k) \<noteq> None"
    if "given_target p b (args ! 0) = Inr (i, spaces)" "k \<in> set (found_nodes st i b parts)" for i spaces k b parts
    using walk_ok [OF assms(1), of "[i]" k] given_nodes(3) [OF that(1) assms(2)] that(2)
    by (auto simp: found_nodes_def split: if_splits)
  have find: "post (find_nodes xp p args) (\<lambda>vs st'. st' = st \<and> list_all (valid st) vs) (\<lambda>x st'. st' = st \<and> x \<noteq> Crash) False st"
    by (auto simp: find_nodes_def list_all_iff split: sum.splits dest: found)
  show "kept c st (xml_find_all xp p args ns)" "kept c st (xml_find xp p args ns)"
    unfolding kept_def xml_find_all_def xml_find_def post_andthen
    by (rule post_mono [OF find]; use assms(1) in \<open>auto simp: no_element_def split: list.splits\<close>)+
qed

lemma qualified_closed:
  assumes "xml_qualified_name xp p v ns = Inr tag" and "\<not> xp_alpha xp 123"
  shows "closed_tag (Some tag)"
  using assms
  by (cases tag) (auto simp: xml_qualified_name_def bind_sum_def xml_name_def valid_xml_name_def closed_tag_def local_name_def clark_name_def
      split: sum.splits sep_value.splits option.splits if_splits)

lemma made_kept:
  assumes "store_ok st" "\<not> xp_alpha xp 123"
  shows "kept c st (xml_create_element xp p args ns)"
    and "(\<And>s t spaces. xp_parse xp s = Some (t, spaces) \<Longrightarrow> tree_ok t \<and> tree_tag t \<noteq> None) \<Longrightarrow>
      kept True st (xml_document_parse xp p args ns)"
proof -
  show "kept c st (xml_create_element xp p args ns)"
    using assms
    by (auto simp: kept_def xml_create_element_def node_ok_def qualified_closed intro!: store_ok_add split: sum.splits)
  assume parser: "\<And>s t spaces. xp_parse xp s = Some (t, spaces) \<Longrightarrow> tree_ok t \<and> tree_tag t \<noteq> None"
  have tree: "tree_ok t \<and> tree_tag t \<noteq> None" if "xml_parse xp p v = Inr (t, spaces)" for v t spaces
    using that by (auto simp: xml_parse_def bind_sum_def split: sum.splits option.splits if_splits dest: parser)
  have load: "post (load_tree t) (\<lambda>i st'. store_ok st' \<and> grown st st' \<and> valid st' (Document i spaces)) X False st"
    if "tree_ok t \<and> tree_tag t \<noteq> None" for t spaces X
    using load_tree_ok(1) [of t st "fst (load_tree t st)" "snd (load_tree t st)"] that assms(1)
    by (cases "load_tree t st") (auto simp: post_def)
  show "kept True st (xml_document_parse xp p args ns)"
    unfolding kept_def xml_document_parse_def
    by (auto split: sum.split dest!: tree intro!: post_mono [OF load])
qed


definition example_store :: xml_store where
  "example_store =
     [\<lparr>xn_tag = Some (U ''a''), xn_attrib = [], xn_text = None, xn_children = [1]\<rparr>,
      \<lparr>xn_tag = Some (U ''b''), xn_attrib = [], xn_text = None, xn_children = []\<rparr>]"


end
